(* ===== verification/Prelude.thy ===== *)
theory Prelude
  imports Main "HOL-Library.List_Lexorder" "HOL-Library.Char_ord"
begin

text \<open>
  Shared vocabulary of the development: results and options in the style of the Rust
  source, 32-bit signed arithmetic, decimal rendering, the standard library's \<open>BTreeMap\<close>
  as a strictly sorted association list, and the map interface (a locale) every component
  that owns such a map relies on.

  A Rust \<open>String\<close> is its UTF-8 byte sequence, a HOL \<open>string\<close> (a \<open>char\<close> is eight bits);
  Rust compares strings bytewise, which is the lexicographic order on \<open>string\<close>.
\<close>

named_theorems result_simps \<open>rewriting of results and options\<close>
named_theorems map_simps \<open>lookups in ordered maps after updates\<close>
named_theorems wf_intros \<open>operations keep their component's invariant\<close>

subsection \<open>Results\<close>

text \<open>\<open>Result<T, E>\<close> is \<open>'e + 'a\<close>: \<open>Inl\<close> is \<open>Err\<close>, \<open>Inr\<close> is \<open>Ok\<close>. The operator
  \<open>?\<close> is \<open>rbind\<close>.\<close>

definition rbind :: "'e + 'a \<Rightarrow> ('a \<Rightarrow> 'e + 'b) \<Rightarrow> 'e + 'b" where
  "rbind r f = (case r of Inl e \<Rightarrow> Inl e | Inr x \<Rightarrow> f x)"

definition ok_or :: "'a option \<Rightarrow> 'e \<Rightarrow> 'e + 'a" where
  "ok_or x e = (case x of None \<Rightarrow> Inl e | Some y \<Rightarrow> Inr y)"

definition map_err :: "('e \<Rightarrow> 'f) \<Rightarrow> 'e + 'a \<Rightarrow> 'f + 'a" where
  "map_err f r = (case r of Inl e \<Rightarrow> Inl (f e) | Inr x \<Rightarrow> Inr x)"

definition result_ok :: "'e + 'a \<Rightarrow> 'a option" where
  "result_ok r = (case r of Inl _ \<Rightarrow> None | Inr x \<Rightarrow> Some x)"

definition is_ok :: "'e + 'a \<Rightarrow> bool" where
  "is_ok r = (case r of Inl _ \<Rightarrow> False | Inr _ \<Rightarrow> True)"

definition option_or :: "'a option \<Rightarrow> 'a option \<Rightarrow> 'a option" where
  "option_or x y = (case x of None \<Rightarrow> y | Some _ \<Rightarrow> x)"

definition unwrap_or :: "'a option \<Rightarrow> 'a \<Rightarrow> 'a" where
  "unwrap_or x d = (case x of None \<Rightarrow> d | Some y \<Rightarrow> y)"

lemma rbind_simps [simp, result_simps]:
  "rbind (Inl e) f = Inl e"
  "rbind (Inr x) f = f x"
  by (simp_all add: rbind_def)

lemma rbind_Inr_iff [result_simps]: "rbind r f = Inr y \<longleftrightarrow> (\<exists>x. r = Inr x \<and> f x = Inr y)"
  by (cases r) auto

lemma rbind_Inl_iff [result_simps]:
  "rbind r f = Inl e \<longleftrightarrow> r = Inl e \<or> (\<exists>x. r = Inr x \<and> f x = Inl e)"
  by (cases r) auto

lemma rbind_cong [fundef_cong]:
  "r = r' \<Longrightarrow> (\<And>x. r' = Inr x \<Longrightarrow> f x = g x) \<Longrightarrow> rbind r f = rbind r' g"
  by (cases r') auto

lemma ok_or_simps [simp, result_simps]:
  "ok_or None e = Inl e"
  "ok_or (Some x) e = Inr x"
  by (simp_all add: ok_or_def)

lemma ok_or_Inr_iff [result_simps]: "ok_or x e = Inr y \<longleftrightarrow> x = Some y"
  by (cases x) auto

lemma ok_or_Inl_iff [result_simps]: "ok_or x e = Inl e' \<longleftrightarrow> x = None \<and> e = e'"
  by (cases x) auto

lemma map_err_simps [simp, result_simps]:
  "map_err f (Inl e) = Inl (f e)"
  "map_err f (Inr x) = Inr x"
  by (simp_all add: map_err_def)

lemma map_err_Inr_iff [simp, result_simps]: "map_err f r = Inr x \<longleftrightarrow> r = Inr x"
  by (cases r) auto

lemma map_err_Inl_iff [result_simps]: "map_err f r = Inl e \<longleftrightarrow> (\<exists>e'. r = Inl e' \<and> e = f e')"
  by (cases r) auto

lemma result_ok_simps [simp, result_simps]:
  "result_ok (Inl e) = None"
  "result_ok (Inr x) = Some x"
  by (simp_all add: result_ok_def)

lemma is_ok_simps [simp, result_simps]:
  "\<not> is_ok (Inl e)"
  "is_ok (Inr x)"
  by (simp_all add: is_ok_def)

lemma is_ok_iff: "is_ok r \<longleftrightarrow> (\<exists>x. r = Inr x)"
  by (cases r) auto

lemma option_or_simps [simp, result_simps]:
  "option_or None y = y"
  "option_or (Some x) y = Some x"
  by (simp_all add: option_or_def)

lemma option_or_None [simp, result_simps]: "option_or x None = x"
  by (cases x) auto

lemma unwrap_or_simps [simp, result_simps]:
  "unwrap_or None d = d"
  "unwrap_or (Some x) d = x"
  by (simp_all add: unwrap_or_def)

subsection \<open>32-bit signed integers\<close>

text \<open>An \<open>i32\<close> is an \<open>int\<close> kept in range; release builds wrap around on \<open>+\<close> (no profile
  of the workspace turns overflow checks on), \<open>saturating_add\<close> clamps.\<close>

type_synonym i32 = int

abbreviation i32_max :: int where "i32_max \<equiv> 2147483647"
abbreviation i32_min :: int where "i32_min \<equiv> - 2147483648"

definition i32_range :: "int \<Rightarrow> bool" where
  "i32_range x \<longleftrightarrow> i32_min \<le> x \<and> x \<le> i32_max"

definition i32_wrap :: "int \<Rightarrow> i32" where
  "i32_wrap x = (x + 2147483648) mod 4294967296 - 2147483648"

definition i32_add :: "i32 \<Rightarrow> i32 \<Rightarrow> i32" where
  "i32_add a b = i32_wrap (a + b)"

definition i32_saturating_add :: "i32 \<Rightarrow> i32 \<Rightarrow> i32" where
  "i32_saturating_add a b = max i32_min (min i32_max (a + b))"

lemma i32_range_wrap [simp]: "i32_range (i32_wrap x)"
proof -
  have "0 \<le> (x + 2147483648) mod 4294967296" "(x + 2147483648) mod 4294967296 < 4294967296"
    by simp_all
  then show ?thesis unfolding i32_range_def i32_wrap_def by linarith
qed

lemma i32_wrap_id: "i32_range x \<Longrightarrow> i32_wrap x = x"
  by (auto simp: i32_wrap_def i32_range_def)

lemma i32_add_exact: "i32_range (a + b) \<Longrightarrow> i32_add a b = a + b"
  by (simp add: i32_add_def i32_wrap_id)

lemma i32_succ: "i32_range a \<Longrightarrow> a < i32_max \<Longrightarrow> i32_add a 1 = a + 1"
  by (rule i32_add_exact) (auto simp: i32_range_def)

lemma i32_add_overflow: "i32_add i32_max 1 = i32_min"
  by (simp add: i32_add_def i32_wrap_def)

lemma i32_saturating_succ: "i32_range a \<Longrightarrow> i32_saturating_add a 1 = (if a = i32_max then a else a + 1)"
  by (auto simp: i32_saturating_add_def i32_range_def)

lemma i32_saturating_range: "i32_range (i32_saturating_add a b)"
  by (auto simp: i32_saturating_add_def i32_range_def)

subsection \<open>Decimal rendering\<close>

definition digit_char :: "nat \<Rightarrow> char" where
  "digit_char d = char_of (48 + d)"

fun show_nat :: "nat \<Rightarrow> string" where
  "show_nat n = (if n < 10 then [digit_char n] else show_nat (n div 10) @ [digit_char (n mod 10)])"

declare show_nat.simps [simp del]

definition show_int :: "int \<Rightarrow> string" where
  "show_int i = (if i < 0 then CHR ''-'' # show_nat (nat (- i)) else show_nat (nat i))"

definition is_digit :: "char \<Rightarrow> bool" where
  "is_digit c \<longleftrightarrow> 48 \<le> (of_char c :: nat) \<and> (of_char c :: nat) \<le> 57"

definition digit_value :: "char \<Rightarrow> nat" where
  "digit_value c = of_char c - 48"

fun digits_value :: "nat \<Rightarrow> string \<Rightarrow> nat" where
  "digits_value acc [] = acc"
| "digits_value acc (c # cs) = digits_value (10 * acc + digit_value c) cs"

lemma digits_value_append:
  "digits_value acc (xs @ ys) = digits_value (digits_value acc xs) ys"
  by (induction xs arbitrary: acc) auto

lemma digit_char_value: "d < 10 \<Longrightarrow> digit_value (digit_char d) = d"
  by (simp add: digit_value_def digit_char_def)

lemma digit_char_digit: "d < 10 \<Longrightarrow> is_digit (digit_char d)"
  by (simp add: is_digit_def digit_char_def)

lemma show_nat_digits: "list_all is_digit (show_nat n)"
proof (induction n rule: show_nat.induct)
  case (1 n)
  then show ?case
    by (subst show_nat.simps) (auto simp: digit_char_digit)
qed

lemma show_nat_nonempty: "show_nat n \<noteq> []"
  by (subst show_nat.simps) simp

lemma digits_value_show_nat: "digits_value 0 (show_nat n) = n"
proof (induction n rule: show_nat.induct)
  case (1 n)
  then show ?case
    by (subst show_nat.simps) (auto simp: digits_value_append digit_char_value)
qed

lemma show_nat_inject [simp]: "show_nat m = show_nat n \<longleftrightarrow> m = n"
  by (metis digits_value_show_nat)

lemma minus_not_digit [simp]: "\<not> is_digit (CHR ''-'')"
  by (simp add: is_digit_def)

lemma show_nat_hd_not_minus: "show_nat n \<noteq> CHR ''-'' # cs"
  using show_nat_digits [of n] by (auto simp: list_all_iff)

lemma show_int_inject [simp]: "show_int i = show_int j \<longleftrightarrow> i = j"
  using show_nat_hd_not_minus show_nat_hd_not_minus [symmetric]
  by (auto simp: show_int_def split: if_splits)

lemma show_int_chars: "c \<in> set (show_int i) \<Longrightarrow> c = CHR ''-'' \<or> is_digit c"
  using show_nat_digits by (auto simp: show_int_def list_all_iff split: if_splits)

subsection \<open>\<open>BTreeMap\<close>\<close>

text \<open>A \<open>BTreeMap<K, V>\<close> is the list of its entries in ascending key order, which is the
  order its iterators produce. Lookup is \<open>map_of\<close>.\<close>

type_synonym ('k, 'v) btree_map = "('k \<times> 'v) list"

abbreviation btree_get :: "('k, 'v) btree_map \<Rightarrow> 'k \<Rightarrow> 'v option" where
  "btree_get \<equiv> map_of"

fun btree_insert :: "'k::linorder \<Rightarrow> 'v \<Rightarrow> ('k, 'v) btree_map \<Rightarrow> ('k, 'v) btree_map" where
  "btree_insert k v [] = [(k, v)]"
| "btree_insert k v ((k', v') # m) =
     (if k < k' then (k, v) # (k', v') # m
      else if k = k' then (k, v) # m
      else (k', v') # btree_insert k v m)"

definition btree_remove :: "'k \<Rightarrow> ('k, 'v) btree_map \<Rightarrow> ('k, 'v) btree_map" where
  "btree_remove k m = filter (\<lambda>p. fst p \<noteq> k) m"

definition btree_keys :: "('k, 'v) btree_map \<Rightarrow> 'k list" where
  "btree_keys m = map fst m"

definition btree_values :: "('k, 'v) btree_map \<Rightarrow> 'v list" where
  "btree_values m = map snd m"

definition btree_ok :: "('k::linorder, 'v) btree_map \<Rightarrow> bool" where
  "btree_ok m \<longleftrightarrow> sorted_wrt (<) (map fst m)"

definition btree_of_list :: "('k::linorder \<times> 'v) list \<Rightarrow> ('k, 'v) btree_map" where
  "btree_of_list ps = foldl (\<lambda>m p. btree_insert (fst p) (snd p) m) [] ps"

text \<open>The interface the components rely on: lookups after updates, the keys an iteration
  visits, and the order they come in.\<close>

locale ordered_map =
  fixes empty :: 'm
    and insert :: "'k::linorder \<Rightarrow> 'v \<Rightarrow> 'm \<Rightarrow> 'm"
    and remove :: "'k \<Rightarrow> 'm \<Rightarrow> 'm"
    and get :: "'m \<Rightarrow> 'k \<Rightarrow> 'v option"
    and keys :: "'m \<Rightarrow> 'k list"
    and ok :: "'m \<Rightarrow> bool"
  assumes get_empty: "get empty k = None"
    and get_insert: "get (insert k v m) = (get m)(k \<mapsto> v)"
    and get_remove: "get (remove k m) = (get m)(k := None)"
    and set_keys: "set (keys m) = dom (get m)"
    and ok_empty: "ok empty"
    and ok_insert: "ok m \<Longrightarrow> ok (insert k v m)"
    and ok_remove: "ok m \<Longrightarrow> ok (remove k m)"
    and ok_sorted: "ok m \<Longrightarrow> sorted_wrt (<) (keys m)"
    and ok_ext: "ok m \<Longrightarrow> ok m' \<Longrightarrow> get m = get m' \<Longrightarrow> m = m'"
begin

lemma insert_same: "ok m \<Longrightarrow> get m k = Some v \<Longrightarrow> insert k v m = m"
  by (rule ok_ext) (auto simp: ok_insert get_insert)

lemma insert_twice: "ok m \<Longrightarrow> insert k v (insert k w m) = insert k v m"
  by (rule ok_ext) (auto simp: ok_insert get_insert)

lemma insert_commute:
  "ok m \<Longrightarrow> k \<noteq> k' \<Longrightarrow> insert k v (insert k' v' m) = insert k' v' (insert k v m)"
  by (rule ok_ext) (auto simp: ok_insert get_insert fun_eq_iff)

lemma remove_insert: "ok m \<Longrightarrow> get m k = None \<Longrightarrow> remove k (insert k v m) = m"
  by (rule ok_ext) (auto simp: ok_insert ok_remove get_insert get_remove fun_eq_iff)

lemma remove_absent: "ok m \<Longrightarrow> get m k = None \<Longrightarrow> remove k m = m"
  by (rule ok_ext) (auto simp: ok_remove get_remove fun_eq_iff)

lemma keys_determined:
  assumes "ok m" "ok m'" "dom (get m) = dom (get m')"
  shows "keys m = keys m'"
proof -
  have "sorted_wrt (<) (keys m)" "sorted_wrt (<) (keys m')" "set (keys m) = set (keys m')"
    using assms by (simp_all add: ok_sorted set_keys)
  then show ?thesis
    by (simp add: strict_sorted_iff sorted_distinct_set_unique)
qed

end

lemma btree_get_insert: "map_of (btree_insert k v m) = (map_of m)(k \<mapsto> v)"
  by (induction k v m rule: btree_insert.induct) auto

lemma btree_get_remove: "map_of (btree_remove k m) = (map_of m)(k := None)"
  unfolding btree_remove_def by (induction m) auto

lemma btree_insert_keys: "set (map fst (btree_insert k v m)) = Set.insert k (set (map fst m))"
  by (induction k v m rule: btree_insert.induct) auto

lemma btree_ok_insert: "btree_ok m \<Longrightarrow> btree_ok (btree_insert k v m)"
proof (induction k v m rule: btree_insert.induct)
  case (2 k v k' v' m)
  then show ?case
    using btree_insert_keys [of k v m] by (auto simp: btree_ok_def)
qed (simp add: btree_ok_def)

lemma btree_ok_remove: "btree_ok m \<Longrightarrow> btree_ok (btree_remove k m)"
  unfolding btree_ok_def btree_remove_def
  by (induction m) (auto split: if_splits)

lemma btree_ok_ext:
  assumes "btree_ok m" "btree_ok m'" "map_of m = map_of m'"
  shows "m = m'"
proof (rule map_sorted_distinct_set_unique [of fst])
  have "dom (map_of m) = dom (map_of m')" by (simp add: assms)
  then have ks: "set (map fst m) = set (map fst m')"
    by (simp add: dom_map_of_conv_image_fst)
  show "sorted (map fst m)" "distinct (map fst m)" "sorted (map fst m')" "distinct (map fst m')"
    using assms by (auto simp: btree_ok_def strict_sorted_iff)
  then show "set m = set m'"
    using assms(3) by (metis map_of_eqI map_of_inject_set)
  then show "inj_on fst (set m \<union> set m')"
    using \<open>distinct (map fst m)\<close> by (simp add: distinct_map)
qed

interpretation bt: ordered_map "[]" btree_insert btree_remove map_of btree_keys btree_ok
proof unfold_locales
  show "map_of [] k = None" for k :: 'a by simp
  show "map_of (btree_insert k v m) = (map_of m)(k \<mapsto> v)" for k :: 'a and v :: 'b and m
    by (rule btree_get_insert)
  show "map_of (btree_remove k m) = (map_of m)(k := None)" for k :: 'a and m :: "('a \<times> 'b) list"
    by (rule btree_get_remove)
  show "set (btree_keys m) = dom (map_of m)" for m :: "('a \<times> 'b) list"
    by (simp add: btree_keys_def dom_map_of_conv_image_fst)
  show "btree_ok ([] :: ('a \<times> 'b) list)" by (simp add: btree_ok_def)
  show "btree_ok (btree_insert k v m)" if "btree_ok m" for k :: 'a and v :: 'b and m
    using that by (rule btree_ok_insert)
  show "btree_ok (btree_remove k m)" if "btree_ok m" for k :: 'a and m :: "('a \<times> 'b) list"
    using that by (rule btree_ok_remove)
  show "sorted_wrt (<) (btree_keys m)" if "btree_ok m" for m :: "('a \<times> 'b) list"
    using that by (simp add: btree_ok_def btree_keys_def)
  show "m = m'" if "btree_ok m" "btree_ok m'" "map_of m = map_of m'" for m m' :: "('a \<times> 'b) list"
    using that by (rule btree_ok_ext)
qed

declare bt.get_insert [simp, map_simps] bt.get_remove [simp, map_simps]
declare bt.ok_empty [simp, wf_intros] bt.ok_insert [simp, wf_intros] bt.ok_remove [simp, wf_intros]

lemma btree_ok_distinct: "btree_ok m \<Longrightarrow> distinct (map fst m)"
  by (simp add: btree_ok_def strict_sorted_iff)

lemma btree_in_iff: "btree_ok m \<Longrightarrow> (k, v) \<in> set m \<longleftrightarrow> map_of m k = Some v"
  by (metis btree_ok_distinct map_of_SomeD map_of_is_SomeI)

lemma btree_in_insert: "btree_ok m \<Longrightarrow>
  (k', v') \<in> set (btree_insert k v m) \<longleftrightarrow> (if k' = k then v' = v else (k', v') \<in> set m)"
  by (auto simp: btree_in_iff)

lemma btree_in_remove: "btree_ok m \<Longrightarrow>
  (k', v') \<in> set (btree_remove k m) \<longleftrightarrow> k' \<noteq> k \<and> (k', v') \<in> set m"
  by (auto simp: btree_remove_def)

subsection \<open>Iterators\<close>

text \<open>\<open>Iterator::find\<close> and \<open>rfind\<close>: the first and the last element that satisfies a
  predicate.\<close>

definition rfind :: "('a \<Rightarrow> bool) \<Rightarrow> 'a list \<Rightarrow> 'a option" where
  "rfind P xs = find P (rev xs)"

lemma find_SomeD: "find P xs = Some x \<Longrightarrow> x \<in> set xs \<and> P x"
  by (induction xs) (auto split: if_splits)

lemma find_None_iff': "find P xs = None \<longleftrightarrow> (\<forall>x\<in>set xs. \<not> P x)"
  by (auto simp: find_None_iff)

lemma find_map_upd:
  "(\<And>x. P (f x) = P x) \<Longrightarrow> find P (map f xs) = map_option f (find P xs)"
  by (induction xs) auto

lemma find_append: "find P (xs @ ys) = option_or (find P xs) (find P ys)"
  by (induction xs) auto

lemma find_filter: "find P (filter Q xs) = find (\<lambda>x. Q x \<and> P x) xs"
  by (induction xs) auto

lemma find_unique:
  "distinct (map f xs) \<Longrightarrow> x \<in> set xs \<Longrightarrow> f x = k \<Longrightarrow> find (\<lambda>y. f y = k) xs = Some x"
  by (induction xs) (auto simp: image_iff)

lemma find_same_set:
  assumes "distinct (map f xs)" "distinct (map f ys)" "set xs = set ys"
  shows "find (\<lambda>x. f x = k) xs = find (\<lambda>x. f x = k) ys"
proof (cases "find (\<lambda>x. f x = k) xs")
  case None
  then have "find (\<lambda>x. f x = k) ys = None"
    using assms(3) by (simp add: find_None_iff')
  with None show ?thesis by simp
next
  case (Some x)
  then have "x \<in> set ys" "f x = k" using find_SomeD assms(3) by fastforce+
  then show ?thesis using Some find_unique [OF assms(2)] by simp
qed

lemma distinct_map_sort_key [simp]: "distinct (map f (sort_key f xs)) \<longleftrightarrow> distinct (map f xs)"
  by (simp add: distinct_map)

lemma rfind_SomeD: "rfind P xs = Some x \<Longrightarrow> x \<in> set xs \<and> P x"
  unfolding rfind_def by (metis find_SomeD set_rev)

lemma rfind_None_iff: "rfind P xs = None \<longleftrightarrow> (\<forall>x\<in>set xs. \<not> P x)"
  by (simp add: rfind_def find_None_iff')

end
