(* ===== verification/Ids.thy ===== *)
theory Ids
  imports Prelude
begin

text \<open>
  The registry's two identifiers (\<^verbatim>\<open>ids.rs\<close>): a global schema id and a per-subject version,
  both newtypes over \<open>i32\<close> with the order of the wrapped number, and the validated positive
  integer of \<^verbatim>\<open>config_value.rs\<close> with the standard library's \<open>i32\<close> parser it rests on.
\<close>

datatype schema_id = SchemaId (id_raw: i32)

datatype schema_version = SchemaVersion (version_raw: i32)

instantiation schema_id :: linorder
begin

definition less_eq_schema_id :: "schema_id \<Rightarrow> schema_id \<Rightarrow> bool" where
  "less_eq_schema_id a b \<longleftrightarrow> id_raw a \<le> id_raw b"

definition less_schema_id :: "schema_id \<Rightarrow> schema_id \<Rightarrow> bool" where
  "less_schema_id a b \<longleftrightarrow> id_raw a < id_raw b"

instance
  by standard (auto simp: less_eq_schema_id_def less_schema_id_def schema_id.expand)

end

instantiation schema_version :: linorder
begin

definition less_eq_schema_version :: "schema_version \<Rightarrow> schema_version \<Rightarrow> bool" where
  "less_eq_schema_version a b \<longleftrightarrow> version_raw a \<le> version_raw b"

definition less_schema_version :: "schema_version \<Rightarrow> schema_version \<Rightarrow> bool" where
  "less_schema_version a b \<longleftrightarrow> version_raw a < version_raw b"

instance
  by standard (auto simp: less_eq_schema_version_def less_schema_version_def schema_version.expand)

end

lemma schema_id_le [simp]: "SchemaId a \<le> SchemaId b \<longleftrightarrow> a \<le> b"
  by (simp add: less_eq_schema_id_def)

lemma schema_id_less [simp]: "SchemaId a < SchemaId b \<longleftrightarrow> a < b"
  by (simp add: less_schema_id_def)

lemma schema_version_le [simp]: "SchemaVersion a \<le> SchemaVersion b \<longleftrightarrow> a \<le> b"
  by (simp add: less_eq_schema_version_def)

lemma schema_version_less [simp]: "SchemaVersion a < SchemaVersion b \<longleftrightarrow> a < b"
  by (simp add: less_schema_version_def)

lemmas id_order_defs = less_eq_schema_id_def less_schema_id_def
lemmas version_order_defs = less_eq_schema_version_def less_schema_version_def

definition default_schema_id :: schema_id where
  "default_schema_id = SchemaId 0"

subsection \<open>Parsing an \<open>i32\<close>\<close>

text \<open>\<open>str::parse::<i32>\<close>: an optional sign, then at least one decimal digit and nothing else,
  the value in range.\<close>

definition parse_digits :: "string \<Rightarrow> nat option" where
  "parse_digits s = (if s \<noteq> [] \<and> list_all is_digit s then Some (digits_value 0 s) else None)"

definition in_i32 :: "int \<Rightarrow> i32 option" where
  "in_i32 i = (if i32_range i then Some i else None)"

fun parse_i32 :: "string \<Rightarrow> i32 option" where
  "parse_i32 [] = None"
| "parse_i32 (c # cs) =
     (if c = CHR ''-'' then Option.bind (parse_digits cs) (\<lambda>n. in_i32 (- int n))
      else if c = CHR ''+'' then Option.bind (parse_digits cs) (\<lambda>n. in_i32 (int n))
      else Option.bind (parse_digits (c # cs)) (\<lambda>n. in_i32 (int n)))"

lemma parse_digits_show_nat: "parse_digits (show_nat n) = Some n"
  by (simp add: parse_digits_def show_nat_digits show_nat_nonempty digits_value_show_nat)

lemma parse_i32_show_nat: "parse_i32 (show_nat n) = in_i32 (int n)"
proof (cases "show_nat n")
  case Nil
  then show ?thesis using show_nat_nonempty [of n] by simp
next
  case (Cons c cs)
  have "is_digit c" using show_nat_digits [of n] Cons by simp
  then have "c \<noteq> CHR ''-''" "c \<noteq> CHR ''+''" by (auto simp: is_digit_def)
  then show ?thesis
    using Cons parse_digits_show_nat [of n] by simp
qed

lemma parse_i32_show_int: "parse_i32 (show_int i) = in_i32 i"
  by (simp add: show_int_def parse_i32_show_nat parse_digits_show_nat)

lemma parse_i32_range: "parse_i32 s = Some i \<Longrightarrow> i32_range i"
  by (cases s) (auto simp: in_i32_def split: if_splits bind_splits)

subsection \<open>Positive integers\<close>

datatype positive_i32 = PositiveI32 (into_value: i32)

definition positive_new :: "i32 \<Rightarrow> positive_i32 option" where
  "positive_new v = (if 0 < v then Some (PositiveI32 v) else None)"

definition positive_from_str :: "string \<Rightarrow> positive_i32 option" where
  "positive_from_str s = Option.bind (parse_i32 s) positive_new"

end
