(* ===== verification/Json_Value.thy ===== *)
theory Json_Value
  imports Prelude "HOL-Library.Word"
begin

text \<open>
  JSON documents as \<open>serde_json\<close> hands them to the registry, the accessors of its
  \<open>Value\<close> type, and the field decoders that the derived \<open>Deserialize\<close> instances are made
  of. The text syntax itself (reading and printing characters) belongs to \<open>serde_json\<close> and
  enters the model as the operations of a \<open>codec\<close>.

  An object is the list of its members. A document that was just read keeps its members in
  text order, duplicates included; a \<open>Value\<close> keeps a \<open>BTreeMap\<close>, so its members are
  strictly sorted by name (\<open>json_value\<close> makes one from a document).
\<close>

text \<open>A number is a non-negative integer, a negative integer or a 64-bit float (its bit
  pattern).\<close>

datatype json_number = PosInt nat | NegInt int | Float64 "64 word"

datatype json =
    JNull
  | JBool bool
  | JNum json_number
  | JStr string
  | JArr "json list"
  | JObj "(string \<times> json) list"

subsection \<open>Accessors\<close>

definition json_get :: "json \<Rightarrow> string \<Rightarrow> json option" where
  "json_get v k = (case v of JObj kvs \<Rightarrow> map_of kvs k | _ \<Rightarrow> None)"

definition as_str :: "json \<Rightarrow> string option" where
  "as_str v = (case v of JStr s \<Rightarrow> Some s | _ \<Rightarrow> None)"

definition as_array :: "json \<Rightarrow> json list option" where
  "as_array v = (case v of JArr xs \<Rightarrow> Some xs | _ \<Rightarrow> None)"

definition as_object :: "json \<Rightarrow> (string \<times> json) list option" where
  "as_object v = (case v of JObj kvs \<Rightarrow> Some kvs | _ \<Rightarrow> None)"

definition as_bool :: "json \<Rightarrow> bool option" where
  "as_bool v = (case v of JBool b \<Rightarrow> Some b | _ \<Rightarrow> None)"

definition is_object :: "json \<Rightarrow> bool" where
  "is_object v \<longleftrightarrow> as_object v \<noteq> None"

definition is_array :: "json \<Rightarrow> bool" where
  "is_array v \<longleftrightarrow> as_array v \<noteq> None"

definition is_boolean :: "json \<Rightarrow> bool" where
  "is_boolean v \<longleftrightarrow> as_bool v \<noteq> None"

lemmas json_access = json_get_def as_str_def as_array_def as_object_def as_bool_def
  is_object_def is_array_def is_boolean_def

subsection \<open>From a document to a \<open>Value\<close>\<close>

fun json_value :: "json \<Rightarrow> json" where
  "json_value (JArr xs) = JArr (map json_value xs)"
| "json_value (JObj kvs) = JObj (btree_of_list (map (\<lambda>p. (fst p, json_value (snd p))) kvs))"
| "json_value v = v"

fun json_sorted :: "json \<Rightarrow> bool" where
  "json_sorted (JArr xs) = list_all json_sorted xs"
| "json_sorted (JObj kvs) = (btree_ok kvs \<and> list_all (\<lambda>p. json_sorted (snd p)) kvs)"
| "json_sorted v = True"

fun json_integral :: "json \<Rightarrow> bool" where
  "json_integral (JArr xs) = list_all json_integral xs"
| "json_integral (JObj kvs) = list_all (\<lambda>p. json_integral (snd p)) kvs"
| "json_integral (JNum (Float64 _)) = False"
| "json_integral v = True"

lemma foldl_btree_ok: "btree_ok m \<Longrightarrow> btree_ok (foldl (\<lambda>m p. btree_insert (fst p) (snd p) m) m ps)"
  by (induction ps arbitrary: m) auto

lemma btree_ok_of_list: "btree_ok (btree_of_list ps)"
  by (simp add: btree_of_list_def foldl_btree_ok)

lemma foldl_btree_get:
  "map_of (foldl (\<lambda>m p. btree_insert (fst p) (snd p) m) m ps) = map_of m ++ map_of (rev ps)"
proof (induction ps arbitrary: m)
  case (Cons p ps)
  then show ?case by (simp add: map_add_def fun_eq_iff split: option.splits)
qed simp

lemma map_of_btree_of_list: "map_of (btree_of_list ps) = map_of (rev ps)"
  by (simp add: btree_of_list_def foldl_btree_get)

lemma map_of_rev: "distinct (map fst ps) \<Longrightarrow> map_of (rev ps) = map_of ps"
  by (simp add: map_of_inject_set rev_map [symmetric])

lemma btree_of_list_id: "btree_ok m \<Longrightarrow> btree_of_list m = m"
  by (rule bt.ok_ext) (simp_all add: btree_ok_of_list map_of_btree_of_list map_of_rev btree_ok_distinct)

lemma set_btree_of_list: "set (btree_of_list ps) \<subseteq> set ps"
proof
  fix p assume "p \<in> set (btree_of_list ps)"
  then have "map_of (btree_of_list ps) (fst p) = Some (snd p)"
    by (metis btree_in_iff btree_ok_of_list prod.collapse)
  then have "map_of (rev ps) (fst p) = Some (snd p)"
    by (simp add: map_of_btree_of_list)
  then show "p \<in> set ps"
    by (metis map_of_SomeD prod.collapse set_rev)
qed

lemma json_value_sorted: "json_sorted (json_value v)"
proof (induction v rule: json_value.induct)
  case (2 kvs)
  then show ?case
    using set_btree_of_list by (fastforce simp: list_all_iff btree_ok_of_list)
qed (auto simp: list_all_iff)

lemma json_value_id: "json_sorted v \<Longrightarrow> json_value v = v"
proof (induction v rule: json_value.induct)
  case (2 kvs)
  then have "map (\<lambda>p. (fst p, json_value (snd p))) kvs = kvs"
    by (auto simp: list_all_iff intro: map_idI)
  with 2 show ?case by (simp add: btree_of_list_id)
qed (auto simp: list_all_iff intro: map_idI)

subsection \<open>The serde codec\<close>

text \<open>Reading and printing bytes of type \<open>'b\<close>: \<open>serde_json::from_slice\<close> on a document, and
  \<open>serde_json::to_vec\<close>; \<open>empty_slice\<close> is the byte string of length 0. What the registry relies on is that a printed document reads back.
  Floating-point members are exempt, since \<open>serde_json\<close> promises a bit-exact round trip for
  them only with a feature the workspace does not enable.\<close>

record 'b codec =
  from_slice :: "'b \<Rightarrow> json option"
  to_vec :: "json \<Rightarrow> 'b"
  empty_slice :: 'b

definition codec_roundtrip :: "'b codec \<Rightarrow> bool" where
  "codec_roundtrip C \<longleftrightarrow> (\<forall>v. json_integral v \<longrightarrow> from_slice C (to_vec C v) = Some v)"

definition from_slice_value :: "'b codec \<Rightarrow> 'b \<Rightarrow> json option" where
  "from_slice_value C b = map_option json_value (from_slice C b)"

subsection \<open>Derived decoders\<close>

text \<open>The members of a document with a given name.\<close>

definition occurrences :: "(string \<times> json) list \<Rightarrow> string \<Rightarrow> json list" where
  "occurrences kvs k = map snd (filter (\<lambda>p. fst p = k) kvs)"

text \<open>A field of a derived \<open>Deserialize\<close>: a missing field takes its default (if it has one),
  a repeated field is an error.\<close>

definition de_field :: "(json \<Rightarrow> 'a option) \<Rightarrow> 'a option \<Rightarrow> (string \<times> json) list \<Rightarrow> string \<Rightarrow> 'a option" where
  "de_field de dflt kvs k = (case occurrences kvs k of [] \<Rightarrow> dflt | [v] \<Rightarrow> de v | _ \<Rightarrow> None)"

definition de_string :: "json \<Rightarrow> string option" where
  "de_string = as_str"

definition de_bool :: "json \<Rightarrow> bool option" where
  "de_bool = as_bool"

definition number_int :: "json_number \<Rightarrow> int option" where
  "number_int n = (case n of PosInt k \<Rightarrow> Some (int k) | NegInt i \<Rightarrow> Some i | Float64 _ \<Rightarrow> None)"

definition de_ranged :: "int \<Rightarrow> int \<Rightarrow> json \<Rightarrow> int option" where
  "de_ranged lo hi v = (case v of
      JNum n \<Rightarrow> Option.bind (number_int n) (\<lambda>i. if lo \<le> i \<and> i \<le> hi then Some i else None)
    | _ \<Rightarrow> None)"

definition de_i32 :: "json \<Rightarrow> i32 option" where
  "de_i32 = de_ranged i32_min i32_max"

definition de_u8 :: "json \<Rightarrow> int option" where
  "de_u8 = de_ranged 0 255"

definition de_option :: "(json \<Rightarrow> 'a option) \<Rightarrow> json \<Rightarrow> 'a option option" where
  "de_option de v = (case v of JNull \<Rightarrow> Some None | _ \<Rightarrow> map_option Some (de v))"

fun de_list :: "(json \<Rightarrow> 'a option) \<Rightarrow> json list \<Rightarrow> 'a list option" where
  "de_list de [] = Some []"
| "de_list de (v # vs) =
     Option.bind (de v) (\<lambda>x. Option.bind (de_list de vs) (\<lambda>xs. Some (x # xs)))"

definition de_vec :: "(json \<Rightarrow> 'a option) \<Rightarrow> json \<Rightarrow> 'a list option" where
  "de_vec de v = (case v of JArr vs \<Rightarrow> de_list de vs | _ \<Rightarrow> None)"

text \<open>\<open>serde_json\<close> reads a struct from an object, or from an array that holds its fields in
  declaration order; \<open>struct_members\<close> names the array's elements. An array of another length
  is refused.\<close>

definition struct_members :: "string list \<Rightarrow> json \<Rightarrow> (string \<times> json) list option" where
  "struct_members names v = (case v of
      JObj kvs \<Rightarrow> Some kvs
    | JArr vs \<Rightarrow> (if length vs = length names then Some (zip names vs) else None)
    | _ \<Rightarrow> None)"

definition json_int :: "int \<Rightarrow> json" where
  "json_int i = JNum (if 0 \<le> i then PosInt (nat i) else NegInt i)"

lemma json_integral_int [simp]: "json_integral (json_int i)"
  by (simp add: json_int_def)

lemma de_i32_json_int [simp]: "i32_range i \<Longrightarrow> de_i32 (json_int i) = Some i"
  by (auto simp: de_i32_def de_ranged_def json_int_def number_int_def i32_range_def)

lemma de_string_JStr [simp]: "de_string (JStr s) = Some s"
  by (simp add: de_string_def as_str_def)

lemma de_bool_JBool [simp]: "de_bool (JBool b) = Some b"
  by (simp add: de_bool_def as_bool_def)

lemma de_u8_json_int [simp]: "0 \<le> i \<Longrightarrow> i \<le> 255 \<Longrightarrow> de_u8 (json_int i) = Some i"
  by (auto simp: de_u8_def de_ranged_def json_int_def number_int_def)

lemma de_option_simps [simp]:
  "de_option de JNull = Some None"
  "v \<noteq> JNull \<Longrightarrow> de_option de v = map_option Some (de v)"
  by (cases v; simp add: de_option_def)+

lemma de_list_map:
  "(\<And>x. x \<in> set xs \<Longrightarrow> de (ser x) = Some x) \<Longrightarrow> de_list de (map ser xs) = Some xs"
  by (induction xs) auto

lemma occurrences_simps [simp]:
  "occurrences [] k = []"
  "occurrences ((k', v) # kvs) k = (if k' = k then v # occurrences kvs k else occurrences kvs k)"
  "occurrences (xs @ ys) k = occurrences xs k @ occurrences ys k"
  by (simp_all add: occurrences_def)

lemma occurrences_notin: "k \<notin> fst ` set kvs \<Longrightarrow> occurrences kvs k = []"
  by (induction kvs) auto

end
