(* ===== verification/Schema_Records.thy ===== *)
theory Schema_Records
  imports Ids Json_Value
begin

text \<open>
  The records of the \<open>_schemas\<close> topic (\<^verbatim>\<open>kafkastore/record.rs\<close>) and the schema types of
  \<^verbatim>\<open>format/mod.rs\<close> they carry: the key and value structs, their derived JSON encodings in
  declaration order (the key bytes drive compaction), the \<open>encode_*\<close> builders and
  \<open>SchemaRecord::decode\<close>. Keys and values are bytes of an arbitrary type \<open>'b\<close>, read and
  written through a \<open>codec\<close>.
\<close>

subsection \<open>Schema types\<close>

datatype schema_type = Avro | Protobuf | Json

fun wire_name :: "schema_type \<Rightarrow> string option" where
  "wire_name Avro = None"
| "wire_name Protobuf = Some ''PROTOBUF''"
| "wire_name Json = Some ''JSON''"

definition from_wire :: "string option \<Rightarrow> schema_type" where
  "from_wire s = (case s of
      None \<Rightarrow> Avro
    | Some w \<Rightarrow> (if w = '''' \<or> w = ''AVRO'' then Avro
                else if w = ''PROTOBUF'' then Protobuf
                else Json))"

lemma from_wire_wire_name [simp]: "from_wire (wire_name ty) = ty"
  by (cases ty) (simp_all add: from_wire_def)

subsection \<open>Keys and values\<close>

record schema_key =
  sk_keytype :: string
  sk_subject :: string
  sk_version :: schema_version
  sk_magic :: int

definition schema_key_new :: "string \<Rightarrow> schema_version \<Rightarrow> schema_key" where
  "schema_key_new subject version =
     \<lparr>sk_keytype = ''SCHEMA'', sk_subject = subject, sk_version = version, sk_magic = 1\<rparr>"

record schema_reference =
  ref_name :: string
  ref_subject :: string
  ref_version :: schema_version

record schema_value =
  sval_subject :: string
  sval_version :: schema_version
  sval_id :: schema_id
  sval_schema_type :: "string option"
  sval_message_type :: "string option"
  sval_references :: "schema_reference list"
  sval_schema :: string
  sval_deleted :: bool
  sval_extra :: "(string, json) btree_map"

record config_key =
  ck_keytype :: string
  ck_subject :: "string option"
  ck_magic :: int

record config_value =
  compatibility_level :: string

record mode_key =
  mk_keytype :: string
  mk_subject :: "string option"
  mk_magic :: int

record mode_value =
  mv_mode :: string

record delete_subject_key =
  dk_keytype :: string
  dk_subject :: string
  dk_magic :: int

record delete_subject_value =
  dv_subject :: string
  dv_version :: schema_version

record version_high_water_key =
  hk_keytype :: string
  hk_subject :: string
  hk_magic :: int

record version_high_water_value =
  hv_next_version :: schema_version

datatype schema_record =
    Schema schema_key schema_value
  | Config config_key "config_value option"
  | Mode mode_key "mode_value option"
  | DeleteSubject delete_subject_key delete_subject_value
  | VersionHighWater version_high_water_key version_high_water_value
  | Tombstone schema_key
  | Noop
  | Unknown string
  | Undecodable "string option"

subsection \<open>Derived \<open>Serialize\<close>\<close>

definition ser_option :: "('a \<Rightarrow> json) \<Rightarrow> 'a option \<Rightarrow> json" where
  "ser_option f x = (case x of None \<Rightarrow> JNull | Some y \<Rightarrow> f y)"

definition ser_version :: "schema_version \<Rightarrow> json" where
  "ser_version v = json_int (version_raw v)"

definition ser_id :: "schema_id \<Rightarrow> json" where
  "ser_id i = json_int (id_raw i)"

definition ser_schema_key :: "schema_key \<Rightarrow> json" where
  "ser_schema_key k = JObj [
     (''keytype'', JStr (sk_keytype k)), (''subject'', JStr (sk_subject k)),
     (''version'', ser_version (sk_version k)), (''magic'', json_int (sk_magic k))]"

definition ser_reference :: "schema_reference \<Rightarrow> json" where
  "ser_reference r = JObj [
     (''name'', JStr (ref_name r)), (''subject'', JStr (ref_subject r)),
     (''version'', ser_version (ref_version r))]"

text \<open>Absent type names and empty reference lists are skipped; the extra members follow the
  struct's own fields.\<close>

definition ser_schema_value :: "schema_value \<Rightarrow> json" where
  "ser_schema_value v = JObj (
     [(''subject'', JStr (sval_subject v)), (''version'', ser_version (sval_version v)),
      (''id'', ser_id (sval_id v))]
     @ (case sval_schema_type v of None \<Rightarrow> [] | Some t \<Rightarrow> [(''schemaType'', JStr t)])
     @ (case sval_message_type v of None \<Rightarrow> [] | Some t \<Rightarrow> [(''messageType'', JStr t)])
     @ (if sval_references v = [] then []
        else [(''references'', JArr (map ser_reference (sval_references v)))])
     @ [(''schema'', JStr (sval_schema v)), (''deleted'', JBool (sval_deleted v))]
     @ sval_extra v)"

definition ser_config_key :: "config_key \<Rightarrow> json" where
  "ser_config_key k = JObj [
     (''keytype'', JStr (ck_keytype k)), (''subject'', ser_option JStr (ck_subject k)),
     (''magic'', json_int (ck_magic k))]"

definition ser_config_value :: "config_value \<Rightarrow> json" where
  "ser_config_value v = JObj [(''compatibilityLevel'', JStr (compatibility_level v))]"

definition ser_mode_key :: "mode_key \<Rightarrow> json" where
  "ser_mode_key k = JObj [
     (''keytype'', JStr (mk_keytype k)), (''subject'', ser_option JStr (mk_subject k)),
     (''magic'', json_int (mk_magic k))]"

definition ser_mode_value :: "mode_value \<Rightarrow> json" where
  "ser_mode_value v = JObj [(''mode'', JStr (mv_mode v))]"

definition ser_delete_subject_key :: "delete_subject_key \<Rightarrow> json" where
  "ser_delete_subject_key k = JObj [
     (''keytype'', JStr (dk_keytype k)), (''subject'', JStr (dk_subject k)),
     (''magic'', json_int (dk_magic k))]"

definition ser_delete_subject_value :: "delete_subject_value \<Rightarrow> json" where
  "ser_delete_subject_value v = JObj [
     (''subject'', JStr (dv_subject v)), (''version'', ser_version (dv_version v))]"

definition ser_high_water_key :: "version_high_water_key \<Rightarrow> json" where
  "ser_high_water_key k = JObj [
     (''keytype'', JStr (hk_keytype k)), (''subject'', JStr (hk_subject k)),
     (''magic'', json_int (hk_magic k))]"

definition ser_high_water_value :: "version_high_water_value \<Rightarrow> json" where
  "ser_high_water_value v = JObj [(''nextVersion'', ser_version (hv_next_version v))]"

subsection \<open>Derived \<open>Deserialize\<close>\<close>

definition de_version :: "json \<Rightarrow> schema_version option" where
  "de_version v = map_option SchemaVersion (de_i32 v)"

definition de_id :: "json \<Rightarrow> schema_id option" where
  "de_id v = map_option SchemaId (de_i32 v)"

definition de_schema_key :: "json \<Rightarrow> schema_key option" where
  "de_schema_key v =
     Option.bind (struct_members [''keytype'', ''subject'', ''version'', ''magic''] v) (\<lambda>ms.
     Option.bind (de_field de_string None ms ''keytype'') (\<lambda>kt.
     Option.bind (de_field de_string None ms ''subject'') (\<lambda>s.
     Option.bind (de_field de_version None ms ''version'') (\<lambda>n.
     Option.bind (de_field de_u8 None ms ''magic'') (\<lambda>m.
       Some \<lparr>sk_keytype = kt, sk_subject = s, sk_version = n, sk_magic = m\<rparr>)))))"

definition de_reference :: "json \<Rightarrow> schema_reference option" where
  "de_reference v =
     Option.bind (struct_members [''name'', ''subject'', ''version''] v) (\<lambda>ms.
     Option.bind (de_field de_string None ms ''name'') (\<lambda>n.
     Option.bind (de_field de_string None ms ''subject'') (\<lambda>s.
     Option.bind (de_field de_version None ms ''version'') (\<lambda>r.
       Some \<lparr>ref_name = n, ref_subject = s, ref_version = r\<rparr>))))"

definition schema_value_fields :: "string list" where
  "schema_value_fields =
     [''subject'', ''version'', ''id'', ''schemaType'', ''messageType'', ''references'',
      ''schema'', ''deleted'']"

text \<open>A flattened struct is read from an object only; members that are none of its fields are
  collected in \<open>extra\<close>.\<close>

definition de_schema_value :: "json \<Rightarrow> schema_value option" where
  "de_schema_value v =
     Option.bind (as_object v) (\<lambda>ms.
     Option.bind (de_field de_string None ms ''subject'') (\<lambda>s.
     Option.bind (de_field de_version None ms ''version'') (\<lambda>n.
     Option.bind (de_field de_id None ms ''id'') (\<lambda>i.
     Option.bind (de_field (de_option de_string) (Some None) ms ''schemaType'') (\<lambda>st.
     Option.bind (de_field (de_option de_string) (Some None) ms ''messageType'') (\<lambda>mt.
     Option.bind (de_field (de_vec de_reference) (Some []) ms ''references'') (\<lambda>rs.
     Option.bind (de_field de_string None ms ''schema'') (\<lambda>sch.
     Option.bind (de_field de_bool (Some False) ms ''deleted'') (\<lambda>d.
       Some \<lparr>sval_subject = s, sval_version = n, sval_id = i, sval_schema_type = st,
             sval_message_type = mt, sval_references = rs, sval_schema = sch,
             sval_deleted = d,
             sval_extra = btree_of_list (map (\<lambda>p. (fst p, json_value (snd p)))
               (filter (\<lambda>p. fst p \<notin> set schema_value_fields) ms))\<rparr>)))))))))"

definition de_config_key :: "json \<Rightarrow> config_key option" where
  "de_config_key v =
     Option.bind (struct_members [''keytype'', ''subject'', ''magic''] v) (\<lambda>ms.
     Option.bind (de_field de_string None ms ''keytype'') (\<lambda>kt.
     Option.bind (de_field (de_option de_string) (Some None) ms ''subject'') (\<lambda>s.
     Option.bind (de_field de_u8 None ms ''magic'') (\<lambda>m.
       Some \<lparr>ck_keytype = kt, ck_subject = s, ck_magic = m\<rparr>))))"

definition de_config_value :: "json \<Rightarrow> config_value option" where
  "de_config_value v =
     Option.bind (struct_members [''compatibilityLevel''] v) (\<lambda>ms.
     Option.bind (de_field de_string None ms ''compatibilityLevel'') (\<lambda>l.
       Some \<lparr>compatibility_level = l\<rparr>))"

definition de_mode_key :: "json \<Rightarrow> mode_key option" where
  "de_mode_key v =
     Option.bind (struct_members [''keytype'', ''subject'', ''magic''] v) (\<lambda>ms.
     Option.bind (de_field de_string None ms ''keytype'') (\<lambda>kt.
     Option.bind (de_field (de_option de_string) (Some None) ms ''subject'') (\<lambda>s.
     Option.bind (de_field de_u8 None ms ''magic'') (\<lambda>m.
       Some \<lparr>mk_keytype = kt, mk_subject = s, mk_magic = m\<rparr>))))"

definition de_mode_value :: "json \<Rightarrow> mode_value option" where
  "de_mode_value v =
     Option.bind (struct_members [''mode''] v) (\<lambda>ms.
     Option.bind (de_field de_string None ms ''mode'') (\<lambda>m. Some \<lparr>mv_mode = m\<rparr>))"

definition de_delete_subject_key :: "json \<Rightarrow> delete_subject_key option" where
  "de_delete_subject_key v =
     Option.bind (struct_members [''keytype'', ''subject'', ''magic''] v) (\<lambda>ms.
     Option.bind (de_field de_string None ms ''keytype'') (\<lambda>kt.
     Option.bind (de_field de_string None ms ''subject'') (\<lambda>s.
     Option.bind (de_field de_u8 None ms ''magic'') (\<lambda>m.
       Some \<lparr>dk_keytype = kt, dk_subject = s, dk_magic = m\<rparr>))))"

definition de_delete_subject_value :: "json \<Rightarrow> delete_subject_value option" where
  "de_delete_subject_value v =
     Option.bind (struct_members [''subject'', ''version''] v) (\<lambda>ms.
     Option.bind (de_field de_string None ms ''subject'') (\<lambda>s.
     Option.bind (de_field de_version None ms ''version'') (\<lambda>n.
       Some \<lparr>dv_subject = s, dv_version = n\<rparr>)))"

definition de_high_water_key :: "json \<Rightarrow> version_high_water_key option" where
  "de_high_water_key v =
     Option.bind (struct_members [''keytype'', ''subject'', ''magic''] v) (\<lambda>ms.
     Option.bind (de_field de_string None ms ''keytype'') (\<lambda>kt.
     Option.bind (de_field de_string None ms ''subject'') (\<lambda>s.
     Option.bind (de_field de_u8 None ms ''magic'') (\<lambda>m.
       Some \<lparr>hk_keytype = kt, hk_subject = s, hk_magic = m\<rparr>))))"

definition de_high_water_value :: "json \<Rightarrow> version_high_water_value option" where
  "de_high_water_value v =
     Option.bind (struct_members [''nextVersion''] v) (\<lambda>ms.
     Option.bind (de_field de_version None ms ''nextVersion'') (\<lambda>n.
       Some \<lparr>hv_next_version = n\<rparr>))"

subsection \<open>\<open>SchemaRecord::decode\<close>\<close>

definition keytype_of :: "'b codec \<Rightarrow> 'b \<Rightarrow> string option option" where
  "keytype_of C key = map_option (\<lambda>kv. Option.bind (json_get kv ''keytype'') as_str)
     (from_slice_value C key)"

definition decode_schema :: "'b codec \<Rightarrow> 'b \<Rightarrow> 'b option \<Rightarrow> schema_record" where
  "decode_schema C key value = (case Option.bind (from_slice C key) de_schema_key of
      Some k \<Rightarrow> (case value of
          Some v \<Rightarrow> (case Option.bind (from_slice C v) de_schema_value of
              Some val \<Rightarrow> Schema k val
            | None \<Rightarrow> Undecodable (Some ''SCHEMA''))
        | None \<Rightarrow> Tombstone k)
    | None \<Rightarrow> Undecodable (Some ''SCHEMA''))"

definition decode_config :: "'b codec \<Rightarrow> 'b \<Rightarrow> 'b option \<Rightarrow> schema_record" where
  "decode_config C key value = (case Option.bind (from_slice C key) de_config_key of
      Some k \<Rightarrow> (case value of
          Some v \<Rightarrow> (case Option.bind (from_slice C v) de_config_value of
              Some val \<Rightarrow> Config k (Some val)
            | None \<Rightarrow> Undecodable (Some ''CONFIG''))
        | None \<Rightarrow> Config k None)
    | None \<Rightarrow> Undecodable (Some ''CONFIG''))"

definition decode_mode :: "'b codec \<Rightarrow> 'b \<Rightarrow> 'b option \<Rightarrow> schema_record" where
  "decode_mode C key value = (case Option.bind (from_slice C key) de_mode_key of
      Some k \<Rightarrow> (case value of
          Some v \<Rightarrow> (case Option.bind (from_slice C v) de_mode_value of
              Some val \<Rightarrow> Mode k (Some val)
            | None \<Rightarrow> Undecodable (Some ''MODE''))
        | None \<Rightarrow> Mode k None)
    | None \<Rightarrow> Undecodable (Some ''MODE''))"

definition decode_delete_subject :: "'b codec \<Rightarrow> 'b \<Rightarrow> 'b option \<Rightarrow> schema_record" where
  "decode_delete_subject C key value = (case Option.bind (from_slice C key) de_delete_subject_key of
      Some k \<Rightarrow> (case value of
          Some v \<Rightarrow> (case Option.bind (from_slice C v) de_delete_subject_value of
              Some val \<Rightarrow> DeleteSubject k val
            | None \<Rightarrow> Undecodable (Some ''DELETE_SUBJECT''))
        | None \<Rightarrow> Noop)
    | None \<Rightarrow> Undecodable (Some ''DELETE_SUBJECT''))"

definition decode_noop :: "'b codec \<Rightarrow> 'b \<Rightarrow> 'b option \<Rightarrow> schema_record" where
  "decode_noop C key value =
     (case (Option.bind (from_slice C key) de_high_water_key,
            Option.bind value (\<lambda>v. Option.bind (from_slice C v) de_high_water_value)) of
        (Some k, Some v) \<Rightarrow> VersionHighWater k v
      | _ \<Rightarrow> Noop)"

definition decode :: "'b codec \<Rightarrow> 'b \<Rightarrow> 'b option \<Rightarrow> schema_record" where
  "decode C key value = (case keytype_of C key of
      None \<Rightarrow> Undecodable None
    | Some None \<Rightarrow> Undecodable None
    | Some (Some kt) \<Rightarrow>
        (if kt = ''SCHEMA'' then decode_schema C key value
         else if kt = ''CONFIG'' then decode_config C key value
         else if kt = ''MODE'' then decode_mode C key value
         else if kt = ''DELETE_SUBJECT'' then decode_delete_subject C key value
         else if kt = ''NOOP'' then decode_noop C key value
         else if kt = ''CLEAR_SUBJECTS'' \<or> kt = ''CLEAR_SUBJECT'' then Noop
         else Unknown kt))"

subsection \<open>Encoders\<close>

record schema_record_parts =
  rp_subject :: string
  rp_version :: schema_version
  rp_id :: schema_id
  rp_ty :: schema_type
  rp_schema :: string
  rp_references :: "schema_reference list"
  rp_message_type :: "string option"
  rp_deleted :: bool
  rp_extra :: "(string, json) btree_map option"

definition parts_value :: "schema_record_parts \<Rightarrow> schema_value" where
  "parts_value p = \<lparr>sval_subject = rp_subject p, sval_version = rp_version p, sval_id = rp_id p,
     sval_schema_type = wire_name (rp_ty p), sval_message_type = rp_message_type p,
     sval_references = rp_references p, sval_schema = rp_schema p, sval_deleted = rp_deleted p,
     sval_extra = unwrap_or (rp_extra p) []\<rparr>"

definition schema_kv :: "'b codec \<Rightarrow> schema_record_parts \<Rightarrow> 'b \<times> 'b" where
  "schema_kv C p =
     (to_vec C (ser_schema_key (schema_key_new (rp_subject p) (rp_version p))),
      to_vec C (ser_schema_value (parts_value p)))"

definition encode_schema_with_message_type ::
  "'b codec \<Rightarrow> string \<Rightarrow> schema_version \<Rightarrow> schema_id \<Rightarrow> schema_type \<Rightarrow> string
    \<Rightarrow> schema_reference list \<Rightarrow> string option \<Rightarrow> 'b \<times> 'b" where
  "encode_schema_with_message_type C subject version sid ty schema references message_type =
     schema_kv C \<lparr>rp_subject = subject, rp_version = version, rp_id = sid, rp_ty = ty,
       rp_schema = schema, rp_references = references, rp_message_type = message_type,
       rp_deleted = False, rp_extra = None\<rparr>"

definition encode_schema ::
  "'b codec \<Rightarrow> string \<Rightarrow> schema_version \<Rightarrow> schema_id \<Rightarrow> schema_type \<Rightarrow> string
    \<Rightarrow> schema_reference list \<Rightarrow> 'b \<times> 'b" where
  "encode_schema C subject version sid ty schema references =
     schema_kv C \<lparr>rp_subject = subject, rp_version = version, rp_id = sid, rp_ty = ty,
       rp_schema = schema, rp_references = references, rp_message_type = None,
       rp_deleted = False, rp_extra = None\<rparr>"

definition encode_schema_deleted ::
  "'b codec \<Rightarrow> string \<Rightarrow> schema_version \<Rightarrow> schema_id \<Rightarrow> schema_type \<Rightarrow> string
    \<Rightarrow> schema_reference list \<Rightarrow> 'b \<times> 'b" where
  "encode_schema_deleted C subject version sid ty schema references =
     schema_kv C \<lparr>rp_subject = subject, rp_version = version, rp_id = sid, rp_ty = ty,
       rp_schema = schema, rp_references = references, rp_message_type = None,
       rp_deleted = True, rp_extra = None\<rparr>"

definition encode_schema_deleted_with_message_type ::
  "'b codec \<Rightarrow> string \<Rightarrow> schema_version \<Rightarrow> schema_id \<Rightarrow> schema_type \<Rightarrow> string
    \<Rightarrow> schema_reference list \<Rightarrow> string option \<times> (string, json) btree_map \<Rightarrow> 'b \<times> 'b" where
  "encode_schema_deleted_with_message_type C subject version sid ty schema references metadata =
     schema_kv C \<lparr>rp_subject = subject, rp_version = version, rp_id = sid, rp_ty = ty,
       rp_schema = schema, rp_references = references, rp_message_type = fst metadata,
       rp_deleted = True, rp_extra = Some (snd metadata)\<rparr>"

definition encode_tombstone :: "'b codec \<Rightarrow> string \<Rightarrow> schema_version \<Rightarrow> 'b" where
  "encode_tombstone C subject version = to_vec C (ser_schema_key (schema_key_new subject version))"

definition encode_config :: "'b codec \<Rightarrow> string option \<Rightarrow> string \<Rightarrow> 'b \<times> 'b" where
  "encode_config C subject level =
     (to_vec C (ser_config_key \<lparr>ck_keytype = ''CONFIG'', ck_subject = subject, ck_magic = 0\<rparr>),
      to_vec C (ser_config_value \<lparr>compatibility_level = level\<rparr>))"

definition encode_version_high_water :: "'b codec \<Rightarrow> string \<Rightarrow> schema_version \<Rightarrow> 'b \<times> 'b" where
  "encode_version_high_water C subject next =
     (to_vec C (ser_high_water_key \<lparr>hk_keytype = ''NOOP'', hk_subject = subject, hk_magic = 0\<rparr>),
      to_vec C (ser_high_water_value \<lparr>hv_next_version = next\<rparr>))"

definition encode_mode :: "'b codec \<Rightarrow> string option \<Rightarrow> string \<Rightarrow> 'b \<times> 'b" where
  "encode_mode C subject mode =
     (to_vec C (ser_mode_key \<lparr>mk_keytype = ''MODE'', mk_subject = subject, mk_magic = 0\<rparr>),
      to_vec C (ser_mode_value \<lparr>mv_mode = mode\<rparr>))"

definition mode_key_bytes :: "'b codec \<Rightarrow> string option \<Rightarrow> 'b" where
  "mode_key_bytes C subject =
     to_vec C (ser_mode_key \<lparr>mk_keytype = ''MODE'', mk_subject = subject, mk_magic = 0\<rparr>)"

definition config_key_bytes :: "'b codec \<Rightarrow> string option \<Rightarrow> 'b" where
  "config_key_bytes C subject =
     to_vec C (ser_config_key \<lparr>ck_keytype = ''CONFIG'', ck_subject = subject, ck_magic = 0\<rparr>)"

definition encode_delete_subject :: "'b codec \<Rightarrow> string \<Rightarrow> schema_version \<Rightarrow> 'b \<times> 'b" where
  "encode_delete_subject C subject version =
     (to_vec C (ser_delete_subject_key
        \<lparr>dk_keytype = ''DELETE_SUBJECT'', dk_subject = subject, dk_magic = 0\<rparr>),
      to_vec C (ser_delete_subject_value \<lparr>dv_subject = subject, dv_version = version\<rparr>))"

subsection \<open>Round trips\<close>

text \<open>What a value must satisfy to be representable in a record: its numbers fit their \<open>i32\<close>
  fields and its extra members are those of a \<open>Value\<close> map, none of them named like a field
  and none holding a float.\<close>

definition reference_ok :: "schema_reference \<Rightarrow> bool" where
  "reference_ok r \<longleftrightarrow> i32_range (version_raw (ref_version r))"

text \<open>Whatever is read from JSON into an \<open>i32\<close> field is in its range.\<close>

lemma de_field_cases: "de_field de dflt ms k = Some x \<Longrightarrow> dflt = Some x \<or> (\<exists>v. de v = Some x)"
  by (auto simp: de_field_def split: list.splits)

lemma de_i32_range: "de_i32 v = Some i \<Longrightarrow> i32_range i"
  by (auto simp: de_i32_def de_ranged_def i32_range_def bind_eq_Some_conv split: json.splits if_splits)

lemma de_reference_ok: "de_reference v = Some r \<Longrightarrow> reference_ok r"
  by (auto simp: de_reference_def reference_ok_def de_version_def bind_eq_Some_conv dest!: de_field_cases de_i32_range)

lemma de_list_all: "de_list de vs = Some xs \<Longrightarrow> (\<And>v x. de v = Some x \<Longrightarrow> P x) \<Longrightarrow> list_all P xs"
  by (induction vs arbitrary: xs) (auto simp: bind_eq_Some_conv)

lemma de_references_ok: "de_vec de_reference v = Some refs \<Longrightarrow> list_all reference_ok refs"
  using de_list_all [of de_reference] de_reference_ok by (auto simp: de_vec_def split: json.splits)

definition extra_ok :: "(string, json) btree_map \<Rightarrow> bool" where
  "extra_ok ex \<longleftrightarrow> btree_ok ex \<and>
     list_all (\<lambda>p. fst p \<notin> set schema_value_fields \<and> json_sorted (snd p) \<and> json_integral (snd p)) ex"

definition schema_value_ok :: "schema_value \<Rightarrow> bool" where
  "schema_value_ok v \<longleftrightarrow> i32_range (version_raw (sval_version v)) \<and> i32_range (id_raw (sval_id v))
     \<and> list_all reference_ok (sval_references v) \<and> extra_ok (sval_extra v)"

lemma from_slice_to_vec [simp]:
  "codec_roundtrip C \<Longrightarrow> json_integral v \<Longrightarrow> from_slice C (to_vec C v) = Some v"
  by (simp add: codec_roundtrip_def)

lemma keytype_of_to_vec:
  "codec_roundtrip C \<Longrightarrow> json_integral (JObj kvs) \<Longrightarrow>
    keytype_of C (to_vec C (JObj kvs)) =
      Some (Option.bind (map_of (rev (map (\<lambda>p. (fst p, json_value (snd p))) kvs)) ''keytype'') as_str)"
  by (simp add: keytype_of_def from_slice_value_def json_get_def map_of_btree_of_list)

lemma ser_option_integral [simp]:
  "(\<And>x. json_integral (f x)) \<Longrightarrow> json_integral (ser_option f x)"
  by (cases x) (simp_all add: ser_option_def)

lemma de_option_ser_option [simp]:
  "de_option de_string (ser_option JStr x) = Some x"
  by (cases x) (simp_all add: ser_option_def)

lemma ser_version_simps [simp]:
  "json_integral (ser_version v)"
  "i32_range (version_raw v) \<Longrightarrow> de_version (ser_version v) = Some v"
  by (simp_all add: ser_version_def de_version_def)

lemma ser_id_simps [simp]:
  "json_integral (ser_id i)"
  "i32_range (id_raw i) \<Longrightarrow> de_id (ser_id i) = Some i"
  by (simp_all add: ser_id_def de_id_def)

lemma ser_reference_integral [simp]: "json_integral (ser_reference r)"
  by (simp add: ser_reference_def)

lemma de_reference_ser [simp]: "reference_ok r \<Longrightarrow> de_reference (ser_reference r) = Some r"
  by (simp add: ser_reference_def de_reference_def struct_members_def de_field_def reference_ok_def)

lemma de_vec_references [simp]:
  "list_all reference_ok rs \<Longrightarrow> de_vec de_reference (JArr (map ser_reference rs)) = Some rs"
  by (simp add: de_vec_def de_list_map list_all_iff)

lemma de_schema_key_ser [simp]:
  "i32_range (version_raw v) \<Longrightarrow>
    de_schema_key (ser_schema_key (schema_key_new s v)) = Some (schema_key_new s v)"
  by (simp add: ser_schema_key_def de_schema_key_def struct_members_def de_field_def
      schema_key_new_def)

lemma extra_ok_occurrences:
  "extra_ok ex \<Longrightarrow> k \<in> set schema_value_fields \<Longrightarrow> occurrences ex k = []"
  by (rule occurrences_notin) (auto simp: extra_ok_def list_all_iff)

lemma extra_ok_collect:
  assumes "extra_ok ex"
  shows "btree_of_list (map (\<lambda>p. (fst p, json_value (snd p)))
           (filter (\<lambda>p. fst p \<notin> set schema_value_fields) ex)) = ex"
proof -
  have "filter (\<lambda>p. fst p \<notin> set schema_value_fields) ex = ex"
    using assms by (auto simp: extra_ok_def list_all_iff intro: filter_True)
  moreover have "map (\<lambda>p. (fst p, json_value (snd p))) ex = ex"
    using assms by (intro map_idI) (auto simp: extra_ok_def list_all_iff json_value_id)
  ultimately show ?thesis
    using assms by (simp add: extra_ok_def btree_of_list_id)
qed

lemma filter_own_fields:
  "filter (\<lambda>p. fst p \<notin> set schema_value_fields)
     ([(''subject'', a), (''version'', b), (''id'', c)]
      @ (case st of None \<Rightarrow> [] | Some t \<Rightarrow> [(''schemaType'', JStr t)])
      @ (case mt of None \<Rightarrow> [] | Some t \<Rightarrow> [(''messageType'', JStr t)])
      @ (if rs = [] then [] else [(''references'', d)])
      @ [(''schema'', e), (''deleted'', f)] @ ex)
   = filter (\<lambda>p. fst p \<notin> set schema_value_fields) ex"
  by (simp add: schema_value_fields_def split: option.splits)

lemma de_schema_value_ser:
  assumes "schema_value_ok v"
  shows "de_schema_value (ser_schema_value v) = Some v"
proof -
  have ex: "extra_ok (sval_extra v)" and
    occ: "\<And>k. k \<in> set schema_value_fields \<Longrightarrow> occurrences (sval_extra v) k = []"
    using assms extra_ok_occurrences by (auto simp: schema_value_ok_def)
  have [simp]: "occurrences (sval_extra v) ''subject'' = []"
    "occurrences (sval_extra v) ''version'' = []" "occurrences (sval_extra v) ''id'' = []"
    "occurrences (sval_extra v) ''schemaType'' = []"
    "occurrences (sval_extra v) ''messageType'' = []"
    "occurrences (sval_extra v) ''references'' = []"
    "occurrences (sval_extra v) ''schema'' = []" "occurrences (sval_extra v) ''deleted'' = []"
    by (rule occ; simp add: schema_value_fields_def)+
  show ?thesis
    using assms ex
    unfolding de_schema_value_def ser_schema_value_def as_object_def json.case Option.bind.bind_lunit
      filter_own_fields
    by (cases "sval_schema_type v"; cases "sval_message_type v"; cases "sval_references v = []")
      (simp_all add: de_field_def extra_ok_collect schema_value_ok_def)
qed

lemma extra_ok_integral: "extra_ok ex \<Longrightarrow> list_all (\<lambda>p. json_integral (snd p)) ex"
  by (auto simp: extra_ok_def list_all_iff)

lemma ser_schema_value_integral: "schema_value_ok v \<Longrightarrow> json_integral (ser_schema_value v)"
  by (auto simp: ser_schema_value_def schema_value_ok_def list_all_iff extra_ok_def
      split: option.splits)

lemma decode_schema_kv:
  assumes "codec_roundtrip C" "schema_value_ok (parts_value p)"
  shows "decode C (fst (schema_kv C p)) (Some (snd (schema_kv C p)))
    = Schema (schema_key_new (rp_subject p) (rp_version p)) (parts_value p)"
proof -
  have v: "i32_range (version_raw (rp_version p))"
    using assms(2) by (simp add: schema_value_ok_def parts_value_def)
  have kt: "keytype_of C (to_vec C (ser_schema_key (schema_key_new (rp_subject p) (rp_version p))))
      = Some (Some ''SCHEMA'')"
    using assms(1)
    by (simp add: ser_schema_key_def schema_key_new_def keytype_of_to_vec as_str_def)
  have int: "json_integral (ser_schema_key (schema_key_new (rp_subject p) (rp_version p)))"
    by (simp add: ser_schema_key_def)
  show ?thesis
    using assms v kt int
    by (simp add: decode_def schema_kv_def decode_schema_def ser_schema_value_integral
        de_schema_value_ser)
qed

lemma decode_tombstone:
  assumes "codec_roundtrip C" "i32_range (version_raw v)"
  shows "decode C (encode_tombstone C s v) None = Tombstone (schema_key_new s v)"
proof -
  have kt: "keytype_of C (to_vec C (ser_schema_key (schema_key_new s v))) = Some (Some ''SCHEMA'')"
    using assms(1)
    by (simp add: ser_schema_key_def schema_key_new_def keytype_of_to_vec as_str_def)
  have "json_integral (ser_schema_key (schema_key_new s v))"
    by (simp add: ser_schema_key_def)
  with kt assms show ?thesis
    by (simp add: decode_def encode_tombstone_def decode_schema_def)
qed

lemma decode_config_key:
  "codec_roundtrip C \<Longrightarrow>
    decode C (config_key_bytes C s) v =
      (case v of None \<Rightarrow> Config \<lparr>ck_keytype = ''CONFIG'', ck_subject = s, ck_magic = 0\<rparr> None
       | Some b \<Rightarrow> (case Option.bind (from_slice C b) de_config_value of
           Some val \<Rightarrow> Config \<lparr>ck_keytype = ''CONFIG'', ck_subject = s, ck_magic = 0\<rparr> (Some val)
         | None \<Rightarrow> Undecodable (Some ''CONFIG'')))"
  by (simp add: decode_def config_key_bytes_def ser_config_key_def keytype_of_to_vec as_str_def
      decode_config_def de_config_key_def struct_members_def de_field_def)

lemma decode_mode_key:
  "codec_roundtrip C \<Longrightarrow>
    decode C (mode_key_bytes C s) v =
      (case v of None \<Rightarrow> Mode \<lparr>mk_keytype = ''MODE'', mk_subject = s, mk_magic = 0\<rparr> None
       | Some b \<Rightarrow> (case Option.bind (from_slice C b) de_mode_value of
           Some val \<Rightarrow> Mode \<lparr>mk_keytype = ''MODE'', mk_subject = s, mk_magic = 0\<rparr> (Some val)
         | None \<Rightarrow> Undecodable (Some ''MODE'')))"
  by (simp add: decode_def mode_key_bytes_def ser_mode_key_def keytype_of_to_vec as_str_def
      decode_mode_def de_mode_key_def struct_members_def de_field_def)

lemma decode_encode_config:
  "codec_roundtrip C \<Longrightarrow>
    decode C (fst (encode_config C s l)) (Some (snd (encode_config C s l))) =
      Config \<lparr>ck_keytype = ''CONFIG'', ck_subject = s, ck_magic = 0\<rparr> (Some \<lparr>compatibility_level = l\<rparr>)"
  using decode_config_key [of C s "Some (snd (encode_config C s l))"]
  by (simp add: encode_config_def config_key_bytes_def ser_config_value_def de_config_value_def
      struct_members_def de_field_def)

lemma decode_encode_mode:
  "codec_roundtrip C \<Longrightarrow>
    decode C (fst (encode_mode C s m)) (Some (snd (encode_mode C s m))) =
      Mode \<lparr>mk_keytype = ''MODE'', mk_subject = s, mk_magic = 0\<rparr> (Some \<lparr>mv_mode = m\<rparr>)"
  using decode_mode_key [of C s "Some (snd (encode_mode C s m))"]
  by (simp add: encode_mode_def mode_key_bytes_def ser_mode_value_def de_mode_value_def
      struct_members_def de_field_def)

lemma decode_encode_delete_subject:
  "codec_roundtrip C \<Longrightarrow> i32_range (version_raw v) \<Longrightarrow>
    decode C (fst (encode_delete_subject C s v)) (Some (snd (encode_delete_subject C s v))) =
      DeleteSubject \<lparr>dk_keytype = ''DELETE_SUBJECT'', dk_subject = s, dk_magic = 0\<rparr>
        \<lparr>dv_subject = s, dv_version = v\<rparr>"
  by (simp add: decode_def encode_delete_subject_def ser_delete_subject_key_def keytype_of_to_vec
      as_str_def decode_delete_subject_def de_delete_subject_key_def struct_members_def
      de_field_def ser_delete_subject_value_def de_delete_subject_value_def)

lemma decode_encode_high_water:
  "codec_roundtrip C \<Longrightarrow> i32_range (version_raw v) \<Longrightarrow>
    decode C (fst (encode_version_high_water C s v)) (Some (snd (encode_version_high_water C s v))) =
      VersionHighWater \<lparr>hk_keytype = ''NOOP'', hk_subject = s, hk_magic = 0\<rparr> \<lparr>hv_next_version = v\<rparr>"
  by (simp add: decode_def encode_version_high_water_def ser_high_water_key_def keytype_of_to_vec
      as_str_def decode_noop_def de_high_water_key_def struct_members_def de_field_def
      ser_high_water_value_def de_high_water_value_def)

end
