(* ===== verification/Sr_Error.thy ===== *)
theory Sr_Error
  imports Ids
begin

text \<open>
  The error model of \<^verbatim>\<open>error.rs\<close>: every failure of the registry, its Confluent
  \<open>error_code\<close>, its HTTP status and its message.
\<close>

datatype sr_error =
    NotFound
  | MethodNotAllowed
  | Forbidden
  | InvalidRequest string
  | ForwardFailed
  | UnknownLeader string
  | SubjectNotFound string
  | VersionNotFound
  | SchemaNotFound
  | InvalidSchema string
  | InvalidVersion string
  | InvalidCompatibilityLevel string
  | Backend string
  | OperationTimedOut
  | Incompatible "string list"
  | OperationNotPermitted string
  | SchemaIdConflict schema_id
  | SubjectNotSoftDeleted string
  | VersionNotSoftDeleted string i32
  | InvalidMode string
  | SubjectSoftDeleted string
  | SubjectModeNotConfigured string
  | ReferenceNotFound string
  | ReferencedByOthers string

fun error_code :: "sr_error \<Rightarrow> i32" where
  "error_code NotFound = 404"
| "error_code MethodNotAllowed = 405"
| "error_code Forbidden = 40301"
| "error_code (InvalidRequest _) = 400"
| "error_code ForwardFailed = 50003"
| "error_code (UnknownLeader _) = 50004"
| "error_code (SubjectNotFound _) = 40401"
| "error_code VersionNotFound = 40402"
| "error_code SchemaNotFound = 40403"
| "error_code (InvalidSchema _) = 42201"
| "error_code (ReferenceNotFound _) = 42201"
| "error_code (InvalidVersion _) = 42202"
| "error_code (InvalidCompatibilityLevel _) = 42203"
| "error_code (Backend _) = 50001"
| "error_code OperationTimedOut = 50002"
| "error_code (Incompatible _) = 409"
| "error_code (OperationNotPermitted _) = 42205"
| "error_code (SchemaIdConflict _) = 42205"
| "error_code (SubjectNotSoftDeleted _) = 40405"
| "error_code (VersionNotSoftDeleted _ _) = 40407"
| "error_code (InvalidMode _) = 42204"
| "error_code (SubjectSoftDeleted _) = 40404"
| "error_code (SubjectModeNotConfigured _) = 40409"
| "error_code (ReferencedByOthers _) = 42206"

fun http_status :: "sr_error \<Rightarrow> i32" where
  "http_status MethodNotAllowed = 405"
| "http_status Forbidden = 403"
| "http_status (InvalidRequest _) = 400"
| "http_status NotFound = 404"
| "http_status (SubjectNotFound _) = 404"
| "http_status VersionNotFound = 404"
| "http_status SchemaNotFound = 404"
| "http_status (SubjectNotSoftDeleted _) = 404"
| "http_status (VersionNotSoftDeleted _ _) = 404"
| "http_status (SubjectSoftDeleted _) = 404"
| "http_status (SubjectModeNotConfigured _) = 404"
| "http_status (InvalidSchema _) = 422"
| "http_status (InvalidVersion _) = 422"
| "http_status (InvalidCompatibilityLevel _) = 422"
| "http_status (OperationNotPermitted _) = 422"
| "http_status (SchemaIdConflict _) = 422"
| "http_status (InvalidMode _) = 422"
| "http_status (ReferenceNotFound _) = 422"
| "http_status (ReferencedByOthers _) = 422"
| "http_status (Backend _) = 500"
| "http_status OperationTimedOut = 500"
| "http_status ForwardFailed = 500"
| "http_status (UnknownLeader _) = 500"
| "http_status (Incompatible _) = 409"

text \<open>\<open>Display\<close> of an error. The argument \<open>dbg\<close> renders the message list of
  \<open>Incompatible\<close> (the \<open>{0:?}\<close> format).\<close>

definition quoted :: "string \<Rightarrow> string" where
  "quoted s = [CHR 0x27] @ s @ [CHR 0x27]"

fun error_display :: "(string list \<Rightarrow> string) \<Rightarrow> sr_error \<Rightarrow> string" where
  "error_display dbg NotFound = ''HTTP 404 Not Found''"
| "error_display dbg MethodNotAllowed = ''HTTP 405 Method Not Allowed''"
| "error_display dbg Forbidden = ''Forbidden''"
| "error_display dbg (InvalidRequest s) = s"
| "error_display dbg ForwardFailed = ''Error while forwarding register schema request to the leader''"
| "error_display dbg (UnknownLeader s) = ''Unknown leader: '' @ s"
| "error_display dbg (SubjectNotFound s) = ''Subject '' @ quoted s @ '' not found.''"
| "error_display dbg VersionNotFound = ''Version not found.''"
| "error_display dbg SchemaNotFound = ''Schema not found''"
| "error_display dbg (InvalidSchema s) = ''Invalid schema: '' @ s"
| "error_display dbg (InvalidVersion s) = ''Invalid version: '' @ s"
| "error_display dbg (InvalidCompatibilityLevel s) = ''Invalid compatibility level: '' @ s"
| "error_display dbg (Backend s) = ''Error in the backend data store: '' @ s"
| "error_display dbg OperationTimedOut = ''Operation timed out''"
| "error_display dbg (Incompatible ms) =
     ''Schema being registered is incompatible with an earlier schema; details: '' @ dbg ms"
| "error_display dbg (OperationNotPermitted s) = ''Subject '' @ quoted s @ '' is in read-only mode.''"
| "error_display dbg (SchemaIdConflict i) =
     ''Overwrite new schema with id '' @ show_int (id_raw i) @ '' is not permitted.''"
| "error_display dbg (SubjectNotSoftDeleted s) =
     ''Subject '' @ quoted s @ '' was not deleted first before being permanently deleted.''"
| "error_display dbg (VersionNotSoftDeleted s v) =
     ''Version '' @ show_int v @ '' of subject '' @ quoted s
       @ '' was not soft-deleted first before being permanently deleted.''"
| "error_display dbg (InvalidMode s) = ''Invalid mode: '' @ s"
| "error_display dbg (SubjectSoftDeleted s) =
     ''Subject '' @ quoted s @ '' was soft deleted. Set permanent=true to delete permanently.''"
| "error_display dbg (SubjectModeNotConfigured s) =
     ''Subject '' @ quoted s @ '' does not have subject-level mode configured''"
| "error_display dbg (ReferenceNotFound s) = ''Reference '' @ s @ '' not found.''"
| "error_display dbg (ReferencedByOthers s) = ''One or more references exist to the schema '' @ s @ ''.''"

text \<open>The Confluent error code of every registry error begins with its HTTP status: a
  three-digit code is the status itself, a five-digit code has it as its first three digits.\<close>

theorem status_is_code_prefix:
  "http_status e = (if error_code e < 1000 then error_code e else error_code e div 100)"
  by (cases e) simp_all

end
