(* ===== verification/Pb_Descriptor.thy ===== *)
theory Pb_Descriptor
  imports Prelude
begin

text \<open>
  Protobuf file descriptors and their rendering as \<^verbatim>\<open>.proto\<close> text. The descriptor types are
  those of \<open>prost_types\<close>, with the fields the registry reads; \<open>fd_other\<close> and \<open>ff_other\<close>
  stand for the ones it never looks at (options, defaults, extensions, source locations).
  \<open>normalize\<close> and its helpers are those of \<^verbatim>\<open>schema-serde/src/format/protobuf.rs\<close>.
\<close>

datatype field_type =
    TDouble | TFloat | TInt64 | TUint64 | TInt32 | TFixed64 | TFixed32 | TBool | TString
  | TGroup | TMessage | TBytes | TUint32 | TEnum | TSfixed32 | TSfixed64 | TSint32 | TSint64

datatype field_label = LOptional | LRequired | LRepeated

record field_descriptor =
  ff_name :: "string option"
  ff_number :: "i32 option"
  ff_label :: "field_label option"
  ff_type :: "field_type option"
  ff_type_name :: "string option"
  ff_oneof_index :: "i32 option"
  ff_proto3_optional :: "bool option"
  ff_other :: string

definition f_number :: "field_descriptor \<Rightarrow> i32" where
  "f_number f = unwrap_or (ff_number f) 0"

definition f_label :: "field_descriptor \<Rightarrow> field_label" where
  "f_label f = unwrap_or (ff_label f) LOptional"

definition f_type :: "field_descriptor \<Rightarrow> field_type" where
  "f_type f = unwrap_or (ff_type f) TDouble"

record enum_value =
  ev_name :: "string option"
  ev_number :: "i32 option"

record enum_descriptor =
  en_name :: "string option"
  en_value :: "enum_value list"

record reserved_range =
  rr_start :: "i32 option"
  rr_end :: "i32 option"

record method_descriptor =
  me_name :: "string option"
  me_input :: "string option"
  me_output :: "string option"
  me_client_streaming :: "bool option"
  me_server_streaming :: "bool option"

record service_descriptor =
  se_name :: "string option"
  se_method :: "method_descriptor list"

text \<open>A message: its name, fields, nested messages, enums, the names of its oneofs, its
  reserved ranges and names, and the \<open>map_entry\<close> option.\<close>

datatype descriptor = Descriptor
  (dp_name: "string option")
  (dp_field: "field_descriptor list")
  (dp_nested: "descriptor list")
  (dp_enum: "enum_descriptor list")
  (dp_oneof: "string option list")
  (dp_reserved_range: "reserved_range list")
  (dp_reserved_name: "string list")
  (dp_map_entry: "bool option")

record file_descriptor =
  fd_name :: "string option"
  fd_package :: "string option"
  fd_dependency :: "string list"
  fd_message :: "descriptor list"
  fd_enum :: "enum_descriptor list"
  fd_service :: "service_descriptor list"
  fd_syntax :: "string option"
  fd_source_info :: "string option"
  fd_other :: string

subsection \<open>Text helpers\<close>

definition newline :: string where
  "newline = [CHR 0x0A]"

definition dquoted :: "string \<Rightarrow> string" where
  "dquoted s = [CHR 0x22] @ s @ [CHR 0x22]"

definition indentation :: "nat \<Rightarrow> string" where
  "indentation depth = concat (replicate depth ''  '')"

fun join_with :: "string \<Rightarrow> string list \<Rightarrow> string" where
  "join_with sep [] = []"
| "join_with sep [x] = x"
| "join_with sep (x # xs) = x @ sep @ join_with sep xs"

definition trim_start_dots :: "string \<Rightarrow> string" where
  "trim_start_dots s = dropWhile (\<lambda>c. c = CHR ''.'') s"

definition strip_prefix :: "string \<Rightarrow> string \<Rightarrow> string option" where
  "strip_prefix p s = (if take (length p) s = p then Some (drop (length p) s) else None)"

definition qualify_name :: "string \<Rightarrow> string \<Rightarrow> string" where
  "qualify_name parent name = (if parent = [] then name else parent @ ''.'' @ name)"

definition is_map_entry :: "descriptor \<Rightarrow> bool" where
  "is_map_entry d = unwrap_or (dp_map_entry d) False"

subsection \<open>Rendering\<close>

definition map_entry :: "descriptor \<Rightarrow> string \<Rightarrow> field_descriptor \<Rightarrow> descriptor option" where
  "map_entry parent parent_name field =
     Option.bind (ff_type_name field) (\<lambda>tn.
       let field_type = trim_start_dots tn
       in find (\<lambda>nested.
            (case dp_name nested of
               None \<Rightarrow> False
             | Some name \<Rightarrow> field_type = name \<or> field_type = parent_name @ ''.'' @ name)
            \<and> is_map_entry nested) (dp_nested parent))"

definition proto_ref_name :: "string \<Rightarrow> string \<Rightarrow> string" where
  "proto_ref_name name package =
     (case (if package \<noteq> [] then strip_prefix (''.'' @ package @ ''.'') name else None) of
        Some local_name \<Rightarrow> local_name
      | None \<Rightarrow> trim_start_dots name)"

fun scalar_keyword :: "field_type \<Rightarrow> string" where
  "scalar_keyword TDouble = ''double''"
| "scalar_keyword TFloat = ''float''"
| "scalar_keyword TInt64 = ''int64''"
| "scalar_keyword TUint64 = ''uint64''"
| "scalar_keyword TInt32 = ''int32''"
| "scalar_keyword TFixed64 = ''fixed64''"
| "scalar_keyword TFixed32 = ''fixed32''"
| "scalar_keyword TBool = ''bool''"
| "scalar_keyword TString = ''string''"
| "scalar_keyword TBytes = ''bytes''"
| "scalar_keyword TUint32 = ''uint32''"
| "scalar_keyword TSfixed32 = ''sfixed32''"
| "scalar_keyword TSfixed64 = ''sfixed64''"
| "scalar_keyword TSint32 = ''sint32''"
| "scalar_keyword TSint64 = ''sint64''"
| "scalar_keyword TGroup = ''unknown''"
| "scalar_keyword TMessage = ''unknown''"
| "scalar_keyword TEnum = ''unknown''"

definition proto_type_name :: "field_descriptor \<Rightarrow> string \<Rightarrow> string" where
  "proto_type_name field package =
     (case ff_type_name field of
        Some name \<Rightarrow> (if name \<noteq> [] then proto_ref_name name package else scalar_keyword (f_type field))
      | None \<Rightarrow> scalar_keyword (f_type field))"

definition write_field :: "field_descriptor \<Rightarrow> descriptor \<Rightarrow> string \<Rightarrow> nat \<Rightarrow> string \<Rightarrow> string \<Rightarrow> string" where
  "write_field field parent parent_name depth package syn =
     (let entry = map_entry parent parent_name field;
          optional = unwrap_or (ff_proto3_optional field) False;
          label = (if ff_oneof_index field \<noteq> None \<and> \<not> optional then []
                   else if optional then ''optional ''
                   else if entry \<noteq> None then []
                   else if f_label field = LRepeated then ''repeated ''
                   else if syn = ''proto2'' \<and> f_label field = LRequired then ''required ''
                   else if syn = ''proto2'' \<and> f_label field = LOptional then ''optional ''
                   else []);
          ty = (case entry of
                  None \<Rightarrow> proto_type_name field package
                | Some e \<Rightarrow>
                    ''map<''
                    @ (case dp_field e of [] \<Rightarrow> ''unknown'' | k # _ \<Rightarrow> proto_type_name k package)
                    @ '', ''
                    @ (case dp_field e of (_ # v # _) \<Rightarrow> proto_type_name v package | _ \<Rightarrow> ''unknown'')
                    @ ''>'')
      in indentation depth @ label @ ty @ '' '' @ unwrap_or (ff_name field) ''unknown'' @ '' = ''
         @ show_int (f_number field) @ '';'' @ newline)"

definition write_reserved :: "descriptor \<Rightarrow> nat \<Rightarrow> string" where
  "write_reserved message depth =
     concat (map (\<lambda>range.
       let start = unwrap_or (rr_start range) 0;
           end_incl = i32_add (unwrap_or (rr_end range) (i32_add start 1)) (- 1)
       in if start = end_incl
          then indentation depth @ ''reserved '' @ show_int start @ '';'' @ newline
          else indentation depth @ ''reserved '' @ show_int start @ '' to '' @ show_int end_incl
               @ '';'' @ newline) (dp_reserved_range message))
     @ (if dp_reserved_name message = [] then []
        else indentation depth @ ''reserved ''
             @ join_with '', '' (map dquoted (dp_reserved_name message)) @ '';'' @ newline)"

definition write_enum :: "enum_descriptor \<Rightarrow> nat \<Rightarrow> string" where
  "write_enum enumeration depth =
     indentation depth @ ''enum '' @ unwrap_or (en_name enumeration) ''Unknown'' @ '' {'' @ newline
     @ concat (map (\<lambda>value.
         indentation depth @ ''  '' @ unwrap_or (ev_name value) ''UNKNOWN'' @ '' = ''
         @ show_int (unwrap_or (ev_number value) 0) @ '';'' @ newline) (en_value enumeration))
     @ indentation depth @ ''}'' @ newline"

text \<open>The fields of the oneof with a given index; an index beyond \<open>i32\<close> becomes \<open>None\<close>, as
  \<open>i32::try_from\<close> makes it, and then selects the fields outside every oneof.\<close>

definition oneof_fields :: "descriptor \<Rightarrow> nat \<Rightarrow> field_descriptor list" where
  "oneof_fields message index =
     filter (\<lambda>f. ff_oneof_index f = (if int index \<le> i32_max then Some (int index) else None))
       (dp_field message)"

definition write_oneof :: "descriptor \<Rightarrow> string \<Rightarrow> nat \<Rightarrow> string \<Rightarrow> string \<Rightarrow> nat \<times> string option \<Rightarrow> string" where
  "write_oneof message full_name depth package syn io =
     (let fs = oneof_fields message (fst io)
      in case fs of
           [f] \<Rightarrow>
             (if unwrap_or (ff_proto3_optional f) False
              then write_field f message full_name (depth + 1) package syn
              else indentation (depth + 1) @ ''oneof '' @ unwrap_or (snd io) ''unknown'' @ '' {'' @ newline
                @ write_field f message full_name (depth + 2) package syn
                @ indentation (depth + 1) @ ''}'' @ newline)
         | _ \<Rightarrow> indentation (depth + 1) @ ''oneof '' @ unwrap_or (snd io) ''unknown'' @ '' {'' @ newline
                @ concat (map (\<lambda>f. write_field f message full_name (depth + 2) package syn) fs)
                @ indentation (depth + 1) @ ''}'' @ newline)"

function write_message :: "descriptor \<Rightarrow> nat \<Rightarrow> string \<Rightarrow> string \<Rightarrow> string \<Rightarrow> string" where
  "write_message message depth package parent_name syn =
     (let name = unwrap_or (dp_name message) ''Unknown'';
          full_name = qualify_name parent_name name
      in indentation depth @ ''message '' @ name @ '' {'' @ newline
         @ write_reserved message (depth + 1)
         @ concat (map (\<lambda>e. write_enum e (depth + 1)) (dp_enum message))
         @ concat (map (\<lambda>f. write_field f message full_name (depth + 1) package syn)
             (filter (\<lambda>f. ff_oneof_index f = None) (dp_field message)))
         @ concat (map (write_oneof message full_name depth package syn)
             (List.enumerate 0 (dp_oneof message)))
         @ concat (map (\<lambda>n. write_message n (depth + 1) package full_name syn)
             (filter (\<lambda>n. \<not> is_map_entry n) (dp_nested message)))
         @ indentation depth @ ''}'' @ newline)"
  by pat_completeness auto
termination
proof (relation "measure (\<lambda>(m, _). size m)")
  show "wf (measure (\<lambda>(m :: descriptor, _ :: nat \<times> string \<times> string \<times> string). size m))" by simp
  fix m n :: descriptor
  assume "n \<in> set (filter (\<lambda>n. \<not> is_map_entry n) (dp_nested m))"
  then have "n \<in> set (dp_nested m)" by simp
  then have "size n < size m"
    by (cases m) (auto dest: size_list_estimation' [where f = size, OF _ order_refl])
  then show "((n, d, p, q, s), m, d', p', q', s') \<in> measure (\<lambda>(m, _). size m)"
    for d d' p p' q q' s s' by simp
qed

declare write_message.simps [simp del]

definition write_method :: "method_descriptor \<Rightarrow> string \<Rightarrow> string" where
  "write_method method package =
     ''  rpc '' @ unwrap_or (me_name method) ''Unknown'' @ '' (''
     @ (if unwrap_or (me_client_streaming method) False then ''stream '' else [])
     @ proto_ref_name (unwrap_or (me_input method) ''Unknown'') package @ '') returns (''
     @ (if unwrap_or (me_server_streaming method) False then ''stream '' else [])
     @ proto_ref_name (unwrap_or (me_output method) ''Unknown'') package @ '');'' @ newline"

definition write_service :: "service_descriptor \<Rightarrow> string \<Rightarrow> string" where
  "write_service service package =
     ''service '' @ unwrap_or (se_name service) ''Unknown'' @ '' {'' @ newline
     @ concat (map (\<lambda>m. write_method m package) (se_method service))
     @ ''}'' @ newline"

definition normalize :: "file_descriptor \<Rightarrow> string" where
  "normalize file =
     (let syn = unwrap_or (fd_syntax file) ''proto3'';
          package = unwrap_or (fd_package file) []
      in ''syntax = '' @ dquoted syn @ '';'' @ newline
         @ (case fd_package file of
              None \<Rightarrow> []
            | Some p \<Rightarrow> (if p = [] then [] else ''package '' @ p @ '';'' @ newline))
         @ concat (map (\<lambda>d. newline @ ''import '' @ dquoted d @ '';'' @ newline) (fd_dependency file))
         @ concat (map (\<lambda>e. newline @ write_enum e 0) (fd_enum file))
         @ concat (map (\<lambda>m. newline @ write_message m 0 package package syn) (fd_message file))
         @ concat (map (\<lambda>s. newline @ write_service s package) (fd_service file)))"

end
