(* ===== verification/Format.thy ===== *)
theory Format
  imports Schema_Records Sr_Error Pb_Descriptor
begin

text \<open>
  Schema formats (\<^verbatim>\<open>format/mod.rs\<close>, the \<open>parse\<close> functions of \<^verbatim>\<open>format/avro.rs\<close>,
  \<^verbatim>\<open>format/json/mod.rs\<close> and \<^verbatim>\<open>format/protobuf/mod.rs\<close>): parsing with resolved references,
  the canonical form that identifies a schema, and the text that is stored. The parsers of
  \<open>serde_json\<close>, \<open>apache_avro\<close>, \<open>protox_parse\<close>, \<open>prost\<close> and \<open>regex\<close> are the
  operations of a \<open>third_party\<close> record; \<open>'a\<close> is the type of a parsed Avro schema.
\<close>

datatype avro_compatibility = AvroFull | AvroPartial

record 'a third_party =
  serde_from_str :: "string \<Rightarrow> string + json"
  serde_to_string :: "json \<Rightarrow> string"
  avro_parse_str :: "string \<Rightarrow> string + 'a"
  avro_parse_list :: "string list \<Rightarrow> string + 'a list"
  avro_can_read :: "'a \<Rightarrow> 'a \<Rightarrow> string + avro_compatibility"
  protox_parse :: "string \<Rightarrow> string \<Rightarrow> string + file_descriptor"
  pool_link :: "file_descriptor list \<Rightarrow> string + unit"
  descriptor_hex :: "file_descriptor \<Rightarrow> string"
  json_pointer :: "json \<Rightarrow> string \<Rightarrow> json option"
  regex_match :: "string \<Rightarrow> string \<Rightarrow> bool option"
  display_strings :: "string list \<Rightarrow> string"

definition from_str_value :: "'a third_party \<Rightarrow> string \<Rightarrow> string + json" where
  "from_str_value X s = rbind (serde_from_str X s) (\<lambda>v. Inr (json_value v))"

record resolved_reference =
  rr_name :: string
  rr_ty :: schema_type
  rr_schema :: string

datatype 'a parsed_schema =
    AvroSchema 'a string
  | JsonSchema json "(string \<times> json) list"
  | ProtobufSchema file_descriptor string

subsection \<open>Parsing\<close>

definition avro_parse :: "'a third_party \<Rightarrow> string \<Rightarrow> resolved_reference list \<Rightarrow> sr_error + 'a \<times> string" where
  "avro_parse X schema refs =
     (let err = (\<lambda>e. InvalidSchema (''Avro: '' @ e))
      in rbind (map_err err (rbind (from_str_value X schema) (\<lambda>v. Inr (serde_to_string X v)))) (\<lambda>identity.
         if refs = []
         then map_err err (rbind (avro_parse_str X schema) (\<lambda>parsed. Inr (parsed, identity)))
         else rbind (map_err err (avro_parse_list X (map rr_schema refs @ [schema]))) (\<lambda>parsed.
           if parsed = [] then Inl (InvalidSchema ''Avro: empty parse_list'')
           else Inr (last parsed, identity))))"

definition json_parse :: "'a third_party \<Rightarrow> string \<Rightarrow> resolved_reference list
    \<Rightarrow> sr_error + json \<times> (string \<times> json) list" where
  "json_parse X schema refs =
     rbind (map_err (\<lambda>e. InvalidSchema (''JSON Schema: '' @ e)) (from_str_value X schema)) (\<lambda>value.
       if \<not> is_object value \<and> \<not> is_boolean value
       then Inl (InvalidSchema ''JSON Schema must be an object or boolean'')
       else Inr (value, List.map_filter (\<lambda>r.
              map_option (\<lambda>v. (rr_name r, v)) (result_ok (from_str_value X (rr_schema r)))) refs))"

text \<open>The references of type Protobuf, parsed under their import names.\<close>

fun parse_dependencies :: "'a third_party \<Rightarrow> resolved_reference list \<Rightarrow> sr_error + file_descriptor list" where
  "parse_dependencies X [] = Inr []"
| "parse_dependencies X (r # rs) =
     (if rr_ty r \<noteq> Protobuf then parse_dependencies X rs
      else rbind (map_err (\<lambda>e. InvalidSchema (''Protobuf reference '' @ rr_name r @ '': '' @ e))
             (protox_parse X (rr_name r) (rr_schema r))) (\<lambda>dep.
           rbind (parse_dependencies X rs) (\<lambda>deps. Inr (dep # deps))))"

definition protobuf_parse :: "'a third_party \<Rightarrow> string \<Rightarrow> resolved_reference list
    \<Rightarrow> sr_error + file_descriptor \<times> string" where
  "protobuf_parse X schema refs =
     rbind (map_err (\<lambda>e. InvalidSchema (''Protobuf: '' @ e)) (protox_parse X ''schema.proto'' schema)) (\<lambda>d.
     rbind (if fd_dependency d \<noteq> [] \<or> refs \<noteq> []
            then rbind (parse_dependencies X refs) (\<lambda>deps.
                   map_err (\<lambda>e. InvalidSchema (''Protobuf link: '' @ e)) (pool_link X (deps @ [d])))
            else Inr ()) (\<lambda>_.
       Inr (d, normalize d)))"

definition parse :: "'a third_party \<Rightarrow> schema_type \<Rightarrow> string \<Rightarrow> resolved_reference list
    \<Rightarrow> sr_error + 'a parsed_schema" where
  "parse X ty schema refs = (case ty of
      Avro \<Rightarrow> rbind (avro_parse X schema refs) (\<lambda>(p, i). Inr (AvroSchema p i))
    | Json \<Rightarrow> rbind (json_parse X schema refs) (\<lambda>(v, rs). Inr (JsonSchema v rs))
    | Protobuf \<Rightarrow> rbind (protobuf_parse X schema refs) (\<lambda>(d, n). Inr (ProtobufSchema d n)))"

subsection \<open>Canonical forms\<close>

text \<open>\<open>canonicalize\<close>: compact JSON with the members of every object sorted by name.\<close>

fun canonicalize :: "'a third_party \<Rightarrow> json \<Rightarrow> string" where
  "canonicalize X (JObj kvs) =
     ''{'' @ join_with '','' (map snd (sort_key fst
        (map (\<lambda>p. (fst p, serde_to_string X (JStr (fst p)) @ '':'' @ canonicalize X (snd p))) kvs)))
     @ ''}''"
| "canonicalize X (JArr vs) = ''['' @ join_with '','' (map (canonicalize X) vs) @ '']''"
| "canonicalize X v = serde_to_string X v"

definition canonical_form :: "'a third_party \<Rightarrow> 'a parsed_schema \<Rightarrow> string" where
  "canonical_form X p = (case p of
      AvroSchema _ identity \<Rightarrow> identity
    | JsonSchema v _ \<Rightarrow> canonicalize X v
    | ProtobufSchema d _ \<Rightarrow> descriptor_hex X (d\<lparr>fd_source_info := None, fd_name := None\<rparr>))"

definition normalized_storage_form :: "'a third_party \<Rightarrow> schema_type \<Rightarrow> string
    \<Rightarrow> resolved_reference list \<Rightarrow> sr_error + string" where
  "normalized_storage_form X ty schema refs = (case ty of
      Protobuf \<Rightarrow> rbind (protobuf_parse X schema refs) (\<lambda>(_, normalised). Inr normalised)
    | _ \<Rightarrow> rbind (parse X ty schema refs) (\<lambda>_. Inr schema))"

text \<open>The composition every caller of the store uses: parse, then take the canonical form.\<close>

definition parse_canonical :: "'a third_party \<Rightarrow> schema_type \<Rightarrow> string \<Rightarrow> resolved_reference list
    \<Rightarrow> sr_error + string" where
  "parse_canonical X ty schema refs = rbind (parse X ty schema refs) (\<lambda>p. Inr (canonical_form X p))"

lemma parse_errors_invalid:
  "parse X ty schema refs = Inl e \<Longrightarrow> \<exists>m. e = InvalidSchema m"
proof -
  have dep: "parse_dependencies X rs = Inl e' \<Longrightarrow> \<exists>m. e' = InvalidSchema m" for rs e'
    by (induction rs) (auto simp: result_simps split: if_splits)
  assume "parse X ty schema refs = Inl e"
  then show ?thesis
    by (cases ty)
      (auto simp: parse_def avro_parse_def json_parse_def protobuf_parse_def Let_def result_simps
        dest: dep split: if_splits)
qed

end
