(* ===== verification/Store.thy ===== *)
theory Store
  imports Format "HOL-Library.Product_Lexorder"
begin

text \<open>
  The in-memory registry state (\<^verbatim>\<open>store/mod.rs\<close>): subjects and their versions, the schemas by
  global id, the canonical-form index that deduplicates ids, compatibility levels and modes,
  and the id and version high-water marks. Every method of \<open>StoreState\<close> is one definition;
  a method that mutates returns the new state.
\<close>

subsection \<open>State\<close>

record registered =
  reg_id :: schema_id
  reg_version :: schema_version

record registered_schema =
  rs_ty :: schema_type
  rs_schema :: string
  rs_references :: "schema_reference list"
  rs_message_type :: "string option"
  rs_extra :: "(string, json) btree_map"

record versioned_schema =
  vs_id :: schema_id
  vs_version :: schema_version
  vs_ty :: schema_type
  vs_schema :: string
  vs_references :: "schema_reference list"
  vs_message_type :: "string option"
  vs_extra :: "(string, json) btree_map"

record listed_schema =
  ls_subject :: string
  ls_version :: schema_version
  ls_id :: schema_id
  ls_ty :: schema_type
  ls_schema :: string
  ls_references :: "schema_reference list"
  ls_message_type :: "string option"

record version_entry =
  ve_version :: schema_version
  ve_id :: schema_id
  ve_deleted :: bool

record store_state =
  st_subjects :: "(string, version_entry list) btree_map"
  st_by_id :: "(schema_id, registered_schema) btree_map"
  st_by_canonical :: "(string, schema_id) btree_map"
  st_canonical_by_id :: "(schema_id, string) btree_map"
  st_global_compat :: "string option"
  st_default_compatibility :: string
  st_subject_compat :: "(string, string) btree_map"
  st_global_mode :: "string option"
  st_default_mode :: string
  st_subject_mode :: "(string, string) btree_map"
  st_max_id :: schema_id
  st_next_versions :: "(string, schema_version) btree_map"

definition with_defaults :: "string \<Rightarrow> string \<Rightarrow> store_state" where
  "with_defaults compatibility mode = \<lparr>
     st_subjects = [], st_by_id = [], st_by_canonical = [], st_canonical_by_id = [],
     st_global_compat = None, st_default_compatibility = compatibility, st_subject_compat = [],
     st_global_mode = None, st_default_mode = mode, st_subject_mode = [],
     st_max_id = default_schema_id, st_next_versions = []\<rparr>"

definition preserve_id_high_water :: "store_state \<Rightarrow> store_state \<Rightarrow> store_state" where
  "preserve_id_high_water s previous = s\<lparr>st_max_id := max (st_max_id s) (st_max_id previous)\<rparr>"

subsection \<open>References\<close>

definition id_of :: "store_state \<Rightarrow> string \<Rightarrow> schema_version \<Rightarrow> schema_id option" where
  "id_of s subject version =
     Option.bind (map_of (st_subjects s) subject) (\<lambda>vs.
       map_option ve_id (find (\<lambda>v. ve_version v = version) vs))"

definition ref_label :: "schema_reference \<Rightarrow> string" where
  "ref_label r = ref_name r @ '':'' @ ref_subject r @ '':'' @ show_int (version_raw (ref_version r))"

definition ref_key :: "schema_reference \<Rightarrow> string \<times> schema_version" where
  "ref_key r = (ref_subject r, ref_version r)"

text \<open>The schema a \<open>(subject, version)\<close> pair names.\<close>

definition target_schema :: "store_state \<Rightarrow> string \<times> schema_version \<Rightarrow> registered_schema option" where
  "target_schema s k = Option.bind (id_of s (fst k) (snd k)) (map_of (st_by_id s))"

type_synonym resolve_state = "resolved_reference list \<times> string set \<times> (string \<times> schema_version) set"

definition store_keys :: "store_state \<Rightarrow> (string \<times> schema_version) set" where
  "store_keys s = (\<Union>(subject, vs)\<in>set (st_subjects s). (\<lambda>v. (subject, ve_version v)) ` set vs)"

lemma finite_store_keys [simp]: "finite (store_keys s)"
  by (auto simp: store_keys_def)

lemma target_schema_key: "target_schema s k = Some reg \<Longrightarrow> k \<in> store_keys s"
  by (cases k)
    (force simp: target_schema_def id_of_def store_keys_def bind_eq_Some_conv
      dest!: map_of_SomeD find_SomeD)

text \<open>\<open>resolve_into\<close>: depth-first, dependencies before the schema that refers to them, each
  \<open>(subject, version)\<close> visited once, one entry per reference name.\<close>

definition push_resolved :: "schema_reference \<Rightarrow> registered_schema \<Rightarrow> resolve_state \<Rightarrow> resolve_state" where
  "push_resolved r reg st = (case st of (out, seen, visited) \<Rightarrow>
     if ref_name r \<in> seen then (out, seen, visited)
     else (out @ [\<lparr>rr_name = ref_name r, rr_ty = rs_ty reg, rr_schema = rs_schema reg\<rparr>],
           insert (ref_name r) seen, visited))"

abbreviation visited_of :: "resolve_state \<Rightarrow> (string \<times> schema_version) set" where
  "visited_of st \<equiv> snd (snd st)"

definition mark_visited :: "schema_reference \<Rightarrow> resolve_state \<Rightarrow> resolve_state" where
  "mark_visited r st = (fst st, fst (snd st), insert (ref_key r) (visited_of st))"

lemma visited_push_resolved [simp]: "visited_of (push_resolved r reg st) = visited_of st"
  by (cases st) (simp add: push_resolved_def)

lemma visited_mark_visited [simp]: "visited_of (mark_visited r st) = insert (ref_key r) (visited_of st)"
  by (simp add: mark_visited_def)

function resolve_into :: "store_state \<Rightarrow> schema_reference list \<Rightarrow> resolve_state \<Rightarrow> sr_error + resolve_state" where
  "resolve_into s [] st = Inr st"
| "resolve_into s (r # rs) st =
     (if ref_key r \<in> visited_of st then resolve_into s rs st
      else case target_schema s (ref_key r) of
             None \<Rightarrow> Inl (ReferenceNotFound (ref_label r))
           | Some reg \<Rightarrow>
               rbind (resolve_into s (rs_references reg) (mark_visited r st)) (\<lambda>st'.
                 resolve_into s rs (push_resolved r reg st')))"
  by pat_completeness auto

lemma resolve_into_visited_grows:
  "resolve_into_dom (s, rs, st) \<Longrightarrow> resolve_into s rs st = Inr st' \<Longrightarrow> visited_of st \<subseteq> visited_of st'"
proof (induction s rs st arbitrary: st' rule: resolve_into.pinduct)
  case (1 s st)
  then show ?case by (simp add: resolve_into.psimps)
next
  case (2 s r rs st)
  show ?case
  proof (cases "ref_key r \<in> visited_of st")
    case True
    with 2 show ?thesis by (simp add: resolve_into.psimps)
  next
    case False
    note new = this
    from 2(5) obtain reg st1 where t: "target_schema s (ref_key r) = Some reg"
      and inner: "resolve_into s (rs_references reg) (mark_visited r st) = Inr st1"
      and rest: "resolve_into s rs (push_resolved r reg st1) = Inr st'"
      using new by (auto simp: resolve_into.psimps(2) [OF 2(1)] rbind_Inr_iff split: option.splits)
    have "visited_of (mark_visited r st) \<subseteq> visited_of st1"
      by (rule 2(3) [OF new t inner])
    moreover have "visited_of (push_resolved r reg st1) \<subseteq> visited_of st'"
      by (rule 2(4) [OF new t inner rest])
    ultimately show ?thesis by auto
  qed
qed

termination resolve_into
proof (relation "measures [\<lambda>(s, rs, st). card (store_keys s - visited_of st), \<lambda>(s, rs, st). length rs]")
  show "wf (measures [\<lambda>(s, rs, st). card (store_keys s - visited_of st), \<lambda>(s, rs, st). length rs])"
    by simp
next
  fix s r rs st
  assume "ref_key r \<in> visited_of st"
  then show "((s, rs, st), s, r # rs, st) \<in> measures
    [\<lambda>(s, rs, st). card (store_keys s - visited_of st), \<lambda>(s, rs, st). length rs]"
    by simp
next
  fix s r rs and st :: resolve_state and reg
  assume "ref_key r \<notin> visited_of st" "target_schema s (ref_key r) = Some reg"
  then have "store_keys s - insert (ref_key r) (visited_of st) \<subset> store_keys s - visited_of st"
    using target_schema_key by blast
  then show "((s, rs_references reg, mark_visited r st), s, r # rs, st) \<in> measures
    [\<lambda>(s, rs, st). card (store_keys s - visited_of st), \<lambda>(s, rs, st). length rs]"
    by (simp add: psubset_card_mono)
next
  fix s r rs and st st' :: resolve_state and reg
  assume "ref_key r \<notin> visited_of st" "target_schema s (ref_key r) = Some reg"
    "resolve_into_dom (s, rs_references reg, mark_visited r st)"
    "resolve_into s (rs_references reg) (mark_visited r st) = Inr st'"
  then have "visited_of (mark_visited r st) \<subseteq> visited_of st'"
    by (intro resolve_into_visited_grows)
  then have "store_keys s - visited_of st' \<subset> store_keys s - visited_of st"
    using \<open>ref_key r \<notin> visited_of st\<close> target_schema_key [OF \<open>target_schema s (ref_key r) = Some reg\<close>]
    by auto
  then show "((s, rs, push_resolved r reg st'), s, r # rs, st) \<in> measures
    [\<lambda>(s, rs, st). card (store_keys s - visited_of st), \<lambda>(s, rs, st). length rs]"
    by (simp add: psubset_card_mono)
qed

definition resolve_closure :: "store_state \<Rightarrow> schema_reference list \<Rightarrow> sr_error + resolved_reference list" where
  "resolve_closure s references =
     rbind (resolve_into s references ([], {}, {})) (\<lambda>st. Inr (fst st))"

subsection \<open>Registration\<close>

text \<open>The separators \<open>U+0000\<close>, \<open>U+0001\<close> and \<open>U+0002\<close> of the deduplication key.\<close>

abbreviation sep0 :: char where "sep0 \<equiv> CHR 0x00"
abbreviation sep1 :: char where "sep1 \<equiv> CHR 0x01"
abbreviation sep2 :: char where "sep2 \<equiv> CHR 0x02"

definition ref_fingerprint :: "schema_reference \<Rightarrow> string" where
  "ref_fingerprint r =
     ref_name r @ [sep1] @ ref_subject r @ [sep1] @ show_int (version_raw (ref_version r))"

definition dedup_key :: "string \<Rightarrow> schema_reference list \<Rightarrow> string option \<Rightarrow> string" where
  "dedup_key canonical references message_type =
     (if references = [] \<and> message_type = None then canonical
      else canonical @ [sep0] @ join_with [sep2] (sort (map ref_fingerprint references))
           @ [sep0] @ unwrap_or message_type [])"

definition find_under_subject_canonical :: "store_state \<Rightarrow> string \<Rightarrow> string \<Rightarrow> bool \<Rightarrow> registered option" where
  "find_under_subject_canonical s subject canonical include_deleted =
     Option.bind (map_of (st_by_canonical s) canonical) (\<lambda>i.
     Option.bind (map_of (st_subjects s) subject) (\<lambda>vs.
     Option.bind (find (\<lambda>v. ve_id v = i \<and> (include_deleted \<or> \<not> ve_deleted v)) vs) (\<lambda>e.
       Some \<lparr>reg_id = i, reg_version = ve_version e\<rparr>)))"

definition bump_next :: "string \<Rightarrow> schema_version \<Rightarrow> store_state \<Rightarrow> store_state" where
  "bump_next subject next s = s\<lparr>st_next_versions :=
     btree_insert subject (case map_of (st_next_versions s) subject of
        None \<Rightarrow> next | Some current \<Rightarrow> max current next) (st_next_versions s)\<rparr>"

definition observe_version :: "string \<Rightarrow> schema_version \<Rightarrow> store_state \<Rightarrow> store_state" where
  "observe_version subject version s =
     bump_next subject (SchemaVersion (i32_saturating_add (version_raw version) 1)) s"

definition observe_next_version :: "string \<Rightarrow> schema_version \<Rightarrow> store_state \<Rightarrow> store_state" where
  "observe_next_version subject next s = bump_next subject next s"

definition next_version :: "store_state \<Rightarrow> string \<Rightarrow> schema_version" where
  "next_version s subject = unwrap_or (map_of (st_next_versions s) subject) (SchemaVersion 1)"

text \<open>The branch of \<open>register\<close> for a canonical form that has no id yet.\<close>

definition assign_id :: "string \<Rightarrow> registered_schema \<Rightarrow> store_state \<Rightarrow> schema_id \<times> store_state" where
  "assign_id key reg s = (case map_of (st_by_canonical s) key of
      Some i \<Rightarrow> (i, s)
    | None \<Rightarrow>
        (let i = SchemaId (i32_add (id_raw (st_max_id s)) 1)
         in (i, s\<lparr>st_max_id := i,
                  st_by_canonical := btree_insert key i (st_by_canonical s),
                  st_canonical_by_id := btree_insert i key (st_canonical_by_id s),
                  st_by_id := btree_insert i reg (st_by_id s)\<rparr>)))"

definition push_version :: "string \<Rightarrow> version_entry \<Rightarrow> store_state \<Rightarrow> store_state" where
  "push_version subject e s = s\<lparr>st_subjects :=
     btree_insert subject (unwrap_or (map_of (st_subjects s) subject) [] @ [e]) (st_subjects s)\<rparr>"

text \<open>The rest of \<open>register\<close> once the subject has no version of the schema.\<close>

definition register_new :: "string \<Rightarrow> string \<Rightarrow> registered_schema \<Rightarrow> store_state \<Rightarrow> registered \<times> store_state" where
  "register_new key subject reg s =
     (let (i, s1) = assign_id key reg s;
          v = next_version s1 subject
      in (\<lparr>reg_id = i, reg_version = v\<rparr>,
          push_version subject \<lparr>ve_version = v, ve_id = i, ve_deleted = False\<rparr>
            (observe_version subject v s1)))"

definition register :: "'a third_party \<Rightarrow> store_state \<Rightarrow> string \<Rightarrow> schema_type \<Rightarrow> string
    \<Rightarrow> schema_reference list \<Rightarrow> string option \<Rightarrow> sr_error + registered \<times> store_state" where
  "register X s subject ty schema references message_type =
     rbind (resolve_closure s references) (\<lambda>resolved.
     rbind (parse_canonical X ty schema resolved) (\<lambda>canonical.
       let key = dedup_key canonical references message_type
       in case find_under_subject_canonical s subject key True of
            Some existing \<Rightarrow> Inr (existing, s)
          | None \<Rightarrow> Inr (register_new key subject
              \<lparr>rs_ty = ty, rs_schema = schema, rs_references = references,
               rs_message_type = message_type, rs_extra = []\<rparr> s)))"

subsection \<open>Replay\<close>

definition forget_canonical :: "schema_id \<Rightarrow> store_state \<Rightarrow> store_state" where
  "forget_canonical i s = (case map_of (st_canonical_by_id s) i of
      None \<Rightarrow> s
    | Some old_key \<Rightarrow>
        (let s1 = s\<lparr>st_canonical_by_id := btree_remove i (st_canonical_by_id s)\<rparr>
         in if map_of (st_by_canonical s1) old_key = Some i
            then s1\<lparr>st_by_canonical := btree_remove old_key (st_by_canonical s1)\<rparr> else s1))"

definition bind_canonical :: "schema_id \<Rightarrow> string \<Rightarrow> store_state \<Rightarrow> store_state" where
  "bind_canonical i key s =
     (let old = map_of (st_by_canonical s) key;
          s1 = s\<lparr>st_by_canonical := btree_insert key i (st_by_canonical s)\<rparr>;
          s2 = (case old of
                  None \<Rightarrow> s1
                | Some old_id \<Rightarrow>
                    (if old_id \<noteq> i \<and> map_of (st_canonical_by_id s1) old_id = Some key
                     then s1\<lparr>st_canonical_by_id := btree_remove old_id (st_canonical_by_id s1)\<rparr>
                     else s1))
      in s2\<lparr>st_canonical_by_id := btree_insert i key (st_canonical_by_id s2)\<rparr>)"

text \<open>The version entry is updated in place, or appended and the list re-sorted.\<close>

fun update_entry :: "schema_version \<Rightarrow> schema_id \<Rightarrow> bool \<Rightarrow> version_entry list \<Rightarrow> version_entry list" where
  "update_entry v i d [] = []"
| "update_entry v i d (e # es) =
     (if ve_version e = v then e\<lparr>ve_id := i, ve_deleted := d\<rparr> # es else e # update_entry v i d es)"

definition upsert_entry :: "schema_version \<Rightarrow> schema_id \<Rightarrow> bool \<Rightarrow> version_entry list \<Rightarrow> version_entry list" where
  "upsert_entry v i d es =
     (if find (\<lambda>e. ve_version e = v) es \<noteq> None then update_entry v i d es
      else sort_key ve_version (es @ [\<lparr>ve_version = v, ve_id = i, ve_deleted = d\<rparr>]))"

definition set_entry :: "schema_value \<Rightarrow> store_state \<Rightarrow> store_state" where
  "set_entry val s = s\<lparr>st_subjects := btree_insert (sval_subject val)
     (upsert_entry (sval_version val) (sval_id val) (sval_deleted val)
       (unwrap_or (map_of (st_subjects s) (sval_subject val)) [])) (st_subjects s)\<rparr>"

definition stored_schema :: "schema_value \<Rightarrow> registered_schema" where
  "stored_schema val = \<lparr>rs_ty = from_wire (sval_schema_type val), rs_schema = sval_schema val,
     rs_references = sval_references val, rs_message_type = sval_message_type val,
     rs_extra = sval_extra val\<rparr>"

definition index_canonical :: "'a third_party \<Rightarrow> schema_value \<Rightarrow> store_state \<Rightarrow> store_state" where
  "index_canonical X val s = (case resolve_closure s (sval_references val) of
      Inl _ \<Rightarrow> s
    | Inr resolved \<Rightarrow>
        (case parse_canonical X (from_wire (sval_schema_type val)) (sval_schema val) resolved of
           Inl _ \<Rightarrow> s
         | Inr canonical \<Rightarrow>
             bind_canonical (sval_id val)
               (dedup_key canonical (sval_references val) (sval_message_type val)) s))"

definition apply_schema :: "'a third_party \<Rightarrow> schema_value \<Rightarrow> store_state \<Rightarrow> store_state" where
  "apply_schema X val s =
     (let s1 = s\<lparr>st_max_id := max (st_max_id s) (sval_id val)\<rparr>;
          s2 = observe_version (sval_subject val) (sval_version val) s1;
          s3 = forget_canonical (sval_id val) s2;
          s4 = s3\<lparr>st_by_id := btree_insert (sval_id val) (stored_schema val) (st_by_id s3)\<rparr>;
          s5 = index_canonical X val s4
      in set_entry val s5)"

subsection \<open>Deletes\<close>

definition soft_delete_subject :: "string \<Rightarrow> store_state \<Rightarrow> schema_version list option \<times> store_state" where
  "soft_delete_subject subject s = (case map_of (st_subjects s) subject of
      None \<Rightarrow> (None, s)
    | Some vs \<Rightarrow>
        (if vs = [] then (None, s)
         else (Some (map ve_version vs),
               s\<lparr>st_subjects := btree_insert subject (map (\<lambda>v. v\<lparr>ve_deleted := True\<rparr>) vs)
                  (st_subjects s)\<rparr>)))"

definition permanent_delete_version :: "string \<Rightarrow> schema_version \<Rightarrow> store_state
    \<Rightarrow> schema_version option \<times> store_state" where
  "permanent_delete_version subject version s =
     (let s1 = observe_version subject version s
      in case map_of (st_subjects s1) subject of
           None \<Rightarrow> (None, s1)
         | Some vs \<Rightarrow>
             (let vs' = filter (\<lambda>v. ve_version v \<noteq> version) vs;
                  s2 = s1\<lparr>st_subjects := btree_insert subject vs' (st_subjects s1)\<rparr>
              in if length vs' = length vs then (None, s2)
                 else if vs' = [] then (Some version, s2\<lparr>st_subjects := btree_remove subject (st_subjects s2)\<rparr>)
                 else (Some version, s2)))"

subsection \<open>Levels and modes\<close>

definition set_global_compat :: "string \<Rightarrow> store_state \<Rightarrow> store_state" where
  "set_global_compat level s = s\<lparr>st_global_compat := Some level\<rparr>"

definition set_subject_compat :: "string \<Rightarrow> string \<Rightarrow> store_state \<Rightarrow> store_state" where
  "set_subject_compat subject level s =
     s\<lparr>st_subject_compat := btree_insert subject level (st_subject_compat s)\<rparr>"

definition clear_subject_compat :: "string \<Rightarrow> store_state \<Rightarrow> store_state" where
  "clear_subject_compat subject s =
     s\<lparr>st_subject_compat := btree_remove subject (st_subject_compat s)\<rparr>"

definition global_compat :: "store_state \<Rightarrow> string" where
  "global_compat s = unwrap_or (st_global_compat s) (st_default_compatibility s)"

definition subject_compat :: "store_state \<Rightarrow> string \<Rightarrow> string option" where
  "subject_compat s subject = map_of (st_subject_compat s) subject"

definition set_global_mode :: "string \<Rightarrow> store_state \<Rightarrow> store_state" where
  "set_global_mode mode s = s\<lparr>st_global_mode := Some mode\<rparr>"

definition set_subject_mode :: "string \<Rightarrow> string \<Rightarrow> store_state \<Rightarrow> store_state" where
  "set_subject_mode subject mode s =
     s\<lparr>st_subject_mode := btree_insert subject mode (st_subject_mode s)\<rparr>"

definition clear_subject_mode :: "string \<Rightarrow> store_state \<Rightarrow> store_state" where
  "clear_subject_mode subject s = s\<lparr>st_subject_mode := btree_remove subject (st_subject_mode s)\<rparr>"

definition clear_global_mode :: "store_state \<Rightarrow> store_state" where
  "clear_global_mode s = s\<lparr>st_global_mode := None\<rparr>"

definition global_mode :: "store_state \<Rightarrow> string" where
  "global_mode s = unwrap_or (st_global_mode s) (st_default_mode s)"

definition subject_mode :: "store_state \<Rightarrow> string \<Rightarrow> string option" where
  "subject_mode s subject = map_of (st_subject_mode s) subject"

definition effective_mode :: "store_state \<Rightarrow> string \<Rightarrow> string" where
  "effective_mode s subject = unwrap_or (map_of (st_subject_mode s) subject) (global_mode s)"

subsection \<open>Queries\<close>

definition subjects :: "store_state \<Rightarrow> bool \<Rightarrow> string list" where
  "subjects s include_deleted =
     map fst (filter (\<lambda>p. list_ex (\<lambda>v. include_deleted \<or> \<not> ve_deleted v) (snd p)) (st_subjects s))"

definition versions :: "store_state \<Rightarrow> string \<Rightarrow> bool \<Rightarrow> schema_version list option" where
  "versions s subject include_deleted =
     Option.bind (map_of (st_subjects s) subject) (\<lambda>vs.
       let out = map ve_version (filter (\<lambda>v. include_deleted \<or> \<not> ve_deleted v) vs)
       in if out = [] then None else Some out)"

definition version :: "store_state \<Rightarrow> string \<Rightarrow> schema_version option \<Rightarrow> bool \<Rightarrow> versioned_schema option" where
  "version s subject ver include_deleted =
     Option.bind (map_of (st_subjects s) subject) (\<lambda>vs.
     Option.bind (case ver of
         Some v \<Rightarrow> find (\<lambda>e. ve_version e = v \<and> (include_deleted \<or> \<not> ve_deleted e)) vs
       | None \<Rightarrow> rfind (\<lambda>e. include_deleted \<or> \<not> ve_deleted e) vs) (\<lambda>e.
     Option.bind (map_of (st_by_id s) (ve_id e)) (\<lambda>reg.
       Some \<lparr>vs_id = ve_id e, vs_version = ve_version e, vs_ty = rs_ty reg,
             vs_schema = rs_schema reg, vs_references = rs_references reg,
             vs_message_type = rs_message_type reg, vs_extra = rs_extra reg\<rparr>)))"

definition schema_by_id :: "store_state \<Rightarrow> schema_id \<Rightarrow> bool
    \<Rightarrow> (schema_type \<times> string \<times> schema_reference list \<times> string option) option" where
  "schema_by_id s i include_deleted =
     Option.bind (map_of (st_by_id s) i) (\<lambda>reg.
       if list_ex (\<lambda>v. ve_id v = i \<and> (include_deleted \<or> \<not> ve_deleted v))
            (concat (btree_values (st_subjects s)))
       then Some (rs_ty reg, rs_schema reg, rs_references reg, rs_message_type reg)
       else None)"

definition schema_id_subject_versions :: "store_state \<Rightarrow> schema_id \<Rightarrow> bool \<Rightarrow> (string \<times> schema_version) list" where
  "schema_id_subject_versions s i include_deleted =
     concat (map (\<lambda>(subject, vs). map (\<lambda>v. (subject, ve_version v))
       (filter (\<lambda>v. ve_id v = i \<and> (include_deleted \<or> \<not> ve_deleted v)) vs)) (st_subjects s))"

definition all_schemas :: "store_state \<Rightarrow> bool \<Rightarrow> listed_schema list" where
  "all_schemas s include_deleted =
     sort_key (\<lambda>l. (ls_subject l, ls_version l))
       (concat (map (\<lambda>(subject, vs). List.map_filter (\<lambda>v.
          if include_deleted \<or> \<not> ve_deleted v
          then map_option (\<lambda>reg. \<lparr>ls_subject = subject, ls_version = ve_version v, ls_id = ve_id v,
                 ls_ty = rs_ty reg, ls_schema = rs_schema reg, ls_references = rs_references reg,
                 ls_message_type = rs_message_type reg\<rparr>) (map_of (st_by_id s) (ve_id v))
          else None) vs) (st_subjects s)))"

definition versions_schemas :: "store_state \<Rightarrow> string
    \<Rightarrow> (schema_type \<times> string \<times> schema_reference list) list" where
  "versions_schemas s subject = (case map_of (st_subjects s) subject of
      None \<Rightarrow> []
    | Some entries \<Rightarrow> List.map_filter (\<lambda>e.
        map_option (\<lambda>reg. (rs_ty reg, rs_schema reg, rs_references reg))
          (map_of (st_by_id s) (ve_id e)))
        (filter (\<lambda>e. \<not> ve_deleted e) entries))"

definition refers_to :: "store_state \<Rightarrow> string \<Rightarrow> schema_version \<Rightarrow> bool \<Rightarrow> version_entry \<Rightarrow> bool" where
  "refers_to s subject ver include_deleted e \<longleftrightarrow>
     \<not> (ve_deleted e \<and> \<not> include_deleted) \<and>
     (case map_of (st_by_id s) (ve_id e) of
        None \<Rightarrow> False
      | Some reg \<Rightarrow>
          list_ex (\<lambda>r. ref_subject r = subject \<and> ref_version r = ver) (rs_references reg))"

definition referenced_by :: "store_state \<Rightarrow> string \<Rightarrow> schema_version \<Rightarrow> bool \<Rightarrow> schema_id list" where
  "referenced_by s subject ver include_deleted =
     sort (foldl (\<lambda>ids e.
        if refers_to s subject ver include_deleted e \<and> ve_id e \<notin> set ids
        then ids @ [ve_id e] else ids) [] (concat (btree_values (st_subjects s))))"

definition schema_id_conflicts :: "'a third_party \<Rightarrow> store_state \<Rightarrow> schema_id \<Rightarrow> schema_type \<Rightarrow> string
    \<Rightarrow> schema_reference list \<Rightarrow> string option \<Rightarrow> sr_error + bool" where
  "schema_id_conflicts X s i ty schema references message_type = (case map_of (st_by_id s) i of
      None \<Rightarrow> Inr False
    | Some existing \<Rightarrow>
        (if rs_ty existing \<noteq> ty then Inr True
         else rbind (resolve_closure s (rs_references existing)) (\<lambda>er.
              rbind (parse_canonical X (rs_ty existing) (rs_schema existing) er) (\<lambda>ec.
              rbind (resolve_closure s references) (\<lambda>cr.
              rbind (parse_canonical X ty schema cr) (\<lambda>cc.
                Inr (dedup_key ec (rs_references existing) (rs_message_type existing)
                     \<noteq> dedup_key cc references message_type)))))))"

definition find_under_subject :: "'a third_party \<Rightarrow> store_state \<Rightarrow> string \<Rightarrow> schema_type \<Rightarrow> string
    \<Rightarrow> schema_reference list \<Rightarrow> string option \<Rightarrow> bool \<Rightarrow> registered option" where
  "find_under_subject X s subject ty schema references message_type include_deleted =
     Option.bind (result_ok (resolve_closure s references)) (\<lambda>resolved.
     Option.bind (result_ok (parse_canonical X ty schema resolved)) (\<lambda>canonical.
       find_under_subject_canonical s subject (dedup_key canonical references message_type)
         include_deleted))"

end
