(* ===== verification/Store_Resolve.thy ===== *)
theory Store_Resolve
  imports Store
begin

text \<open>
  Reference resolution: \<open>resolve_closure\<close> returns for every store (its recursion visits each
  version at most once), succeeds exactly when every version the references reach exists, and
  lists each reference name once, with the schema it stands for.
\<close>

text \<open>The versions that a reference list reaches through the references of stored schemas.\<close>

inductive reaches :: "store_state \<Rightarrow> schema_reference list \<Rightarrow> string \<times> schema_version \<Rightarrow> bool"
  for s :: store_state and refs :: "schema_reference list" where
  direct: "r \<in> set refs \<Longrightarrow> reaches s refs (ref_key r)"
| step: "reaches s refs k \<Longrightarrow> target_schema s k = Some reg \<Longrightarrow> r \<in> set (rs_references reg)
    \<Longrightarrow> reaches s refs (ref_key r)"

lemma id_of_cong: "st_subjects s = st_subjects t \<Longrightarrow> id_of s = id_of t"
  by (simp add: id_of_def fun_eq_iff)

lemma reaches_mono:
  "reaches s rs k \<Longrightarrow> set rs \<subseteq> set rs' \<Longrightarrow> reaches s rs' k"
  by (induction rule: reaches.induct) (auto intro: reaches.intros)

lemma reaches_trans:
  "reaches s (rs_references reg) k \<Longrightarrow> target_schema s k0 = Some reg \<Longrightarrow> reaches s rs k0
    \<Longrightarrow> reaches s rs k"
  by (induction rule: reaches.induct) (auto intro: reaches.intros)

text \<open>The two shapes of a step of the walk.\<close>

lemma resolve_into_visited:
  "ref_key r \<in> visited_of st \<Longrightarrow> resolve_into s (r # rs) st = resolve_into s rs st"
  by simp

lemma resolve_into_new:
  "ref_key r \<notin> visited_of st \<Longrightarrow> target_schema s (ref_key r) = Some reg \<Longrightarrow>
    resolve_into s (r # rs) st =
      rbind (resolve_into s (rs_references reg) (mark_visited r st)) (\<lambda>st'.
        resolve_into s rs (push_resolved r reg st'))"
  by simp

lemma resolve_into_missing:
  "ref_key r \<notin> visited_of st \<Longrightarrow> target_schema s (ref_key r) = None \<Longrightarrow>
    resolve_into s (r # rs) st = Inl (ReferenceNotFound (ref_label r))"
  by simp

declare resolve_into.simps(2) [simp del]

text \<open>A set of versions is closed over a base when each member outside the base exists and
  has its references inside the set.\<close>

definition closed_over :: "store_state \<Rightarrow> (string \<times> schema_version) set \<Rightarrow> (string \<times> schema_version) set \<Rightarrow> bool" where
  "closed_over s base vis \<longleftrightarrow> base \<subseteq> vis \<and>
     (\<forall>k\<in>vis - base. \<exists>reg. target_schema s k = Some reg \<and> ref_key ` set (rs_references reg) \<subseteq> vis)"

lemma closed_over_refl: "closed_over s v v"
  by (simp add: closed_over_def)

lemma closed_over_trans: "closed_over s u v \<Longrightarrow> closed_over s v w \<Longrightarrow> closed_over s u w"
  unfolding closed_over_def by (meson Diff_iff subset_trans subsetD)

lemma closed_over_insert:
  assumes "closed_over s (insert k u) v" "target_schema s k = Some reg"
    "ref_key ` set (rs_references reg) \<subseteq> v"
  shows "closed_over s u v"
  using assms unfolding closed_over_def by blast

lemma resolve_into_closed:
  "resolve_into s rs st = Inr st' \<Longrightarrow>
    ref_key ` set rs \<subseteq> visited_of st' \<and> closed_over s (visited_of st) (visited_of st')"
proof (induction s rs st arbitrary: st' rule: resolve_into.induct)
  case (1 s st)
  then show ?case by (simp add: closed_over_refl)
next
  case (2 s r rs st)
  show ?case
  proof (cases "ref_key r \<in> visited_of st")
    case True
    with 2 show ?thesis
      by (auto simp: resolve_into_visited closed_over_def)
  next
    case False
    note new = this
    from 2(4) obtain reg st1 where t: "target_schema s (ref_key r) = Some reg"
      and inner: "resolve_into s (rs_references reg) (mark_visited r st) = Inr st1"
      and rest: "resolve_into s rs (push_resolved r reg st1) = Inr st'"
      by (cases "target_schema s (ref_key r)")
        (auto simp: resolve_into_new [OF new] resolve_into_missing [OF new] rbind_Inr_iff)
    note I = 2(2) [OF new t inner]
    note R = 2(3) [OF new t inner rest]
    have "closed_over s (visited_of st) (visited_of st1)"
      using I closed_over_insert [OF _ t] by auto
    then have "closed_over s (visited_of st) (visited_of st')"
      using R closed_over_trans by auto
    moreover have "ref_key r \<in> visited_of st'"
      using I R by (auto simp: closed_over_def)
    ultimately show ?thesis using R by auto
  qed
qed

lemma resolve_into_error:
  "resolve_into s rs st = Inl e \<Longrightarrow>
    \<exists>r. reaches s rs (ref_key r) \<and> target_schema s (ref_key r) = None \<and>
      e = ReferenceNotFound (ref_label r)"
proof (induction s rs st rule: resolve_into.induct)
  case (1 s st)
  then show ?case by simp
next
  case (2 s r rs st)
  have grow: "reaches s rs k \<Longrightarrow> reaches s (r # rs) k" for k
    by (rule reaches_mono) auto
  have head: "reaches s (r # rs) (ref_key r)" by (rule reaches.direct) simp
  show ?case
  proof (cases "ref_key r \<in> visited_of st")
    case True
    then have "resolve_into s rs st = Inl e"
      using 2(4) by (simp add: resolve_into_visited)
    from 2(1) [OF True this] show ?thesis using grow by blast
  next
    case False
    note new = this
    show ?thesis
    proof (cases "target_schema s (ref_key r)")
      case None
      with new 2(4) head show ?thesis by (auto simp: resolve_into_missing)
    next
      case (Some reg)
      with new 2(4) consider
          "resolve_into s (rs_references reg) (mark_visited r st) = Inl e"
        | st1 where "resolve_into s (rs_references reg) (mark_visited r st) = Inr st1"
            "resolve_into s rs (push_resolved r reg st1) = Inl e"
        by (auto simp: resolve_into_new rbind_Inl_iff)
      then show ?thesis
      proof cases
        case 1
        with 2(2) [OF new Some] show ?thesis
          using reaches_trans [OF _ Some head] by blast
      next
        case rest: 2
        with 2(3) [OF new Some] rest grow show ?thesis by blast
      qed
    qed
  qed
qed

lemma closed_over_reaches:
  assumes "closed_over s {} vis" "ref_key ` set refs \<subseteq> vis" "reaches s refs k"
  shows "k \<in> vis"
  using assms(3)
proof (induction rule: reaches.induct)
  case (direct r)
  with assms(2) show ?case by auto
next
  case (step k reg r)
  with assms(1) show ?case unfolding closed_over_def by fastforce
qed

lemma resolve_closure_ok:
  assumes "resolve_closure s refs = Inr out" "reaches s refs k"
  shows "target_schema s k \<noteq> None"
proof -
  obtain st where st: "resolve_into s refs ([], {}, {}) = Inr st"
    using assms(1) by (auto simp: resolve_closure_def rbind_Inr_iff)
  then have "closed_over s {} (visited_of st)" "ref_key ` set refs \<subseteq> visited_of st"
    using resolve_into_closed by fastforce+
  then show ?thesis
    using closed_over_reaches [OF _ _ assms(2)] unfolding closed_over_def by blast
qed

lemma resolve_closure_refs_exist:
  "resolve_closure s refs = Inr out \<Longrightarrow> r \<in> set refs \<Longrightarrow> target_schema s (ref_key r) \<noteq> None"
  by (rule resolve_closure_ok) (auto intro: reaches.direct)

text \<open>What the walk emits: one entry per name, each the schema of a reached reference.\<close>

definition resolved_from :: "store_state \<Rightarrow> schema_reference list \<Rightarrow> resolved_reference \<Rightarrow> bool" where
  "resolved_from s refs x \<longleftrightarrow> (\<exists>r reg. reaches s refs (ref_key r) \<and>
     target_schema s (ref_key r) = Some reg \<and>
     x = \<lparr>rr_name = ref_name r, rr_ty = rs_ty reg, rr_schema = rs_schema reg\<rparr>)"

definition names_ok :: "resolve_state \<Rightarrow> bool" where
  "names_ok st \<longleftrightarrow> distinct (map rr_name (fst st)) \<and> fst (snd st) = set (map rr_name (fst st))"

lemma names_ok_push: "names_ok st \<Longrightarrow> names_ok (push_resolved r reg st)"
  by (cases st) (auto simp: names_ok_def push_resolved_def)

lemma names_ok_mark: "names_ok st \<Longrightarrow> names_ok (mark_visited r st)"
  by (simp add: names_ok_def mark_visited_def)

lemma resolve_into_output:
  "resolve_into s rs st = Inr st' \<Longrightarrow> names_ok st \<Longrightarrow>
    names_ok st' \<and> (\<forall>x\<in>set (fst st'). x \<in> set (fst st) \<or> resolved_from s rs x)"
proof (induction s rs st arbitrary: st' rule: resolve_into.induct)
  case (1 s st)
  then show ?case by simp
next
  case (2 s r rs st)
  have grow: "resolved_from s rs x \<Longrightarrow> resolved_from s (r # rs) x" for x
    unfolding resolved_from_def using reaches_mono [of s rs _ "r # rs"] by fastforce
  show ?case
  proof (cases "ref_key r \<in> visited_of st")
    case True
    with 2 grow show ?thesis by (fastforce simp: resolve_into_visited)
  next
    case False
    note new = this
    from 2(4) obtain reg st1 where t: "target_schema s (ref_key r) = Some reg"
      and inner: "resolve_into s (rs_references reg) (mark_visited r st) = Inr st1"
      and rest: "resolve_into s rs (push_resolved r reg st1) = Inr st'"
      by (cases "target_schema s (ref_key r)")
        (auto simp: resolve_into_new [OF new] resolve_into_missing [OF new] rbind_Inr_iff)
    have head: "reaches s (r # rs) (ref_key r)" by (rule reaches.direct) simp
    have I: "names_ok st1 \<and> (\<forall>x\<in>set (fst st1). x \<in> set (fst st) \<or> resolved_from s (rs_references reg) x)"
      using 2(2) [OF new t inner] names_ok_mark [OF 2(5)] by (simp add: mark_visited_def)
    have R: "names_ok st' \<and> (\<forall>x\<in>set (fst st').
        x \<in> set (fst (push_resolved r reg st1)) \<or> resolved_from s rs x)"
      using 2(3) [OF new t inner rest] I names_ok_push by blast
    have up: "resolved_from s (rs_references reg) x \<Longrightarrow> resolved_from s (r # rs) x" for x
      unfolding resolved_from_def using reaches_trans [OF _ t head] by blast
    have own: "resolved_from s (r # rs) \<lparr>rr_name = ref_name r, rr_ty = rs_ty reg, rr_schema = rs_schema reg\<rparr>"
      unfolding resolved_from_def using head t by blast
    have "x \<in> set (fst (push_resolved r reg st1)) \<Longrightarrow> x \<in> set (fst st) \<or> resolved_from s (r # rs) x" for x
      using I up own by (cases st1) (auto simp: push_resolved_def split: if_splits)
    with R grow show ?thesis by blast
  qed
qed

lemma resolve_closure_output:
  assumes "resolve_closure s refs = Inr out"
  shows "distinct (map rr_name out)" "\<And>x. x \<in> set out \<Longrightarrow> resolved_from s refs x"
proof -
  obtain st where "resolve_into s refs ([], {}, {}) = Inr st" "out = fst st"
    using assms by (auto simp: resolve_closure_def rbind_Inr_iff)
  moreover have "names_ok ([], {}, {})" by (simp add: names_ok_def)
  ultimately show "distinct (map rr_name out)" "\<And>x. x \<in> set out \<Longrightarrow> resolved_from s refs x"
    using resolve_into_output by (fastforce simp: names_ok_def)+
qed

text \<open>Resolution depends on the store only through the schemas it reaches.\<close>

lemma resolve_into_transfer:
  "resolve_into s rs st = Inr st' \<Longrightarrow>
    (\<And>k reg. target_schema s k = Some reg \<Longrightarrow> target_schema s' k = Some reg) \<Longrightarrow>
    resolve_into s' rs st = Inr st'"
proof (induction s rs st arbitrary: st' rule: resolve_into.induct)
  case (1 s st)
  then show ?case by simp
next
  case (2 s r rs st)
  show ?case
  proof (cases "ref_key r \<in> visited_of st")
    case True
    with 2 show ?thesis by (simp add: resolve_into_visited)
  next
    case False
    note new = this
    from 2(4) obtain reg st1 where t: "target_schema s (ref_key r) = Some reg"
      and inner: "resolve_into s (rs_references reg) (mark_visited r st) = Inr st1"
      and rest: "resolve_into s rs (push_resolved r reg st1) = Inr st'"
      by (cases "target_schema s (ref_key r)")
        (auto simp: resolve_into_new [OF new] resolve_into_missing [OF new] rbind_Inr_iff)
    have "resolve_into s' (rs_references reg) (mark_visited r st) = Inr st1"
      by (rule 2(2) [OF new t inner 2(5)])
    moreover have "resolve_into s' rs (push_resolved r reg st1) = Inr st'"
      by (rule 2(3) [OF new t inner rest 2(5)])
    ultimately show ?thesis
      by (simp add: resolve_into_new [OF new 2(5) [OF t]])
  qed
qed

lemma resolve_closure_transfer:
  assumes "resolve_closure s refs = Inr out"
    and "\<And>k reg. target_schema s k = Some reg \<Longrightarrow> target_schema s' k = Some reg"
  shows "resolve_closure s' refs = Inr out"
  using assms resolve_into_transfer [of s refs "([], {}, {})" _ s']
  by (auto simp: resolve_closure_def rbind_Inr_iff)

lemma resolve_closure_empty [simp]: "resolve_closure s [] = Inr []"
  by (simp add: resolve_closure_def)

text \<open>C40: resolving a reference list always returns, and it fails exactly when some version that
  the references reach, directly or through the references of stored schemas, does not exist.\<close>

theorem resolve_closure_ok_iff:
  "is_ok (resolve_closure s refs) \<longleftrightarrow> \<not> (\<exists>k. reaches s refs k \<and> target_schema s k = None)"
proof (cases "resolve_closure s refs")
  case (Inr out)
  then show ?thesis using resolve_closure_ok by auto
next
  case (Inl e)
  then have "resolve_into s refs ([], {}, {}) = Inl e"
    by (auto simp: resolve_closure_def rbind_Inl_iff)
  then show ?thesis
    using Inl resolve_into_error by fastforce
qed

end
