(* ===== verification/Store_Invariants.thy ===== *)
theory Store_Invariants
  imports Store_Resolve
begin

text \<open>
  The invariant of \<open>StoreState\<close> and its preservation by every operation: maps in key order,
  version lists non-empty and strictly ascending, every version bound to a known id, the id and
  version marks above everything issued, and the canonical-form index a bijection.
\<close>

named_theorems store_defs "definitions of the store operations"

lemmas store_op_defs [store_defs] =
  bump_next_def observe_version_def observe_next_version_def push_version_def set_entry_def
  set_global_compat_def set_subject_compat_def clear_subject_compat_def
  set_global_mode_def set_subject_mode_def clear_subject_mode_def clear_global_mode_def

subsection \<open>The invariant\<close>

definition sat_succ :: "schema_version \<Rightarrow> schema_version" where
  "sat_succ v = SchemaVersion (i32_saturating_add (version_raw v) 1)"

definition maps_ok :: "store_state \<Rightarrow> bool" where
  "maps_ok s \<longleftrightarrow> btree_ok (st_subjects s) \<and> btree_ok (st_by_id s) \<and> btree_ok (st_by_canonical s) \<and>
     btree_ok (st_canonical_by_id s) \<and> btree_ok (st_subject_compat s) \<and>
     btree_ok (st_subject_mode s) \<and> btree_ok (st_next_versions s)"

definition version_list_ok :: "version_entry list \<Rightarrow> bool" where
  "version_list_ok vs \<longleftrightarrow> vs \<noteq> [] \<and> sorted_wrt (<) (map ve_version vs)"

definition lists_ok :: "store_state \<Rightarrow> bool" where
  "lists_ok s \<longleftrightarrow> (\<forall>subject vs. map_of (st_subjects s) subject = Some vs \<longrightarrow> version_list_ok vs)"

definition entry_in :: "store_state \<Rightarrow> string \<Rightarrow> version_entry \<Rightarrow> bool" where
  "entry_in s subject e \<longleftrightarrow> (\<exists>vs. map_of (st_subjects s) subject = Some vs \<and> e \<in> set vs)"

definition bindings_ok :: "store_state \<Rightarrow> bool" where
  "bindings_ok s \<longleftrightarrow> (\<forall>subject e. entry_in s subject e \<longrightarrow> map_of (st_by_id s) (ve_id e) \<noteq> None)"

definition version_marks_ok :: "store_state \<Rightarrow> bool" where
  "version_marks_ok s \<longleftrightarrow> (\<forall>subject e. entry_in s subject e \<longrightarrow>
     (\<exists>n. map_of (st_next_versions s) subject = Some n \<and> sat_succ (ve_version e) \<le> n))"

definition id_mark_ok :: "store_state \<Rightarrow> bool" where
  "id_mark_ok s \<longleftrightarrow> (\<forall>i. map_of (st_by_id s) i \<noteq> None \<longrightarrow> i \<le> st_max_id s)"

definition index_ok :: "store_state \<Rightarrow> bool" where
  "index_ok s \<longleftrightarrow>
     (\<forall>k i. map_of (st_by_canonical s) k = Some i \<longleftrightarrow> map_of (st_canonical_by_id s) i = Some k) \<and>
     (\<forall>i. map_of (st_canonical_by_id s) i \<noteq> None \<longrightarrow> map_of (st_by_id s) i \<noteq> None)"

definition store_ok :: "store_state \<Rightarrow> bool" where
  "store_ok s \<longleftrightarrow> maps_ok s \<and> lists_ok s \<and> bindings_ok s \<and> version_marks_ok s \<and> id_mark_ok s \<and>
     index_ok s"

lemmas store_ok_defs = store_ok_def maps_ok_def lists_ok_def bindings_ok_def version_marks_ok_def
  id_mark_ok_def index_ok_def

lemma store_okD:
  assumes "store_ok s"
  shows "maps_ok s" "lists_ok s" "bindings_ok s" "version_marks_ok s" "id_mark_ok s" "index_ok s"
  using assms by (simp_all add: store_ok_def)

lemma store_ok_maps:
  assumes "store_ok s"
  shows "btree_ok (st_subjects s)" "btree_ok (st_by_id s)" "btree_ok (st_by_canonical s)"
    "btree_ok (st_canonical_by_id s)" "btree_ok (st_subject_compat s)" "btree_ok (st_subject_mode s)"
    "btree_ok (st_next_versions s)"
  using store_okD(1) [OF assms] by (simp_all add: maps_ok_def)

lemma store_okI:
  "maps_ok s \<Longrightarrow> lists_ok s \<Longrightarrow> bindings_ok s \<Longrightarrow> version_marks_ok s \<Longrightarrow> id_mark_ok s \<Longrightarrow> index_ok s
    \<Longrightarrow> store_ok s"
  by (simp add: store_ok_def)

lemma with_defaults_ok: "store_ok (with_defaults c m)"
  by (simp add: store_ok_defs with_defaults_def entry_in_def)

text \<open>The parts of the invariant read only some fields; an operation that leaves these alone
  keeps the part.\<close>

lemma entry_in_cong: "st_subjects s = st_subjects t \<Longrightarrow> entry_in s = entry_in t"
  by (simp add: entry_in_def fun_eq_iff)

lemma store_ok_cong:
  assumes "store_ok s" "st_subjects t = st_subjects s" "st_by_id t = st_by_id s"
    "st_by_canonical t = st_by_canonical s" "st_canonical_by_id t = st_canonical_by_id s"
    "st_next_versions t = st_next_versions s" "st_max_id s \<le> st_max_id t"
    "btree_ok (st_subject_compat t)" "btree_ok (st_subject_mode t)"
  shows "store_ok t"
  using assms by (auto simp: store_ok_defs entry_in_def intro: order_trans)

subsection \<open>Version lists\<close>

lemma version_list_distinct: "version_list_ok vs \<Longrightarrow> distinct (map ve_version vs)"
  by (simp add: version_list_ok_def strict_sorted_iff)

lemma map_version_update_entry [simp]: "map ve_version (update_entry v i d es) = map ve_version es"
  by (induction v i d es rule: update_entry.induct) auto

lemma update_entry_in:
  "e \<in> set (update_entry v i d es) \<Longrightarrow>
    e \<in> set es \<or> e = \<lparr>ve_version = v, ve_id = i, ve_deleted = d\<rparr>"
  by (induction v i d es rule: update_entry.induct) (auto split: if_splits)

lemma update_entry_Nil [simp]: "update_entry v i d es = [] \<longleftrightarrow> es = []"
  by (cases es) auto

lemma upsert_entry_in:
  "e \<in> set (upsert_entry v i d es) \<Longrightarrow> e \<in> set es \<or> e = \<lparr>ve_version = v, ve_id = i, ve_deleted = d\<rparr>"
  by (auto simp: upsert_entry_def dest: update_entry_in split: if_splits)

lemma upsert_entry_ok:
  assumes "es = [] \<or> version_list_ok es"
  shows "version_list_ok (upsert_entry v i d es)"
proof (cases "find (\<lambda>e. ve_version e = v) es")
  case None
  let ?l = "es @ [\<lparr>ve_version = v, ve_id = i, ve_deleted = d\<rparr>]"
  have "distinct (map ve_version es)" using assms version_list_distinct by auto
  then have "distinct (map ve_version ?l)"
    using None by (auto simp: find_None_iff')
  then have "distinct (map ve_version (sort_key ve_version ?l))"
    by (simp only: distinct_map_sort_key)
  then show ?thesis
    using None by (simp add: upsert_entry_def version_list_ok_def strict_sorted_iff)
      (metis list.size(3) length_sort length_append_singleton nat.distinct(1))
next
  case (Some e)
  then show ?thesis
    using assms by (auto simp: upsert_entry_def version_list_ok_def)
qed

lemma find_upsert_entry:
  "find (\<lambda>e. ve_version e = w) (upsert_entry v i d es) =
     (if w = v then Some \<lparr>ve_version = v, ve_id = i, ve_deleted = d\<rparr>
      else find (\<lambda>e. ve_version e = w) es)" if "es = [] \<or> version_list_ok es"
proof -
  have upd: "find (\<lambda>e. ve_version e = w) (update_entry v i d es) =
     (if w = v then map_option (\<lambda>e. e\<lparr>ve_id := i, ve_deleted := d\<rparr>) (find (\<lambda>e. ve_version e = v) es)
      else find (\<lambda>e. ve_version e = w) es)" for w
    by (induction v i d es rule: update_entry.induct) auto
  show ?thesis
  proof (cases "find (\<lambda>e. ve_version e = v) es")
    case None
    let ?l = "es @ [\<lparr>ve_version = v, ve_id = i, ve_deleted = d\<rparr>]"
    have fresh: "\<forall>e\<in>set es. ve_version e \<noteq> v" using None by (simp add: find_None_iff')
    have "distinct (map ve_version es)" using that version_list_distinct by auto
    then have "distinct (map ve_version ?l)" using fresh by auto
    then have "find (\<lambda>e. ve_version e = w) (sort_key ve_version ?l) = find (\<lambda>e. ve_version e = w) ?l"
      by (intro find_same_set) (simp_all only: distinct_map_sort_key set_sort)
    then show ?thesis
      using None by (auto simp: upsert_entry_def find_append)
  next
    case (Some e)
    then have "ve_version e = v" using find_SomeD by fastforce
    then show ?thesis
      using Some upd by (simp add: upsert_entry_def)
  qed
qed


subsection \<open>Marks\<close>

lemma next_version_bump:
  "next_version (bump_next subject n s) subject' =
     (if subject' = subject then
        (case map_of (st_next_versions s) subject of None \<Rightarrow> n | Some c \<Rightarrow> max c n)
      else next_version s subject')"
  by (auto simp: next_version_def bump_next_def split: option.splits)

lemma bump_next_simps [simp]:
  "st_subjects (bump_next subject n s) = st_subjects s"
  "st_by_id (bump_next subject n s) = st_by_id s"
  "st_by_canonical (bump_next subject n s) = st_by_canonical s"
  "st_canonical_by_id (bump_next subject n s) = st_canonical_by_id s"
  "st_max_id (bump_next subject n s) = st_max_id s"
  "st_global_compat (bump_next subject n s) = st_global_compat s"
  "st_default_compatibility (bump_next subject n s) = st_default_compatibility s"
  "st_subject_compat (bump_next subject n s) = st_subject_compat s"
  "st_global_mode (bump_next subject n s) = st_global_mode s"
  "st_default_mode (bump_next subject n s) = st_default_mode s"
  "st_subject_mode (bump_next subject n s) = st_subject_mode s"
  by (simp_all add: bump_next_def)

lemma bump_next_mark:
  "\<exists>m. map_of (st_next_versions (bump_next subject n s)) subject = Some m \<and> n \<le> m"
  by (auto simp: bump_next_def split: option.splits)

lemma bump_next_grows:
  "map_of (st_next_versions s) subject' = Some m \<Longrightarrow>
    \<exists>m'. map_of (st_next_versions (bump_next subject n s)) subject' = Some m' \<and> m \<le> m'"
  by (auto simp: bump_next_def split: option.splits)

lemma bump_next_ok: "store_ok s \<Longrightarrow> store_ok (bump_next subject n s)"
proof (intro store_okI)
  assume s: "store_ok s"
  show "version_marks_ok (bump_next subject n s)"
    unfolding version_marks_ok_def
  proof (intro allI impI)
    fix subject' e
    assume "entry_in (bump_next subject n s) subject' e"
    then obtain m where "map_of (st_next_versions s) subject' = Some m" "sat_succ (ve_version e) \<le> m"
      using store_okD(4) [OF s] by (auto simp: version_marks_ok_def entry_in_cong [of "bump_next subject n s" s])
    then show "\<exists>m. map_of (st_next_versions (bump_next subject n s)) subject' = Some m \<and>
        sat_succ (ve_version e) \<le> m"
      using bump_next_grows order_trans by blast
  qed
qed (auto simp: store_ok_defs entry_in_def bump_next_def)

lemma observe_version_bump: "observe_version subject v = bump_next subject (sat_succ v)"
  by (simp add: observe_version_def sat_succ_def fun_eq_iff)

lemma observe_next_version_ok: "store_ok s \<Longrightarrow> store_ok (observe_next_version subject n s)"
  by (simp add: observe_next_version_def bump_next_ok)

subsection \<open>Version entries\<close>

lemma entry_in_upd:
  "entry_in (s\<lparr>st_subjects := btree_insert subject vs (st_subjects s)\<rparr>) subject' e \<longleftrightarrow>
     (if subject' = subject then e \<in> set vs else entry_in s subject' e)"
  by (auto simp: entry_in_def)

text \<open>Replacing one subject's version list.\<close>

lemma put_versions_ok:
  assumes "store_ok s" "version_list_ok vs"
    and "\<And>e. e \<in> set vs \<Longrightarrow> map_of (st_by_id s) (ve_id e) \<noteq> None"
    and "\<And>e. e \<in> set vs \<Longrightarrow>
      \<exists>n. map_of (st_next_versions s) subject = Some n \<and> sat_succ (ve_version e) \<le> n"
  shows "store_ok (s\<lparr>st_subjects := btree_insert subject vs (st_subjects s)\<rparr>)"
proof (rule store_okI)
  let ?t = "s\<lparr>st_subjects := btree_insert subject vs (st_subjects s)\<rparr>"
  note s = store_okD [OF assms(1)]
  show "maps_ok ?t" using s(1) by (simp add: maps_ok_def)
  show "lists_ok ?t" using s(2) assms(2) by (simp add: lists_ok_def)
  show "bindings_ok ?t" using s(3) assms(3) by (auto simp: bindings_ok_def entry_in_upd)
  show "version_marks_ok ?t" using s(4) assms(4) by (auto simp: version_marks_ok_def entry_in_upd)
  show "id_mark_ok ?t" using s(5) by (simp add: id_mark_ok_def)
  show "index_ok ?t" using s(6) by (simp add: index_ok_def)
qed

lemma store_ok_entry:
  assumes "store_ok s" "map_of (st_subjects s) subject = Some vs"
  shows "version_list_ok vs"
    and "e \<in> set vs \<Longrightarrow> map_of (st_by_id s) (ve_id e) \<noteq> None"
    and "e \<in> set vs \<Longrightarrow> \<exists>n. map_of (st_next_versions s) subject = Some n \<and> sat_succ (ve_version e) \<le> n"
    and "e \<in> set vs \<Longrightarrow> ve_id e \<le> st_max_id s"
proof -
  note s = store_okD [OF assms(1)]
  show "version_list_ok vs" using s(2) assms(2) by (simp add: lists_ok_def)
  show *: "e \<in> set vs \<Longrightarrow> map_of (st_by_id s) (ve_id e) \<noteq> None"
    using s(3) assms(2) by (auto simp: bindings_ok_def entry_in_def)
  show "e \<in> set vs \<Longrightarrow> \<exists>n. map_of (st_next_versions s) subject = Some n \<and> sat_succ (ve_version e) \<le> n"
    using s(4) assms(2) by (auto simp: version_marks_ok_def entry_in_def)
  show "e \<in> set vs \<Longrightarrow> ve_id e \<le> st_max_id s"
    using s(5) * by (simp add: id_mark_ok_def)
qed

lemma set_entry_ok:
  assumes "store_ok s" "map_of (st_by_id s) (sval_id val) \<noteq> None"
    and "\<exists>n. map_of (st_next_versions s) (sval_subject val) = Some n \<and> sat_succ (sval_version val) \<le> n"
  shows "store_ok (set_entry val s)"
  unfolding set_entry_def
proof (rule put_versions_ok)
  let ?es = "unwrap_or (map_of (st_subjects s) (sval_subject val)) []"
  have es: "?es = [] \<or> map_of (st_subjects s) (sval_subject val) = Some ?es"
    by (cases "map_of (st_subjects s) (sval_subject val)") auto
  show "store_ok s" by (rule assms(1))
  show "version_list_ok (upsert_entry (sval_version val) (sval_id val) (sval_deleted val) ?es)"
    using es store_ok_entry(1) [OF assms(1)] by (intro upsert_entry_ok) blast
  fix e assume "e \<in> set (upsert_entry (sval_version val) (sval_id val) (sval_deleted val) ?es)"
  then consider "e \<in> set ?es" | "e = \<lparr>ve_version = sval_version val, ve_id = sval_id val, ve_deleted = sval_deleted val\<rparr>"
    using upsert_entry_in by blast
  then show "map_of (st_by_id s) (ve_id e) \<noteq> None"
    "\<exists>n. map_of (st_next_versions s) (sval_subject val) = Some n \<and> sat_succ (ve_version e) \<le> n"
    using es assms(2,3) store_ok_entry(2,3) [OF assms(1)] by (cases; fastforce)+
qed

subsection \<open>The canonical-form index\<close>

lemma forget_canonical_frame [simp]:
  "st_subjects (forget_canonical i s) = st_subjects s"
  "st_by_id (forget_canonical i s) = st_by_id s"
  "st_max_id (forget_canonical i s) = st_max_id s"
  "st_next_versions (forget_canonical i s) = st_next_versions s"
  "st_global_compat (forget_canonical i s) = st_global_compat s"
  "st_default_compatibility (forget_canonical i s) = st_default_compatibility s"
  "st_subject_compat (forget_canonical i s) = st_subject_compat s"
  "st_global_mode (forget_canonical i s) = st_global_mode s"
  "st_default_mode (forget_canonical i s) = st_default_mode s"
  "st_subject_mode (forget_canonical i s) = st_subject_mode s"
  by (simp_all add: forget_canonical_def Let_def split: option.splits)

lemma bind_canonical_frame [simp]:
  "st_subjects (bind_canonical i k s) = st_subjects s"
  "st_by_id (bind_canonical i k s) = st_by_id s"
  "st_max_id (bind_canonical i k s) = st_max_id s"
  "st_next_versions (bind_canonical i k s) = st_next_versions s"
  "st_global_compat (bind_canonical i k s) = st_global_compat s"
  "st_default_compatibility (bind_canonical i k s) = st_default_compatibility s"
  "st_subject_compat (bind_canonical i k s) = st_subject_compat s"
  "st_global_mode (bind_canonical i k s) = st_global_mode s"
  "st_default_mode (bind_canonical i k s) = st_default_mode s"
  "st_subject_mode (bind_canonical i k s) = st_subject_mode s"
  by (simp_all add: bind_canonical_def Let_def split: option.splits)

lemma forget_canonical_maps:
  "btree_ok (st_by_canonical s) \<Longrightarrow> btree_ok (st_by_canonical (forget_canonical i s))"
  "btree_ok (st_canonical_by_id s) \<Longrightarrow> btree_ok (st_canonical_by_id (forget_canonical i s))"
  by (simp_all add: forget_canonical_def Let_def split: option.splits)

lemma forget_canonical_gone [simp]: "map_of (st_canonical_by_id (forget_canonical i s)) i = None"
  by (simp add: forget_canonical_def Let_def split: option.splits)

lemma index_pair: "index_ok s \<Longrightarrow>
  map_of (st_by_canonical s) k = Some i \<longleftrightarrow> map_of (st_canonical_by_id s) i = Some k"
  by (simp add: index_ok_def)

lemma index_inj:
  "index_ok s \<Longrightarrow> map_of (st_canonical_by_id s) i = Some k \<Longrightarrow> map_of (st_canonical_by_id s) j = Some k
    \<Longrightarrow> i = j"
  using index_pair [of s k i] index_pair [of s k j] by simp

lemma forget_canonical_index:
  assumes "index_ok s"
  shows "index_ok (forget_canonical i s)"
proof (cases "map_of (st_canonical_by_id s) i")
  case None
  then show ?thesis using assms by (simp add: forget_canonical_def)
next
  case (Some key)
  then have "map_of (st_by_canonical s) key = Some i" using index_pair [OF assms] by simp
  then have *: "forget_canonical i s =
      s\<lparr>st_canonical_by_id := btree_remove i (st_canonical_by_id s),
        st_by_canonical := btree_remove key (st_by_canonical s)\<rparr>"
    using Some by (simp add: forget_canonical_def)
  have "map_of (btree_remove key (st_by_canonical s)) k = Some j \<longleftrightarrow>
      map_of (btree_remove i (st_canonical_by_id s)) j = Some k" for k j
    unfolding bt.get_remove fun_upd_apply
    by (metis index_pair [OF assms] Some option.inject option.distinct(1))
  then show ?thesis
    unfolding * index_ok_def using assms by (simp add: index_ok_def)
qed

lemma bind_canonical_maps:
  "btree_ok (st_by_canonical s) \<Longrightarrow> btree_ok (st_by_canonical (bind_canonical i k s))"
  "btree_ok (st_canonical_by_id s) \<Longrightarrow> btree_ok (st_canonical_by_id (bind_canonical i k s))"
  by (simp_all add: bind_canonical_def Let_def split: option.splits)

lemma bind_canonical_get:
  assumes "index_ok s" "map_of (st_canonical_by_id s) i = None"
  shows "map_of (st_by_canonical (bind_canonical i k s)) = (map_of (st_by_canonical s))(k \<mapsto> i)"
    and "map_of (st_canonical_by_id (bind_canonical i k s)) =
      (\<lambda>j. if j = i then Some k else if map_of (st_canonical_by_id s) j = Some k then None
           else map_of (st_canonical_by_id s) j)"
proof -
  have old: "map_of (st_canonical_by_id s) j = Some k \<longleftrightarrow> map_of (st_by_canonical s) k = Some j" for j
    using index_pair [OF assms(1)] by simp
  show "map_of (st_by_canonical (bind_canonical i k s)) = (map_of (st_by_canonical s))(k \<mapsto> i)"
    by (simp add: bind_canonical_def Let_def split: option.splits)
  show "map_of (st_canonical_by_id (bind_canonical i k s)) =
      (\<lambda>j. if j = i then Some k else if map_of (st_canonical_by_id s) j = Some k then None
           else map_of (st_canonical_by_id s) j)"
  proof (cases "map_of (st_by_canonical s) k")
    case None
    then show ?thesis using old by (simp add: bind_canonical_def Let_def fun_eq_iff)
  next
    case (Some j)
    then have j: "map_of (st_canonical_by_id s) j = Some k" using old by blast
    then have "j \<noteq> i" using assms(2) by auto
    with j show ?thesis using Some old by (simp add: bind_canonical_def Let_def fun_eq_iff)
  qed
qed

lemma bind_canonical_index:
  assumes "index_ok s" "map_of (st_canonical_by_id s) i = None" "map_of (st_by_id s) i \<noteq> None"
  shows "index_ok (bind_canonical i k s)"
  using assms index_pair [OF assms(1)]
  unfolding index_ok_def bind_canonical_get [OF assms(1,2)] bind_canonical_frame by auto

lemma index_canonical_cases:
  "index_canonical X val s = s \<or> (\<exists>k. index_canonical X val s = bind_canonical (sval_id val) k s)"
  by (auto simp: index_canonical_def split: sum.splits)

lemma index_canonical_frame [simp]:
  "st_subjects (index_canonical X val s) = st_subjects s"
  "st_by_id (index_canonical X val s) = st_by_id s"
  "st_max_id (index_canonical X val s) = st_max_id s"
  "st_next_versions (index_canonical X val s) = st_next_versions s"
  "st_global_compat (index_canonical X val s) = st_global_compat s"
  "st_default_compatibility (index_canonical X val s) = st_default_compatibility s"
  "st_subject_compat (index_canonical X val s) = st_subject_compat s"
  "st_global_mode (index_canonical X val s) = st_global_mode s"
  "st_default_mode (index_canonical X val s) = st_default_mode s"
  "st_subject_mode (index_canonical X val s) = st_subject_mode s"
  by (simp_all add: index_canonical_def split: sum.splits)

text \<open>An operation that touches only the index, or adds a schema under an id within the mark.\<close>

lemma index_only_ok:
  assumes "store_ok s" "st_subjects t = st_subjects s" "st_max_id t = st_max_id s"
    "st_next_versions t = st_next_versions s" "st_subject_compat t = st_subject_compat s"
    "st_subject_mode t = st_subject_mode s" "st_by_id t = st_by_id s"
    "btree_ok (st_by_canonical t)" "btree_ok (st_canonical_by_id t)" "index_ok t"
  shows "store_ok t"
  using assms by (auto simp: store_ok_def maps_ok_def lists_ok_def bindings_ok_def
      version_marks_ok_def id_mark_ok_def entry_in_def)

lemma forget_canonical_ok: "store_ok s \<Longrightarrow> store_ok (forget_canonical i s)"
  by (rule index_only_ok)
    (auto simp: store_ok_maps store_okD(6) forget_canonical_maps forget_canonical_index)

lemma index_canonical_ok:
  assumes "store_ok s" "map_of (st_canonical_by_id s) (sval_id val) = None"
    "map_of (st_by_id s) (sval_id val) \<noteq> None"
  shows "store_ok (index_canonical X val s)"
proof -
  consider "index_canonical X val s = s"
    | k where "index_canonical X val s = bind_canonical (sval_id val) k s"
    using index_canonical_cases by blast
  then show ?thesis
  proof cases
    case 1
    with assms(1) show ?thesis by simp
  next
    case (2 k)
    have "store_ok (bind_canonical (sval_id val) k s)"
      using assms store_okD [OF assms(1)] bind_canonical_index
      by (intro index_only_ok [OF assms(1)]) (auto simp: store_ok_maps bind_canonical_maps)
    with 2 show ?thesis by simp
  qed
qed

lemma put_schema_ok:
  assumes "store_ok s" "i \<le> st_max_id s"
  shows "store_ok (s\<lparr>st_by_id := btree_insert i reg (st_by_id s)\<rparr>)"
  using assms by (auto simp: store_ok_defs entry_in_def)

subsection \<open>Replayed operations keep the invariant\<close>

lemma raise_max_id_ok: "store_ok s \<Longrightarrow> store_ok (s\<lparr>st_max_id := max (st_max_id s) i\<rparr>)"
  by (rule store_ok_cong) (auto simp: store_ok_maps)

definition before_index :: "schema_value \<Rightarrow> store_state \<Rightarrow> store_state" where
  "before_index val s =
     (let s3 = forget_canonical (sval_id val)
        (observe_version (sval_subject val) (sval_version val)
          (s\<lparr>st_max_id := max (st_max_id s) (sval_id val)\<rparr>))
      in s3\<lparr>st_by_id := btree_insert (sval_id val) (stored_schema val) (st_by_id s3)\<rparr>)"

lemma apply_schema_before: "apply_schema X val s = set_entry val (index_canonical X val (before_index val s))"
  by (simp add: apply_schema_def before_index_def Let_def)

lemma before_index_ok: "store_ok s \<Longrightarrow> store_ok (before_index val s)"
  unfolding before_index_def Let_def observe_version_bump
  by (intro put_schema_ok forget_canonical_ok bump_next_ok raise_max_id_ok) simp_all

lemma before_index_simps [simp]:
  "st_subjects (before_index val s) = st_subjects s"
  "map_of (st_by_id (before_index val s)) = (map_of (st_by_id s))(sval_id val \<mapsto> stored_schema val)"
  "map_of (st_canonical_by_id (before_index val s)) (sval_id val) = None"
  "st_max_id (before_index val s) = max (st_max_id s) (sval_id val)"
  by (simp_all add: before_index_def Let_def observe_version_bump)

lemma apply_schema_ok:
  assumes "store_ok s"
  shows "store_ok (apply_schema X val s)"
proof -
  let ?s4 = "before_index val s"
  have s4: "store_ok ?s4" by (rule before_index_ok [OF assms])
  have "\<exists>n. map_of (st_next_versions ?s4) (sval_subject val) = Some n \<and> sat_succ (sval_version val) \<le> n"
    using bump_next_mark by (simp add: before_index_def Let_def observe_version_bump)
  then show ?thesis
    unfolding apply_schema_before
    by (intro set_entry_ok index_canonical_ok s4) simp_all
qed

lemma soft_delete_subject_ok:
  assumes "store_ok s"
  shows "store_ok (snd (soft_delete_subject subject s))"
proof (cases "map_of (st_subjects s) subject")
  case None
  then show ?thesis using assms by (simp add: soft_delete_subject_def)
next
  case (Some vs)
  note e = store_ok_entry [OF assms Some]
  have "store_ok (s\<lparr>st_subjects := btree_insert subject
      (map (\<lambda>v. v\<lparr>ve_deleted := True\<rparr>) vs) (st_subjects s)\<rparr>)"
    using e by (intro put_versions_ok [OF assms]) (auto simp: version_list_ok_def comp_def)
  then show ?thesis using Some assms by (simp add: soft_delete_subject_def)
qed

lemma remove_subject_ok:
  assumes "store_ok s"
  shows "store_ok (s\<lparr>st_subjects := btree_remove subject (st_subjects s)\<rparr>)"
proof -
  have "entry_in (s\<lparr>st_subjects := btree_remove subject (st_subjects s)\<rparr>) subject' e \<Longrightarrow>
      entry_in s subject' e" for subject' e
    by (auto simp: entry_in_def split: if_splits)
  then show ?thesis
    using store_okD [OF assms] unfolding store_ok_defs
    by (intro conjI) (simp_all, blast+)
qed

lemma permanent_delete_version_ok:
  assumes "store_ok s"
  shows "store_ok (snd (permanent_delete_version subject v s))"
proof -
  let ?s1 = "observe_version subject v s"
  have s1: "store_ok ?s1" using assms by (simp add: observe_version_bump bump_next_ok)
  show ?thesis
  proof (cases "map_of (st_subjects ?s1) subject")
    case None
    then show ?thesis using s1 by (simp add: permanent_delete_version_def Let_def)
  next
    case (Some vs)
    let ?vs = "filter (\<lambda>e. ve_version e \<noteq> v) vs"
    note e = store_ok_entry [OF s1 Some]
    have ne: "store_ok (?s1\<lparr>st_subjects := btree_insert subject ?vs (st_subjects ?s1)\<rparr>)" if "?vs \<noteq> []"
    proof (rule put_versions_ok [OF s1])
      show "version_list_ok ?vs"
        using e(1) that by (simp add: version_list_ok_def sorted_wrt_map sorted_wrt_filter)
    qed (use e(2,3) in auto)
    have nil: "store_ok (?s1\<lparr>st_subjects := btree_remove subject (btree_insert subject ?vs (st_subjects ?s1))\<rparr>)"
      if "?vs = []"
    proof -
      have "btree_remove subject (btree_insert subject ?vs (st_subjects ?s1)) =
          btree_remove subject (st_subjects ?s1)"
        using s1 by (intro bt.ok_ext) (auto simp: store_ok_defs)
      then show ?thesis using remove_subject_ok [OF s1] by simp
    qed
    have "vs \<noteq> []" using e(1) by (simp add: version_list_ok_def)
    then have "?vs \<noteq> []" if "length ?vs = length vs" using that by auto
    then show ?thesis
      using Some ne nil by (auto simp: permanent_delete_version_def Let_def)
  qed
qed

lemma config_ops_ok:
  assumes "store_ok s"
  shows "store_ok (set_global_compat level s)" "store_ok (set_subject_compat subject level s)"
    "store_ok (clear_subject_compat subject s)" "store_ok (set_global_mode mode s)"
    "store_ok (set_subject_mode subject mode s)" "store_ok (clear_subject_mode subject s)"
    "store_ok (clear_global_mode s)" "store_ok (preserve_id_high_water s previous)"
  by (rule store_ok_cong [OF assms];
      simp add: store_defs preserve_id_high_water_def store_ok_maps [OF assms])+

subsection \<open>The entry of a version\<close>

definition entry_of :: "store_state \<Rightarrow> string \<Rightarrow> schema_version \<Rightarrow> version_entry option" where
  "entry_of s subject v =
     find (\<lambda>e. ve_version e = v) (unwrap_or (map_of (st_subjects s) subject) [])"

lemma id_of_entry: "id_of s subject v = map_option ve_id (entry_of s subject v)"
  by (cases "map_of (st_subjects s) subject") (simp_all add: id_of_def entry_of_def)

lemma entry_of_in: "entry_of s subject v = Some e \<Longrightarrow> entry_in s subject e \<and> ve_version e = v"
  by (cases "map_of (st_subjects s) subject") (auto simp: entry_of_def entry_in_def dest!: find_SomeD)

lemma old_versions_ok:
  "store_ok s \<Longrightarrow> unwrap_or (map_of (st_subjects s) subject) [] = [] \<or>
    version_list_ok (unwrap_or (map_of (st_subjects s) subject) [])"
  using store_ok_entry(1) [of s subject] by (cases "map_of (st_subjects s) subject") auto

lemma entry_in_of:
  assumes "store_ok s" "entry_in s subject e"
  shows "entry_of s subject (ve_version e) = Some e"
proof -
  obtain vs where vs: "map_of (st_subjects s) subject = Some vs" "e \<in> set vs"
    using assms(2) by (auto simp: entry_in_def)
  then show ?thesis
    using find_unique [OF version_list_distinct [OF store_ok_entry(1) [OF assms(1) vs(1)]] vs(2)]
    by (simp add: entry_of_def)
qed

lemma apply_schema_versions:
  "map_of (st_subjects (apply_schema X val s)) = (map_of (st_subjects s))(sval_subject val \<mapsto>
     upsert_entry (sval_version val) (sval_id val) (sval_deleted val)
       (unwrap_or (map_of (st_subjects s) (sval_subject val)) []))"
  by (simp add: apply_schema_before set_entry_def)

lemma apply_schema_by_id:
  "map_of (st_by_id (apply_schema X val s)) = (map_of (st_by_id s))(sval_id val \<mapsto> stored_schema val)"
  by (simp add: apply_schema_before set_entry_def)

lemma apply_schema_entry:
  assumes "store_ok s"
  shows "entry_of (apply_schema X val s) subject v =
    (if subject = sval_subject val \<and> v = sval_version val
     then Some \<lparr>ve_version = sval_version val, ve_id = sval_id val, ve_deleted = sval_deleted val\<rparr>
     else entry_of s subject v)"
  by (simp add: entry_of_def apply_schema_versions find_upsert_entry [OF old_versions_ok [OF assms]])

lemma find_version_flag:
  assumes "vs = [] \<or> version_list_ok vs"
  shows "find (\<lambda>e. ve_version e = v \<and> (d \<or> \<not> ve_deleted e)) vs =
    Option.bind (find (\<lambda>e. ve_version e = v) vs) (\<lambda>e. if d \<or> \<not> ve_deleted e then Some e else None)"
proof -
  have "distinct (map ve_version vs)" using assms version_list_distinct by auto
  then show ?thesis
  proof (induction vs)
    case (Cons a vs)
    have "find (\<lambda>e. ve_version e = v \<and> (d \<or> \<not> ve_deleted e)) vs = None" if "ve_version a = v"
      using Cons.prems that unfolding find_None_iff' by (auto simp: image_iff)
    moreover have "find (\<lambda>e. ve_version e = v) vs = None" if "ve_version a = v"
      using Cons.prems that unfolding find_None_iff' by (auto simp: image_iff)
    ultimately show ?case using Cons by auto
  qed simp
qed

definition versioned :: "version_entry \<Rightarrow> registered_schema \<Rightarrow> versioned_schema" where
  "versioned e reg = \<lparr>vs_id = ve_id e, vs_version = ve_version e, vs_ty = rs_ty reg,
     vs_schema = rs_schema reg, vs_references = rs_references reg,
     vs_message_type = rs_message_type reg, vs_extra = rs_extra reg\<rparr>"

lemma version_entry_of:
  assumes "store_ok s"
  shows "version s subject (Some v) d =
    Option.bind (entry_of s subject v) (\<lambda>e.
      if d \<or> \<not> ve_deleted e then map_option (versioned e) (map_of (st_by_id s) (ve_id e)) else None)"
proof (cases "map_of (st_subjects s) subject")
  case None
  then show ?thesis by (simp add: version_def entry_of_def)
next
  case (Some vs)
  then have "version_list_ok vs" by (rule store_ok_entry(1) [OF assms])
  with Some show ?thesis
    by (cases "find (\<lambda>e. ve_version e = v) vs")
      (auto simp: version_def entry_of_def find_version_flag versioned_def map_conv_bind_option comp_def)
qed

end
