(* ===== verification/Samples.thy ===== *)
theory Samples
  imports Format
begin

text \<open>
  Concrete instances of the parameters, used where a property is exercised on an input: parsers
  that accept every text and keep it as the schema's identity, and the codec whose bytes are the
  JSON values themselves.
\<close>

definition echo_parsers :: "string third_party" where
  "echo_parsers = \<lparr>
     serde_from_str = (\<lambda>s. Inr (JStr s)),
     serde_to_string = (\<lambda>v. case v of JStr s \<Rightarrow> s | _ \<Rightarrow> []),
     avro_parse_str = Inr,
     avro_parse_list = Inr,
     avro_can_read = (\<lambda>w r. if w = r then Inr AvroFull else Inl ''different''),
     protox_parse = (\<lambda>_ e. Inl ''no Protobuf''),
     pool_link = (\<lambda>_. Inr ()),
     descriptor_hex = (\<lambda>_. []),
     json_pointer = (\<lambda>_ _. None),
     regex_match = (\<lambda>_ _. None),
     display_strings = concat\<rparr>"

definition value_codec :: "json codec" where
  "value_codec = \<lparr>from_slice = Some, to_vec = (\<lambda>v. v), empty_slice = JNull\<rparr>"

lemma echo_parse_canonical [simp]: "parse_canonical echo_parsers Avro s refs = Inr s"
  by (cases "refs = []")
    (simp_all add: parse_canonical_def parse_def avro_parse_def echo_parsers_def from_str_value_def
      canonical_form_def Let_def)

lemma value_codec_roundtrip: "codec_roundtrip value_codec"
  by (simp add: codec_roundtrip_def value_codec_def)

end
