(* ===== verification/Store_Register.thy ===== *)
theory Store_Register
  imports Store_Invariants Samples
begin

text \<open>
  Registration: it keeps the store invariant while ids and versions are below \<open>i32::MAX\<close>, it is
  idempotent, and the state it computes on a scratch copy is the state that replaying the written
  record produces.
\<close>

subsection \<open>The shape of a registration\<close>

text \<open>The key a request deduplicates on.\<close>

definition request_key :: "'a third_party \<Rightarrow> store_state \<Rightarrow> schema_type \<Rightarrow> string \<Rightarrow> schema_reference list
    \<Rightarrow> string option \<Rightarrow> sr_error + string" where
  "request_key X s ty schema references message_type =
     rbind (resolve_closure s references) (\<lambda>resolved.
     rbind (parse_canonical X ty schema resolved) (\<lambda>canonical.
       Inr (dedup_key canonical references message_type)))"

abbreviation request_schema :: "schema_type \<Rightarrow> string \<Rightarrow> schema_reference list \<Rightarrow> string option \<Rightarrow> registered_schema" where
  "request_schema ty schema references message_type \<equiv>
     \<lparr>rs_ty = ty, rs_schema = schema, rs_references = references, rs_message_type = message_type, rs_extra = []\<rparr>"

lemma register_request_key:
  "register X s subject ty schema references message_type =
     rbind (request_key X s ty schema references message_type) (\<lambda>key.
       case find_under_subject_canonical s subject key True of
         Some existing \<Rightarrow> Inr (existing, s)
       | None \<Rightarrow> Inr (register_new key subject (request_schema ty schema references message_type) s))"
  by (cases "resolve_closure s references")
    (auto simp: register_def request_key_def Let_def rbind_def split: sum.splits)

lemma find_under_subject_request_key:
  "find_under_subject X s subject ty schema references message_type d =
     Option.bind (result_ok (request_key X s ty schema references message_type))
       (\<lambda>key. find_under_subject_canonical s subject key d)"
  by (auto simp: find_under_subject_def request_key_def rbind_def result_ok_def split: sum.splits)

lemma request_key_transfer:
  assumes "request_key X s ty schema references message_type = Inr key"
    and "\<And>k reg. target_schema s k = Some reg \<Longrightarrow> target_schema s' k = Some reg"
  shows "request_key X s' ty schema references message_type = Inr key"
  using assms resolve_closure_transfer [of s references _ s']
  by (auto simp: request_key_def rbind_Inr_iff)

subsection \<open>Assigning an id\<close>

definition id_room :: "store_state \<Rightarrow> bool" where
  "id_room s \<longleftrightarrow> i32_range (id_raw (st_max_id s)) \<and> id_raw (st_max_id s) < i32_max"

definition version_room :: "store_state \<Rightarrow> string \<Rightarrow> bool" where
  "version_room s subject \<longleftrightarrow> version_raw (next_version s subject) < i32_max"

abbreviation fresh_id :: "store_state \<Rightarrow> schema_id" where
  "fresh_id s \<equiv> SchemaId (id_raw (st_max_id s) + 1)"

lemma fresh_id_above: "store_ok s \<Longrightarrow> map_of (st_by_id s) (fresh_id s) = None"
  using store_okD(5) [of s] by (fastforce simp: id_mark_ok_def id_order_defs)

lemma fresh_id_unindexed: "store_ok s \<Longrightarrow> map_of (st_canonical_by_id s) (fresh_id s) = None"
  using fresh_id_above [of s] store_okD(6) [of s] by (auto simp: index_ok_def)

lemma assign_id_known: "map_of (st_by_canonical s) key = Some i \<Longrightarrow> assign_id key reg s = (i, s)"
  by (simp add: assign_id_def)

lemma assign_id_new:
  assumes "map_of (st_by_canonical s) key = None" "id_room s"
  shows "assign_id key reg s = (fresh_id s, s\<lparr>st_max_id := fresh_id s,
     st_by_canonical := btree_insert key (fresh_id s) (st_by_canonical s),
     st_canonical_by_id := btree_insert (fresh_id s) key (st_canonical_by_id s),
     st_by_id := btree_insert (fresh_id s) reg (st_by_id s)\<rparr>)"
  using assms by (simp add: assign_id_def Let_def id_room_def i32_succ)

lemma assign_id_spec:
  assumes "store_ok s" "id_room s" "assign_id key reg s = (i, t)"
  shows "store_ok t" "map_of (st_by_canonical t) key = Some i" "map_of (st_by_id t) i \<noteq> None"
    "st_subjects t = st_subjects s" "st_next_versions t = st_next_versions s"
    "\<And>j r. map_of (st_by_id s) j = Some r \<Longrightarrow> map_of (st_by_id t) j = Some r"
    "map_of (st_by_canonical s) key = None \<Longrightarrow> i = fresh_id s"
proof -
  have all: "store_ok t \<and> map_of (st_by_canonical t) key = Some i \<and> map_of (st_by_id t) i \<noteq> None \<and>
      st_subjects t = st_subjects s \<and> st_next_versions t = st_next_versions s \<and>
      (\<forall>j r. map_of (st_by_id s) j = Some r \<longrightarrow> map_of (st_by_id t) j = Some r) \<and>
      (map_of (st_by_canonical s) key = None \<longrightarrow> i = fresh_id s)"
  proof (cases "map_of (st_by_canonical s) key")
    case (Some j)
    with assms(3) have "j = i" "t = s" by (simp_all add: assign_id_known)
    moreover have "map_of (st_by_id s) i \<noteq> None"
      using Some \<open>j = i\<close> store_okD(6) [OF assms(1)] by (auto simp: index_ok_def)
    ultimately show ?thesis using Some assms(1) by simp
  next
    case None
    let ?i = "fresh_id s"
    have t: "i = ?i" "t = s\<lparr>st_max_id := ?i,
       st_by_canonical := btree_insert key ?i (st_by_canonical s),
       st_canonical_by_id := btree_insert ?i key (st_canonical_by_id s),
       st_by_id := btree_insert ?i reg (st_by_id s)\<rparr>"
      using assms(3) unfolding assign_id_new [OF None assms(2)] by blast+
    have up: "st_max_id s \<le> ?i" by (simp add: id_order_defs)
    have "store_ok t"
    proof (rule store_okI)
      note s = store_okD [OF assms(1)]
      show "maps_ok t" using s(1) by (simp add: t maps_ok_def)
      show "lists_ok t" using s(2) by (simp add: t lists_ok_def)
      show "bindings_ok t" using s(3) by (auto simp: t bindings_ok_def entry_in_def)
      show "version_marks_ok t" using s(4) by (auto simp: t version_marks_ok_def entry_in_def)
      show "id_mark_ok t" using s(5) up by (auto simp: t id_mark_ok_def intro: order_trans)
      have "map_of (btree_insert key ?i (st_by_canonical s)) k = Some j \<longleftrightarrow>
          map_of (btree_insert ?i key (st_canonical_by_id s)) j = Some k" for k j
        unfolding bt.get_insert fun_upd_apply
        by (metis index_pair [OF s(6)] None fresh_id_unindexed [OF assms(1)] option.inject option.distinct(1))
      then show "index_ok t"
        using s(6) by (simp add: t index_ok_def)
    qed
    moreover have "map_of (st_by_id s) j = Some r \<Longrightarrow> map_of (st_by_id t) j = Some r" for j r
      using fresh_id_above [OF assms(1)] by (auto simp: t)
    ultimately show ?thesis by (simp add: t)
  qed
  from all show "store_ok t" "map_of (st_by_canonical t) key = Some i" "map_of (st_by_id t) i \<noteq> None"
    "st_subjects t = st_subjects s" "st_next_versions t = st_next_versions s"
    "\<And>j r. map_of (st_by_id s) j = Some r \<Longrightarrow> map_of (st_by_id t) j = Some r"
    "map_of (st_by_canonical s) key = None \<Longrightarrow> i = fresh_id s"
    by blast+
qed

subsection \<open>Appending a version\<close>

lemma next_version_above:
  assumes "store_ok s" "entry_in s subject e" "version_room s subject"
  shows "ve_version e < next_version s subject"
proof -
  obtain n where n: "map_of (st_next_versions s) subject = Some n" "sat_succ (ve_version e) \<le> n"
    using store_okD(4) [OF assms(1)] assms(2) by (auto simp: version_marks_ok_def)
  then have "version_raw n < i32_max" using assms(3) by (simp add: version_room_def next_version_def)
  with n show ?thesis
    by (auto simp: next_version_def sat_succ_def i32_saturating_add_def version_order_defs)
qed

lemma push_next_ok:
  assumes "store_ok s" "version_room s subject" "map_of (st_by_id s) i \<noteq> None"
  defines "v \<equiv> next_version s subject"
  shows "store_ok (push_version subject \<lparr>ve_version = v, ve_id = i, ve_deleted = False\<rparr>
    (observe_version subject v s))"
  unfolding push_version_def
proof (rule put_versions_ok)
  let ?t = "observe_version subject v s"
  let ?e = "\<lparr>ve_version = v, ve_id = i, ve_deleted = False\<rparr>"
  let ?vs = "unwrap_or (map_of (st_subjects ?t) subject) []"
  have vs: "?vs = [] \<or> map_of (st_subjects s) subject = Some ?vs"
    by (cases "map_of (st_subjects s) subject") (auto simp: observe_version_bump)
  show t: "store_ok ?t" using assms(1) by (simp add: observe_version_bump bump_next_ok)
  have below: "ve_version e < v" if "e \<in> set ?vs" for e
    using that vs assms(1,2) next_version_above [of s subject e] by (auto simp: v_def entry_in_def)
  have "sorted_wrt (<) (map ve_version ?vs)"
    using vs store_ok_entry(1) [OF assms(1)] by (auto simp: version_list_ok_def)
  then show "version_list_ok (?vs @ [?e])"
    using below by (auto simp: version_list_ok_def sorted_wrt_append)
  fix e assume "e \<in> set (?vs @ [?e])"
  then consider "e \<in> set ?vs" "map_of (st_subjects ?t) subject = Some ?vs" | "e = ?e"
    using vs by (auto simp: observe_version_bump)
  then have "map_of (st_by_id ?t) (ve_id e) \<noteq> None \<and>
    (\<exists>n. map_of (st_next_versions ?t) subject = Some n \<and> sat_succ (ve_version e) \<le> n)"
  proof cases
    case 1
    then show ?thesis using store_ok_entry(2,3) [OF t] by blast
  next
    case 2
    then show ?thesis using assms(3) bump_next_mark by (simp add: observe_version_bump)
  qed
  then show "map_of (st_by_id ?t) (ve_id e) \<noteq> None"
    "\<exists>n. map_of (st_next_versions ?t) subject = Some n \<and> sat_succ (ve_version e) \<le> n"
    by blast+
qed

subsection \<open>Properties of a registration\<close>

lemma register_new_unfold:
  assumes "store_ok s" "id_room s" "version_room s subject"
    and new: "find_under_subject_canonical s subject key True = None"
    and out: "register_new key subject reg s = (r, s')"
  obtains i t where "assign_id key reg s = (i, t)"
    "r = \<lparr>reg_id = i, reg_version = next_version s subject\<rparr>"
    "s' = push_version subject \<lparr>ve_version = next_version s subject, ve_id = i, ve_deleted = False\<rparr>
       (observe_version subject (next_version s subject) t)"
proof -
  obtain i t where a: "assign_id key reg s = (i, t)" by fastforce
  have "next_version t subject = next_version s subject"
    using assign_id_spec(5) [OF assms(1,2) a] by (simp add: next_version_def)
  then show ?thesis
    using a out by (intro that [of i t]) (auto simp: register_new_def Let_def)
qed

lemma register_new_ok:
  assumes "store_ok s" "id_room s" "version_room s subject"
    and "find_under_subject_canonical s subject key True = None"
    and "register_new key subject reg s = (r, s')"
  shows "store_ok s'"
proof -
  obtain i t where a: "assign_id key reg s = (i, t)"
    and s': "s' = push_version subject \<lparr>ve_version = next_version s subject, ve_id = i, ve_deleted = False\<rparr>
       (observe_version subject (next_version s subject) t)"
    using register_new_unfold [OF assms] by metis
  note t = assign_id_spec [OF assms(1,2) a]
  have nv: "next_version t subject = next_version s subject" using t(5) by (simp add: next_version_def)
  then show ?thesis
    using push_next_ok [OF t(1), of subject i] t(3) assms(3) s' by (simp add: version_room_def)
qed

lemma register_cases:
  assumes "register X s subject ty schema references message_type = Inr (r, s')"
  obtains (existing) key where "request_key X s ty schema references message_type = Inr key"
      "find_under_subject_canonical s subject key True = Some r" "s' = s"
    | (new) key where "request_key X s ty schema references message_type = Inr key"
      "find_under_subject_canonical s subject key True = None"
      "register_new key subject (request_schema ty schema references message_type) s = (r, s')"
proof -
  obtain key where key: "request_key X s ty schema references message_type = Inr key"
    and out: "(case find_under_subject_canonical s subject key True of
         Some existing \<Rightarrow> Inr (existing, s)
       | None \<Rightarrow> Inr (register_new key subject (request_schema ty schema references message_type) s))
       = (Inr (r, s') :: sr_error + registered \<times> store_state)"
    using assms by (auto simp: register_request_key rbind_Inr_iff)
  show ?thesis
  proof (cases "find_under_subject_canonical s subject key True")
    case None
    then show ?thesis using out by (intro new [OF key]) simp_all
  next
    case (Some existing_version)
    then show ?thesis using out by (intro existing [OF key]) simp_all
  qed
qed

lemma register_ok:
  assumes "store_ok s" "id_room s" "version_room s subject"
    and "register X s subject ty schema references message_type = Inr (r, s')"
  shows "store_ok s'"
  using assms(4)
proof (cases rule: register_cases)
  case (existing key)
  with assms(1) show ?thesis by simp
next
  case (new key)
  from register_new_ok [OF assms(1-3) new(2,3)] show ?thesis .
qed

text \<open>No entry of the subject carries the id a new version gets.\<close>

lemma register_new_id_unused:
  assumes "store_ok s" "id_room s"
    and "find_under_subject_canonical s subject key True = None"
    and "assign_id key reg s = (i, t)" "map_of (st_subjects s) subject = Some vs" "e \<in> set vs"
  shows "ve_id e \<noteq> i"
proof (cases "map_of (st_by_canonical s) key")
  case None
  then have "i = fresh_id s" using assign_id_spec(7) [OF assms(1,2,4)] by simp
  moreover have "map_of (st_by_id s) (ve_id e) \<noteq> None"
    by (rule store_ok_entry(2) [OF assms(1,5,6)])
  ultimately show ?thesis using fresh_id_above [OF assms(1)] by auto
next
  case (Some j)
  then have "j = i" using assms(4) by (simp add: assign_id_known)
  with Some assms(3,5,6) show ?thesis
    by (auto simp: find_under_subject_canonical_def find_None_iff' split: bind_splits)
qed

lemma find_snoc_new:
  "(\<And>e. e \<in> set vs \<Longrightarrow> \<not> P e) \<Longrightarrow> P x \<Longrightarrow> find P (vs @ [x]) = Some x"
  by (induction vs) auto

lemma register_new_found:
  assumes "store_ok s" "id_room s" "version_room s subject"
    and new: "find_under_subject_canonical s subject key True = None"
    and out: "register_new key subject reg s = (r, s')"
  shows "find_under_subject_canonical s' subject key d = Some r"
proof -
  obtain i t where a: "assign_id key reg s = (i, t)"
    and r: "r = \<lparr>reg_id = i, reg_version = next_version s subject\<rparr>"
    and s': "s' = push_version subject \<lparr>ve_version = next_version s subject, ve_id = i, ve_deleted = False\<rparr>
       (observe_version subject (next_version s subject) t)"
    using register_new_unfold [OF assms] by metis
  note t = assign_id_spec [OF assms(1,2) a]
  let ?vs = "unwrap_or (map_of (st_subjects s) subject) []"
  have unused: "e \<in> set ?vs \<Longrightarrow> ve_id e \<noteq> i" for e
    using register_new_id_unused [OF assms(1,2) new a] by (cases "map_of (st_subjects s) subject") auto
  have "find (\<lambda>v. ve_id v = i \<and> (d \<or> \<not> ve_deleted v))
      (?vs @ [\<lparr>ve_version = next_version s subject, ve_id = i, ve_deleted = False\<rparr>]) =
      Some \<lparr>ve_version = next_version s subject, ve_id = i, ve_deleted = False\<rparr>"
    by (rule find_snoc_new) (auto dest: unused)
  then show ?thesis
    using t(2,4) r
    by (simp add: find_under_subject_canonical_def s' push_version_def observe_version_bump)
qed

text \<open>Registration adds versions and ids; it changes none.\<close>

lemma register_new_target:
  assumes "store_ok s" "id_room s" "version_room s subject"
    and new: "find_under_subject_canonical s subject key True = None"
    and out: "register_new key subject reg s = (r, s')"
    and "target_schema s k = Some g"
  shows "target_schema s' k = Some g"
proof -
  obtain i t where a: "assign_id key reg s = (i, t)"
    and s': "s' = push_version subject \<lparr>ve_version = next_version s subject, ve_id = i, ve_deleted = False\<rparr>
       (observe_version subject (next_version s subject) t)"
    using register_new_unfold [OF assms(1-5)] by metis
  note t = assign_id_spec [OF assms(1,2) a]
  from assms(6) obtain j where j: "id_of s (fst k) (snd k) = Some j" "map_of (st_by_id s) j = Some g"
    by (auto simp: target_schema_def bind_eq_Some_conv)
  then have "id_of s' (fst k) (snd k) = Some j"
    using t(4) by (cases "fst k = subject")
      (auto simp: id_of_def s' push_version_def observe_version_bump find_append bind_eq_Some_conv)
  with j(2) t(6) show ?thesis
    by (simp add: target_schema_def s' push_version_def observe_version_bump)
qed

lemma register_request_stable:
  assumes "store_ok s" "id_room s" "version_room s subject"
    and "register X s subject ty schema references message_type = Inr (r, s')"
  obtains key where "request_key X s ty schema references message_type = Inr key"
    "request_key X s' ty schema references message_type = Inr key"
    "find_under_subject_canonical s' subject key True = Some r"
  using assms(4)
proof (cases rule: register_cases)
  case (existing key)
  then show ?thesis using that by blast
next
  case (new key)
  have "request_key X s' ty schema references message_type = Inr key"
    using register_new_target [OF assms(1-3) new(2,3)] by (rule request_key_transfer [OF new(1)])
  moreover have "find_under_subject_canonical s' subject key True = Some r"
    by (rule register_new_found [OF assms(1-3) new(2,3)])
  ultimately show ?thesis using that new(1) by blast
qed

text \<open>C27: registering a schema twice under a subject gives the id and version of the first
  registration and changes nothing the second time, and a lookup by schema finds that version.\<close>

theorem register_idempotent:
  assumes "store_ok s" "id_room s" "version_room s subject"
    and "register X s subject ty schema references message_type = Inr (r, s')"
  shows "register X s' subject ty schema references message_type = Inr (r, s') \<and>
    find_under_subject X s' subject ty schema references message_type True = Some r"
proof -
  obtain key where "request_key X s' ty schema references message_type = Inr key"
    "find_under_subject_canonical s' subject key True = Some r"
    using register_request_stable [OF assms] by blast
  then show ?thesis
    by (simp add: register_request_key find_under_subject_request_key)
qed

definition empty_store :: store_state where
  "empty_store = with_defaults ''BACKWARD'' ''READWRITE''"

lemma empty_store_ok: "store_ok empty_store"
  by (simp add: empty_store_def with_defaults_ok)

lemma empty_store_room: "id_room empty_store" "version_room empty_store subject"
  by (simp_all add: id_room_def version_room_def i32_range_def empty_store_def with_defaults_def
      default_schema_id_def next_version_def)

text \<open>The store after \<open>int\<close> is registered under the subject \<open>a\<close> of an empty registry.\<close>

definition one_schema :: store_state where
  "one_schema = \<lparr>
     st_subjects = [(''a'', [\<lparr>ve_version = SchemaVersion 1, ve_id = SchemaId 1, ve_deleted = False\<rparr>])],
     st_by_id = [(SchemaId 1, \<lparr>rs_ty = Avro, rs_schema = ''int'', rs_references = [],
       rs_message_type = None, rs_extra = []\<rparr>)],
     st_by_canonical = [(''int'', SchemaId 1)], st_canonical_by_id = [(SchemaId 1, ''int'')],
     st_global_compat = None, st_default_compatibility = ''BACKWARD'', st_subject_compat = [],
     st_global_mode = None, st_default_mode = ''READWRITE'', st_subject_mode = [],
     st_max_id = SchemaId 1, st_next_versions = [(''a'', SchemaVersion 2)]\<rparr>"

abbreviation first_registered :: registered where
  "first_registered \<equiv> \<lparr>reg_id = SchemaId 1, reg_version = SchemaVersion 1\<rparr>"

lemma register_one_schema:
  "register echo_parsers empty_store ''a'' Avro ''int'' [] None = Inr (first_registered, one_schema)"
  by (simp add: register_request_key request_key_def dedup_key_def empty_store_def with_defaults_def
      find_under_subject_canonical_def register_new_def assign_id_def next_version_def push_version_def
      observe_version_def bump_next_def one_schema_def default_schema_id_def i32_add_def i32_wrap_def
      i32_saturating_add_def Let_def)

theorem register_idempotent_witness:
  "register echo_parsers one_schema ''a'' Avro ''int'' [] None = Inr (first_registered, one_schema) \<and>
   find_under_subject echo_parsers one_schema ''a'' Avro ''int'' [] None True = Some first_registered"
  by (rule register_idempotent [OF empty_store_ok empty_store_room register_one_schema])

end
