(* ===== verification/Store_Replay.thy ===== *)
theory Store_Replay
  imports Store_Register
begin

text \<open>
  The record a registration writes, replayed: \<open>apply_schema\<close> of that record gives the state the
  registration computed on its scratch copy. Lookups after an applied record.
\<close>

text \<open>The value of the record that \<open>KafkaStore::register\<close> writes for an outcome.\<close>

definition request_value :: "string \<Rightarrow> registered \<Rightarrow> schema_type \<Rightarrow> string \<Rightarrow> schema_reference list
    \<Rightarrow> string option \<Rightarrow> schema_value" where
  "request_value subject r ty schema references message_type =
     parts_value \<lparr>rp_subject = subject, rp_version = reg_version r, rp_id = reg_id r, rp_ty = ty,
       rp_schema = schema, rp_references = references, rp_message_type = message_type,
       rp_deleted = False, rp_extra = None\<rparr>"

lemma request_value_simps [simp]:
  "sval_subject (request_value subject r ty schema references message_type) = subject"
  "sval_version (request_value subject r ty schema references message_type) = reg_version r"
  "sval_id (request_value subject r ty schema references message_type) = reg_id r"
  "from_wire (sval_schema_type (request_value subject r ty schema references message_type)) = ty"
  "sval_references (request_value subject r ty schema references message_type) = references"
  "sval_schema (request_value subject r ty schema references message_type) = schema"
  "sval_message_type (request_value subject r ty schema references message_type) = message_type"
  "sval_deleted (request_value subject r ty schema references message_type) = False"
  "stored_schema (request_value subject r ty schema references message_type) =
     request_schema ty schema references message_type"
  by (simp_all add: request_value_def parts_value_def stored_schema_def)

lemma index_canonical_request:
  "request_key X s (from_wire (sval_schema_type val)) (sval_schema val) (sval_references val)
     (sval_message_type val) = Inr key \<Longrightarrow>
   index_canonical X val s = bind_canonical (sval_id val) key s"
  by (auto simp: index_canonical_def request_key_def rbind_Inr_iff)

text \<open>Appending the highest version leaves the order alone.\<close>

lemma upsert_entry_append:
  assumes "es = [] \<or> version_list_ok es" "\<And>e. e \<in> set es \<Longrightarrow> ve_version e < v"
  shows "upsert_entry v i d es = es @ [\<lparr>ve_version = v, ve_id = i, ve_deleted = d\<rparr>]"
proof -
  have "find (\<lambda>e. ve_version e = v) es = None"
    using assms(2) by (auto simp: find_None_iff')
  moreover have "sorted (map ve_version (es @ [\<lparr>ve_version = v, ve_id = i, ve_deleted = d\<rparr>]))"
    using assms by (fastforce simp: version_list_ok_def strict_sorted_iff sorted_append)
  ultimately show ?thesis
    by (simp add: upsert_entry_def sort_key_id_if_sorted)
qed

lemma target_schema_before_index:
  assumes "target_schema s k = Some g" "map_of (st_by_id s) (sval_id val) = None"
  shows "target_schema (before_index val s) k = Some g"
proof -
  obtain i where i: "id_of s (fst k) (snd k) = Some i" "map_of (st_by_id s) i = Some g"
    using assms(1) by (auto simp: target_schema_def bind_eq_Some_conv)
  then have "i \<noteq> sval_id val" using assms(2) by auto
  with i show ?thesis
    by (simp add: target_schema_def id_of_cong [of "before_index val s" s])
qed

text \<open>The index and schema table after the record, in the two cases of \<open>assign_id\<close>.\<close>

lemma replay_index_fresh:
  fixes subject :: string
  assumes ok: "store_ok s" and room: "id_room s" and none: "map_of (st_by_canonical s) key = None"
    and key: "request_key X s ty schema references message_type = Inr key"
    and i: "reg_id r = fresh_id s"
  defines "val \<equiv> request_value subject r ty schema references message_type"
  shows "index_canonical X val (before_index val s) =
    observe_version subject (reg_version r)
      (s\<lparr>st_max_id := fresh_id s,
        st_by_canonical := btree_insert key (fresh_id s) (st_by_canonical s),
        st_canonical_by_id := btree_insert (fresh_id s) key (st_canonical_by_id s),
        st_by_id := btree_insert (fresh_id s) (request_schema ty schema references message_type) (st_by_id s)\<rparr>)"
proof -
  have gone: "map_of (st_canonical_by_id s) (fresh_id s) = None" by (rule fresh_id_unindexed [OF ok])
  have max: "max (st_max_id s) (fresh_id s) = fresh_id s" by (simp add: max_def id_order_defs)
  have b: "before_index val s = observe_version subject (reg_version r)
      (s\<lparr>st_max_id := fresh_id s,
        st_by_id := btree_insert (fresh_id s) (request_schema ty schema references message_type) (st_by_id s)\<rparr>)"
    using gone by (simp add: before_index_def val_def i max forget_canonical_def observe_version_bump bump_next_def)
  have "target_schema (before_index val s) k = Some g" if "target_schema s k = Some g" for k g
    using that fresh_id_above [OF ok] by (auto simp: val_def i intro: target_schema_before_index)
  then have "request_key X (before_index val s) ty schema references message_type = Inr key"
    by (rule request_key_transfer [OF key])
  then have "index_canonical X val (before_index val s) = bind_canonical (fresh_id s) key (before_index val s)"
    using index_canonical_request [of X "before_index val s" val key] by (simp add: val_def i)
  also have "\<dots> = observe_version subject (reg_version r)
      (s\<lparr>st_max_id := fresh_id s,
        st_by_canonical := btree_insert key (fresh_id s) (st_by_canonical s),
        st_canonical_by_id := btree_insert (fresh_id s) key (st_canonical_by_id s),
        st_by_id := btree_insert (fresh_id s) (request_schema ty schema references message_type) (st_by_id s)\<rparr>)"
    unfolding b using none by (simp add: bind_canonical_def observe_version_bump bump_next_def)
  finally show ?thesis .
qed

lemma replay_index_known:
  fixes subject :: string
  assumes ok: "store_ok s" and known: "map_of (st_by_canonical s) key = Some i"
    and key: "request_key X s ty schema [] message_type = Inr key" and i: "reg_id r = i"
  defines "val \<equiv> request_value subject r ty schema [] message_type"
  shows "index_canonical X val (before_index val s) =
    observe_version subject (reg_version r)
      (s\<lparr>st_by_id := btree_insert i (request_schema ty schema [] message_type) (st_by_id s)\<rparr>)"
proof -
  have rev_key: "map_of (st_canonical_by_id s) i = Some key"
    using index_pair [OF store_okD(6) [OF ok]] known by blast
  then have "map_of (st_by_id s) i \<noteq> None" using store_okD(6) [OF ok] by (auto simp: index_ok_def)
  then have "i \<le> st_max_id s" using store_okD(5) [OF ok] by (auto simp: id_mark_ok_def)
  then have max: "max (st_max_id s) i = st_max_id s" by (simp add: max_def)
  have same: "btree_insert key i (btree_remove key (st_by_canonical s)) = st_by_canonical s"
    "btree_insert i key (btree_remove i (st_canonical_by_id s)) = st_canonical_by_id s"
    using known rev_key store_ok_maps [OF ok] by (auto intro!: bt.ok_ext simp: fun_eq_iff)
  have b: "before_index val s = observe_version subject (reg_version r)
      (s\<lparr>st_by_canonical := btree_remove key (st_by_canonical s),
         st_canonical_by_id := btree_remove i (st_canonical_by_id s),
         st_by_id := btree_insert i (request_schema ty schema [] message_type) (st_by_id s)\<rparr>)"
    using known rev_key
    by (simp add: before_index_def val_def i max forget_canonical_def observe_version_bump bump_next_def)
  have "request_key X (before_index val s) ty schema [] message_type = Inr key"
    using key by (simp add: request_key_def)
  then have "index_canonical X val (before_index val s) = bind_canonical i key (before_index val s)"
    using index_canonical_request [of X "before_index val s" val key] by (simp add: val_def i)
  also have "\<dots> = observe_version subject (reg_version r)
      (s\<lparr>st_by_id := btree_insert i (request_schema ty schema [] message_type) (st_by_id s)\<rparr>)"
    unfolding b by (simp add: bind_canonical_def observe_version_bump bump_next_def same)
  finally show ?thesis .
qed

subsection \<open>Properties\<close>

lemma put_entry_observe:
  assumes "store_ok s" "version_room s subject" "reg_version r = next_version s subject"
    and subs: "st_subjects t = st_subjects s"
  shows "set_entry (request_value subject r ty schema references message_type) t =
    push_version subject \<lparr>ve_version = reg_version r, ve_id = reg_id r, ve_deleted = False\<rparr> t"
proof -
  let ?es = "unwrap_or (map_of (st_subjects s) subject) []"
  have es: "?es = [] \<or> map_of (st_subjects s) subject = Some ?es"
    by (cases "map_of (st_subjects s) subject") auto
  have "upsert_entry (reg_version r) (reg_id r) False ?es =
      ?es @ [\<lparr>ve_version = reg_version r, ve_id = reg_id r, ve_deleted = False\<rparr>]"
  proof (rule upsert_entry_append)
    show "?es = [] \<or> version_list_ok ?es" using es store_ok_entry(1) [OF assms(1)] by blast
    show "ve_version e < reg_version r" if "e \<in> set ?es" for e
      using that es next_version_above [OF assms(1) _ assms(2), of e]
      by (auto simp: assms(3) entry_in_def)
  qed
  then show ?thesis by (simp add: set_entry_def push_version_def subs)
qed

lemma register_new_replay:
  assumes "store_ok s" "id_room s" "version_room s subject"
    and key: "request_key X s ty schema references message_type = Inr key"
    and new: "find_under_subject_canonical s subject key True = None"
    and out: "register_new key subject (request_schema ty schema references message_type) s = (r, s')"
    and "references = [] \<or> map_of (st_by_id s) (reg_id r) = None"
  shows "apply_schema X (request_value subject r ty schema references message_type) s =
    s'\<lparr>st_by_id := btree_insert (reg_id r) (request_schema ty schema references message_type) (st_by_id s')\<rparr>"
proof -
  let ?val = "request_value subject r ty schema references message_type"
  let ?reg = "request_schema ty schema references message_type"
  obtain i t where a: "assign_id key ?reg s = (i, t)"
    and r: "r = \<lparr>reg_id = i, reg_version = next_version s subject\<rparr>"
    and s': "s' = push_version subject \<lparr>ve_version = next_version s subject, ve_id = i, ve_deleted = False\<rparr>
       (observe_version subject (next_version s subject) t)"
    using register_new_unfold [OF assms(1-3) new out] by metis
  have idx: "index_canonical X ?val (before_index ?val s) = observe_version subject (reg_version r)
      (t\<lparr>st_by_id := btree_insert i ?reg (st_by_id t)\<rparr>)"
  proof (cases "map_of (st_by_canonical s) key")
    case None
    then have "i = fresh_id s" "t\<lparr>st_by_id := btree_insert i ?reg (st_by_id t)\<rparr> = t"
      using a store_ok_maps(2) [OF assms(1)]
      by (auto simp: assign_id_new [OF None assms(2)] bt.insert_twice)
    then show ?thesis
      using a replay_index_fresh [OF assms(1,2) None key, of r subject]
      by (simp add: r assign_id_new [OF None assms(2)])
  next
    case (Some j)
    then have j: "j = i" "t = s" using a by (simp_all add: assign_id_known)
    then have "map_of (st_by_id s) i \<noteq> None"
      using assign_id_spec(3) [OF assms(1,2) a] by simp
    then have "references = []" using assms(7) r by auto
    then show ?thesis
      using replay_index_known [OF assms(1), of key i X ty schema message_type r subject] Some key
      by (simp add: r j)
  qed
  have "apply_schema X ?val s =
      push_version subject \<lparr>ve_version = reg_version r, ve_id = reg_id r, ve_deleted = False\<rparr>
        (observe_version subject (reg_version r) (t\<lparr>st_by_id := btree_insert i ?reg (st_by_id t)\<rparr>))"
    unfolding apply_schema_before idx using assign_id_spec(4) [OF assms(1,2) a]
    by (intro put_entry_observe [OF assms(1,3)]) (simp_all add: r observe_version_bump)
  also have "\<dots> = s'\<lparr>st_by_id := btree_insert (reg_id r) ?reg (st_by_id s')\<rparr>"
    by (simp add: s' r push_version_def observe_version_bump bump_next_def)
  finally show ?thesis .
qed

text \<open>After a schema record is applied, its version is found with the record's id, type, text,
  references and metadata, and it is hidden from live lookups exactly when the record is a soft
  delete; every other version bound to another id reads as before.\<close>

theorem apply_schema_lookup:
  assumes "store_ok s"
  shows "version (apply_schema X val s) (sval_subject val) (Some (sval_version val)) d =
      (if d \<or> \<not> sval_deleted val then Some \<lparr>vs_id = sval_id val, vs_version = sval_version val,
         vs_ty = from_wire (sval_schema_type val), vs_schema = sval_schema val,
         vs_references = sval_references val, vs_message_type = sval_message_type val,
         vs_extra = sval_extra val\<rparr> else None) \<and>
    ((subject, v) \<noteq> (sval_subject val, sval_version val) \<longrightarrow> id_of s subject v \<noteq> Some (sval_id val) \<longrightarrow>
      version (apply_schema X val s) subject (Some v) d = version s subject (Some v) d)"
proof (intro conjI impI)
  note ok = apply_schema_ok [OF assms, of X val]
  show "version (apply_schema X val s) (sval_subject val) (Some (sval_version val)) d =
      (if d \<or> \<not> sval_deleted val then Some \<lparr>vs_id = sval_id val, vs_version = sval_version val,
         vs_ty = from_wire (sval_schema_type val), vs_schema = sval_schema val,
         vs_references = sval_references val, vs_message_type = sval_message_type val,
         vs_extra = sval_extra val\<rparr> else None)"
    by (simp add: version_entry_of [OF ok] apply_schema_entry [OF assms] apply_schema_by_id
        stored_schema_def versioned_def)
  assume "(subject, v) \<noteq> (sval_subject val, sval_version val)" "id_of s subject v \<noteq> Some (sval_id val)"
  then show "version (apply_schema X val s) subject (Some v) d = version s subject (Some v) d"
    by (cases "entry_of s subject v")
      (auto simp: version_entry_of [OF ok] version_entry_of [OF assms] apply_schema_entry [OF assms]
        apply_schema_by_id id_of_entry)
qed

lemma empty_int_new: "find_under_subject echo_parsers empty_store ''a'' Avro ''int'' [] None True = None"
  by (simp add: find_under_subject_def dedup_key_def find_under_subject_canonical_def empty_store_def
      with_defaults_def)

theorem apply_schema_lookup_witness:
  "version (apply_schema echo_parsers
      (request_value ''a'' first_registered Avro ''int'' [] None) empty_store) ''a'' (Some (SchemaVersion 1)) False =
     Some \<lparr>vs_id = SchemaId 1, vs_version = SchemaVersion 1, vs_ty = Avro, vs_schema = ''int'',
       vs_references = [], vs_message_type = None, vs_extra = []\<rparr>"
  using apply_schema_lookup [OF empty_store_ok, of echo_parsers
      "request_value ''a'' first_registered Avro ''int'' [] None" False]
  by (simp add: request_value_def parts_value_def from_wire_def)

text \<open>The state a first registration computes is the state that replaying the record it writes
  produces, when the id is new or the schema has no references; on a reused id replay also
  overwrites the stored text of that id.\<close>

theorem register_matches_replay:
  assumes "store_ok s" "id_room s" "version_room s subject"
    and "register X s subject ty schema references message_type = Inr (r, s')"
    and "find_under_subject X s subject ty schema references message_type True = None"
    and "references = [] \<or> map_of (st_by_id s) (reg_id r) = None"
  shows "apply_schema X (request_value subject r ty schema references message_type) s =
    s'\<lparr>st_by_id := btree_insert (reg_id r) (request_schema ty schema references message_type) (st_by_id s')\<rparr>"
  using assms(4)
proof (cases rule: register_cases)
  case (existing key)
  with assms(5) show ?thesis by (simp add: find_under_subject_request_key)
next
  case (new key)
  from register_new_replay [OF assms(1-3) new assms(6)] show ?thesis .
qed

theorem register_matches_replay_witness:
  "apply_schema echo_parsers (request_value ''a'' first_registered Avro ''int'' [] None) empty_store = one_schema"
  using register_matches_replay [OF empty_store_ok empty_store_room register_one_schema empty_int_new]
  by (simp add: one_schema_def)

end
