(* ===== verification/Store_Queries.thy ===== *)
theory Store_Queries
  imports Store_Replay
begin

text \<open>
  What the read operations return, stated over the version entries of the store: listings are
  complete, in order and without duplicates, and the listings agree with the single lookups.
\<close>

abbreviation visible :: "bool \<Rightarrow> version_entry \<Rightarrow> bool" where
  "visible include_deleted e \<equiv> include_deleted \<or> \<not> ve_deleted e"

lemma sorted_map_filter: "sorted_wrt (<) (map f xs) \<Longrightarrow> sorted_wrt (<) (map f (filter P xs))"
  by (simp add: sorted_wrt_map sorted_wrt_filter)

subsection \<open>Subjects and versions\<close>

lemma versions_Some:
  assumes "store_ok s" "versions s subject d = Some vs"
  shows "vs \<noteq> []" "sorted_wrt (<) vs"
    "set vs = {ve_version e | e. entry_in s subject e \<and> visible d e}"
proof -
  obtain es where es: "map_of (st_subjects s) subject = Some es"
    and vs: "vs = map ve_version (filter (visible d) es)" "vs \<noteq> []"
    using assms(2) by (auto simp: versions_def Let_def split: bind_splits if_splits)
  show "vs \<noteq> []" by (rule vs(2))
  show "sorted_wrt (<) vs"
    using store_ok_entry(1) [OF assms(1) es] by (simp add: vs(1) version_list_ok_def sorted_map_filter)
  show "set vs = {ve_version e | e. entry_in s subject e \<and> visible d e}"
    using es by (auto simp: vs(1) entry_in_def)
qed

lemma versions_None:
  "versions s subject d = None \<longleftrightarrow> (\<forall>e. entry_in s subject e \<longrightarrow> \<not> visible d e)"
  by (cases "map_of (st_subjects s) subject")
    (auto simp: versions_def Let_def entry_in_def filter_empty_conv)

lemma subjects_visible:
  assumes "store_ok s"
  shows "subject \<in> set (subjects s d) \<longleftrightarrow> (\<exists>e. entry_in s subject e \<and> visible d e)"
proof -
  have "subject \<in> set (subjects s d) \<longleftrightarrow>
      (\<exists>es. (subject, es) \<in> set (st_subjects s) \<and> list_ex (visible d) es)"
    by (auto simp: subjects_def image_iff)
  then show ?thesis
    by (auto simp: btree_in_iff [OF store_ok_maps(1) [OF assms]] entry_in_def list_ex_iff)
qed

text \<open>The subject listing is strictly ascending and names exactly the subjects whose version
  listing is present; a version listing is non-empty, strictly ascending, and holds exactly the
  visible versions of the subject.\<close>

theorem listings_agree:
  assumes "store_ok s"
  shows "sorted_wrt (<) (subjects s d) \<and>
    (subject \<in> set (subjects s d) \<longleftrightarrow> versions s subject d \<noteq> None) \<and>
    (\<forall>vs. versions s subject d = Some vs \<longrightarrow> vs \<noteq> [] \<and> sorted_wrt (<) vs \<and>
       set vs = {v. version s subject (Some v) d \<noteq> None})"
proof (intro conjI allI impI)
  show "sorted_wrt (<) (subjects s d)"
    using store_ok_maps(1) [OF assms] by (simp add: subjects_def btree_ok_def sorted_map_filter)
  show "subject \<in> set (subjects s d) \<longleftrightarrow> versions s subject d \<noteq> None"
    by (auto simp: subjects_visible [OF assms] versions_None)
  fix vs assume vs: "versions s subject d = Some vs"
  note v = versions_Some [OF assms vs]
  show "vs \<noteq> []" "sorted_wrt (<) vs" by (rule v)+
  have "version s subject (Some w) d \<noteq> None \<longleftrightarrow> (\<exists>e. entry_in s subject e \<and> visible d e \<and> ve_version e = w)" for w
  proof
    assume "version s subject (Some w) d \<noteq> None"
    then obtain e where "entry_of s subject w = Some e" "visible d e"
      by (auto simp: version_entry_of [OF assms] split: bind_splits if_splits)
    then show "\<exists>e. entry_in s subject e \<and> visible d e \<and> ve_version e = w"
      using entry_of_in by blast
  next
    assume "\<exists>e. entry_in s subject e \<and> visible d e \<and> ve_version e = w"
    then obtain e where e: "entry_in s subject e" "visible d e" "ve_version e = w" by blast
    then have "map_of (st_by_id s) (ve_id e) \<noteq> None"
      using store_okD(3) [OF assms] by (auto simp: bindings_ok_def)
    then show "version s subject (Some w) d \<noteq> None"
      using entry_in_of [OF assms e(1)] e(2,3) by (auto simp: version_entry_of [OF assms])
  qed
  then show "set vs = {w. version s subject (Some w) d \<noteq> None}"
    using v(3) by auto
qed

lemma one_schema_ok: "store_ok one_schema"
  by (rule register_ok [OF empty_store_ok empty_store_room register_one_schema])

theorem listings_agree_witness:
  "subjects one_schema False = [''a''] \<and> versions one_schema ''a'' False = Some [SchemaVersion 1] \<and>
   {v. version one_schema ''a'' (Some v) False \<noteq> None} = {SchemaVersion 1}"
proof -
  have *: "versions one_schema ''a'' False = Some [SchemaVersion 1]" "subjects one_schema False = [''a'']"
    by (simp_all add: one_schema_def versions_def subjects_def)
  then have "set [SchemaVersion 1] = {v. version one_schema ''a'' (Some v) False \<noteq> None}"
    using listings_agree [OF one_schema_ok, of False "''a''"] by blast
  with * show ?thesis by simp
qed

subsection \<open>The latest version\<close>

lemma rfind_filter: "rfind P xs = (if filter P xs = [] then None else Some (last (filter P xs)))"
  by (induction xs rule: rev_induct) (auto simp: rfind_def)

text \<open>\<open>latest\<close> is the highest visible version: it is absent exactly when the subject has no
  visible version, and otherwise reads as the last version of the listing.\<close>

theorem latest_is_last:
  assumes "store_ok s"
  shows "version s subject None d =
    (case versions s subject d of None \<Rightarrow> None | Some vs \<Rightarrow> version s subject (Some (last vs)) d)"
proof (cases "map_of (st_subjects s) subject")
  case None
  then show ?thesis by (simp add: version_def versions_def)
next
  case (Some es)
  show ?thesis
  proof (cases "filter (visible d) es = []")
    case True
    then show ?thesis using Some by (simp add: version_def versions_def rfind_filter)
  next
    case False
    let ?e = "last (filter (visible d) es)"
    have e: "?e \<in> set es" "visible d ?e" using last_in_set [OF False] by auto
    then have "entry_of s subject (ve_version ?e) = Some ?e"
      using Some by (intro entry_in_of [OF assms]) (auto simp: entry_in_def)
    then have "version s subject (Some (ve_version ?e)) d = map_option (versioned ?e) (map_of (st_by_id s) (ve_id ?e))"
      using e(2) by (auto simp: version_entry_of [OF assms])
    moreover have "versions s subject d = Some (map ve_version (filter (visible d) es))"
      using Some False by (simp add: versions_def)
    moreover have "version s subject None d = map_option (versioned ?e) (map_of (st_by_id s) (ve_id ?e))"
      using Some False by (simp add: version_def rfind_filter versioned_def map_conv_bind_option comp_def)
    ultimately show ?thesis using False by (simp add: last_map)
  qed
qed

theorem latest_is_last_witness:
  "map_option vs_version (version one_schema ''a'' None False) = Some (SchemaVersion 1)"
  using latest_is_last [OF one_schema_ok, of "''a''" False]
  by (simp add: one_schema_def versions_def version_def)

subsection \<open>Queries over every entry\<close>

lemma all_entries:
  assumes "store_ok s"
  shows "e \<in> set (concat (btree_values (st_subjects s))) \<longleftrightarrow> (\<exists>subject. entry_in s subject e)"
proof -
  have "e \<in> set (concat (btree_values (st_subjects s))) \<longleftrightarrow>
      (\<exists>subject es. (subject, es) \<in> set (st_subjects s) \<and> e \<in> set es)"
    by (force simp: btree_values_def)
  then show ?thesis
    by (simp add: btree_in_iff [OF store_ok_maps(1) [OF assms]] entry_in_def)
qed

text \<open>A schema id resolves to its stored schema exactly while some version, live or (when
  deleted versions are asked for) soft-deleted, is bound to it.\<close>

theorem schema_by_id_visible:
  assumes "store_ok s"
  shows "schema_by_id s i d =
    (if \<exists>subject e. entry_in s subject e \<and> ve_id e = i \<and> visible d e
     then map_option (\<lambda>reg. (rs_ty reg, rs_schema reg, rs_references reg, rs_message_type reg))
            (map_of (st_by_id s) i)
     else None) \<and>
   (\<forall>subject e. entry_in s subject e \<longrightarrow> visible d e \<longrightarrow> schema_by_id s (ve_id e) d \<noteq> None)"
proof -
  have ex: "list_ex (\<lambda>v. ve_id v = i \<and> visible d v) (concat (btree_values (st_subjects s))) \<longleftrightarrow>
      (\<exists>subject e. entry_in s subject e \<and> ve_id e = i \<and> visible d e)" for i
    unfolding list_ex_iff Bex_def all_entries [OF assms] by blast
  have eq: "schema_by_id s i d =
    (if \<exists>subject e. entry_in s subject e \<and> ve_id e = i \<and> visible d e
     then map_option (\<lambda>reg. (rs_ty reg, rs_schema reg, rs_references reg, rs_message_type reg))
            (map_of (st_by_id s) i)
     else None)" for i
    unfolding schema_by_id_def ex by (cases "map_of (st_by_id s) i") auto
  show ?thesis
    unfolding eq using store_okD(3) [OF assms] by (fastforce simp: bindings_ok_def)
qed

theorem schema_by_id_visible_witness:
  "schema_by_id one_schema (SchemaId 1) False = Some (Avro, ''int'', [], None) \<and>
   schema_by_id one_schema (SchemaId 2) True = None"
  using schema_by_id_visible [OF one_schema_ok, of "SchemaId 1" False]
    schema_by_id_visible [OF one_schema_ok, of "SchemaId 2" True]
  by (simp add: entry_in_def one_schema_def)

lemma collect_ids:
  "distinct ids \<Longrightarrow>
   (let out = foldl (\<lambda>ids e. if Q e \<and> ve_id e \<notin> set ids then ids @ [ve_id e] else ids) ids es
    in distinct out \<and> set out = set ids \<union> ve_id ` {e \<in> set es. Q e})"
  by (induction es arbitrary: ids) (auto simp: Let_def)

text \<open>The referrers of a version are the ids of exactly the visible versions whose schema
  references it, ascending and without duplicates.\<close>

theorem referenced_by_exact:
  assumes "store_ok s"
  shows "sorted_wrt (<) (referenced_by s subject ver d) \<and>
    (i \<in> set (referenced_by s subject ver d) \<longleftrightarrow>
      (\<exists>referrer e reg r. entry_in s referrer e \<and> visible d e \<and> ve_id e = i \<and>
         map_of (st_by_id s) i = Some reg \<and> r \<in> set (rs_references reg) \<and> ref_key r = (subject, ver)))"
proof -
  let ?out = "foldl (\<lambda>ids e. if refers_to s subject ver d e \<and> ve_id e \<notin> set ids then ids @ [ve_id e] else ids)
    [] (concat (btree_values (st_subjects s)))"
  have out: "distinct ?out \<and> set ?out =
      ve_id ` {e \<in> set (concat (btree_values (st_subjects s))). refers_to s subject ver d e}"
    using collect_ids [of "[]" "refers_to s subject ver d"] by (simp only: Let_def distinct.simps set_simps Un_empty_left)
  have q: "refers_to s subject ver d e \<longleftrightarrow> visible d e \<and>
      (\<exists>reg r. map_of (st_by_id s) (ve_id e) = Some reg \<and> r \<in> set (rs_references reg) \<and> ref_key r = (subject, ver))" for e
    by (cases "map_of (st_by_id s) (ve_id e)") (auto simp: refers_to_def list_ex_iff ref_key_def)
  have "i \<in> set ?out \<longleftrightarrow> (\<exists>referrer e. entry_in s referrer e \<and> refers_to s subject ver d e \<and> ve_id e = i)"
    unfolding conjunct2 [OF out] all_entries [OF assms] by blast
  then have "i \<in> set (referenced_by s subject ver d) \<longleftrightarrow>
      (\<exists>referrer e. entry_in s referrer e \<and> refers_to s subject ver d e \<and> ve_id e = i)"
    by (simp add: referenced_by_def)
  moreover have "sorted_wrt (<) (referenced_by s subject ver d)"
    using out by (simp add: referenced_by_def strict_sorted_iff)
  ultimately show ?thesis unfolding q by blast
qed

text \<open>A second subject whose schema references version 1 of the first.\<close>

definition a_reference :: schema_reference where
  "a_reference = \<lparr>ref_name = ''A'', ref_subject = ''a'', ref_version = SchemaVersion 1\<rparr>"

definition referring_value :: schema_value where
  "referring_value = request_value ''b'' \<lparr>reg_id = SchemaId 2, reg_version = SchemaVersion 1\<rparr>
     Avro ''rec'' [a_reference] None"

definition two_schemas :: store_state where
  "two_schemas = apply_schema echo_parsers referring_value one_schema"

lemma two_schemas_ok: "store_ok two_schemas"
  by (simp add: two_schemas_def apply_schema_ok one_schema_ok)

lemma two_schemas_entries:
  "st_subjects two_schemas =
     [(''a'', [\<lparr>ve_version = SchemaVersion 1, ve_id = SchemaId 1, ve_deleted = False\<rparr>]),
      (''b'', [\<lparr>ve_version = SchemaVersion 1, ve_id = SchemaId 2, ve_deleted = False\<rparr>])]"
  "map_of (st_by_id two_schemas) (SchemaId 2) =
     Some \<lparr>rs_ty = Avro, rs_schema = ''rec'', rs_references = [a_reference], rs_message_type = None, rs_extra = []\<rparr>"
  by (simp_all add: two_schemas_def apply_schema_before set_entry_def referring_value_def one_schema_def
      upsert_entry_def less_char_def)

theorem referenced_by_exact_witness:
  "SchemaId 2 \<in> set (referenced_by two_schemas ''a'' (SchemaVersion 1) False)"
  using referenced_by_exact [OF two_schemas_ok, of "''a''" "SchemaVersion 1" False "SchemaId 2"]
  by (simp add: two_schemas_entries entry_in_def a_reference_def ref_key_def)

end
