(* ===== verification/Store_Dedup.thy ===== *)
theory Store_Dedup
  imports Store_Queries "HOL-Library.Multiset"
begin

text \<open>
  The deduplication key identifies a schema: two requests share a key exactly when their canonical
  forms, their references up to order and their message types agree, as long as the separator
  characters occur in none of the parts.
\<close>

lemma split_first:
  "a @ x # b = a' @ x # b' \<Longrightarrow> x \<notin> set a \<Longrightarrow> x \<notin> set a' \<Longrightarrow> a = a' \<and> b = b'"
proof (induction a arbitrary: a')
  case Nil
  then show ?case by (cases a') auto
next
  case (Cons y a)
  then show ?case by (cases a') auto
qed

definition free_of :: "char list \<Rightarrow> string \<Rightarrow> bool" where
  "free_of seps s \<longleftrightarrow> set seps \<inter> set s = {}"

lemma join_with_inject:
  assumes "join_with [x] ss = join_with [x] ts"
    and "\<forall>s\<in>set ss. s \<noteq> [] \<and> x \<notin> set s" "\<forall>t\<in>set ts. t \<noteq> [] \<and> x \<notin> set t"
  shows "ss = ts"
  using assms
proof (induction ss arbitrary: ts)
  case Nil
  then show ?case by (cases ts rule: remdups_adj.cases) auto
next
  case (Cons s ss)
  note IH = Cons.IH and prems = Cons.prems
  show ?case
  proof (cases ts)
    case Nil
    with prems show ?thesis by (cases ss) auto
  next
    case (Cons t ts')
    show ?thesis
    proof (cases "ss = [] \<or> ts' = []")
      case True
      then show ?thesis using prems Cons by (cases ss; cases ts') auto
    next
      case False
      then obtain s' ss' t' ts'' where ne: "ss = s' # ss'" "ts' = t' # ts''"
        by (meson neq_Nil_conv)
      have "s = t \<and> join_with [x] ss = join_with [x] ts'"
        using split_first [of s x "join_with [x] ss" t "join_with [x] ts'"] prems Cons ne by simp
      then show ?thesis using IH [of ts'] prems Cons by simp
    qed
  qed
qed

subsection \<open>References\<close>

definition plain_reference :: "schema_reference \<Rightarrow> bool" where
  "plain_reference r \<longleftrightarrow> free_of [sep0, sep1, sep2] (ref_name r) \<and> free_of [sep0, sep1, sep2] (ref_subject r)"

lemma show_int_free: "sep0 \<notin> set (show_int i)" "sep1 \<notin> set (show_int i)" "sep2 \<notin> set (show_int i)"
  by (auto simp: is_digit_def dest!: show_int_chars)

lemma fingerprint_free:
  assumes "plain_reference r"
  shows "ref_fingerprint r \<noteq> []" "sep0 \<notin> set (ref_fingerprint r)" "sep2 \<notin> set (ref_fingerprint r)"
  using assms show_int_free by (auto simp: plain_reference_def free_of_def ref_fingerprint_def)

lemma fingerprint_inject:
  assumes "plain_reference r" "plain_reference r'" "ref_fingerprint r = ref_fingerprint r'"
  shows "r = r'"
proof -
  have sep: "sep1 \<notin> set (ref_name r)" "sep1 \<notin> set (ref_name r')"
      "sep1 \<notin> set (ref_subject r)" "sep1 \<notin> set (ref_subject r')"
    using assms(1,2) by (simp_all add: plain_reference_def free_of_def)
  have "ref_name r @ sep1 # (ref_subject r @ sep1 # show_int (version_raw (ref_version r))) =
      ref_name r' @ sep1 # (ref_subject r' @ sep1 # show_int (version_raw (ref_version r')))"
    using assms(3) by (simp add: ref_fingerprint_def)
  then have "ref_name r = ref_name r'" and rest: "ref_subject r @ sep1 # show_int (version_raw (ref_version r)) =
      ref_subject r' @ sep1 # show_int (version_raw (ref_version r'))"
    using split_first [OF _ sep(1,2)] by blast+
  moreover have "ref_subject r = ref_subject r' \<and>
      show_int (version_raw (ref_version r)) = show_int (version_raw (ref_version r'))"
    by (rule split_first [OF rest sep(3,4)])
  ultimately show ?thesis
    by (simp add: schema_version.expand)
qed

lemma mset_inject:
  assumes "image_mset f M = image_mset f N" "\<And>x y. x \<in># M + N \<Longrightarrow> y \<in># M + N \<Longrightarrow> f x = f y \<Longrightarrow> x = y"
  shows "M = N"
proof -
  let ?g = "inv_into (set_mset (M + N)) f"
  have inj: "inj_on f (set_mset (M + N))" using assms(2) by (auto simp: inj_on_def)
  have "image_mset ?g (image_mset f M) = M" "image_mset ?g (image_mset f N) = N"
    using inv_into_f_f [OF inj] by (simp_all add: multiset.map_comp comp_def cong: multiset.map_cong)
  then show ?thesis using assms(1) by simp
qed

abbreviation joined :: "schema_reference list \<Rightarrow> string" where
  "joined refs \<equiv> join_with [sep2] (sort (map ref_fingerprint refs))"

lemma join_with_free: "\<forall>s\<in>set ss. x \<notin> set s \<Longrightarrow> x \<noteq> y \<Longrightarrow> x \<notin> set (join_with [y] ss)"
  by (induction "[y]" ss rule: join_with.induct) auto

lemma joined_free: "list_all plain_reference refs \<Longrightarrow> sep0 \<notin> set (joined refs)"
  by (rule join_with_free) (auto simp: list_all_iff fingerprint_free)

lemma joined_inject:
  assumes "list_all plain_reference refs" "list_all plain_reference refs'" "joined refs = joined refs'"
  shows "mset refs = mset refs'"
proof -
  have "sort (map ref_fingerprint refs) = sort (map ref_fingerprint refs')"
    using assms by (intro join_with_inject [OF assms(3)]) (auto simp: list_all_iff fingerprint_free)
  then have "image_mset ref_fingerprint (mset refs) = image_mset ref_fingerprint (mset refs')"
    by (metis mset_map mset_sort)
  then show ?thesis
    by (rule mset_inject) (use assms(1,2) fingerprint_inject in \<open>auto simp: list_all_iff\<close>)
qed

lemma joined_reorder: "mset refs = mset refs' \<Longrightarrow> joined refs = joined refs'"
  by (metis mset_map sorted_list_of_multiset_mset)

lemma dedup_key_inject:
  assumes "sep0 \<notin> set c" "sep0 \<notin> set c'"
    and "list_all plain_reference refs" "list_all plain_reference refs'"
    and eq: "dedup_key c refs mt = dedup_key c' refs' mt'"
  shows "c = c' \<and> mset refs = mset refs' \<and> unwrap_or mt [] = unwrap_or mt' []"
proof (cases "(refs = [] \<and> mt = None) \<or> (refs' = [] \<and> mt' = None)")
  case True
  then show ?thesis using eq assms(1,2) by (auto simp: dedup_key_def split: if_splits)
next
  case False
  then have "c @ sep0 # (joined refs @ sep0 # unwrap_or mt []) =
      c' @ sep0 # (joined refs' @ sep0 # unwrap_or mt' [])"
    using eq unfolding dedup_key_def by (simp split: if_splits)
  from split_first [OF this assms(1,2)]
  have "c = c'" and tail: "joined refs @ sep0 # unwrap_or mt [] = joined refs' @ sep0 # unwrap_or mt' []"
    by simp_all
  with split_first [OF tail] joined_free assms(3,4) joined_inject [OF assms(3,4)]
  show ?thesis by blast
qed

text \<open>For canonical texts and references free of the separator characters, equal
  deduplication keys mean the same canonical text, the same references up to order and the same
  message type (an absent message type counting as the empty one), and reordering the references
  never changes the key.\<close>

theorem dedup_key_identifies:
  assumes "free_of [sep0] c" "free_of [sep0] c'"
    and "list_all plain_reference refs" "list_all plain_reference refs'"
  shows "(dedup_key c refs mt = dedup_key c' refs' mt' \<longrightarrow>
      c = c' \<and> mset refs = mset refs' \<and> unwrap_or mt [] = unwrap_or mt' []) \<and>
    (mset refs = mset refs' \<longrightarrow> dedup_key c refs mt = dedup_key c refs' mt)"
proof (intro conjI [OF impI impI])
  assume "dedup_key c refs mt = dedup_key c' refs' mt'"
  then show "c = c' \<and> mset refs = mset refs' \<and> unwrap_or mt [] = unwrap_or mt' []"
    using assms by (intro dedup_key_inject) (simp_all add: free_of_def)
next
  assume eq: "mset refs = mset refs'"
  then have "refs = [] \<longleftrightarrow> refs' = []" by (metis mset_zero_iff)
  then show "dedup_key c refs mt = dedup_key c refs' mt"
    using joined_reorder [OF eq] by (simp add: dedup_key_def)
qed

definition b_reference :: schema_reference where
  "b_reference = \<lparr>ref_name = ''B'', ref_subject = ''b'', ref_version = SchemaVersion 1\<rparr>"

theorem dedup_key_identifies_witness:
  "dedup_key ''int'' [a_reference, b_reference] None = dedup_key ''int'' [b_reference, a_reference] None \<and>
   dedup_key ''int'' [a_reference, b_reference] None \<noteq> dedup_key ''int'' [a_reference, a_reference] None"
  using dedup_key_identifies [of "''int''" "''int''" "[a_reference, b_reference]" "[b_reference, a_reference]" None None]
    dedup_key_identifies [of "''int''" "''int''" "[a_reference, b_reference]" "[a_reference, a_reference]" None None]
  by (simp add: free_of_def plain_reference_def a_reference_def b_reference_def)

end
