(* ===== verification/Reader.thy ===== *)
theory Reader
  imports Store_Dedup "HOL-Library.Word" "HOL-Library.Option_ord"
begin

text \<open>
  The topic reader (\<^verbatim>\<open>kafkastore/reader.rs\<close>): barrier tokens, the fold of records into the
  store, rebuilding after the log start moved or the topic was recreated, and the reader task as
  a step function on its state. The broker's answers (leader resolution, log bounds, fetches) are
  the events of a step; sleeping and logging have no state. \<open>u64\<close> counters are words, offsets
  \<open>i64\<close> are integers that the code only compares.
\<close>

subsection \<open>Barriers\<close>

type_synonym uuid = "128 word"

record barriers =
  bar_pending :: "uuid set"
  bar_seen :: "uuid set"
  bar_invalidated :: "uuid set"

datatype barrier_poll = PollPending | PollSeen | PollInvalidated

definition no_barriers :: barriers where
  "no_barriers = \<lparr>bar_pending = {}, bar_seen = {}, bar_invalidated = {}\<rparr>"

text \<open>\<open>reserve\<close> with the token that \<open>Uuid::new_v4\<close> drew.\<close>

definition reserve :: "uuid \<Rightarrow> barriers \<Rightarrow> barriers" where
  "reserve token b = b\<lparr>bar_pending := insert token (bar_pending b)\<rparr>"

definition observe :: "uuid \<Rightarrow> barriers \<Rightarrow> barriers" where
  "observe token b =
     (if token \<in> bar_pending b then b\<lparr>bar_seen := insert token (bar_seen b)\<rparr> else b)"

definition poll :: "uuid \<Rightarrow> barriers \<Rightarrow> barrier_poll \<times> barriers" where
  "poll token b =
     (if token \<in> bar_invalidated b
      then (PollInvalidated, b\<lparr>bar_invalidated := bar_invalidated b - {token}\<rparr>)
      else if token \<notin> bar_seen b then (PollPending, b)
      else (PollSeen, b\<lparr>bar_seen := bar_seen b - {token}, bar_pending := bar_pending b - {token}\<rparr>))"

definition cancel :: "uuid \<Rightarrow> barriers \<Rightarrow> barriers" where
  "cancel token b = \<lparr>bar_pending = bar_pending b - {token}, bar_seen = bar_seen b - {token},
     bar_invalidated = bar_invalidated b - {token}\<rparr>"

definition invalidate_all :: "barriers \<Rightarrow> barriers" where
  "invalidate_all b = \<lparr>bar_pending = {}, bar_seen = {},
     bar_invalidated = bar_invalidated b \<union> bar_pending b\<rparr>"

subsection \<open>Failure handling\<close>

datatype client_error =
    Server int
  | Connect
  | Disconnected
  | Timeout
  | Io
  | OtherClientError

datatype fetch_error_action = Reconnect | RetrySameConnection | ResetToLogStart | RefreshTopic

definition fetch_error_action_of :: "client_error \<Rightarrow> fetch_error_action" where
  "fetch_error_action_of e = (case e of
      Server c \<Rightarrow> (if c = 1 then ResetToLogStart
                   else if c = 3 \<or> c = 6 \<or> c = 100 then RefreshTopic else RetrySameConnection)
    | Connect \<Rightarrow> Reconnect
    | Disconnected \<Rightarrow> Reconnect
    | Timeout \<Rightarrow> Reconnect
    | Io \<Rightarrow> Reconnect
    | OtherClientError \<Rightarrow> RetrySameConnection)"

definition is_power_of_two :: "64 word \<Rightarrow> bool" where
  "is_power_of_two x \<longleftrightarrow> (\<exists>n\<in>set [0..<64]. x = push_bit n 1)"

definition should_log_failure :: "64 word \<Rightarrow> bool" where
  "should_log_failure consecutive \<longleftrightarrow> consecutive = 1 \<or> is_power_of_two consecutive"

subsection \<open>Applying records\<close>

definition apply_record :: "'a third_party \<Rightarrow> schema_record \<Rightarrow> store_state \<Rightarrow> store_state" where
  "apply_record X rec s = (case rec of
      Schema k v \<Rightarrow> apply_schema X v s
    | Tombstone k \<Rightarrow> snd (permanent_delete_version (sk_subject k) (sk_version k) s)
    | DeleteSubject k v \<Rightarrow> snd (soft_delete_subject (dk_subject k) s)
    | VersionHighWater k v \<Rightarrow> observe_next_version (hk_subject k) (hv_next_version v) s
    | Mode k (Some v) \<Rightarrow> (case mk_subject k of
          Some subj \<Rightarrow> set_subject_mode subj (mv_mode v) s
        | None \<Rightarrow> set_global_mode (mv_mode v) s)
    | Mode k None \<Rightarrow> (case mk_subject k of
          Some subj \<Rightarrow> clear_subject_mode subj s
        | None \<Rightarrow> clear_global_mode s)
    | Config k (Some v) \<Rightarrow> (case ck_subject k of
          Some subj \<Rightarrow> set_subject_compat subj (compatibility_level v) s
        | None \<Rightarrow> set_global_compat (compatibility_level v) s)
    | Config k None \<Rightarrow> (case ck_subject k of
          Some subj \<Rightarrow> clear_subject_compat subj s
        | None \<Rightarrow> s)
    | Noop \<Rightarrow> s
    | Unknown _ \<Rightarrow> s
    | Undecodable _ \<Rightarrow> s)"

text \<open>The counters of \<open>account_unsupported\<close>: unknown key types and undecodable records.\<close>

definition account_unsupported :: "schema_record \<Rightarrow> 64 word \<times> 64 word \<Rightarrow> 64 word \<times> 64 word" where
  "account_unsupported rec counts = (case rec of
      Unknown _ \<Rightarrow> (fst counts + 1, snd counts)
    | Undecodable _ \<Rightarrow> (fst counts, snd counts + 1)
    | _ \<Rightarrow> counts)"

text \<open>\<open>barrier_token\<close>: a \<open>NOOP\<close> record that names a token in its key, or else in its value;
  \<open>parse_uuid\<close> is \<open>Uuid::from_str\<close>.\<close>

definition barrier_token :: "(string \<Rightarrow> uuid option) \<Rightarrow> 'b codec \<Rightarrow> 'b \<Rightarrow> 'b option \<Rightarrow> uuid option" where
  "barrier_token parse_uuid C key value =
     Option.bind (from_slice_value C key) (\<lambda>k.
     Option.bind (json_get k ''keytype'') (\<lambda>kt.
     Option.bind (as_str kt) (\<lambda>kts.
       if kts \<noteq> ''NOOP'' then None
       else case Option.bind (json_get k ''barrier'') as_str of
              Some token \<Rightarrow> parse_uuid token
            | None \<Rightarrow>
                Option.bind value (\<lambda>vb.
                Option.bind (from_slice_value C vb) (\<lambda>v.
                Option.bind (json_get v ''barrier'') (\<lambda>tv.
                Option.bind (as_str tv) parse_uuid))))))"

subsection \<open>Rebuilding\<close>

record rebuild =
  rb_store :: store_state
  rb_end_offset :: int

text \<open>The live store, the next offset and the rebuild in progress after \<open>begin_rebuild\<close>.\<close>

definition begin_rebuild :: "store_state \<Rightarrow> store_state \<Rightarrow> rebuild option \<Rightarrow> int \<Rightarrow> int \<Rightarrow> bool
    \<Rightarrow> store_state \<times> int \<times> rebuild option" where
  "begin_rebuild live defaults previous start_offset end_offset keep_id_high_water =
     (let snapshot = (if keep_id_high_water
            then (let s = preserve_id_high_water defaults live
                  in case previous of None \<Rightarrow> s | Some p \<Rightarrow> preserve_id_high_water s (rb_store p))
            else defaults)
      in if start_offset \<ge> end_offset then (snapshot, start_offset, None)
         else (live, start_offset, Some \<lparr>rb_store = snapshot, rb_end_offset = end_offset\<rparr>))"

definition complete_rebuild :: "store_state \<Rightarrow> rebuild option \<Rightarrow> int \<Rightarrow> store_state \<times> rebuild option" where
  "complete_rebuild live rebuild next = (case rebuild of
      None \<Rightarrow> (live, None)
    | Some snapshot \<Rightarrow>
        (if next \<ge> rb_end_offset snapshot then (rb_store snapshot, None) else (live, rebuild)))"

subsection \<open>The reader task\<close>

record 'b log_record =
  lr_offset :: int
  lr_key :: "'b option"
  lr_value :: "'b option"

record 'b fetch_progress =
  fp_records :: "'b log_record list"
  fp_next_offset :: "int option"

record reader =
  rd_store :: store_state
  rd_barriers :: barriers
  rd_barrier_version :: "64 word"
  rd_next :: int
  rd_topic_id :: uuid
  rd_rebuild :: "rebuild option"
  rd_observed :: "uuid list"
  rd_consecutive :: "64 word"
  rd_failures :: "64 word"
  rd_unknown :: "64 word"
  rd_undecodable :: "64 word"
  rd_connected :: bool

datatype 'b reader_event =
    Connected uuid "(int \<times> int) option"
  | ConnectFailed
  | Fetched "'b fetch_progress"
  | FetchFailed client_error "(int \<times> int) option"

definition spawn_reader :: "uuid \<Rightarrow> store_state \<Rightarrow> reader" where
  "spawn_reader topic_id initial_state = \<lparr>
     rd_store = initial_state, rd_barriers = no_barriers, rd_barrier_version = 0, rd_next = 0,
     rd_topic_id = topic_id, rd_rebuild = None, rd_observed = [], rd_consecutive = 0,
     rd_failures = 0, rd_unknown = 0, rd_undecodable = 0, rd_connected = False\<rparr>"

definition count_failure :: "reader \<Rightarrow> reader" where
  "count_failure r = r\<lparr>rd_consecutive := rd_consecutive r + 1, rd_failures := rd_failures r + 1\<rparr>"

text \<open>A resolved leader: a changed topic id invalidates every barrier and starts a rebuild from
  the new topic's bounds; failing to read the bounds keeps the old topic id and retries.\<close>

definition on_connected :: "store_state \<Rightarrow> uuid \<Rightarrow> (int \<times> int) option \<Rightarrow> reader \<Rightarrow> reader" where
  "on_connected defaults resolved bounds r =
     (if rd_topic_id r \<noteq> 0 \<and> resolved \<noteq> rd_topic_id r
      then (let r1 = r\<lparr>rd_observed := [], rd_barriers := invalidate_all (rd_barriers r),
                        rd_barrier_version := rd_barrier_version r + 1\<rparr>
            in case bounds of
                 None \<Rightarrow> count_failure r1
               | Some (start, end_offset) \<Rightarrow>
                   (let (live, next, rebuild) = begin_rebuild (rd_store r1) defaults None start end_offset False
                    in r1\<lparr>rd_store := live, rd_next := next, rd_rebuild := rebuild,
                          rd_topic_id := resolved, rd_connected := True\<rparr>))
      else r\<lparr>rd_topic_id := resolved, rd_connected := True\<rparr>)"

text \<open>One record of a fetch: already-seen offsets are skipped.\<close>

definition on_record :: "(string \<Rightarrow> uuid option) \<Rightarrow> 'b codec \<Rightarrow> 'a third_party \<Rightarrow> 'b log_record \<Rightarrow> reader \<Rightarrow> reader" where
  "on_record parse_uuid C X lr r =
     (if lr_offset lr < rd_next r then r
      else let key = unwrap_or (lr_key lr) (empty_slice C);
               observed = (case barrier_token parse_uuid C key (lr_value lr) of
                   Some token \<Rightarrow> rd_observed r @ [token] | None \<Rightarrow> rd_observed r);
               rec = decode C key (lr_value lr);
               (unknown, undecodable) = account_unsupported rec (rd_unknown r, rd_undecodable r);
               r1 = r\<lparr>rd_observed := observed, rd_unknown := unknown, rd_undecodable := undecodable\<rparr>
           in case rd_rebuild r1 of
                Some rb \<Rightarrow> r1\<lparr>rd_rebuild := Some (rb\<lparr>rb_store := apply_record X rec (rb_store rb)\<rparr>)\<rparr>
              | None \<Rightarrow> r1\<lparr>rd_store := apply_record X rec (rd_store r1)\<rparr>)"

text \<open>After the records of a fetch: the offset moves, a finished rebuild becomes the live store,
  and without a rebuild in progress the observed barriers are published.\<close>

definition on_cursor :: "int \<Rightarrow> reader \<Rightarrow> reader" where
  "on_cursor cursor r =
     (let next = max (rd_next r) cursor;
          (live, rebuild) = complete_rebuild (rd_store r) (rd_rebuild r) next;
          r1 = r\<lparr>rd_next := next, rd_store := live, rd_rebuild := rebuild\<rparr>
      in if rebuild = None
         then r1\<lparr>rd_barriers := fold observe (rd_observed r1) (rd_barriers r1), rd_observed := [],
                 rd_barrier_version := rd_barrier_version r1 + 1\<rparr>
         else r1)"

definition on_fetched :: "(string \<Rightarrow> uuid option) \<Rightarrow> 'b codec \<Rightarrow> 'a third_party \<Rightarrow> 'b fetch_progress
    \<Rightarrow> reader \<Rightarrow> reader" where
  "on_fetched parse_uuid C X progress r =
     (let r1 = fold (on_record parse_uuid C X) (fp_records progress) (r\<lparr>rd_consecutive := 0\<rparr>)
      in case fp_next_offset progress of None \<Rightarrow> r1 | Some cursor \<Rightarrow> on_cursor cursor r1)"

text \<open>A failed fetch: an out-of-range offset rebuilds from the log start, keeping the id mark.\<close>

definition on_fetch_failed :: "store_state \<Rightarrow> client_error \<Rightarrow> (int \<times> int) option \<Rightarrow> reader \<Rightarrow> reader" where
  "on_fetch_failed defaults e bounds r =
     (let action = fetch_error_action_of e; r1 = count_failure r
      in case action of
           ResetToLogStart \<Rightarrow> (case bounds of
               Some (start, end_offset) \<Rightarrow>
                 (let (live, next, rebuild) =
                        begin_rebuild (rd_store r1) defaults (rd_rebuild r1) start end_offset True
                  in r1\<lparr>rd_store := live, rd_next := next, rd_rebuild := rebuild\<rparr>)
             | None \<Rightarrow> (count_failure r1)\<lparr>rd_connected := False\<rparr>)
         | RetrySameConnection \<Rightarrow> r1
         | _ \<Rightarrow> r1\<lparr>rd_connected := False\<rparr>)"

fun reader_step :: "(string \<Rightarrow> uuid option) \<Rightarrow> 'b codec \<Rightarrow> 'a third_party \<Rightarrow> store_state
    \<Rightarrow> 'b reader_event \<Rightarrow> reader \<Rightarrow> reader" where
  "reader_step parse_uuid C X defaults (Connected resolved bounds) r =
     (if rd_connected r then r else on_connected defaults resolved bounds r)"
| "reader_step parse_uuid C X defaults ConnectFailed r =
     (if rd_connected r then r else count_failure r)"
| "reader_step parse_uuid C X defaults (Fetched progress) r =
     (if rd_connected r then on_fetched parse_uuid C X progress r else r)"
| "reader_step parse_uuid C X defaults (FetchFailed e bounds) r =
     (if rd_connected r then on_fetch_failed defaults e bounds r else r)"

definition run_reader :: "(string \<Rightarrow> uuid option) \<Rightarrow> 'b codec \<Rightarrow> 'a third_party \<Rightarrow> store_state
    \<Rightarrow> 'b reader_event list \<Rightarrow> reader \<Rightarrow> reader" where
  "run_reader parse_uuid C X defaults events r = fold (reader_step parse_uuid C X defaults) events r"

end
