(* ===== verification/Compaction.thy ===== *)
theory Compaction
  imports Replay_Log
begin

text \<open>
  What a replay computes, as a last-writer-wins specification over slots, and its consequence for
  Kafka's log compaction: dropping superseded records, and tombstones with nothing left to delete,
  does not change the versions, ids, deleted flags, compatibility levels or modes a registry
  rebuilds from the topic.
\<close>

subsection \<open>The abstract registry\<close>

record registry_spec =
  sp_entry :: "string \<times> schema_version \<Rightarrow> version_entry option"
  sp_global_compat :: "string option"
  sp_subject_compat :: "string \<Rightarrow> string option"
  sp_global_mode :: "string option"
  sp_subject_mode :: "string \<Rightarrow> string option"

definition spec_of :: "store_state \<Rightarrow> registry_spec" where
  "spec_of s = \<lparr>sp_entry = (\<lambda>(subject, v). entry_of s subject v),
     sp_global_compat = st_global_compat s, sp_subject_compat = map_of (st_subject_compat s),
     sp_global_mode = st_global_mode s, sp_subject_mode = map_of (st_subject_mode s)\<rparr>"

definition mark_deleted :: "version_entry option \<Rightarrow> version_entry option" where
  "mark_deleted e = map_option (\<lambda>x. x\<lparr>ve_deleted := True\<rparr>) e"

fun spec_step :: "schema_record \<Rightarrow> registry_spec \<Rightarrow> registry_spec" where
  "spec_step (Schema k v) a = a\<lparr>sp_entry := (sp_entry a)((sval_subject v, sval_version v) \<mapsto>
     \<lparr>ve_version = sval_version v, ve_id = sval_id v, ve_deleted = sval_deleted v\<rparr>)\<rparr>"
| "spec_step (Tombstone k) a = a\<lparr>sp_entry := (sp_entry a)((sk_subject k, sk_version k) := None)\<rparr>"
| "spec_step (DeleteSubject k v) a = a\<lparr>sp_entry := (\<lambda>q.
     if fst q = dk_subject k then mark_deleted (sp_entry a q) else sp_entry a q)\<rparr>"
| "spec_step (Config k v) a = (case ck_subject k of
     Some subj \<Rightarrow> a\<lparr>sp_subject_compat := (sp_subject_compat a)(subj := map_option compatibility_level v)\<rparr>
   | None \<Rightarrow> (case v of None \<Rightarrow> a | Some l \<Rightarrow> a\<lparr>sp_global_compat := Some (compatibility_level l)\<rparr>))"
| "spec_step (Mode k v) a = (case mk_subject k of
     Some subj \<Rightarrow> a\<lparr>sp_subject_mode := (sp_subject_mode a)(subj := map_option mv_mode v)\<rparr>
   | None \<Rightarrow> a\<lparr>sp_global_mode := map_option mv_mode v\<rparr>)"
| "spec_step _ a = a"

subsection \<open>The store refines it\<close>

lemma apply_schema_frame [simp]:
  "st_global_compat (apply_schema X val s) = st_global_compat s"
  "st_subject_compat (apply_schema X val s) = st_subject_compat s"
  "st_global_mode (apply_schema X val s) = st_global_mode s"
  "st_subject_mode (apply_schema X val s) = st_subject_mode s"
  by (simp_all add: apply_schema_before set_entry_def before_index_def Let_def observe_version_bump)

lemma permanent_delete_frame [simp]:
  "st_global_compat (snd (permanent_delete_version subject v s)) = st_global_compat s"
  "st_subject_compat (snd (permanent_delete_version subject v s)) = st_subject_compat s"
  "st_global_mode (snd (permanent_delete_version subject v s)) = st_global_mode s"
  "st_subject_mode (snd (permanent_delete_version subject v s)) = st_subject_mode s"
  by (auto simp: permanent_delete_version_def Let_def observe_version_bump split: option.splits)

lemma soft_delete_frame [simp]:
  "st_global_compat (snd (soft_delete_subject subject s)) = st_global_compat s"
  "st_subject_compat (snd (soft_delete_subject subject s)) = st_subject_compat s"
  "st_global_mode (snd (soft_delete_subject subject s)) = st_global_mode s"
  "st_subject_mode (snd (soft_delete_subject subject s)) = st_subject_mode s"
  by (auto simp: soft_delete_subject_def split: option.splits)

lemma entry_of_cong: "st_subjects s = st_subjects t \<Longrightarrow> entry_of s = entry_of t"
  by (simp add: entry_of_def fun_eq_iff)

lemma permanent_delete_entry:
  "entry_of (snd (permanent_delete_version subject v s)) subject' v' =
    (if subject' = subject \<and> v' = v then None else entry_of s subject' v')"
proof (cases "map_of (st_subjects s) subject")
  case None
  then show ?thesis by (simp add: permanent_delete_version_def Let_def observe_version_bump entry_of_def)
next
  case (Some vs)
  have f: "find (\<lambda>e. ve_version e = v') (filter (\<lambda>e. ve_version e \<noteq> v) vs) =
      (if v' = v then None else find (\<lambda>e. ve_version e = v') vs)"
    by (auto simp: find_filter find_None_iff' intro!: arg_cong [where f = "\<lambda>P. find P vs"])
  have nil: "find (\<lambda>e. ve_version e = v') [] = find (\<lambda>e. ve_version e = v') (filter (\<lambda>e. ve_version e \<noteq> v) vs)"
    if "filter (\<lambda>e. ve_version e \<noteq> v) vs = []"
    using that by simp
  show ?thesis
    using Some f nil by (auto simp: permanent_delete_version_def Let_def observe_version_bump entry_of_def)
qed

lemma soft_delete_entry:
  "entry_of (snd (soft_delete_subject subject s)) subject' v' =
    (if subject' = subject then mark_deleted (entry_of s subject' v') else entry_of s subject' v')"
proof -
  have "find (\<lambda>e. ve_version e = v') (map (\<lambda>v. v\<lparr>ve_deleted := True\<rparr>) vs) =
      map_option (\<lambda>v. v\<lparr>ve_deleted := True\<rparr>) (find (\<lambda>e. ve_version e = v') vs)" for vs
    by (rule find_map_upd) simp
  then show ?thesis
    by (cases "map_of (st_subjects s) subject")
      (auto simp: soft_delete_subject_def entry_of_def mark_deleted_def)
qed

lemma spec_of_simps:
  "spec_of (apply_schema X v s) = (spec_of s)\<lparr>sp_entry := (\<lambda>(subject, w). entry_of (apply_schema X v s) subject w)\<rparr>"
  "spec_of (snd (permanent_delete_version subj w s)) =
     (spec_of s)\<lparr>sp_entry := (\<lambda>(subject, w'). entry_of (snd (permanent_delete_version subj w s)) subject w')\<rparr>"
  "spec_of (snd (soft_delete_subject subj s)) =
     (spec_of s)\<lparr>sp_entry := (\<lambda>(subject, w'). entry_of (snd (soft_delete_subject subj s)) subject w')\<rparr>"
  "spec_of (observe_next_version subj n s) = spec_of s"
  "spec_of (set_global_compat l s) = (spec_of s)\<lparr>sp_global_compat := Some l\<rparr>"
  "spec_of (set_subject_compat subj l s) = (spec_of s)\<lparr>sp_subject_compat := (sp_subject_compat (spec_of s))(subj \<mapsto> l)\<rparr>"
  "spec_of (clear_subject_compat subj s) = (spec_of s)\<lparr>sp_subject_compat := (sp_subject_compat (spec_of s))(subj := None)\<rparr>"
  "spec_of (set_global_mode l s) = (spec_of s)\<lparr>sp_global_mode := Some l\<rparr>"
  "spec_of (clear_global_mode s) = (spec_of s)\<lparr>sp_global_mode := None\<rparr>"
  "spec_of (set_subject_mode subj l s) = (spec_of s)\<lparr>sp_subject_mode := (sp_subject_mode (spec_of s))(subj \<mapsto> l)\<rparr>"
  "spec_of (clear_subject_mode subj s) = (spec_of s)\<lparr>sp_subject_mode := (sp_subject_mode (spec_of s))(subj := None)\<rparr>"
  by (simp_all add: spec_of_def store_defs entry_of_def)

lemma apply_record_refines:
  assumes "store_ok s"
  shows "spec_of (apply_record X rec s) = spec_step rec (spec_of s)"
proof (cases rec)
  case (Schema k v)
  then show ?thesis
    by (simp add: apply_record_def spec_of_simps)
      (auto simp: spec_of_def apply_schema_entry [OF assms] fun_eq_iff)
next
  case (Tombstone k)
  then show ?thesis
    by (simp add: apply_record_def spec_of_simps) (auto simp: spec_of_def permanent_delete_entry fun_eq_iff)
next
  case (DeleteSubject k v)
  then show ?thesis
    by (simp add: apply_record_def spec_of_simps) (auto simp: spec_of_def soft_delete_entry fun_eq_iff)
qed (auto simp: apply_record_def spec_of_simps split: option.splits)

lemma replay_spec:
  "store_ok defaults \<Longrightarrow> spec_of (replay X defaults recs) = fold spec_step recs (spec_of defaults)"
proof (induction recs arbitrary: defaults)
  case (Cons rec recs)
  then show ?case
    by (simp add: replay_def apply_record_ok apply_record_refines)
qed (simp add: replay_def)

text \<open>C38: the replayed store implements the last-writer-wins specification: after any log, the
  entry of every version, the levels and the modes are those of the abstract registry.\<close>

theorem replay_refines_spec:
  assumes "store_ok defaults"
  shows "spec_of (replay X defaults recs) = fold spec_step recs (spec_of defaults)"
  by (rule replay_spec [OF assms])

theorem replay_refines_spec_witness:
  "sp_entry (spec_of (replay echo_parsers empty_store deleted_log)) (''a'', SchemaVersion 1) = None"
  using replay_refines_spec [OF empty_store_ok, of echo_parsers deleted_log]
  by (simp add: deleted_log_def schema_key_new_def)

subsection \<open>Slots\<close>

datatype slot =
    VersionSlot "string \<times> schema_version"
  | DeleteSlot string
  | ConfigSlot "string option"
  | ModeSlot "string option"

fun slot_of :: "schema_record \<Rightarrow> slot option" where
  "slot_of (Schema k v) = Some (VersionSlot (sval_subject v, sval_version v))"
| "slot_of (Tombstone k) = Some (VersionSlot (sk_subject k, sk_version k))"
| "slot_of (DeleteSubject k v) = Some (DeleteSlot (dk_subject k))"
| "slot_of (Config k v) = Some (ConfigSlot (ck_subject k))"
| "slot_of (Mode k v) = Some (ModeSlot (mk_subject k))"
| "slot_of _ = None"

lemma spec_step_no_slot: "slot_of rec = None \<Longrightarrow> spec_step rec a = a"
  by (cases rec) auto

text \<open>Two registries that differ at most in what one slot holds; for a subject deletion, only in
  deleted flags of the subject.\<close>

definition agree_but :: "slot \<Rightarrow> registry_spec \<Rightarrow> registry_spec \<Rightarrow> bool" where
  "agree_but sl a b \<longleftrightarrow>
     (\<forall>q. sl \<noteq> VersionSlot q \<longrightarrow>
       (if sl = DeleteSlot (fst q) then mark_deleted (sp_entry a q) = mark_deleted (sp_entry b q)
        else sp_entry a q = sp_entry b q)) \<and>
     (sl \<noteq> ConfigSlot None \<longrightarrow> sp_global_compat a = sp_global_compat b) \<and>
     (\<forall>subj. sl \<noteq> ConfigSlot (Some subj) \<longrightarrow> sp_subject_compat a subj = sp_subject_compat b subj) \<and>
     (sl \<noteq> ModeSlot None \<longrightarrow> sp_global_mode a = sp_global_mode b) \<and>
     (\<forall>subj. sl \<noteq> ModeSlot (Some subj) \<longrightarrow> sp_subject_mode a subj = sp_subject_mode b subj)"

lemma mark_deleted_idem [simp]: "mark_deleted (mark_deleted e) = mark_deleted e"
  by (cases e) (simp_all add: mark_deleted_def)

lemma mark_deleted_None [simp]: "mark_deleted None = None"
  by (simp add: mark_deleted_def)

text \<open>Writing a slot leaves the rest alone.\<close>

lemma spec_step_agrees:
  assumes "slot_of rec = Some sl"
  shows "agree_but sl a (spec_step rec a)"
  using assms by (cases rec) (auto simp: agree_but_def split: option.splits)

text \<open>Steps keep registries in agreement, and a second write to the slot makes them equal.\<close>

lemma agree_but_step:
  assumes "agree_but sl a b"
  shows "agree_but sl (spec_step rec a) (spec_step rec b)"
proof (cases rec)
  case (DeleteSubject k v)
  with assms show ?thesis by (auto simp: agree_but_def)
qed (use assms in \<open>auto simp: agree_but_def split: option.splits\<close>)

lemma agree_but_fold:
  "agree_but sl a b \<Longrightarrow> agree_but sl (fold spec_step recs a) (fold spec_step recs b)"
  by (induction recs arbitrary: a b) (auto simp: agree_but_step)

definition global_config_tombstone :: "schema_record \<Rightarrow> bool" where
  "global_config_tombstone rec \<longleftrightarrow> (case rec of Config k None \<Rightarrow> ck_subject k = None | _ \<Rightarrow> False)"

lemma spec_eqI:
  assumes "\<And>q. sp_entry a q = sp_entry b q" "sp_global_compat a = sp_global_compat b"
    "\<And>subj. sp_subject_compat a subj = sp_subject_compat b subj" "sp_global_mode a = sp_global_mode b"
    "\<And>subj. sp_subject_mode a subj = sp_subject_mode b subj"
  shows "(a :: registry_spec) = b"
  using assms by (intro registry_spec.equality) (auto simp: fun_eq_iff)

lemma agree_butD:
  assumes "agree_but sl a b"
  shows "sl \<noteq> VersionSlot q \<Longrightarrow> sl \<noteq> DeleteSlot (fst q) \<Longrightarrow> sp_entry a q = sp_entry b q"
    and "sl = DeleteSlot (fst q) \<Longrightarrow> mark_deleted (sp_entry a q) = mark_deleted (sp_entry b q)"
    and "sl \<noteq> ConfigSlot None \<Longrightarrow> sp_global_compat a = sp_global_compat b"
    and "sl \<noteq> ConfigSlot (Some subj) \<Longrightarrow> sp_subject_compat a subj = sp_subject_compat b subj"
    and "sl \<noteq> ModeSlot None \<Longrightarrow> sp_global_mode a = sp_global_mode b"
    and "sl \<noteq> ModeSlot (Some subj) \<Longrightarrow> sp_subject_mode a subj = sp_subject_mode b subj"
  using assms unfolding agree_but_def by (metis slot.distinct(1))+

lemma agree_but_write:
  assumes agree: "agree_but sl a b" and "slot_of rec = Some sl" "\<not> global_config_tombstone rec"
  shows "spec_step rec a = spec_step rec b"
proof (rule spec_eqI)
  note D = agree_butD [OF agree]
  show "sp_entry (spec_step rec a) q = sp_entry (spec_step rec b) q" for q
    using assms(2) D(1,2) [of q] by (cases rec) (auto split: option.splits)
  show "sp_global_compat (spec_step rec a) = sp_global_compat (spec_step rec b)"
    using assms(2,3) D(3) by (cases rec) (auto simp: global_config_tombstone_def split: option.splits)
  show "sp_subject_compat (spec_step rec a) subj = sp_subject_compat (spec_step rec b) subj" for subj
    using assms(2,3) D(4) [of subj] by (cases rec) (auto split: option.splits)
  show "sp_global_mode (spec_step rec a) = sp_global_mode (spec_step rec b)"
    using assms(2) D(5) by (cases rec) (auto split: option.splits)
  show "sp_subject_mode (spec_step rec a) subj = sp_subject_mode (spec_step rec b) subj" for subj
    using assms(2) D(6) [of subj] by (cases rec) (auto split: option.splits)
qed

subsection \<open>Slots nothing has written\<close>

fun empty_at :: "slot \<Rightarrow> registry_spec \<Rightarrow> bool" where
  "empty_at (VersionSlot q) a \<longleftrightarrow> sp_entry a q = None"
| "empty_at (DeleteSlot subj) a \<longleftrightarrow> True"
| "empty_at (ConfigSlot None) a \<longleftrightarrow> sp_global_compat a = None"
| "empty_at (ConfigSlot (Some subj)) a \<longleftrightarrow> sp_subject_compat a subj = None"
| "empty_at (ModeSlot None) a \<longleftrightarrow> sp_global_mode a = None"
| "empty_at (ModeSlot (Some subj)) a \<longleftrightarrow> sp_subject_mode a subj = None"

lemma empty_at_step: "empty_at sl a \<Longrightarrow> slot_of rec \<noteq> Some sl \<Longrightarrow> empty_at sl (spec_step rec a)"
  by (cases "(sl, a)" rule: empty_at.cases; cases rec) (auto split: option.splits)

lemma empty_at_fold:
  "empty_at sl a \<Longrightarrow> \<forall>rec\<in>set recs. slot_of rec \<noteq> Some sl \<Longrightarrow> empty_at sl (fold spec_step recs a)"
  by (induction recs arbitrary: a) (auto simp: empty_at_step)

lemma decode_null:
  "decode C k None = rec \<Longrightarrow> slot_of rec = Some sl \<Longrightarrow> empty_at sl a \<Longrightarrow> spec_step rec a = a"
  by (auto simp: decode_def decode_schema_def decode_config_def decode_mode_def decode_delete_subject_def
      decode_noop_def fun_upd_idem split: option.splits if_splits)

subsection \<open>Compaction\<close>

type_synonym 'b raw_log = "('b \<times> 'b option) list"

definition decode_log :: "'b codec \<Rightarrow> 'b raw_log \<Rightarrow> schema_record list" where
  "decode_log C raw = map (\<lambda>(k, v). decode C k v) raw"

text \<open>The cleaner drops a record when a later one has its key, and a null record when no earlier
  one is left.\<close>

inductive compacts :: "'b raw_log \<Rightarrow> 'b raw_log \<Rightarrow> bool" where
  superseded: "k \<in> fst ` set ys \<Longrightarrow> compacts (xs @ (k, v) # ys) (xs @ ys)"
| tombstone: "k \<notin> fst ` set xs \<Longrightarrow> compacts (xs @ (k, None) # ys) (xs @ ys)"
| steps: "compacts xs ys \<Longrightarrow> compacts ys zs \<Longrightarrow> compacts xs zs"

text \<open>Logs in which a record's key bytes and its slot determine each other; this holds of records
  with canonical keys whose values decode. Global \<open>CONFIG\<close> tombstones, which the reader ignores,
  are excluded.\<close>

definition keyed_log :: "'b codec \<Rightarrow> 'b raw_log \<Rightarrow> bool" where
  "keyed_log C raw \<longleftrightarrow>
     (\<forall>k v. (k, v) \<in> set raw \<longrightarrow> \<not> global_config_tombstone (decode C k v)) \<and>
     (\<forall>k v k' v'. (k, v) \<in> set raw \<longrightarrow> (k', v') \<in> set raw \<longrightarrow> slot_of (decode C k v) \<noteq> None \<longrightarrow>
        (k = k' \<longleftrightarrow> slot_of (decode C k v) = slot_of (decode C k' v')))"

lemma keyed_logD:
  assumes "keyed_log C raw" "(k, v) \<in> set raw"
  shows "\<not> global_config_tombstone (decode C k v)"
    and "(k', v') \<in> set raw \<Longrightarrow> slot_of (decode C k v) = Some sl \<Longrightarrow>
      k = k' \<longleftrightarrow> slot_of (decode C k' v') = Some sl"
  using assms unfolding keyed_log_def by (blast, metis option.distinct(1))

lemma keyed_log_subset: "keyed_log C raw \<Longrightarrow> set raw' \<subseteq> set raw \<Longrightarrow> keyed_log C raw'"
  unfolding keyed_log_def by blast

lemma compacts_subset: "compacts raw raw' \<Longrightarrow> set raw' \<subseteq> set raw"
  by (induction rule: compacts.induct) auto

lemma superseded_spec:
  assumes "keyed_log C (xs @ (k, v) # ys)" "k \<in> fst ` set ys"
  shows "fold spec_step (decode_log C (xs @ (k, v) # ys)) a = fold spec_step (decode_log C (xs @ ys)) a"
proof (cases "slot_of (decode C k v)")
  case None
  then show ?thesis by (simp add: decode_log_def spec_step_no_slot)
next
  case (Some sl)
  let ?b = "fold spec_step (decode_log C xs) a"
  obtain v' bs cs where ys: "ys = bs @ (k, v') # cs"
    using assms(2) by (auto dest!: split_list)
  have "slot_of (decode C k v') = Some sl"
    using keyed_logD(2) [OF assms(1), of k v k v' sl] Some ys by auto
  moreover have "\<not> global_config_tombstone (decode C k v')"
    using keyed_logD(1) [OF assms(1), of k v'] ys by auto
  moreover have "agree_but sl (fold spec_step (decode_log C bs) ?b)
      (fold spec_step (decode_log C bs) (spec_step (decode C k v) ?b))"
    by (intro agree_but_fold spec_step_agrees Some)
  ultimately show ?thesis
    using agree_but_write by (simp add: decode_log_def ys)
qed

lemma dropped_tombstone_spec:
  assumes "keyed_log C (xs @ (k, None) # ys)" "k \<notin> fst ` set xs" "\<And>sl. empty_at sl a"
  shows "fold spec_step (decode_log C (xs @ (k, None) # ys)) a = fold spec_step (decode_log C (xs @ ys)) a"
proof (cases "slot_of (decode C k None)")
  case None
  then show ?thesis by (simp add: decode_log_def spec_step_no_slot)
next
  case (Some sl)
  have "slot_of rec \<noteq> Some sl" if rec: "rec \<in> set (decode_log C xs)" for rec
  proof -
    obtain k' v' where q: "(k', v') \<in> set xs" "rec = decode C k' v'"
      using rec by (auto simp: decode_log_def)
    then have "k \<noteq> k'" using assms(2) by force
    then show ?thesis using keyed_logD(2) [OF assms(1), of k None k' v' sl] Some q by auto
  qed
  then have "empty_at sl (fold spec_step (decode_log C xs) a)"
    by (intro empty_at_fold assms(3)) blast
  from decode_null [OF refl Some this] show ?thesis by (simp add: decode_log_def)
qed

lemma compacts_spec:
  assumes "compacts raw raw'" "keyed_log C raw" "\<And>sl. empty_at sl a"
  shows "fold spec_step (decode_log C raw) a = fold spec_step (decode_log C raw') a"
  using assms(1,2)
proof (induction rule: compacts.induct)
  case (superseded k ys xs v)
  then show ?case by (intro superseded_spec)
next
  case (tombstone k xs ys)
  then show ?case by (intro dropped_tombstone_spec assms(3))
next
  case (steps xs ys zs)
  then show ?case using keyed_log_subset [OF _ compacts_subset] by metis
qed

subsection \<open>The store after compaction\<close>

lemma version_lists_determined:
  assumes "store_ok s" "store_ok t" "\<And>subject v. entry_of s subject v = entry_of t subject v"
  shows "st_subjects s = st_subjects t"
proof (rule bt.ok_ext)
  show "btree_ok (st_subjects s)" "btree_ok (st_subjects t)" using assms(1,2) by (simp_all add: store_ok_maps)
  have lists: "unwrap_or (map_of (st_subjects s) subject) [] = unwrap_or (map_of (st_subjects t) subject) []" for subject
  proof (rule map_sorted_distinct_set_unique [of ve_version])
    let ?vs = "\<lambda>u. unwrap_or (map_of (st_subjects u) subject) []"
    have in_iff: "e \<in> set (?vs u) \<longleftrightarrow> entry_of u subject (ve_version e) = Some e" if "store_ok u" for u e
      using entry_in_of [OF that, of subject e] entry_of_in [of u subject "ve_version e" e]
      by (cases "map_of (st_subjects u) subject") (auto simp: entry_in_def entry_of_def)
    show "set (?vs s) = set (?vs t)" using in_iff assms by auto
    have srt: "sorted (map ve_version (?vs u)) \<and> distinct (map ve_version (?vs u))" if "store_ok u" for u
      using old_versions_ok [OF that, of subject] by (auto simp: version_list_ok_def strict_sorted_iff)
    show "sorted (map ve_version (?vs s))" "distinct (map ve_version (?vs s))"
      "sorted (map ve_version (?vs t))" "distinct (map ve_version (?vs t))"
      using srt assms by blast+
    then show "inj_on ve_version (set (?vs s) \<union> set (?vs t))"
      using \<open>set (?vs s) = set (?vs t)\<close> by (simp add: distinct_map)
  qed
  have "map_of (st_subjects u) subject \<noteq> Some []" if "store_ok u" for u subject
    using store_ok_entry(1) [OF that, of subject "[]"] by (auto simp: version_list_ok_def)
  then show "map_of (st_subjects s) = map_of (st_subjects t)"
    using lists assms(1,2) by (intro ext) (metis option.exhaust unwrap_or_simps)
qed

definition restore :: "'a third_party \<Rightarrow> 'b codec \<Rightarrow> string \<Rightarrow> string \<Rightarrow> 'b raw_log \<Rightarrow> store_state" where
  "restore X C compatibility mode raw = replay X (with_defaults compatibility mode) (decode_log C raw)"

lemma restore_ok: "store_ok (restore X C compatibility mode raw)"
  unfolding restore_def replay_def by (rule records.replay_ok [OF with_defaults_ok])

lemma defaults_empty_at: "empty_at sl (spec_of (with_defaults compatibility mode))"
  by (cases "(sl, spec_of (with_defaults compatibility mode))" rule: empty_at.cases)
    (simp_all add: spec_of_def with_defaults_def entry_of_def)

text \<open>On such logs compaction is invisible: the compacted log has the same subjects, versions, ids and deleted
  flags, and the same compatibility levels and modes.\<close>

lemma keyed_compaction:
  assumes "compacts raw raw'" "keyed_log C raw"
  shows "st_subjects (restore X C c m raw) = st_subjects (restore X C c m raw') \<and>
    st_global_compat (restore X C c m raw) = st_global_compat (restore X C c m raw') \<and>
    st_subject_compat (restore X C c m raw) = st_subject_compat (restore X C c m raw') \<and>
    st_global_mode (restore X C c m raw) = st_global_mode (restore X C c m raw') \<and>
    st_subject_mode (restore X C c m raw) = st_subject_mode (restore X C c m raw')"
proof -
  let ?full = "restore X C c m raw" and ?compacted = "restore X C c m raw'"
  have ok: "store_ok ?full" "store_ok ?compacted" by (rule restore_ok)+
  have eq: "spec_of ?full = spec_of ?compacted"
    using compacts_spec [OF assms defaults_empty_at]
    by (simp add: restore_def replay_spec with_defaults_ok)
  then have "entry_of ?full subject v = entry_of ?compacted subject v" for subject v
    by (simp add: spec_of_def fun_eq_iff)
  then have "st_subjects ?full = st_subjects ?compacted" by (rule version_lists_determined [OF ok])
  moreover have "st_subject_compat ?full = st_subject_compat ?compacted" "st_subject_mode ?full = st_subject_mode ?compacted"
    using eq store_ok_maps(5,6) [OF ok(1)] store_ok_maps(5,6) [OF ok(2)]
    by (auto simp: spec_of_def intro!: bt.ok_ext)
  ultimately show ?thesis using eq by (simp add: spec_of_def)
qed

end
