(* ===== verification/F64.thy ===== *)
theory F64
  imports Json_Value Complex_Main
begin

text \<open>
  IEEE 754 double precision as the JSON comparison uses it: a value is not-a-number, an infinity or
  a rational, and an operation rounds the exact result to the nearest representable number, ties
  to even. The sign of zero is dropped: the operations used here (differences, quotients whose
  absolute value is taken, comparisons) do not depend on it.
\<close>

datatype f64 = F64NaN | F64Inf bool | F64Fin rat

text \<open>The number of binary digits of a natural number.\<close>

fun bit_length :: "nat \<Rightarrow> nat" where
  "bit_length n = (if n = 0 then 0 else Suc (bit_length (n div 2)))"

declare bit_length.simps [simp del]

definition pow2 :: "int \<Rightarrow> rat" where
  "pow2 e = (if 0 \<le> e then 2 ^ nat e else 1 / 2 ^ nat (- e))"

definition round_half_even :: "rat \<Rightarrow> int" where
  "round_half_even x =
     (let f = \<lfloor>x\<rfloor>; r = x - of_int f
      in if r < 1 / 2 then f else if 1 / 2 < r then f + 1 else if even f then f else f + 1)"

text \<open>The exponent of the last place of a positive rational: \<open>2 ^ 52 \<le> x / 2 ^ e < 2 ^ 53\<close>, not
  below the subnormal limit.\<close>

definition last_place :: "rat \<Rightarrow> int" where
  "last_place x =
     (let (n, d) = quotient_of x;
          e = int (bit_length (nat n)) - int (bit_length (nat d)) - 53;
          e' = (if pow2 (e + 53) \<le> x then e + 1 else e)
      in max e' (- 1074))"

definition round_positive :: "rat \<Rightarrow> rat" where
  "round_positive x = (let e = last_place x in of_int (round_half_even (x / pow2 e)) * pow2 e)"

definition round_f64 :: "rat \<Rightarrow> f64" where
  "round_f64 x =
     (if x = 0 then F64Fin 0
      else let y = round_positive \<bar>x\<bar>
           in if pow2 1024 \<le> y then F64Inf (x < 0) else F64Fin (if x < 0 then - y else y))"

text \<open>The value of a bit pattern.\<close>

definition f64_of_bits :: "64 word \<Rightarrow> f64" where
  "f64_of_bits w =
     (let u = uint w; neg = (u div 2 ^ 63 = 1); ex = (u div 2 ^ 52) mod 2048; m = u mod 2 ^ 52;
          sign = (\<lambda>x :: rat. if neg then - x else x)
      in if ex = 2047 then (if m = 0 then F64Inf neg else F64NaN)
         else if ex = 0 then F64Fin (sign (of_int m * pow2 (- 1074)))
         else F64Fin (sign (of_int (2 ^ 52 + m) * pow2 (ex - 1075))))"

definition f64_epsilon :: rat where
  "f64_epsilon = pow2 (- 52)"

fun f64_abs :: "f64 \<Rightarrow> f64" where
  "f64_abs F64NaN = F64NaN"
| "f64_abs (F64Inf b) = F64Inf False"
| "f64_abs (F64Fin x) = F64Fin \<bar>x\<bar>"

fun f64_sub :: "f64 \<Rightarrow> f64 \<Rightarrow> f64" where
  "f64_sub (F64Fin x) (F64Fin y) = round_f64 (x - y)"
| "f64_sub (F64Inf a) (F64Fin y) = F64Inf a"
| "f64_sub (F64Fin x) (F64Inf b) = F64Inf (\<not> b)"
| "f64_sub (F64Inf a) (F64Inf b) = (if a = b then F64NaN else F64Inf a)"
| "f64_sub _ _ = F64NaN"

fun f64_div :: "f64 \<Rightarrow> f64 \<Rightarrow> f64" where
  "f64_div (F64Fin x) (F64Fin y) = (if y = 0 then (if x = 0 then F64NaN else F64Inf (x < 0)) else round_f64 (x / y))"
| "f64_div (F64Inf a) (F64Fin y) = F64Inf (a \<noteq> (y < 0))"
| "f64_div (F64Fin x) (F64Inf b) = F64Fin 0"
| "f64_div _ _ = F64NaN"

text \<open>\<open>f64::round\<close>: to the nearest integer, ties away from zero.\<close>

fun f64_round :: "f64 \<Rightarrow> f64" where
  "f64_round (F64Fin x) = F64Fin (if 0 \<le> x then of_int \<lfloor>x + 1 / 2\<rfloor> else - of_int \<lfloor>- x + 1 / 2\<rfloor>)"
| "f64_round x = x"

text \<open>\<open>EPSILON * x\<close>: a power of two scales without rounding above the subnormal range, where
  the code uses it on numbers that are at least one.\<close>

fun f64_scale_epsilon :: "f64 \<Rightarrow> f64" where
  "f64_scale_epsilon (F64Fin x) = round_f64 (f64_epsilon * x)"
| "f64_scale_epsilon x = x"

text \<open>\<open>f64::max\<close> with \<open>1.0\<close>: not-a-number is ignored.\<close>

fun f64_max_one :: "f64 \<Rightarrow> f64" where
  "f64_max_one (F64Fin x) = F64Fin (max x 1)"
| "f64_max_one (F64Inf b) = (if b then F64Fin 1 else F64Inf False)"
| "f64_max_one F64NaN = F64Fin 1"

fun f64_less :: "f64 \<Rightarrow> f64 \<Rightarrow> bool" where
  "f64_less (F64Fin x) (F64Fin y) \<longleftrightarrow> x < y"
| "f64_less (F64Fin x) (F64Inf b) \<longleftrightarrow> \<not> b"
| "f64_less (F64Inf a) (F64Fin y) \<longleftrightarrow> a"
| "f64_less (F64Inf a) (F64Inf b) \<longleftrightarrow> a \<and> \<not> b"
| "f64_less _ _ \<longleftrightarrow> False"

definition f64_le :: "f64 \<Rightarrow> f64 \<Rightarrow> bool" where
  "f64_le x y \<longleftrightarrow> f64_less x y \<or> (x = y \<and> x \<noteq> F64NaN)"

text \<open>\<open>Number::as_f64\<close>.\<close>

fun number_f64 :: "json_number \<Rightarrow> f64" where
  "number_f64 (PosInt n) = round_f64 (of_nat n)"
| "number_f64 (NegInt i) = round_f64 (of_int i)"
| "number_f64 (Float64 w) = f64_of_bits w"

text \<open>\<open>Value\<close> equality: numbers of the same representation with the same value, so the two zeros
  of a float agree.\<close>

fun number_eq :: "json_number \<Rightarrow> json_number \<Rightarrow> bool" where
  "number_eq (PosInt m) (PosInt n) \<longleftrightarrow> m = n"
| "number_eq (NegInt i) (NegInt j) \<longleftrightarrow> i = j"
| "number_eq (Float64 v) (Float64 w) \<longleftrightarrow> f64_of_bits v = f64_of_bits w \<and> f64_of_bits v \<noteq> F64NaN"
| "number_eq _ _ \<longleftrightarrow> False"

function json_eq :: "json \<Rightarrow> json \<Rightarrow> bool" where
  "json_eq (JNum a) w = (case w of JNum b \<Rightarrow> number_eq a b | _ \<Rightarrow> False)"
| "json_eq (JArr xs) w = (case w of
      JArr ys \<Rightarrow> length xs = length ys \<and> (\<forall>p\<in>set (zip xs ys). json_eq (fst p) (snd p)) | _ \<Rightarrow> False)"
| "json_eq (JObj kvs) w = (case w of
      JObj kvs' \<Rightarrow> map fst kvs = map fst kvs' \<and>
        (\<forall>p\<in>set (zip (map snd kvs) (map snd kvs')). json_eq (fst p) (snd p)) | _ \<Rightarrow> False)"
| "json_eq JNull w = (w = JNull)"
| "json_eq (JBool b) w = (w = JBool b)"
| "json_eq (JStr s) w = (w = JStr s)"
  by pat_completeness auto
termination
proof (relation "measure (\<lambda>(v, w). size v)", goal_cases)
  case 1
  show ?case by simp
next
  case (2 xs w ys p)
  then have "fst p \<in> set xs" by (metis in_set_zipE prod.collapse)
  then show ?case using size_list_estimation' [of "fst p" xs "size (fst p)" size] by (cases p) simp
next
  case (3 kvs w kvs' p)
  then have "fst p \<in> snd ` set kvs" by (metis in_set_zipE prod.collapse set_map)
  then obtain k where "(k, fst p) \<in> set kvs" by auto
  then show ?case
    using size_list_estimation' [of "(k, fst p)" kvs "size (fst p)" "size_prod (\<lambda>_. 0) size"] by (cases p) simp
qed

lemma json_number_refl: "number_f64 n \<noteq> F64NaN \<Longrightarrow> number_eq n n"
  by (cases n) auto

end
