(* ===== verification/Matching.thy ===== *)
theory Matching
  imports Prelude
begin

text \<open>
  The bipartite matching of \<open>maximum_matching\<close> in \<^verbatim>\<open>format/json/diff.rs\<close>: augmenting paths
  by depth-first search. \<open>edges ! i\<close> lists the candidates of the \<open>i\<close>-th left node; the arrays
  \<open>seen\<close> and \<open>matched\<close> are a set of candidates and a partial map from candidates to left nodes.
\<close>

type_synonym match_state = "nat set \<times> (nat \<rightharpoonup> nat)"

definition candidates :: "nat list list \<Rightarrow> nat \<Rightarrow> nat list" where
  "candidates edges i = (if i < length edges then edges ! i else [])"

text \<open>The loop of \<open>augment\<close> over the candidates that are left for a node.\<close>

function augment_from :: "nat list list \<Rightarrow> nat \<Rightarrow> nat list \<Rightarrow> match_state \<Rightarrow> bool \<times> match_state" where
  "augment_from edges i [] st = (False, st)"
| "augment_from edges i (c # cs) st =
     (if c \<in> fst st then augment_from edges i cs st
      else case snd st c of
             None \<Rightarrow> (True, insert c (fst st), (snd st)(c \<mapsto> i))
           | Some j \<Rightarrow>
               (let r = augment_from edges j (candidates edges j) (insert c (fst st), snd st)
                in if fst r then (True, fst (snd r), (snd (snd r))(c \<mapsto> i))
                   else augment_from edges i cs (snd r)))"
  by pat_completeness auto

definition universe :: "nat list list \<Rightarrow> nat list \<Rightarrow> nat set" where
  "universe edges cs = set cs \<union> set (concat edges)"

lemma finite_universe [simp]: "finite (universe edges cs)"
  by (simp add: universe_def)

lemma candidates_in: "set (candidates edges j) \<subseteq> set (concat edges)"
  by (auto simp: candidates_def) (use nth_mem in blast)

lemma augment_seen_grows:
  "augment_from_dom (edges, i, cs, st) \<Longrightarrow> fst st \<subseteq> fst (snd (augment_from edges i cs st))"
proof (induction edges i cs st rule: augment_from.pinduct)
  case (1 edges i st)
  then show ?case by (simp add: augment_from.psimps)
next
  case (2 edges i c cs st)
  show ?case
  proof (cases "c \<in> fst st")
    case True
    with 2 show ?thesis by (simp add: augment_from.psimps)
  next
    case False
    note new = this
    show ?thesis
    proof (cases "snd st c")
      case None
      with new show ?thesis by (auto simp: augment_from.psimps(2) [OF 2(1)])
    next
      case (Some j)
      let ?r = "augment_from edges j (candidates edges j) (insert c (fst st), snd st)"
      have "fst st \<subseteq> fst (snd ?r)" using 2(3) [OF new Some] by auto
      moreover have "\<not> fst ?r \<Longrightarrow> fst (snd ?r) \<subseteq> fst (snd (augment_from edges i cs (snd ?r)))"
        using 2(4) [OF new Some refl] by blast
      ultimately show ?thesis
        using new Some by (auto simp: augment_from.psimps(2) [OF 2(1)] Let_def)
    qed
  qed
qed

text \<open>A node's search strictly shrinks the unseen candidates, so it ends.\<close>

termination augment_from
proof (relation "measures [\<lambda>(edges, i, cs, st). card (universe edges cs - fst st), \<lambda>(edges, i, cs, st). length cs]")
  show "wf (measures [\<lambda>(edges, i, cs, st). card (universe edges cs - fst st),
      \<lambda>(edges :: nat list list, i :: nat, cs, st :: match_state). length cs])"
    by simp
next
  fix edges :: "nat list list" and i c cs and st :: match_state
  assume c: "c \<in> fst st"
  then have "universe edges cs - fst st = universe edges (c # cs) - fst st" by (auto simp: universe_def)
  then show "((edges, i, cs, st), edges, i, c # cs, st) \<in> measures
      [\<lambda>(edges, i, cs, st). card (universe edges cs - fst st), \<lambda>(edges, i, cs, st). length cs]"
    by simp
next
  fix edges :: "nat list list" and i c cs and st :: match_state and j
  assume "c \<notin> fst st" "snd st c = Some j"
  then have "universe edges (candidates edges j) - insert c (fst st) \<subset> universe edges (c # cs) - fst st"
    using candidates_in [of edges j] by (auto simp: universe_def)
  then show "((edges, j, candidates edges j, insert c (fst st), snd st), edges, i, c # cs, st) \<in> measures
      [\<lambda>(edges, i, cs, st). card (universe edges cs - fst st), \<lambda>(edges, i, cs, st). length cs]"
    by (simp add: psubset_card_mono)
next
  fix edges :: "nat list list" and i c cs and st :: match_state and j r
  assume c: "c \<notin> fst st" "snd st c = Some j"
    and r: "r = augment_from edges j (candidates edges j) (insert c (fst st), snd st)"
    and dom: "augment_from_dom (edges, j, candidates edges j, insert c (fst st), snd st)"
  have "insert c (fst st) \<subseteq> fst (snd r)" using augment_seen_grows [OF dom] r by simp
  then have "universe edges cs - fst (snd r) \<subset> universe edges (c # cs) - fst st"
    using c(1) by (auto simp: universe_def)
  then show "((edges, i, cs, snd r), edges, i, c # cs, st) \<in> measures
      [\<lambda>(edges, i, cs, st). card (universe edges cs - fst st), \<lambda>(edges, i, cs, st). length cs]"
    by (simp add: psubset_card_mono)
qed

definition augment :: "nat list list \<Rightarrow> nat \<Rightarrow> (nat \<rightharpoonup> nat) \<Rightarrow> bool \<times> (nat \<rightharpoonup> nat)" where
  "augment edges i matched =
     (let r = augment_from edges i (candidates edges i) ({}, matched) in (fst r, snd (snd r)))"

text \<open>The count of nodes whose search succeeds, over all left nodes in order.\<close>

fun match_all :: "nat list list \<Rightarrow> nat list \<Rightarrow> (nat \<rightharpoonup> nat) \<Rightarrow> nat \<times> (nat \<rightharpoonup> nat)" where
  "match_all edges [] matched = (0, matched)"
| "match_all edges (i # is) matched =
     (let r = augment edges i matched; rest = match_all edges is (snd r)
      in (fst rest + (if fst r then 1 else 0), snd rest))"

definition matching_size :: "nat list list \<Rightarrow> nat" where
  "matching_size edges = fst (match_all edges [0..<length edges] Map.empty)"

declare augment_from.simps(2) [simp del]

lemma augment_skip: "c \<in> fst st \<Longrightarrow> augment_from edges i (c # cs) st = augment_from edges i cs st"
  by (simp add: augment_from.simps(2))

lemma augment_free:
  "c \<notin> fst st \<Longrightarrow> snd st c = None \<Longrightarrow>
    augment_from edges i (c # cs) st = (True, insert c (fst st), (snd st)(c \<mapsto> i))"
  by (simp add: augment_from.simps(2))

lemma augment_taken:
  "c \<notin> fst st \<Longrightarrow> snd st c = Some j \<Longrightarrow>
    augment_from edges i (c # cs) st =
      (let r = augment_from edges j (candidates edges j) (insert c (fst st), snd st)
       in if fst r then (True, fst (snd r), (snd (snd r))(c \<mapsto> i)) else augment_from edges i cs (snd r))"
  by (simp add: augment_from.simps(2))

lemma augment_induct [case_names Nil skip free found retry]:
  assumes "\<And>i st. P i [] st (False, st)"
    and "\<And>i c cs st. c \<in> fst st \<Longrightarrow> P i cs st (augment_from edges i cs st) \<Longrightarrow> P i (c # cs) st (augment_from edges i cs st)"
    and "\<And>i c cs st. c \<notin> fst st \<Longrightarrow> snd st c = None \<Longrightarrow> P i (c # cs) st (True, insert c (fst st), (snd st)(c \<mapsto> i))"
    and "\<And>i c cs st j st1. c \<notin> fst st \<Longrightarrow> snd st c = Some j \<Longrightarrow>
      P j (candidates edges j) (insert c (fst st), snd st) (True, st1) \<Longrightarrow>
      P i (c # cs) st (True, fst st1, (snd st1)(c \<mapsto> i))"
    and "\<And>i c cs st j st1. c \<notin> fst st \<Longrightarrow> snd st c = Some j \<Longrightarrow>
      P j (candidates edges j) (insert c (fst st), snd st) (False, st1) \<Longrightarrow>
      P i cs st1 (augment_from edges i cs st1) \<Longrightarrow> P i (c # cs) st (augment_from edges i cs st1)"
  shows "P i cs st (augment_from edges i cs st)"
proof -
  have "edges' = edges \<Longrightarrow> P i cs st (augment_from edges i cs st)" for edges'
  proof (induction edges' i cs st rule: augment_from.induct)
    case (1 edges' i st)
    show ?case using assms(1) by simp
  next
    case (2 edges' i c cs st)
    show ?case
    proof (cases "c \<in> fst st")
      case True
      then show ?thesis using assms(2) 2(1,4) by (simp add: augment_skip)
    next
      case False
      note new = this
      show ?thesis
      proof (cases "snd st c")
        case None
        then show ?thesis using assms(3) new by (simp add: augment_free)
      next
        case (Some j)
        let ?r = "augment_from edges j (candidates edges j) (insert c (fst st), snd st)"
        have r: "P j (candidates edges j) (insert c (fst st), snd st) (fst ?r, snd ?r)"
          using 2(2) [OF new Some] 2(4) by simp
        have rest: "\<not> fst ?r \<Longrightarrow> P i cs (snd ?r) (augment_from edges i cs (snd ?r))"
          using 2(3) [OF new Some refl] 2(4) by simp
        show ?thesis
          using assms(4) [OF new Some] assms(5) [OF new Some] r rest
          by (cases "fst ?r") (simp_all add: augment_taken [OF new Some] Let_def)
      qed
    qed
  qed
  then show ?thesis by simp
qed

subsection \<open>What a search leaves behind\<close>

lemma augment_fail_same: "\<not> fst (augment_from edges i cs st) \<Longrightarrow> snd (snd (augment_from edges i cs st)) = snd st"
proof -
  have "\<not> fst r \<longrightarrow> snd (snd r) = snd st" if "r = augment_from edges i cs st" for r
    unfolding that by (induction rule: augment_induct) auto
  then show "\<not> fst (augment_from edges i cs st) \<Longrightarrow> ?thesis" by blast
qed

lemma augment_keeps_seen:
  "fst st \<subseteq> fst (snd (augment_from edges i cs st)) \<and>
    (\<forall>d\<in>fst st. snd (snd (augment_from edges i cs st)) d = snd st d)"
  by (induction rule: augment_induct) auto

text \<open>A failed search has explored a set of candidates that are all taken by nodes whose own
  candidates it explored too.\<close>

lemma augment_fail_closed:
  "\<not> fst (augment_from edges i cs st) \<longrightarrow> set cs \<subseteq> fst (snd (augment_from edges i cs st)) \<and>
    (\<forall>c\<in>fst (snd (augment_from edges i cs st)) - fst st.
      \<exists>j. snd st c = Some j \<and> set (candidates edges j) \<subseteq> fst (snd (augment_from edges i cs st)))"
proof -
  let ?P = "\<lambda>i cs st r. (\<not> fst r \<longrightarrow> set cs \<subseteq> fst (snd r) \<and> snd (snd r) = snd st \<and>
      (\<forall>c\<in>fst (snd r) - fst st. \<exists>j. snd st c = Some j \<and> set (candidates edges j) \<subseteq> fst (snd r))) \<and>
      fst st \<subseteq> fst (snd r)"
  have "?P i cs st (augment_from edges i cs st)"
  proof (rule augment_induct [where P = ?P and edges = edges], goal_cases)
    case (5 i c cs st j st1)
    let ?r = "augment_from edges i cs st1"
    have j: "set (candidates edges j) \<subseteq> fst st1" "snd st1 = snd st" "insert c (fst st) \<subseteq> fst st1"
      "\<forall>d\<in>fst st1 - insert c (fst st). \<exists>k. snd st d = Some k \<and> set (candidates edges k) \<subseteq> fst st1"
      using 5(3) by auto
    have grow: "fst st1 \<subseteq> fst (snd ?r)" using 5(4) by blast
    have "\<exists>k. snd st d = Some k \<and> set (candidates edges k) \<subseteq> fst (snd ?r)"
      if nr: "\<not> fst ?r" and d: "d \<in> fst (snd ?r) - fst st" for d
    proof -
      consider "d = c" | "d \<in> fst st1 - insert c (fst st)" | "d \<in> fst (snd ?r) - fst st1"
        using d by blast
      then show ?thesis
      proof cases
        case 1
        then show ?thesis using 5(2) j(1) grow by blast
      next
        case 2
        then show ?thesis using j(4) grow by blast
      next
        case 3
        then show ?thesis using 5(4) nr j(2) by metis
      qed
    qed
    moreover have "\<not> fst ?r \<longrightarrow> set (c # cs) \<subseteq> fst (snd ?r) \<and> snd (snd ?r) = snd st"
      using 5(4) j(2,3) grow by auto
    ultimately show ?case using j(3) grow by blast
  qed auto
  then show ?thesis by blast
qed

text \<open>A set of taken candidates whose owners have no candidate outside it is never touched again.\<close>

definition closed_in :: "nat list list \<Rightarrow> (nat \<rightharpoonup> nat) \<Rightarrow> nat set \<Rightarrow> bool" where
  "closed_in edges m R \<longleftrightarrow> (\<forall>c\<in>R. \<exists>j. m c = Some j \<and> set (candidates edges j) \<subseteq> R)"

lemma augment_keeps_closed:
  "closed_in edges (snd st) R \<Longrightarrow>
    (\<forall>c\<in>R. snd (snd (augment_from edges i cs st)) c = snd st c) \<and>
    (set cs \<subseteq> R \<longrightarrow> \<not> fst (augment_from edges i cs st))"
proof -
  let ?P = "\<lambda>i cs st r. closed_in edges (snd st) R \<longrightarrow> (\<forall>c\<in>R. snd (snd r) c = snd st c) \<and>
      (set cs \<subseteq> R \<longrightarrow> \<not> fst r) \<and> (\<not> fst r \<longrightarrow> snd (snd r) = snd st)"
  have "?P i cs st (augment_from edges i cs st)"
  proof (rule augment_induct [where P = ?P and edges = edges], goal_cases)
    case (3 i c cs st)
    then show ?case by (auto simp: closed_in_def)
  next
    case (4 i c cs st j st1)
    show ?case
    proof
      assume R: "closed_in edges (snd st) R"
      then have "c \<notin> R" using 4(2,3) by (fastforce simp: closed_in_def)
      then show "(\<forall>d\<in>R. snd (snd (True, fst st1, (snd st1)(c \<mapsto> i))) d = snd st d) \<and>
          (set (c # cs) \<subseteq> R \<longrightarrow> \<not> fst (True, fst st1, (snd st1)(c \<mapsto> i))) \<and>
          (\<not> fst (True, fst st1, (snd st1)(c \<mapsto> i)) \<longrightarrow>
            snd (snd (True, fst st1, (snd st1)(c \<mapsto> i))) = snd st)"
        using 4(3) R by auto
    qed
  qed auto
  then show "closed_in edges (snd st) R \<Longrightarrow> ?thesis" by blast
qed

subsection \<open>The partial matching stays a matching\<close>

definition inj_map :: "(nat \<rightharpoonup> nat) \<Rightarrow> bool" where
  "inj_map m \<longleftrightarrow> (\<forall>a b x. m a = Some x \<longrightarrow> m b = Some x \<longrightarrow> a = b)"

lemma inj_map_upd: "inj_map m \<Longrightarrow> x \<notin> ran m \<Longrightarrow> inj_map (m(c \<mapsto> x))"
  unfolding inj_map_def ran_def by auto

lemma mask_insert: "m c = Some j \<Longrightarrow> c \<notin> K \<Longrightarrow> m |` (- K) = (m |` (- insert c K))(c \<mapsto> j)"
  by (rule ext) (auto simp: restrict_map_def)

lemma mask_upd: "c \<notin> K \<Longrightarrow> (m(c \<mapsto> i)) |` (- K) = (m |` (- insert c K))(c \<mapsto> i)"
  by (rule ext) (auto simp: restrict_map_def)

lemma ran_mask_upd: "ran ((m |` (- insert c K))(c \<mapsto> i)) = insert i (ran (m |` (- insert c K)))"
  by (rule ran_map_upd) (simp add: restrict_map_def)

text \<open>Inside the recursion the candidate being vacated still names its old owner; \<open>K\<close> masks those.\<close>

lemma restrict_UNIV: "m |` UNIV = m"
  by (rule ext) (simp add: restrict_map_def)

lemma augment_success_inj:
  "fst (augment_from edges i cs st) \<Longrightarrow> K \<subseteq> fst st \<Longrightarrow> inj_map (snd st |` (- K)) \<Longrightarrow>
    i \<notin> ran (snd st |` (- K)) \<Longrightarrow>
    inj_map (snd (snd (augment_from edges i cs st)) |` (- K)) \<and>
    ran (snd (snd (augment_from edges i cs st)) |` (- K)) = insert i (ran (snd st |` (- K)))"
proof -
  let ?Q = "\<lambda>i st r K. K \<subseteq> fst st \<longrightarrow> inj_map (snd st |` (- K)) \<longrightarrow> i \<notin> ran (snd st |` (- K)) \<longrightarrow>
      inj_map (snd (snd r) |` (- K)) \<and> ran (snd (snd r) |` (- K)) = insert i (ran (snd st |` (- K)))"
  let ?P = "\<lambda>i cs st r. (fst r \<longrightarrow> (\<forall>K. ?Q i st r K)) \<and> (\<not> fst r \<longrightarrow> snd (snd r) = snd st) \<and>
      fst st \<subseteq> fst (snd r)"
  have "?P i cs st (augment_from edges i cs st)"
  proof (rule augment_induct [where P = ?P and edges = edges], goal_cases)
    case (3 i c cs st)
    have "?Q i st (True, insert c (fst st), (snd st)(c \<mapsto> i)) K" for K
    proof (intro impI)
      assume K: "K \<subseteq> fst st" "inj_map (snd st |` (- K))" "i \<notin> ran (snd st |` (- K))"
      have c: "c \<notin> K" using K(1) 3(1) by blast
      have same: "snd st |` (- insert c K) = snd st |` (- K)"
        by (rule ext) (use 3(2) in \<open>auto simp: restrict_map_def\<close>)
      show "inj_map (snd (snd (True, insert c (fst st), (snd st)(c \<mapsto> i))) |` (- K)) \<and>
          ran (snd (snd (True, insert c (fst st), (snd st)(c \<mapsto> i))) |` (- K)) = insert i (ran (snd st |` (- K)))"
        using inj_map_upd [OF K(2,3), of c] ran_mask_upd [of "snd st" c K i] unfolding snd_conv mask_upd [OF c] same by blast
    qed
    then show ?case by auto
  next
    case (4 i c cs st j st1)
    have "?Q i st (True, fst st1, (snd st1)(c \<mapsto> i)) K" for K
    proof (intro impI)
      assume K: "K \<subseteq> fst st" "inj_map (snd st |` (- K))" "i \<notin> ran (snd st |` (- K))"
      have c: "c \<notin> K" using K(1) 4(1) by blast
      let ?m = "snd st |` (- insert c K)"
      have split: "snd st |` (- K) = ?m(c \<mapsto> j)" using mask_insert [of "snd st" c j K] 4(2) c by blast
      have sub: "inj_map ?m" using K(2) unfolding inj_map_def restrict_map_def by auto
      have j: "j \<notin> ran ?m"
      proof
        assume "j \<in> ran ?m"
        then obtain d where d: "?m d = Some j" by (auto simp: ran_def)
        then have "d \<noteq> c" "(snd st |` (- K)) d = Some j" by (auto simp: restrict_map_def split: if_splits)
        moreover have "(snd st |` (- K)) c = Some j" using 4(2) c by simp
        ultimately show False using K(2) unfolding inj_map_def by blast
      qed
      have "inj_map (snd st1 |` (- insert c K)) \<and> ran (snd st1 |` (- insert c K)) = insert j (ran ?m)"
      proof -
        have "\<forall>K. ?Q j (insert c (fst st), snd st) (True, st1) K" using 4(3) by simp
        from spec [OF this, of "insert c K"] show ?thesis using insert_mono [OF K(1)] sub j by simp
      qed
      moreover have "insert j (ran ?m) = ran (snd st |` (- K))" unfolding split by (rule ran_mask_upd [symmetric])
      ultimately show "inj_map (snd (snd (True, fst st1, (snd st1)(c \<mapsto> i))) |` (- K)) \<and>
          ran (snd (snd (True, fst st1, (snd st1)(c \<mapsto> i))) |` (- K)) = insert i (ran (snd st |` (- K)))"
        using K(3) inj_map_upd unfolding snd_conv mask_upd [OF c] ran_mask_upd by metis
    qed
    then show ?case using 4(3) by auto
  next
    case (5 i c cs st j st1)
    have "K \<subseteq> fst st \<Longrightarrow> K \<subseteq> fst st1" for K using 5(3) by auto
    moreover have "snd st1 = snd st" using 5(3) by simp
    ultimately show ?case using 5(3,4) by auto
  qed auto
  then show "fst (augment_from edges i cs st) \<Longrightarrow> K \<subseteq> fst st \<Longrightarrow> inj_map (snd st |` (- K)) \<Longrightarrow>
    i \<notin> ran (snd st |` (- K)) \<Longrightarrow> ?thesis" by blast
qed

definition edges_valid :: "nat list list \<Rightarrow> (nat \<rightharpoonup> nat) \<Rightarrow> bool" where
  "edges_valid edges m \<longleftrightarrow> (\<forall>c j. m c = Some j \<longrightarrow> c \<in> set (candidates edges j))"

lemma augment_keeps_edges:
  "edges_valid edges (snd st) \<Longrightarrow> set cs \<subseteq> set (candidates edges i) \<Longrightarrow>
    edges_valid edges (snd (snd (augment_from edges i cs st)))"
proof -
  let ?P = "\<lambda>i cs st r. edges_valid edges (snd st) \<longrightarrow> set cs \<subseteq> set (candidates edges i) \<longrightarrow>
      edges_valid edges (snd (snd r))"
  have "?P i cs st (augment_from edges i cs st)"
  proof (rule augment_induct [where P = ?P and edges = edges], goal_cases)
    case (4 i c cs st j st1)
    then show ?case by (simp add: edges_valid_def)
  next
    case (5 i c cs st j st1)
    then show ?case by simp
  qed (auto simp: edges_valid_def)
  then show "edges_valid edges (snd st) \<Longrightarrow> set cs \<subseteq> set (candidates edges i) \<Longrightarrow> ?thesis" by blast
qed

subsection \<open>The matching is a maximum matching\<close>

definition is_matching :: "nat list list \<Rightarrow> (nat \<rightharpoonup> nat) \<Rightarrow> bool" where
  "is_matching edges g \<longleftrightarrow> inj_map g \<and> (\<forall>i c. g i = Some c \<longrightarrow> c \<in> set (candidates edges i))"

text \<open>The loop invariant over the processed nodes \<open>L\<close>: the matched ones are the range, the others
  have all their candidates in a closed set.\<close>

definition match_inv :: "nat list list \<Rightarrow> nat set \<Rightarrow> (nat \<rightharpoonup> nat) \<Rightarrow> nat set \<Rightarrow> bool" where
  "match_inv edges L m R \<longleftrightarrow> inj_map m \<and> edges_valid edges m \<and> ran m \<subseteq> L \<and> closed_in edges m R \<and>
     (\<forall>i\<in>L - ran m. set (candidates edges i) \<subseteq> R)"

lemma match_inv_step:
  assumes inv: "match_inv edges L m R" and i: "i \<notin> L"
  defines "a \<equiv> augment edges i m"
  shows "\<exists>R'. match_inv edges (insert i L) (snd a) R' \<and> (if fst a then ran (snd a) = insert i (ran m) else snd a = m)"
proof -
  let ?r = "augment_from edges i (candidates edges i) ({}, m)"
  have a: "fst a = fst ?r" "snd a = snd (snd ?r)" by (simp_all add: a_def augment_def Let_def)
  have m: "inj_map m" "edges_valid edges m" "ran m \<subseteq> L" "closed_in edges m R"
      "\<forall>i\<in>L - ran m. set (candidates edges i) \<subseteq> R"
    using inv by (simp_all add: match_inv_def)
  show ?thesis
  proof (cases "fst ?r")
    case True
    have keep: "\<forall>c\<in>R. snd (snd ?r) c = m c" using augment_keeps_closed [of edges "({}, m)" R i] m(4) by simp
    have inj: "inj_map (snd (snd ?r)) \<and> ran (snd (snd ?r)) = insert i (ran m)"
      using augment_success_inj [OF True, of "{}"] m(1,3) i by (auto simp: restrict_UNIV)
    have "edges_valid edges (snd (snd ?r))" using augment_keeps_edges [of edges "({}, m)"] m(2) by simp
    moreover have "closed_in edges (snd (snd ?r)) R" using m(4) keep by (simp add: closed_in_def)
    ultimately have "match_inv edges (insert i L) (snd (snd ?r)) R"
      using inj m(3,5) unfolding match_inv_def by blast
    then show ?thesis using True inj a by auto
  next
    case False
    let ?R = "R \<union> fst (snd ?r)"
    have same: "snd (snd ?r) = m" using augment_fail_same [OF False] by simp
    have "set (candidates edges i) \<subseteq> fst (snd ?r) \<and>
        (\<forall>c\<in>fst (snd ?r). \<exists>j. m c = Some j \<and> set (candidates edges j) \<subseteq> fst (snd ?r))"
      using augment_fail_closed [of edges i "candidates edges i" "({}, m)"] False by simp
    then have "closed_in edges m ?R \<and> set (candidates edges i) \<subseteq> ?R"
      using m(4) unfolding closed_in_def by (metis UnE le_supI1 le_supI2)
    then have "match_inv edges (insert i L) m ?R" using m unfolding match_inv_def by blast
    then show ?thesis using False same a by auto
  qed
qed

lemma ran_finite: "finite L \<Longrightarrow> ran m \<subseteq> L \<Longrightarrow> finite (ran m)"
  by (rule finite_subset)

lemma match_all_inv:
  "match_inv edges L m R \<Longrightarrow> finite L \<Longrightarrow> distinct is \<Longrightarrow> set is \<inter> L = {} \<Longrightarrow>
    \<exists>R'. match_inv edges (L \<union> set is) (snd (match_all edges is m)) R' \<and>
      card (ran (snd (match_all edges is m))) = card (ran m) + fst (match_all edges is m)"
proof (induction "is" arbitrary: L m R)
  case Nil
  then show ?case by auto
next
  case (Cons i "is")
  let ?a = "augment edges i m"
  have i: "i \<notin> L" using Cons.prems(4) by simp
  obtain R' where R': "match_inv edges (insert i L) (snd ?a) R'"
      "if fst ?a then ran (snd ?a) = insert i (ran m) else snd ?a = m"
    using match_inv_step [OF Cons.prems(1) i] by blast
  have "i \<notin> ran m" "finite (ran m)"
    using Cons.prems(1,2) i ran_finite unfolding match_inv_def by blast+
  then have card: "card (ran (snd ?a)) = card (ran m) + (if fst ?a then 1 else 0)"
    using R'(2) by (cases "fst ?a") simp_all
  have "finite (insert i L)" "distinct is" "set is \<inter> insert i L = {}" using Cons.prems by auto
  from Cons.IH [OF R'(1) this] obtain R'' where
    "match_inv edges (insert i L \<union> set is) (snd (match_all edges is (snd ?a))) R''"
    "card (ran (snd (match_all edges is (snd ?a)))) = card (ran (snd ?a)) + fst (match_all edges is (snd ?a))"
    by blast
  then show ?case using card by (auto simp: Let_def)
qed

lemma inj_map_card:
  assumes "inj_map m" "A \<subseteq> dom m" "finite A"
  shows "card ((\<lambda>a. the (m a)) ` A) = card A"
proof (rule card_image, rule inj_onI)
  fix a b assume ab: "a \<in> A" "b \<in> A" "the (m a) = the (m b)"
  then obtain x y where "m a = Some x" "m b = Some y" using assms(2) by blast
  then show "a = b" using ab(3) assms(1) unfolding inj_map_def by (metis option.sel)
qed

lemma inv_bounds_matchings:
  assumes inv: "match_inv edges L m R" and L: "finite L" and g: "is_matching edges g" "dom g \<subseteq> L"
  shows "card (dom g) \<le> card (ran m)"
proof -
  let ?A = "{i \<in> L. set (candidates edges i) \<subseteq> R}"
  let ?o = "\<lambda>c. the (m c)"
  have m: "inj_map m" "ran m \<subseteq> L" "closed_in edges m R" "\<forall>i\<in>L - ran m. set (candidates edges i) \<subseteq> R"
    using inv by (simp_all add: match_inv_def)
  have R: "R \<subseteq> dom m" using m(3) unfolding closed_in_def by blast
  have owners: "?o ` R \<subseteq> ?A \<inter> ran m"
  proof
    fix j assume "j \<in> ?o ` R"
    then obtain c where c: "c \<in> R" "j = ?o c" by blast
    then have "m c = Some j" "set (candidates edges j) \<subseteq> R" using m(3) unfolding closed_in_def by fastforce+
    then show "j \<in> ?A \<inter> ran m" using m(2) by (auto intro: ranI)
  qed
  have finR: "finite R"
  proof (rule finite_imageD [of ?o])
    show "finite (?o ` R)" using owners L by (metis (no_types, lifting) Int_lower1 finite_subset mem_Collect_eq subsetI)
    show "inj_on ?o R" using m(1) R unfolding inj_map_def inj_on_def by (metis domD option.sel subsetD)
  qed
  have "card (?o ` R) = card R" by (rule inj_map_card [OF m(1) R finR])
  moreover have "?o ` R \<union> (L - ran m) \<subseteq> ?A" "?o ` R \<inter> (L - ran m) = {}" using owners m(4) by blast+
  ultimately have A: "card R + card (L - ran m) \<le> card ?A"
    using card_mono [of ?A "?o ` R \<union> (L - ran m)"] card_Un_disjoint [of "?o ` R" "L - ran m"] L finR by simp
  have inR: "(\<lambda>i. the (g i)) ` (dom g \<inter> ?A) \<subseteq> R" using g(1) unfolding is_matching_def by force
  have fin: "finite (dom g)" using g(2) L finite_subset by blast
  have "card (dom g \<inter> ?A) = card ((\<lambda>i. the (g i)) ` (dom g \<inter> ?A))"
    by (rule inj_map_card [symmetric]) (use g(1) fin in \<open>auto simp: is_matching_def\<close>)
  also have "\<dots> \<le> card R" by (rule card_mono [OF finR inR])
  finally have low: "card (dom g \<inter> ?A) \<le> card R" .
  have "card (dom g - ?A) \<le> card (L - ?A)" by (rule card_mono) (use L g(2) in auto)
  moreover have "card (L - ?A) = card L - card ?A" "card (L - ran m) = card L - card (ran m)"
    using card_Diff_subset [of ?A L] card_Diff_subset [of "ran m" L] L m(2) ran_finite by (auto simp: finite_subset)
  moreover have "card ?A \<le> card L" "card (ran m) \<le> card L" using L m(2) by (auto intro: card_mono)
  moreover have "card (dom g) = card (dom g \<inter> ?A) + card (dom g - ?A)"
    using card_Int_Diff [OF fin, of ?A] by simp
  ultimately show ?thesis using A low by linarith
qed

lemma match_inv_start: "match_inv edges {} Map.empty {}"
  by (simp add: match_inv_def inj_map_def edges_valid_def closed_in_def)

text \<open>The matched pairs, read from the left.\<close>

lemma converse_matching:
  assumes "inj_map m" "edges_valid edges m"
  shows "\<exists>g. is_matching edges g \<and> dom g = ran m"
proof -
  define g where "g = (\<lambda>i. if i \<in> ran m then Some (SOME c. m c = Some i) else None)"
  have val: "m c = Some i" if "g i = Some c" for i c
    using that unfolding g_def ran_def by (auto split: if_splits intro: someI)
  have "is_matching edges g"
    unfolding is_matching_def inj_map_def using val assms(2) unfolding edges_valid_def by (metis option.inject)
  moreover have "dom g = ran m" unfolding g_def by (auto split: if_splits)
  ultimately show ?thesis by blast
qed

text \<open>C9: \<open>maximum_matching\<close> (\<^verbatim>\<open>format/json/diff.rs\<close>) counts exactly the largest number of old
  branches that can be paired with distinct compatible new branches: some matching has that many
  pairs and none has more.\<close>

theorem matching_size_maximum:
  "(\<exists>g. is_matching edges g \<and> dom g \<subseteq> {0..<length edges} \<and> card (dom g) = matching_size edges) \<and>
    (\<nexists>g. is_matching edges g \<and> dom g \<subseteq> {0..<length edges} \<and> matching_size edges < card (dom g))"
proof -
  let ?m = "snd (match_all edges [0..<length edges] Map.empty)"
  obtain R where inv: "match_inv edges {0..<length edges} ?m R" and card: "card (ran ?m) = matching_size edges"
    using match_all_inv [OF match_inv_start, of "[0..<length edges]"] by (auto simp: matching_size_def)
  have "\<exists>g. is_matching edges g \<and> dom g = ran ?m"
    by (rule converse_matching) (use inv in \<open>auto simp: match_inv_def\<close>)
  moreover have "ran ?m \<subseteq> {0..<length edges}" using inv by (simp add: match_inv_def)
  moreover have "card (dom g) \<le> card (ran ?m)" if "is_matching edges g" "dom g \<subseteq> {0..<length edges}" for g
    by (rule inv_bounds_matchings [OF inv _ that]) simp
  ultimately show ?thesis using card by (metis not_less)
qed

end
