(* ===== verification/Json_Diff.thy ===== *)
theory Json_Diff
  imports Format F64 Matching
begin

text \<open>
  The structural difference of two JSON Schema documents (\<^verbatim>\<open>format/json/diff.rs\<close>) and its
  classification (\<^verbatim>\<open>format/json/compat.rs\<close>). The comparison follows \<open>$ref\<close>s and may not
  end, so \<open>compare_schema\<close> takes a bound on the depth of the recursion and returns \<open>None\<close> when it
  is reached. The functions it is made of take the recursive comparison as the argument \<open>cmp\<close>
  and the comparison of branches as \<open>branch\<close>. A \<open>Kind\<close> of the source whose name is a keyword
  followed by a change, such as \<open>MaximumAdded\<close>, is \<open>Change KMaximum Added\<close> here.
\<close>

subsection \<open>Kinds of difference\<close>

datatype json_keyword =
    KType | KRequiredAttribute | KAdditionalProperties | KEnumArray
  | KMaximum | KMinimum | KExclusiveMaximum | KExclusiveMinimum | KMultipleOf
  | KMaxLength | KMinLength | KPattern | KMaxItems | KMinItems | KAdditionalItems | KUniqueItems
  | KMaxProperties | KMinProperties | KCombinedType | KProductType | KSumType | KNotType
  | KDependencyArray | KDependencySchema | KConditional

datatype json_change =
    Added | Removed | Decreased | Increased | Narrowed | Extended | Changed | Reduced | Expanded
  | SubschemasChanged

datatype json_kind =
    Change json_keyword json_change
  | PropertyAddedToOpenContentModel
  | PropertyRemovedFromOpenContentModel
  | PropertyAddedToClosedContentModel
  | PropertyRemovedFromClosedContentModel
  | PropertyAddedCoveredByPartiallyOpenContentModel
  | PropertyAddedNotCoveredByPartiallyOpenContentModel
  | PropertyRemovedCoveredByPartiallyOpenContentModel
  | PropertyRemovedNotCoveredByPartiallyOpenContentModel
  | PropertyWithEmptySchemaAddedToOpenContentModel
  | RequiredAttributeWithDefaultAdded
  | RequiredPropertyWithDefaultAddedToClosedContentModel

record json_difference =
  jd_kind :: json_kind
  jd_path :: string

abbreviation jd :: "json_kind \<Rightarrow> string \<Rightarrow> json_difference" where
  "jd k p \<equiv> \<lparr>jd_kind = k, jd_path = p\<rparr>"

definition json_compatible_changes :: "(json_keyword \<times> json_change) list" where
  "json_compatible_changes =
     [(KType, Extended), (KRequiredAttribute, Removed),
      (KAdditionalProperties, Added), (KAdditionalProperties, Extended), (KEnumArray, Extended),
      (KMaximum, Removed), (KMaximum, Increased), (KMinimum, Removed), (KMinimum, Decreased),
      (KExclusiveMaximum, Removed), (KExclusiveMaximum, Increased),
      (KExclusiveMinimum, Removed), (KExclusiveMinimum, Decreased),
      (KMultipleOf, Removed), (KMultipleOf, Reduced),
      (KMaxLength, Removed), (KMaxLength, Increased), (KMinLength, Removed), (KMinLength, Decreased),
      (KPattern, Removed), (KMaxItems, Removed), (KMaxItems, Increased),
      (KMinItems, Removed), (KMinItems, Decreased),
      (KAdditionalItems, Added), (KAdditionalItems, Extended), (KUniqueItems, Removed),
      (KMaxProperties, Removed), (KMaxProperties, Increased),
      (KMinProperties, Removed), (KMinProperties, Decreased),
      (KCombinedType, Extended), (KProductType, Narrowed), (KSumType, Extended), (KNotType, Narrowed),
      (KDependencyArray, Removed), (KDependencyArray, Narrowed), (KDependencySchema, Removed)]"

fun json_backward_compatible :: "json_kind \<Rightarrow> bool" where
  "json_backward_compatible (Change k c) = ((k, c) \<in> set json_compatible_changes)"
| "json_backward_compatible PropertyRemovedFromOpenContentModel = True"
| "json_backward_compatible PropertyAddedToClosedContentModel = True"
| "json_backward_compatible PropertyAddedCoveredByPartiallyOpenContentModel = True"
| "json_backward_compatible PropertyAddedNotCoveredByPartiallyOpenContentModel = True"
| "json_backward_compatible PropertyRemovedCoveredByPartiallyOpenContentModel = True"
| "json_backward_compatible PropertyWithEmptySchemaAddedToOpenContentModel = True"
| "json_backward_compatible RequiredAttributeWithDefaultAdded = True"
| "json_backward_compatible RequiredPropertyWithDefaultAddedToClosedContentModel = True"
| "json_backward_compatible _ = False"

text \<open>The \<open>Debug\<close> rendering.\<close>

fun keyword_debug :: "json_keyword \<Rightarrow> string" where
  "keyword_debug KType = ''Type''"
| "keyword_debug KRequiredAttribute = ''RequiredAttribute''"
| "keyword_debug KAdditionalProperties = ''AdditionalProperties''"
| "keyword_debug KEnumArray = ''EnumArray''"
| "keyword_debug KMaximum = ''Maximum''"
| "keyword_debug KMinimum = ''Minimum''"
| "keyword_debug KExclusiveMaximum = ''ExclusiveMaximum''"
| "keyword_debug KExclusiveMinimum = ''ExclusiveMinimum''"
| "keyword_debug KMultipleOf = ''MultipleOf''"
| "keyword_debug KMaxLength = ''MaxLength''"
| "keyword_debug KMinLength = ''MinLength''"
| "keyword_debug KPattern = ''Pattern''"
| "keyword_debug KMaxItems = ''MaxItems''"
| "keyword_debug KMinItems = ''MinItems''"
| "keyword_debug KAdditionalItems = ''AdditionalItems''"
| "keyword_debug KUniqueItems = ''UniqueItems''"
| "keyword_debug KMaxProperties = ''MaxProperties''"
| "keyword_debug KMinProperties = ''MinProperties''"
| "keyword_debug KCombinedType = ''CombinedType''"
| "keyword_debug KProductType = ''ProductType''"
| "keyword_debug KSumType = ''SumType''"
| "keyword_debug KNotType = ''NotType''"
| "keyword_debug KDependencyArray = ''DependencyArray''"
| "keyword_debug KDependencySchema = ''DependencySchema''"
| "keyword_debug KConditional = ''Conditional''"

fun change_debug :: "json_change \<Rightarrow> string" where
  "change_debug Added = ''Added''"
| "change_debug Removed = ''Removed''"
| "change_debug Decreased = ''Decreased''"
| "change_debug Increased = ''Increased''"
| "change_debug Narrowed = ''Narrowed''"
| "change_debug Extended = ''Extended''"
| "change_debug Changed = ''Changed''"
| "change_debug Reduced = ''Reduced''"
| "change_debug Expanded = ''Expanded''"
| "change_debug SubschemasChanged = ''SubschemasChanged''"

fun json_kind_debug :: "json_kind \<Rightarrow> string" where
  "json_kind_debug (Change k c) = keyword_debug k @ change_debug c"
| "json_kind_debug PropertyAddedToOpenContentModel = ''PropertyAddedToOpenContentModel''"
| "json_kind_debug PropertyRemovedFromOpenContentModel = ''PropertyRemovedFromOpenContentModel''"
| "json_kind_debug PropertyAddedToClosedContentModel = ''PropertyAddedToClosedContentModel''"
| "json_kind_debug PropertyRemovedFromClosedContentModel = ''PropertyRemovedFromClosedContentModel''"
| "json_kind_debug PropertyAddedCoveredByPartiallyOpenContentModel =
     ''PropertyAddedCoveredByPartiallyOpenContentModel''"
| "json_kind_debug PropertyAddedNotCoveredByPartiallyOpenContentModel =
     ''PropertyAddedNotCoveredByPartiallyOpenContentModel''"
| "json_kind_debug PropertyRemovedCoveredByPartiallyOpenContentModel =
     ''PropertyRemovedCoveredByPartiallyOpenContentModel''"
| "json_kind_debug PropertyRemovedNotCoveredByPartiallyOpenContentModel =
     ''PropertyRemovedNotCoveredByPartiallyOpenContentModel''"
| "json_kind_debug PropertyWithEmptySchemaAddedToOpenContentModel =
     ''PropertyWithEmptySchemaAddedToOpenContentModel''"
| "json_kind_debug RequiredAttributeWithDefaultAdded = ''RequiredAttributeWithDefaultAdded''"
| "json_kind_debug RequiredPropertyWithDefaultAddedToClosedContentModel =
     ''RequiredPropertyWithDefaultAddedToClosedContentModel''"

definition json_messages :: "json_difference list \<Rightarrow> string list" where
  "json_messages ds = map (\<lambda>x. json_kind_debug (jd_kind x) @ '' at '' @ jd_path x) ds"

subsection \<open>Results of a comparison\<close>

type_synonym diff_result = "json_difference list option"
type_synonym compare_fn = "string \<Rightarrow> json \<Rightarrow> json \<Rightarrow> diff_result"

fun collect :: "'a list option list \<Rightarrow> 'a list option" where
  "collect [] = Some []"
| "collect (r # rs) = Option.bind r (\<lambda>xs. map_option (\<lambda>ys. xs @ ys) (collect rs))"

definition sub_path :: "string \<Rightarrow> string \<Rightarrow> string" where
  "sub_path path name = path @ ''/'' @ name"

subsection \<open>Types\<close>

definition types_of :: "json \<Rightarrow> string set" where
  "types_of schema = (case json_get schema ''type'' of
      Some (JStr s) \<Rightarrow> {s}
    | Some (JArr a) \<Rightarrow> set (List.map_filter as_str a)
    | _ \<Rightarrow> {})"

definition compare_type :: "string \<Rightarrow> json \<Rightarrow> json \<Rightarrow> json_difference list" where
  "compare_type path orig upd =
     (let ot = types_of orig; ut = types_of upd
      in if ot = ut then []
         else if ot = {''integer''} \<and> ut = {''number''} then [jd (Change KType Extended) path]
         else if (ot = {''number''} \<and> ut = {''integer''}) \<or> (ot = {} \<and> ut \<noteq> {})
         then [jd (Change KType Narrowed) path]
         else if ut = {} \<and> ot \<noteq> {} then [jd (Change KType Extended) path]
         else if ut \<subseteq> ot then [jd (Change KType Narrowed) path]
         else if ot \<subseteq> ut then [jd (Change KType Extended) path]
         else [jd (Change KType Changed) path])"

subsection \<open>Properties\<close>

datatype content_model = OpenModel | PartialModel | ClosedModel | SchemaModel json

definition content_model_of :: "json \<Rightarrow> content_model" where
  "content_model_of schema =
     (let rest = (case json_get schema ''patternProperties'' of
            Some v \<Rightarrow> (if is_object v then PartialModel else OpenModel)
          | None \<Rightarrow> OpenModel)
      in case json_get schema ''additionalProperties'' of
           Some (JBool b) \<Rightarrow> (if b then OpenModel else ClosedModel)
         | Some value \<Rightarrow> (if is_object value then SchemaModel value else rest)
         | None \<Rightarrow> rest)"

definition covering_schemas :: "'a third_party \<Rightarrow> json \<Rightarrow> string \<Rightarrow> json list" where
  "covering_schemas X schema property =
     (case content_model_of schema of SchemaModel value \<Rightarrow> [value] | _ \<Rightarrow> [])
     @ (case Option.bind (json_get schema ''patternProperties'') as_object of
          None \<Rightarrow> []
        | Some patterns \<Rightarrow> map snd (filter (\<lambda>p. regex_match X (fst p) property = Some True) patterns))"

definition props :: "json \<Rightarrow> (string \<times> json) list" where
  "props schema = unwrap_or (Option.bind (json_get schema ''properties'') as_object) []"

definition required_set :: "json \<Rightarrow> string list" where
  "required_set schema =
     sort (remdups (case Option.bind (json_get schema ''required'') as_array of
       None \<Rightarrow> [] | Some a \<Rightarrow> List.map_filter as_str a))"

definition has_default :: "json \<Rightarrow> bool" where
  "has_default schema \<longleftrightarrow> json_get schema ''default'' \<noteq> None"

definition is_empty_object :: "json \<Rightarrow> bool" where
  "is_empty_object schema \<longleftrightarrow> as_object schema = Some []"

definition property_path :: "string \<Rightarrow> string \<Rightarrow> string" where
  "property_path path name = path @ ''/properties/'' @ name"

definition compare_removed_property :: "'a third_party \<Rightarrow> compare_fn \<Rightarrow> string \<Rightarrow> json \<Rightarrow> string \<times> json \<Rightarrow> diff_result" where
  "compare_removed_property X cmp path upd p =
     (let pp = property_path path (fst p); covering = covering_schemas X upd (fst p)
      in case content_model_of upd of
           OpenModel \<Rightarrow> Some [jd PropertyRemovedFromOpenContentModel pp]
         | ClosedModel \<Rightarrow> Some [jd PropertyRemovedFromClosedContentModel pp]
         | _ \<Rightarrow> (if covering = [] then Some [jd PropertyRemovedNotCoveredByPartiallyOpenContentModel pp]
                 else collect (Some [jd PropertyRemovedCoveredByPartiallyOpenContentModel pp]
                        # map (\<lambda>allowed. cmp pp (snd p) allowed) covering)))"

definition compare_added_property :: "'a third_party \<Rightarrow> compare_fn \<Rightarrow> string \<Rightarrow> json \<Rightarrow> json \<Rightarrow> string \<times> json \<Rightarrow> diff_result" where
  "compare_added_property X cmp path orig upd p =
     (let pp = property_path path (fst p); uschema = snd p; is_required = fst p \<in> set (required_set upd);
          covering = covering_schemas X orig (fst p)
      in if is_required \<and> has_default uschema \<and> content_model_of orig \<noteq> OpenModel
         then Some [jd RequiredPropertyWithDefaultAddedToClosedContentModel pp]
         else collect
           (Some (if is_required \<and> \<not> has_default uschema then [jd (Change KRequiredAttribute Added) pp] else [])
            # (case content_model_of orig of
                 OpenModel \<Rightarrow> [Some [jd (if is_empty_object uschema
                     then PropertyWithEmptySchemaAddedToOpenContentModel
                     else PropertyAddedToOpenContentModel) pp]]
               | ClosedModel \<Rightarrow> [Some [jd PropertyAddedToClosedContentModel pp]]
               | _ \<Rightarrow> (if covering = [] then [Some [jd PropertyAddedNotCoveredByPartiallyOpenContentModel pp]]
                       else Some [jd PropertyAddedCoveredByPartiallyOpenContentModel pp]
                            # map (\<lambda>allowed. cmp pp allowed uschema) covering))))"

definition compare_properties :: "'a third_party \<Rightarrow> compare_fn \<Rightarrow> string \<Rightarrow> json \<Rightarrow> json \<Rightarrow> diff_result" where
  "compare_properties X cmp path orig upd =
     (let op = props orig; up = props upd
      in collect
        (map (compare_removed_property X cmp path upd) (filter (\<lambda>p. map_of up (fst p) = None) op)
         @ map (\<lambda>p. case map_of op (fst p) of
             None \<Rightarrow> compare_added_property X cmp path orig upd p
           | Some oschema \<Rightarrow> cmp (property_path path (fst p)) oschema (snd p)) up))"

definition compare_required :: "string \<Rightarrow> json \<Rightarrow> json \<Rightarrow> json_difference list" where
  "compare_required path orig upd =
     (let orq = required_set orig; urq = required_set upd; op = props orig; up = props upd;
          rp = (\<lambda>name. path @ ''/required/'' @ name)
      in concat (map (\<lambda>name. case (map_of op name, map_of up name) of
             (Some _, Some u) \<Rightarrow> [jd (if has_default u then RequiredAttributeWithDefaultAdded
                                      else Change KRequiredAttribute Added) (rp name)]
           | _ \<Rightarrow> []) (filter (\<lambda>n. n \<notin> set orq) urq))
         @ map (\<lambda>name. jd (Change KRequiredAttribute Removed) (rp name)) (filter (\<lambda>n. n \<notin> set urq) orq))"

text \<open>The shared shape of \<open>additionalProperties\<close> and \<open>additionalItems\<close>.\<close>

definition is_false :: "json option \<Rightarrow> bool" where
  "is_false v \<longleftrightarrow> v = Some (JBool False)"

definition is_schema_opt :: "json option \<Rightarrow> bool" where
  "is_schema_opt v = (case v of None \<Rightarrow> False | Some x \<Rightarrow> \<not> is_boolean x)"

definition compare_additional_schema :: "compare_fn \<Rightarrow> string \<Rightarrow> json_keyword \<Rightarrow> string \<Rightarrow> json option \<Rightarrow> json option \<Rightarrow> diff_result" where
  "compare_additional_schema cmp path kw name oa ua =
     (if oa = None \<and> is_schema_opt ua then Some [jd (Change kw Narrowed) path]
      else if ua = None \<and> is_schema_opt oa then Some [jd (Change kw Extended) path]
      else case (oa, ua) of
             (Some x, Some y) \<Rightarrow> (if \<not> is_boolean x \<and> \<not> is_boolean y then cmp (sub_path path name) x y else Some [])
           | _ \<Rightarrow> Some [])"

definition compare_additional_properties :: "compare_fn \<Rightarrow> string \<Rightarrow> json \<Rightarrow> json \<Rightarrow> diff_result" where
  "compare_additional_properties cmp path orig upd =
     (let oa = json_get orig ''additionalProperties''; ua = json_get upd ''additionalProperties''
      in if is_false oa \<and> \<not> is_false ua then Some [jd (Change KAdditionalProperties Added) path]
         else if \<not> is_false oa \<and> is_false ua then Some [jd (Change KAdditionalProperties Removed) path]
         else compare_additional_schema cmp path KAdditionalProperties ''additionalProperties'' oa ua)"

subsection \<open>Enumerations, numbers and strings\<close>

definition enum_set :: "'a third_party \<Rightarrow> json \<Rightarrow> string set option" where
  "enum_set X schema = (case Option.bind (json_get schema ''enum'') as_array of
      Some arr \<Rightarrow> Some (set (map (canonicalize X) arr))
    | None \<Rightarrow> map_option (\<lambda>c. {canonicalize X c}) (json_get schema ''const''))"

definition compare_enum :: "'a third_party \<Rightarrow> string \<Rightarrow> json \<Rightarrow> json \<Rightarrow> json_difference list" where
  "compare_enum X path orig upd =
     (let oe = enum_set X orig; ue = enum_set X upd
      in if oe = ue then []
         else case (oe, ue) of
                (Some os, Some us) \<Rightarrow>
                  [jd (Change KEnumArray (if us \<subseteq> os then Narrowed else if os \<subseteq> us then Extended else Changed)) path]
              | (None, Some _) \<Rightarrow> [jd (Change KEnumArray Narrowed) path]
              | (Some _, None) \<Rightarrow> [jd (Change KEnumArray Extended) path]
              | (None, None) \<Rightarrow> [])"

definition json_num :: "json \<Rightarrow> string \<Rightarrow> f64 option" where
  "json_num s k = (case json_get s k of Some (JNum n) \<Rightarrow> Some (number_f64 n) | _ \<Rightarrow> None)"

text \<open>\<open>(o - u).abs() > f64::EPSILON\<close>.\<close>

definition f64_differs :: "f64 \<Rightarrow> f64 \<Rightarrow> bool" where
  "f64_differs x u = f64_less (F64Fin f64_epsilon) (f64_abs (f64_sub x u))"

definition compare_bound :: "string \<Rightarrow> json \<Rightarrow> json \<Rightarrow> string \<Rightarrow> json_keyword \<Rightarrow> json_difference list" where
  "compare_bound path orig upd key kw = (case (json_num orig key, json_num upd key) of
      (None, Some _) \<Rightarrow> [jd (Change kw Added) path]
    | (Some _, None) \<Rightarrow> [jd (Change kw Removed) path]
    | (Some x, Some u) \<Rightarrow>
        (if f64_differs x u then [jd (Change kw (if f64_less u x then Decreased else Increased)) path] else [])
    | (None, None) \<Rightarrow> [])"

definition divisible :: "f64 \<Rightarrow> f64 \<Rightarrow> bool" where
  "divisible larger smaller =
     (let quotient = f64_div larger smaller
      in f64_le (f64_abs (f64_sub quotient (f64_round quotient)))
           (f64_scale_epsilon (f64_max_one (f64_abs quotient))))"

definition compare_multiple_of :: "string \<Rightarrow> json \<Rightarrow> json \<Rightarrow> json_difference list" where
  "compare_multiple_of path orig upd = (case (json_num orig ''multipleOf'', json_num upd ''multipleOf'') of
      (None, Some _) \<Rightarrow> [jd (Change KMultipleOf Added) path]
    | (Some _, None) \<Rightarrow> [jd (Change KMultipleOf Removed) path]
    | (Some x, Some u) \<Rightarrow>
        (if f64_differs x u
         then [jd (Change KMultipleOf (if divisible x u then Reduced
                else if divisible u x then Expanded else Changed)) path]
         else [])
    | (None, None) \<Rightarrow> [])"

definition compare_numeric :: "string \<Rightarrow> json \<Rightarrow> json \<Rightarrow> json_difference list" where
  "compare_numeric path orig upd =
     compare_bound path orig upd ''maximum'' KMaximum
     @ compare_bound path orig upd ''minimum'' KMinimum
     @ compare_bound path orig upd ''exclusiveMaximum'' KExclusiveMaximum
     @ compare_bound path orig upd ''exclusiveMinimum'' KExclusiveMinimum
     @ compare_multiple_of path orig upd"

definition compare_pattern :: "string \<Rightarrow> json \<Rightarrow> json \<Rightarrow> json_difference list" where
  "compare_pattern path orig upd =
     (case (Option.bind (json_get orig ''pattern'') as_str, Option.bind (json_get upd ''pattern'') as_str) of
        (None, Some _) \<Rightarrow> [jd (Change KPattern Added) path]
      | (Some _, None) \<Rightarrow> [jd (Change KPattern Removed) path]
      | (Some x, Some u) \<Rightarrow> (if x \<noteq> u then [jd (Change KPattern Changed) path] else [])
      | (None, None) \<Rightarrow> [])"

definition compare_string_constraints :: "string \<Rightarrow> json \<Rightarrow> json \<Rightarrow> json_difference list" where
  "compare_string_constraints path orig upd =
     compare_bound path orig upd ''maxLength'' KMaxLength
     @ compare_bound path orig upd ''minLength'' KMinLength
     @ compare_pattern path orig upd"

subsection \<open>Arrays and object sizes\<close>

definition compare_items :: "compare_fn \<Rightarrow> string \<Rightarrow> json \<Rightarrow> json \<Rightarrow> diff_result" where
  "compare_items cmp path orig upd = (case (json_get orig ''items'', json_get upd ''items'') of
      (Some oi, Some ui) \<Rightarrow>
        (if is_object oi \<and> is_object ui then cmp (sub_path path ''items'') oi ui
         else case (oi, ui) of
                (JArr ol, JArr ul) \<Rightarrow>
                  collect (map (\<lambda>(index, x, y). cmp (path @ ''/items/'' @ show_nat index) x y)
                      (List.enumerate 0 (zip ol ul))
                    @ [Some (if length ul > length ol then [jd (Change KAdditionalItems Removed) (sub_path path ''items'')]
                             else if length ol > length ul then [jd (Change KAdditionalItems Added) (sub_path path ''items'')]
                             else [])])
              | _ \<Rightarrow> Some [jd (Change KType Changed) (sub_path path ''items'')])
    | _ \<Rightarrow> Some [])"

definition compare_additional_items :: "compare_fn \<Rightarrow> string \<Rightarrow> json \<Rightarrow> json \<Rightarrow> diff_result" where
  "compare_additional_items cmp path orig upd =
     (let oa = json_get orig ''additionalItems''; ua = json_get upd ''additionalItems''
      in if \<not> is_false oa \<and> is_false ua then Some [jd (Change KAdditionalItems Removed) path]
         else if is_false oa \<and> \<not> is_false ua then Some [jd (Change KAdditionalItems Added) path]
         else compare_additional_schema cmp path KAdditionalItems ''additionalItems'' oa ua)"

definition unique_items :: "json \<Rightarrow> bool" where
  "unique_items schema = unwrap_or (Option.bind (json_get schema ''uniqueItems'') as_bool) False"

definition compare_array_constraints :: "compare_fn \<Rightarrow> string \<Rightarrow> json \<Rightarrow> json \<Rightarrow> diff_result" where
  "compare_array_constraints cmp path orig upd =
     collect [compare_items cmp path orig upd,
       Some (compare_bound path orig upd ''maxItems'' KMaxItems
             @ compare_bound path orig upd ''minItems'' KMinItems),
       compare_additional_items cmp path orig upd,
       Some (if \<not> unique_items orig \<and> unique_items upd then [jd (Change KUniqueItems Added) path]
             else if unique_items orig \<and> \<not> unique_items upd then [jd (Change KUniqueItems Removed) path]
             else [])]"

definition compare_object_size :: "string \<Rightarrow> json \<Rightarrow> json \<Rightarrow> json_difference list" where
  "compare_object_size path orig upd =
     compare_bound path orig upd ''maxProperties'' KMaxProperties
     @ compare_bound path orig upd ''minProperties'' KMinProperties"

subsection \<open>Combinators\<close>

type_synonym branch_fn = "json \<Rightarrow> json \<Rightarrow> bool option"

definition branches :: "json \<Rightarrow> string \<Rightarrow> json list option" where
  "branches schema keyword = Option.bind (json_get schema keyword) as_array"

fun any_branch :: "('a \<Rightarrow> bool option) \<Rightarrow> 'a list \<Rightarrow> bool option" where
  "any_branch f [] = Some False"
| "any_branch f (x # xs) = Option.bind (f x) (\<lambda>b. if b then Some True else any_branch f xs)"

fun all_branches :: "('a \<Rightarrow> bool option) \<Rightarrow> 'a list \<Rightarrow> bool option" where
  "all_branches f [] = Some True"
| "all_branches f (x # xs) = Option.bind (f x) (\<lambda>b. if b then all_branches f xs else Some False)"

text \<open>The indices of the new branches that are compatible with an old one.\<close>

definition branch_edges :: "branch_fn \<Rightarrow> json list \<Rightarrow> json \<Rightarrow> nat list option" where
  "branch_edges branch upd old =
     collect (map (\<lambda>(index, new). map_option (\<lambda>b. if b then [index] else []) (branch old new))
       (List.enumerate 0 upd))"

definition maximum_matching :: "branch_fn \<Rightarrow> json list \<Rightarrow> json list \<Rightarrow> nat option" where
  "maximum_matching branch orig upd =
     map_option matching_size
       (collect (map (\<lambda>old. map_option (\<lambda>e. [e]) (branch_edges branch upd old)) orig))"

definition json_list_eq :: "json list \<Rightarrow> json list \<Rightarrow> bool" where
  "json_list_eq xs ys = json_eq (JArr xs) (JArr ys)"

text \<open>The verdict on two lists of branches of the same keyword.\<close>

definition compare_branches :: "branch_fn \<Rightarrow> string \<Rightarrow> json_kind \<Rightarrow> json_kind \<Rightarrow> json list \<Rightarrow> json list \<Rightarrow> diff_result" where
  "compare_branches branch path extended narrowed old new =
     (if json_list_eq old new then Some []
      else map_option (\<lambda>matched.
             if matched < min (length old) (length new) then [jd (Change KCombinedType SubschemasChanged) path]
             else if length new > length old then [jd extended path]
             else if length new < length old then [jd narrowed path]
             else []) (maximum_matching branch old new))"

definition sum_branches :: "json \<Rightarrow> (string \<times> json list) option" where
  "sum_branches schema = (case branches schema ''anyOf'' of
      Some value \<Rightarrow> Some (''anyOf'', value)
    | None \<Rightarrow> map_option (\<lambda>value. (''oneOf'', value)) (branches schema ''oneOf''))"

definition compare_all_of :: "branch_fn \<Rightarrow> string \<Rightarrow> json \<Rightarrow> json \<Rightarrow> diff_result" where
  "compare_all_of branch path orig upd = (case (branches orig ''allOf'', branches upd ''allOf'') of
      (Some old, Some new) \<Rightarrow>
        compare_branches branch (sub_path path ''allOf'') (Change KProductType Extended) (Change KProductType Narrowed) old new
    | (None, None) \<Rightarrow> Some []
    | _ \<Rightarrow> Some [jd (Change KCombinedType Changed) path])"

definition compare_sum :: "branch_fn \<Rightarrow> string \<Rightarrow> json \<Rightarrow> json \<Rightarrow> diff_result" where
  "compare_sum branch path orig upd = (case (sum_branches orig, sum_branches upd) of
      (Some (old_kind, old), Some (new_kind, new)) \<Rightarrow>
        (if old_kind \<noteq> new_kind
         then Some [jd (Change KCombinedType (if new_kind = ''anyOf'' then Extended else Changed)) path]
         else compare_branches branch (sub_path path old_kind) (Change KSumType Extended) (Change KSumType Narrowed) old new)
    | (None, Some (kind, new)) \<Rightarrow>
        map_option (\<lambda>b. [jd (if b then Change KSumType Extended else Change KCombinedType Changed) (sub_path path kind)])
          (any_branch (branch orig) new)
    | (Some (kind, old), None) \<Rightarrow>
        map_option (\<lambda>b. [jd (if b then Change KSumType Narrowed else Change KCombinedType Changed) (sub_path path kind)])
          (all_branches (\<lambda>b. branch b upd) old)
    | (None, None) \<Rightarrow> Some [])"

definition compare_not :: "branch_fn \<Rightarrow> string \<Rightarrow> json \<Rightarrow> json \<Rightarrow> diff_result" where
  "compare_not branch path orig upd = (case (json_get orig ''not'', json_get upd ''not'') of
      (Some old, Some new) \<Rightarrow>
        (if json_eq old new then Some []
         else map_option (\<lambda>b. [jd (Change KNotType (if b then Narrowed else Extended)) (sub_path path ''not'')])
                (branch new old))
    | (None, None) \<Rightarrow> Some []
    | _ \<Rightarrow> Some [jd (Change KCombinedType Changed) path])"

definition compare_combinators :: "branch_fn \<Rightarrow> string \<Rightarrow> json \<Rightarrow> json \<Rightarrow> diff_result" where
  "compare_combinators branch path orig upd =
     collect [compare_all_of branch path orig upd, compare_sum branch path orig upd,
       compare_not branch path orig upd]"

subsection \<open>Dependencies and conditionals\<close>

definition dependency_kind :: "json \<Rightarrow> bool \<Rightarrow> json_kind" where
  "dependency_kind value added =
     Change (if is_array value then KDependencyArray else KDependencySchema) (if added then Added else Removed)"

definition dependencies_of :: "json \<Rightarrow> (string \<times> json) list" where
  "dependencies_of schema = unwrap_or (Option.bind (json_get schema ''dependencies'') as_object) []"

definition compare_dependency :: "compare_fn \<Rightarrow> string \<Rightarrow> json \<Rightarrow> json \<Rightarrow> diff_result" where
  "compare_dependency cmp path value update = (case (as_array value, as_array update) of
      (Some ol, Some nl) \<Rightarrow>
        (let old = set (List.map_filter as_str ol); new = set (List.map_filter as_str nl)
         in Some (if old \<subseteq> new \<and> new \<noteq> old then [jd (Change KDependencyArray Extended) path]
                  else if new \<subseteq> old \<and> new \<noteq> old then [jd (Change KDependencyArray Narrowed) path]
                  else if new \<noteq> old then [jd (Change KDependencyArray Changed) path]
                  else []))
    | _ \<Rightarrow>
        (if as_array value = None \<and> as_array update = None \<and> is_object value \<and> is_object update
         then cmp path value update
         else if \<not> json_eq value update then Some [jd (Change KDependencyArray Changed) path]
         else Some []))"

definition compare_dependencies :: "compare_fn \<Rightarrow> string \<Rightarrow> json \<Rightarrow> json \<Rightarrow> diff_result" where
  "compare_dependencies cmp path orig upd =
     (let old = dependencies_of orig; new = dependencies_of upd; dp = (\<lambda>name. path @ ''/dependencies/'' @ name)
      in collect (map (\<lambda>p. case map_of new (fst p) of
             None \<Rightarrow> Some [jd (dependency_kind (snd p) False) (dp (fst p))]
           | Some update \<Rightarrow> compare_dependency cmp (dp (fst p)) (snd p) update) old
         @ map (\<lambda>p. Some [jd (dependency_kind (snd p) True) (dp (fst p))])
             (filter (\<lambda>p. map_of old (fst p) = None) new)))"

definition compare_conditional :: "'a third_party \<Rightarrow> compare_fn \<Rightarrow> string \<Rightarrow> json \<Rightarrow> json \<Rightarrow> string \<Rightarrow> diff_result" where
  "compare_conditional X cmp path orig upd kw = (case (json_get orig kw, json_get upd kw) of
      (Some ov, Some uv) \<Rightarrow>
        (if canonicalize X ov \<noteq> canonicalize X uv
         then collect [Some [jd (Change KConditional Changed) (sub_path path kw)], cmp (sub_path path kw) ov uv]
         else Some [])
    | (None, None) \<Rightarrow> Some []
    | _ \<Rightarrow> Some [jd (Change KConditional Changed) (sub_path path kw)])"

definition compare_conditionals :: "'a third_party \<Rightarrow> compare_fn \<Rightarrow> string \<Rightarrow> json \<Rightarrow> json \<Rightarrow> diff_result" where
  "compare_conditionals X cmp path orig upd =
     collect (map (compare_conditional X cmp path orig upd) [''if'', ''then'', ''else''])"

subsection \<open>References and the whole comparison\<close>

type_synonym ref_map = "(string \<times> json) list"

record json_ctx =
  orig_root :: json
  upd_root :: json
  orig_refs :: ref_map
  upd_refs :: ref_map
  visited :: "(string \<times> string) set"

definition json_ctx_new :: "json \<Rightarrow> json \<Rightarrow> ref_map \<Rightarrow> ref_map \<Rightarrow> json_ctx" where
  "json_ctx_new oroot uroot orefs urefs =
     \<lparr>orig_root = oroot, upd_root = uroot, orig_refs = orefs, upd_refs = urefs, visited = {}\<rparr>"

definition ref_str :: "json \<Rightarrow> string option" where
  "ref_str schema = Option.bind (json_get schema ''$ref'') as_str"

definition resolve_ref :: "'a third_party \<Rightarrow> json \<Rightarrow> json \<Rightarrow> ref_map \<Rightarrow> json option" where
  "resolve_ref X schema doc refs = Option.bind (ref_str schema) (\<lambda>r.
     case r of
       [] \<Rightarrow> map_of refs r
     | ch # ptr \<Rightarrow>
         if ch = CHR ''#'' then (if ptr = [] then Some doc else json_pointer X doc ptr)
         else map_of refs r)"

text \<open>\<open>None\<close>: neither side is a reference, the caller compares the schemas themselves.\<close>

definition compare_refs :: "'a third_party \<Rightarrow> (json_ctx \<Rightarrow> compare_fn) \<Rightarrow> json_ctx \<Rightarrow> string \<Rightarrow> json \<Rightarrow> json
    \<Rightarrow> diff_result option" where
  "compare_refs X rec ctx path orig upd =
     (if ref_str orig = None \<and> ref_str upd = None then None
      else
        let key = (unwrap_or (ref_str orig) [], unwrap_or (ref_str upd) [])
        in if key \<in> visited ctx then Some (Some [])
           else
             let ctx' = ctx\<lparr>visited := insert key (visited ctx)\<rparr>
             in Some (case (resolve_ref X orig (orig_root ctx) (orig_refs ctx),
                            resolve_ref X upd (upd_root ctx) (upd_refs ctx)) of
                  (Some ores, Some ures) \<Rightarrow> rec ctx' (sub_path path ''$ref'') ores ures
                | (Some ores, None) \<Rightarrow> rec ctx' path ores upd
                | (None, Some ures) \<Rightarrow> rec ctx' path orig ures
                | (None, None) \<Rightarrow> Some []))"

text \<open>\<open>branch_compatible\<close>: a fresh context, so what is being visited is forgotten.\<close>

definition branch_compatible :: "(json_ctx \<Rightarrow> compare_fn) \<Rightarrow> json_ctx \<Rightarrow> branch_fn" where
  "branch_compatible rec ctx orig upd =
     map_option (\<lambda>ds. list_all (\<lambda>x. json_backward_compatible (jd_kind x)) ds)
       (rec (ctx\<lparr>visited := {}\<rparr>) ''#'' orig upd)"

text \<open>The keyword by keyword comparison of two schemas that are not references.\<close>

definition compare_keywords :: "'a third_party \<Rightarrow> compare_fn \<Rightarrow> branch_fn \<Rightarrow> compare_fn" where
  "compare_keywords X cmp branch path orig upd =
     collect
       [Some (compare_type path orig upd),
        Some (compare_enum X path orig upd),
        compare_properties X cmp path orig upd,
        Some (compare_required path orig upd),
        compare_additional_properties cmp path orig upd,
        Some (compare_numeric path orig upd),
        Some (compare_string_constraints path orig upd),
        compare_array_constraints cmp path orig upd,
        Some (compare_object_size path orig upd),
        compare_combinators branch path orig upd,
        compare_dependencies cmp path orig upd,
        compare_conditionals X cmp path orig upd]"

primrec compare_schema :: "'a third_party \<Rightarrow> nat \<Rightarrow> json_ctx \<Rightarrow> compare_fn" where
  "compare_schema X 0 ctx path orig upd = None"
| "compare_schema X (Suc n) ctx path orig upd =
     (case compare_refs X (compare_schema X n) ctx path orig upd of
        Some r \<Rightarrow> r
      | None \<Rightarrow> compare_keywords X (compare_schema X n ctx) (branch_compatible (compare_schema X n) ctx) path orig upd)"

definition compare_with_refs :: "'a third_party \<Rightarrow> nat \<Rightarrow> json \<Rightarrow> json \<Rightarrow> ref_map \<Rightarrow> ref_map \<Rightarrow> diff_result" where
  "compare_with_refs X n original update original_refs update_refs =
     compare_schema X n (json_ctx_new original update original_refs update_refs) ''#'' original update"

end
