(* ===== verification/Json_Diff_Props.thy ===== *)
theory Json_Diff_Props
  imports Json_Diff Samples
begin

text \<open>
  When the JSON Schema comparison returns and what it returns: the bound on the depth only decides
  whether there is a result, documents without references are always compared, a document compared
  with itself has no differences, and a reference cycle through a combinator is never left.
\<close>

subsection \<open>Parts of a document\<close>

inductive json_part :: "json \<Rightarrow> json \<Rightarrow> bool" where
  elem: "x \<in> set xs \<Longrightarrow> json_part x (JArr xs)"
| member: "(k, x) \<in> set kvs \<Longrightarrow> json_part x (JObj kvs)"
| trans: "json_part x y \<Longrightarrow> json_part y z \<Longrightarrow> json_part x z"

lemma json_part_size: "json_part x y \<Longrightarrow> size x < size y"
proof (induction rule: json_part.induct)
  case (elem x xs)
  then show ?case using size_list_estimation' [of x xs "size x" size] by simp
next
  case (member k x kvs)
  then show ?case using size_list_estimation' [of "(k, x)" kvs "size x" "size_prod (\<lambda>_. 0) size"] by simp
qed simp

lemma json_part_container: "json_part x v \<Longrightarrow> (\<exists>xs. v = JArr xs) \<or> (\<exists>kvs. v = JObj kvs)"
  by (induction rule: json_part.induct) auto

lemma json_part_leaf:
  "\<not> json_part x JNull" "\<not> json_part x (JBool b)" "\<not> json_part x (JNum n)" "\<not> json_part x (JStr s)"
  using json_part_container by blast+

lemma json_get_part [intro]: "json_get v k = Some x \<Longrightarrow> json_part x v"
  by (auto simp: json_get_def split: json.splits intro: json_part.member dest!: map_of_SomeD)

lemma as_object_part [intro]: "as_object v = Some kvs \<Longrightarrow> (k, x) \<in> set kvs \<Longrightarrow> json_part x v"
  by (auto simp: as_object_def split: json.splits intro: json_part.member)

lemma as_array_part [intro]: "as_array v = Some xs \<Longrightarrow> x \<in> set xs \<Longrightarrow> json_part x v"
  by (auto simp: as_array_def split: json.splits intro: json_part.elem)

lemma get_object_part: "Option.bind (json_get v k) as_object = Some kvs \<Longrightarrow> p \<in> set kvs \<Longrightarrow> json_part (snd p) v"
  by (cases p) (auto simp: bind_eq_Some_conv intro: json_part.trans)

lemma props_part: "p \<in> set (props v) \<Longrightarrow> json_part (snd p) v"
  unfolding props_def unwrap_or_def by (auto split: option.splits intro: get_object_part [OF sym])

lemma dependencies_part: "p \<in> set (dependencies_of v) \<Longrightarrow> json_part (snd p) v"
  unfolding dependencies_of_def unwrap_or_def by (auto split: option.splits intro: get_object_part [OF sym])

lemma branches_part: "branches v k = Some bs \<Longrightarrow> b \<in> set bs \<Longrightarrow> json_part b v"
  unfolding branches_def by (auto simp: bind_eq_Some_conv intro: json_part.trans)

lemma sum_branches_part: "sum_branches v = Some (k, bs) \<Longrightarrow> b \<in> set bs \<Longrightarrow> json_part b v"
  unfolding sum_branches_def by (auto split: option.splits intro: branches_part)

lemma content_schema_part: "content_model_of v = SchemaModel a \<Longrightarrow> json_part a v"
  unfolding content_model_of_def Let_def by (auto split: option.splits json.splits if_splits)

lemma covering_part: "a \<in> set (covering_schemas X v p) \<Longrightarrow> json_part a v"
  unfolding covering_schemas_def
  by (auto split: content_model.splits option.splits dest: content_schema_part [OF sym] get_object_part [OF sym])

subsection \<open>Collecting results\<close>

lemma collect_defined: "collect rs \<noteq> None \<longleftrightarrow> (\<forall>r\<in>set rs. r \<noteq> None)"
proof (induction rs)
  case (Cons r rs)
  then show ?case by (cases r) auto
qed simp

definition quiet :: "'a list option \<Rightarrow> bool" where
  "quiet r \<longleftrightarrow> r = None \<or> r = Some []"

lemma quiet_simps [simp]: "quiet None" "quiet (Some ds) \<longleftrightarrow> ds = []"
  by (simp_all add: quiet_def)

lemma collect_quiet: "(\<And>r. r \<in> set rs \<Longrightarrow> quiet r) \<Longrightarrow> quiet (collect rs)"
proof (induction rs)
  case (Cons r rs)
  then have "quiet r" "quiet (collect rs)" by auto
  then show ?case by (auto simp: quiet_def)
qed simp

definition extends :: "'a option \<Rightarrow> 'a option \<Rightarrow> bool" where
  "extends r r' \<longleftrightarrow> r = None \<or> r = r'"

lemma extends_refl [simp]: "extends r r"
  by (simp add: extends_def)

lemma extends_None [simp]: "extends None r"
  by (simp add: extends_def)

lemma extends_SomeD: "extends (Some x) r \<Longrightarrow> r = Some x"
  by (simp add: extends_def)

lemma extends_map: "extends r r' \<Longrightarrow> extends (map_option f r) (map_option f r')"
  by (auto simp: extends_def)

lemma collect_extends: "list_all2 extends rs rs' \<Longrightarrow> extends (collect rs) (collect rs')"
proof (induction rule: list_all2_induct)
  case (Cons r rs r' rs')
  then show ?case by (cases r; cases "collect rs") (auto simp: extends_def)
qed simp

lemma map_extends: "(\<And>x. x \<in> set xs \<Longrightarrow> extends (f x) (g x)) \<Longrightarrow> list_all2 extends (map f xs) (map g xs)"
  by (induction xs) auto

lemma collect_map_extends:
  "(\<And>x. x \<in> set xs \<Longrightarrow> extends (f x) (g x)) \<Longrightarrow> extends (collect (map f xs)) (collect (map g xs))"
  by (rule collect_extends) (rule map_extends)

subsection \<open>The depth bound only decides whether there is a result\<close>

definition cmp_le :: "compare_fn \<Rightarrow> compare_fn \<Rightarrow> bool" where
  "cmp_le cmp cmp' \<longleftrightarrow> (\<forall>p a b. extends (cmp p a b) (cmp' p a b))"

definition branch_le :: "branch_fn \<Rightarrow> branch_fn \<Rightarrow> bool" where
  "branch_le branch branch' \<longleftrightarrow> (\<forall>a b. extends (branch a b) (branch' a b))"

lemma cmp_leD: "cmp_le cmp cmp' \<Longrightarrow> extends (cmp p a b) (cmp' p a b)"
  by (simp add: cmp_le_def)

lemma branch_leD: "branch_le branch branch' \<Longrightarrow> extends (branch a b) (branch' a b)"
  by (simp add: branch_le_def)

lemma removed_property_mono:
  "cmp_le cmp cmp' \<Longrightarrow> extends (compare_removed_property X cmp path upd p) (compare_removed_property X cmp' path upd p)"
  unfolding compare_removed_property_def Let_def
  by (auto split: content_model.splits intro!: collect_extends map_extends simp: cmp_le_def simp del: collect.simps)

lemma added_property_mono:
  "cmp_le cmp cmp' \<Longrightarrow> extends (compare_added_property X cmp path orig upd p) (compare_added_property X cmp' path orig upd p)"
  unfolding compare_added_property_def Let_def
  by (auto split: content_model.splits intro!: collect_extends map_extends simp: cmp_le_def simp del: collect.simps)

lemma properties_mono: "cmp_le cmp cmp' \<Longrightarrow> extends (compare_properties X cmp path orig upd) (compare_properties X cmp' path orig upd)"
  unfolding compare_properties_def Let_def
  by (intro collect_extends list_all2_appendI map_extends)
    (auto split: option.splits intro: removed_property_mono added_property_mono simp: cmp_le_def)

lemma additional_schema_mono:
  "cmp_le cmp cmp' \<Longrightarrow> extends (compare_additional_schema cmp path kw name oa ua) (compare_additional_schema cmp' path kw name oa ua)"
  unfolding compare_additional_schema_def by (auto split: option.splits simp: cmp_le_def)

lemma items_mono: "cmp_le cmp cmp' \<Longrightarrow> extends (compare_items cmp path orig upd) (compare_items cmp' path orig upd)"
  unfolding compare_items_def
  by (auto split: option.splits json.splits simp: cmp_le_def intro!: collect_extends list_all2_appendI map_extends simp del: collect.simps)

lemma array_constraints_mono:
  "cmp_le cmp cmp' \<Longrightarrow> extends (compare_array_constraints cmp path orig upd) (compare_array_constraints cmp' path orig upd)"
  unfolding compare_array_constraints_def compare_additional_items_def Let_def
  by (rule collect_extends) (auto intro: items_mono additional_schema_mono)

lemma additional_properties_mono:
  "cmp_le cmp cmp' \<Longrightarrow> extends (compare_additional_properties cmp path orig upd) (compare_additional_properties cmp' path orig upd)"
  unfolding compare_additional_properties_def Let_def by (auto intro: additional_schema_mono)

lemma any_branch_mono: "branch_le branch branch' \<Longrightarrow> extends (any_branch (branch a) bs) (any_branch (branch' a) bs)"
proof (induction bs)
  case (Cons b bs)
  then show ?case using branch_leD [of branch branch' a b] by (cases "branch a b") (auto dest: extends_SomeD)
qed simp

lemma all_branches_mono: "branch_le branch branch' \<Longrightarrow> extends (all_branches (\<lambda>b. branch b u) bs) (all_branches (\<lambda>b. branch' b u) bs)"
proof (induction bs)
  case (Cons b bs)
  then show ?case using branch_leD [of branch branch' b u] by (cases "branch b u") (auto dest: extends_SomeD)
qed simp

lemma matching_mono: "branch_le branch branch' \<Longrightarrow> extends (maximum_matching branch old new) (maximum_matching branch' old new)"
  unfolding maximum_matching_def branch_edges_def
  by (intro extends_map collect_map_extends) (auto intro: extends_map simp: branch_le_def)

lemma branches_mono:
  "branch_le branch branch' \<Longrightarrow> extends (compare_branches branch path e n old new) (compare_branches branch' path e n old new)"
  unfolding compare_branches_def by (auto intro!: extends_map matching_mono)

lemma combinators_mono:
  assumes le: "branch_le branch branch'"
  shows "extends (compare_combinators branch path orig upd) (compare_combinators branch' path orig upd)"
proof -
  have "extends (compare_all_of branch path orig upd) (compare_all_of branch' path orig upd)"
    unfolding compare_all_of_def by (auto split: option.splits intro: branches_mono [OF le])
  moreover have "extends (compare_sum branch path orig upd) (compare_sum branch' path orig upd)"
    unfolding compare_sum_def
    by (auto split: option.splits intro: branches_mono [OF le] intro!: extends_map any_branch_mono [OF le] all_branches_mono [OF le])
  moreover have "extends (compare_not branch path orig upd) (compare_not branch' path orig upd)"
    unfolding compare_not_def using le by (auto split: option.splits intro!: extends_map simp: branch_le_def)
  ultimately show ?thesis unfolding compare_combinators_def by (intro collect_extends) simp
qed

lemma dependency_mono: "cmp_le cmp cmp' \<Longrightarrow> extends (compare_dependency cmp path v u) (compare_dependency cmp' path v u)"
  unfolding compare_dependency_def Let_def by (auto split: option.splits simp: cmp_le_def)

lemma dependencies_mono: "cmp_le cmp cmp' \<Longrightarrow> extends (compare_dependencies cmp path orig upd) (compare_dependencies cmp' path orig upd)"
  unfolding compare_dependencies_def Let_def
  by (intro collect_extends list_all2_appendI map_extends) (auto split: option.splits intro: dependency_mono)

lemma conditionals_mono: "cmp_le cmp cmp' \<Longrightarrow> extends (compare_conditionals X cmp path orig upd) (compare_conditionals X cmp' path orig upd)"
  unfolding compare_conditionals_def compare_conditional_def
  by (rule collect_map_extends)
    (auto split: option.splits intro!: collect_extends simp: cmp_le_def simp del: collect.simps)

lemma keywords_mono: "cmp_le cmp cmp' \<Longrightarrow> branch_le branch branch' \<Longrightarrow> extends (compare_keywords X cmp branch path orig upd) (compare_keywords X cmp' branch' path orig upd)"
  unfolding compare_keywords_def
  by (rule collect_extends)
    (auto intro: properties_mono additional_properties_mono array_constraints_mono combinators_mono
      dependencies_mono conditionals_mono)

lemma compare_refs_mono:
  assumes "\<And>c p a b. extends (rec c p a b) (rec' c p a b)"
  shows "case (compare_refs X rec ctx path orig upd, compare_refs X rec' ctx path orig upd) of
    (None, None) \<Rightarrow> True | (Some r, Some r') \<Rightarrow> extends r r' | _ \<Rightarrow> False"
  unfolding compare_refs_def Let_def by (auto split: option.splits intro: assms)

lemma compare_schema_Suc: "extends (compare_schema X n ctx path orig upd) (compare_schema X (Suc n) ctx path orig upd)"
proof (induction n arbitrary: ctx path orig upd)
  case (Suc n)
  have branch: "extends (branch_compatible (compare_schema X n) ctx a b)
      (branch_compatible (compare_schema X (Suc n)) ctx a b)" for a b
    unfolding branch_compatible_def by (rule extends_map) (rule Suc.IH)
  have "extends (compare_keywords X (compare_schema X n ctx) (branch_compatible (compare_schema X n) ctx) path orig upd)
      (compare_keywords X (compare_schema X (Suc n) ctx) (branch_compatible (compare_schema X (Suc n)) ctx) path orig upd)"
    by (rule keywords_mono) (simp_all only: cmp_le_def branch_le_def Suc.IH branch simp_thms)
  then show ?case
    using compare_refs_mono [of "compare_schema X n" "compare_schema X (Suc n)" X ctx path orig upd] Suc.IH
    by (subst (1 2) compare_schema.simps(2)) (auto split: option.splits)
qed simp

lemma compare_schema_mono:
  "n \<le> m \<Longrightarrow> compare_schema X n ctx path orig upd = Some ds \<Longrightarrow> compare_schema X m ctx path orig upd = Some ds"
proof (induction m rule: dec_induct)
  case (step m)
  then show ?case using compare_schema_Suc [of X m ctx path orig upd] by (metis extends_SomeD)
qed simp

subsection \<open>Documents without references are always compared\<close>

definition returns :: "'a option \<Rightarrow> bool" where
  "returns r \<longleftrightarrow> r \<noteq> None"

lemma returns_Some [simp]: "returns (Some x)"
  by (simp add: returns_def)

lemma returns_map [simp]: "returns (map_option f r) = returns r"
  by (simp add: returns_def)

lemma returns_collect: "returns (collect rs) \<longleftrightarrow> (\<forall>r\<in>set rs. returns r)"
  using collect_defined unfolding returns_def by blast

lemma returns_bind: "returns r \<Longrightarrow> (\<And>x. returns (f x)) \<Longrightarrow> returns (Option.bind r f)"
  by (cases r) (auto simp: returns_def)

text \<open>The comparison of the parts of two documents returns, and so does that of branches, where one
  side may be the whole document.\<close>

definition parts_defined :: "compare_fn \<Rightarrow> json \<Rightarrow> json \<Rightarrow> bool" where
  "parts_defined cmp orig upd \<longleftrightarrow> (\<forall>p a b. json_part a orig \<longrightarrow> json_part b upd \<longrightarrow> returns (cmp p a b))"

definition branches_defined :: "branch_fn \<Rightarrow> json \<Rightarrow> json \<Rightarrow> bool" where
  "branches_defined branch orig upd \<longleftrightarrow>
     (\<forall>a b. json_part a orig \<longrightarrow> json_part b upd \<longrightarrow> returns (branch a b) \<and> returns (branch b a)) \<and>
     (\<forall>b. json_part b upd \<longrightarrow> returns (branch orig b)) \<and> (\<forall>a. json_part a orig \<longrightarrow> returns (branch a upd))"

lemma properties_defined:
  assumes "parts_defined cmp orig upd"
  shows "returns (compare_properties X cmp path orig upd)"
proof -
  have cmp: "returns (cmp p a b)" if "json_part a orig" "json_part b upd" for p a b
    using assms that unfolding parts_defined_def by blast
  have removed: "returns (compare_removed_property X cmp path upd p)" if "p \<in> set (props orig)" for p
    using cmp [OF props_part [OF that] covering_part]
    by (auto simp: compare_removed_property_def Let_def returns_collect split: content_model.splits)
  have added: "returns (compare_added_property X cmp path orig upd p)" if "p \<in> set (props upd)" for p
    using cmp [OF covering_part props_part [OF that]]
    by (auto simp: compare_added_property_def Let_def returns_collect split: content_model.splits)
  have common: "returns (cmp q v (snd p))" if "p \<in> set (props upd)" "map_of (props orig) (fst p) = Some v" for p q v
    using cmp [OF props_part [OF map_of_SomeD [OF that(2)]] props_part [OF that(1)]] by simp
  show ?thesis
    unfolding compare_properties_def Let_def returns_collect
    using removed added common by (auto split: option.splits)
qed

lemma additional_schema_defined:
  assumes "parts_defined cmp orig upd"
  shows "returns (compare_additional_schema cmp path kw name (json_get orig k) (json_get upd k))"
  using assms json_get_part unfolding parts_defined_def compare_additional_schema_def
  by (auto split: option.splits)

lemma items_defined:
  assumes "parts_defined cmp orig upd"
  shows "returns (compare_items cmp path orig upd)"
proof -
  have cmp: "returns (cmp p a b)" if "json_part a orig" "json_part b upd" for p a b
    using assms that unfolding parts_defined_def by blast
  have elems: "returns (cmp q x y)"
    if "json_get orig ''items'' = Some (JArr ol)" "json_get upd ''items'' = Some (JArr ul)"
      "(i, x, y) \<in> set (List.enumerate 0 (zip ol ul))" for q x y i ol ul
  proof -
    have "(x, y) \<in> set (zip ol ul)"
      using that(3) by (auto simp: in_set_enumerate_eq) (metis length_zip min_less_iff_conj nth_mem nth_zip)
    then have "x \<in> set ol" "y \<in> set ul" by (auto dest: set_zip_leftD set_zip_rightD)
    then show ?thesis
      using that(1,2) by (meson cmp elem json_get_part trans)
  qed
  have objects: "returns (cmp q x y)" if "json_get orig ''items'' = Some x" "json_get upd ''items'' = Some y" for q x y
    using cmp [OF json_get_part [OF that(1)] json_get_part [OF that(2)]] .
  show ?thesis
    unfolding compare_items_def using elems objects
    by (auto split: option.splits json.splits simp: returns_collect)
qed

lemma array_constraints_defined:
  "parts_defined cmp orig upd \<Longrightarrow> returns (compare_array_constraints cmp path orig upd)"
  unfolding compare_array_constraints_def compare_additional_items_def Let_def returns_collect
  by (simp add: items_defined additional_schema_defined)

lemma additional_properties_defined:
  "parts_defined cmp orig upd \<Longrightarrow> returns (compare_additional_properties cmp path orig upd)"
  unfolding compare_additional_properties_def Let_def by (simp add: additional_schema_defined)

lemma any_branch_defined: "(\<And>b. b \<in> set bs \<Longrightarrow> returns (f b)) \<Longrightarrow> returns (any_branch f bs)"
  by (induction bs) (auto intro!: returns_bind)

lemma all_branches_defined: "(\<And>b. b \<in> set bs \<Longrightarrow> returns (f b)) \<Longrightarrow> returns (all_branches f bs)"
  by (induction bs) (auto intro!: returns_bind)

lemma matching_defined:
  assumes "\<And>a b. a \<in> set old \<Longrightarrow> b \<in> set new \<Longrightarrow> returns (branch a b)"
  shows "returns (maximum_matching branch old new)"
proof -
  have "returns (branch_edges branch new a)" if "a \<in> set old" for a
    unfolding branch_edges_def returns_collect using assms [OF that] by (auto simp: in_set_enumerate_eq)
  then show ?thesis unfolding maximum_matching_def by (auto simp: returns_collect)
qed

lemma branch_lists_defined:
  "(\<And>a b. a \<in> set old \<Longrightarrow> b \<in> set new \<Longrightarrow> returns (branch a b)) \<Longrightarrow>
    returns (compare_branches branch path e n old new)"
  unfolding compare_branches_def using matching_defined [of old new branch] by auto

lemma combinators_defined:
  assumes d: "branches_defined branch orig upd"
  shows "returns (compare_combinators branch path orig upd)"
proof -
  have br: "returns (branch a b)" "returns (branch b a)" if "json_part a orig" "json_part b upd" for a b
    using d that unfolding branches_defined_def by blast+
  have one: "json_part b upd \<Longrightarrow> returns (branch orig b)" "json_part a orig \<Longrightarrow> returns (branch a upd)" for a b
    using d unfolding branches_defined_def by blast+
  have "returns (compare_all_of branch path orig upd)"
    unfolding compare_all_of_def
    by (auto split: option.splits intro!: branch_lists_defined br(1) elim!: branches_part)
  moreover have "returns (compare_sum branch path orig upd)"
  proof (cases "sum_branches orig"; cases "sum_branches upd")
    fix u assume "sum_branches orig = None" "sum_branches upd = Some u"
    then show ?thesis
      unfolding compare_sum_def by (cases u) (auto intro!: any_branch_defined one(1) elim!: sum_branches_part)
  next
    fix x assume "sum_branches orig = Some x" "sum_branches upd = None"
    then show ?thesis
      unfolding compare_sum_def by (cases x) (auto intro!: all_branches_defined one(2) elim!: sum_branches_part)
  next
    fix x u assume "sum_branches orig = Some x" "sum_branches upd = Some u"
    then show ?thesis
      unfolding compare_sum_def
      by (cases x; cases u) (auto intro!: branch_lists_defined br(1) elim!: sum_branches_part)
  qed (simp add: compare_sum_def)
  moreover have "returns (compare_not branch path orig upd)"
    unfolding compare_not_def using br(2) json_get_part by (auto split: option.splits)
  ultimately show ?thesis unfolding compare_combinators_def returns_collect by simp
qed

lemma dependencies_defined:
  assumes "parts_defined cmp orig upd"
  shows "returns (compare_dependencies cmp path orig upd)"
proof -
  have cmp: "returns (cmp p a b)" if "json_part a orig" "json_part b upd" for p a b
    using assms that unfolding parts_defined_def by blast
  have "returns (compare_dependency cmp q (snd p) v)"
    if "p \<in> set (dependencies_of orig)" "map_of (dependencies_of upd) (fst p) = Some v" for p q v
    using cmp [OF dependencies_part [OF that(1)] dependencies_part [OF map_of_SomeD [OF that(2)]]]
    by (auto simp: compare_dependency_def Let_def split: option.splits)
  then show ?thesis
    unfolding compare_dependencies_def Let_def returns_collect by (auto split: option.splits)
qed

lemma conditionals_defined:
  "parts_defined cmp orig upd \<Longrightarrow> returns (compare_conditionals X cmp path orig upd)"
  unfolding compare_conditionals_def compare_conditional_def returns_collect parts_defined_def
  using json_get_part by (auto split: option.splits simp: returns_collect)

lemma keywords_defined:
  "parts_defined cmp orig upd \<Longrightarrow> branches_defined branch orig upd \<Longrightarrow>
    returns (compare_keywords X cmp branch path orig upd)"
  unfolding compare_keywords_def returns_collect
  by (simp add: properties_defined additional_properties_defined array_constraints_defined
      combinators_defined dependencies_defined conditionals_defined)

definition ref_free :: "json \<Rightarrow> bool" where
  "ref_free v \<longleftrightarrow> ref_str v = None \<and> (\<forall>x. json_part x v \<longrightarrow> ref_str x = None)"

lemma ref_free_part: "ref_free v \<Longrightarrow> json_part x v \<Longrightarrow> ref_free x"
  unfolding ref_free_def by (blast intro: json_part.trans)

lemma compare_ref_free_defined:
  "size orig + size upd < n \<Longrightarrow> ref_free orig \<Longrightarrow> ref_free upd \<Longrightarrow> returns (compare_schema X n ctx path orig upd)"
proof (induction n arbitrary: ctx path orig upd)
  case (Suc n)
  have smaller: "returns (compare_schema X n c p a b)"
    if "size a + size b < size orig + size upd" "ref_free a" "ref_free b" for c p a b
    using Suc.IH that Suc.prems(1) by simp
  have parts: "size a < size orig \<and> ref_free a" "size b < size upd \<and> ref_free b"
    if "json_part a orig" "json_part b upd" for a b
    using that json_part_size ref_free_part Suc.prems(2,3) by blast+
  have branch: "returns (branch_compatible (compare_schema X n) ctx a b)"
    if "size a + size b < size orig + size upd" "ref_free a" "ref_free b" for a b
    using smaller that by (simp add: branch_compatible_def)
  have "parts_defined (compare_schema X n ctx) orig upd"
    unfolding parts_defined_def by (blast intro: smaller add_strict_mono dest: parts)
  moreover have "branches_defined (branch_compatible (compare_schema X n) ctx) orig upd"
    unfolding branches_defined_def
    using branch json_part_size ref_free_part Suc.prems(2,3) by (simp add: add.commute add_strict_mono)
  moreover have "compare_refs X (compare_schema X n) ctx path orig upd = None"
    using Suc.prems(2,3) by (simp add: compare_refs_def ref_free_def)
  ultimately show ?case using keywords_defined by simp
qed simp

subsection \<open>The guard against reference cycles\<close>

text \<open>\<open>Value::pointer\<close> returns a part of the document it is applied to.\<close>

definition pointer_ok :: "'a third_party \<Rightarrow> bool" where
  "pointer_ok X \<longleftrightarrow> (\<forall>doc p v. json_pointer X doc p = Some v \<longrightarrow> v = doc \<or> json_part v doc)"

definition inside :: "json set \<Rightarrow> json \<Rightarrow> bool" where
  "inside D v \<longleftrightarrow> (\<exists>d\<in>D. v = d \<or> json_part v d)"

lemma inside_part: "inside D v \<Longrightarrow> json_part x v \<Longrightarrow> inside D x"
  unfolding inside_def by (blast intro: json_part.trans)

lemma resolve_inside:
  assumes "pointer_ok X" "doc \<in> D" "snd ` set refs \<subseteq> D" "resolve_ref X v doc refs = Some r"
  shows "inside D r"
proof -
  have named: "r \<in> snd ` set refs" if "map_of refs k = Some r" for k
    using map_of_SomeD [OF that] by force
  have "r = doc \<or> json_part r doc \<or> r \<in> snd ` set refs"
  proof (cases "ref_str v")
    case (Some k)
    show ?thesis
    proof (cases "k \<noteq> [] \<and> hd k = CHR ''#''")
      case True
      then obtain ptr where "k = CHR ''#'' # ptr" by (cases k) auto
      then show ?thesis
        using assms(1,4) Some unfolding pointer_ok_def resolve_ref_def by (auto split: if_splits)
    next
      case False
      then show ?thesis using assms(4) Some named unfolding resolve_ref_def by (auto split: list.splits)
    qed
  qed (use assms(4) in \<open>simp add: resolve_ref_def\<close>)
  then show ?thesis using assms(2,3) unfolding inside_def by blast
qed

definition comb_free :: "json \<Rightarrow> bool" where
  "comb_free v \<longleftrightarrow> list_all (\<lambda>k. json_get v k = None) [''allOf'', ''anyOf'', ''oneOf'', ''not'']"

lemma comb_free_combinators:
  "comb_free orig \<Longrightarrow> comb_free upd \<Longrightarrow> compare_combinators branch path orig upd = Some []"
  by (simp add: comb_free_def compare_combinators_def compare_all_of_def compare_sum_def compare_not_def
      sum_branches_def branches_def)

lemma keywords_defined_comb_free:
  "parts_defined cmp orig upd \<Longrightarrow> comb_free orig \<Longrightarrow> comb_free upd \<Longrightarrow>
    returns (compare_keywords X cmp branch path orig upd)"
  unfolding compare_keywords_def returns_collect
  by (simp add: properties_defined additional_properties_defined array_constraints_defined
      comb_free_combinators dependencies_defined conditionals_defined)

lemma finite_parts: "finite {x. json_part x v}"
proof (induction v)
  case (JArr xs)
  have "{x. json_part x (JArr xs)} \<subseteq> set xs \<union> (\<Union>y\<in>set xs. {x. json_part x y})"
  proof
    fix x assume "x \<in> {x. json_part x (JArr xs)}"
    then have "json_part x (JArr xs)" by simp
    then show "x \<in> set xs \<union> (\<Union>y\<in>set xs. {x. json_part x y})"
      by (induction x "JArr xs" rule: json_part.induct) (auto intro: json_part.trans)
  qed
  then show ?case using JArr by (auto intro: finite_subset)
next
  case (JObj kvs)
  have "{x. json_part x (JObj kvs)} \<subseteq> snd ` set kvs \<union> (\<Union>y\<in>snd ` set kvs. {x. json_part x y})"
  proof
    fix x assume "x \<in> {x. json_part x (JObj kvs)}"
    then have "json_part x (JObj kvs)" by simp
    then show "x \<in> snd ` set kvs \<union> (\<Union>y\<in>snd ` set kvs. {x. json_part x y})"
      by (induction x "JObj kvs" rule: json_part.induct) (force intro: json_part.trans)+
  qed
  moreover have "finite {x. json_part x y}" if "y \<in> snd ` set kvs" for y
    using that JObj by (auto simp: image_iff snds.simps)
  ultimately show ?case by (auto intro: finite_subset)
qed (simp_all add: json_part_leaf)

definition ref_keys :: "json set \<Rightarrow> string set" where
  "ref_keys D = insert [] {r. \<exists>v. inside D v \<and> ref_str v = Some r}"

lemma finite_ref_keys:
  assumes "finite D"
  shows "finite (ref_keys D)"
proof -
  have "ref_keys D \<subseteq> insert [] ((\<lambda>v. the (ref_str v)) ` (D \<union> (\<Union>d\<in>D. {x. json_part x d})))"
  proof
    fix r assume "r \<in> ref_keys D"
    then consider "r = []" | v where "inside D v" "ref_str v = Some r" unfolding ref_keys_def by blast
    then show "r \<in> insert [] ((\<lambda>v. the (ref_str v)) ` (D \<union> (\<Union>d\<in>D. {x. json_part x d})))"
    proof cases
      case 2
      then have "v \<in> D \<union> (\<Union>d\<in>D. {x. json_part x d})" "r = the (ref_str v)" unfolding inside_def by auto
      then show ?thesis by blast
    qed simp
  qed
  then show ?thesis using assms finite_parts by (auto intro: finite_subset)
qed

definition ctx_docs :: "json_ctx \<Rightarrow> json set" where
  "ctx_docs ctx = {orig_root ctx, upd_root ctx} \<union> snd ` set (orig_refs ctx) \<union> snd ` set (upd_refs ctx)"

lemma ctx_docs_visit [simp]: "ctx_docs (ctx\<lparr>visited := V\<rparr>) = ctx_docs ctx"
  by (simp add: ctx_docs_def)

text \<open>Every followed pair of references shrinks the pairs that are left, every other step the size of
  the documents.\<close>

lemma fuel_step: "Suc c = C \<Longrightarrow> C * Suc K + x + y < Suc n \<Longrightarrow> s \<le> K \<Longrightarrow> c * Suc K + s < (n :: nat)"
  by auto

lemma guarded_compare_defined:
  assumes X: "pointer_ok X" and comb: "\<And>v. inside D v \<Longrightarrow> comb_free v"
    and S: "\<And>v. inside D v \<Longrightarrow> size v \<le> S" and fin: "finite (ref_keys D)"
  shows "ctx_docs ctx \<subseteq> D \<Longrightarrow> inside D orig \<Longrightarrow> inside D upd \<Longrightarrow>
    card (ref_keys D \<times> ref_keys D - visited ctx) * Suc (2 * S) + size orig + size upd < n \<Longrightarrow>
    returns (compare_schema X n ctx path orig upd)"
proof (induction n arbitrary: ctx path orig upd)
  case (Suc n)
  let ?U = "ref_keys D \<times> ref_keys D"
  let ?rec = "compare_schema X n"
  show ?case
  proof (cases "compare_refs X ?rec ctx path orig upd")
    case None
    have "returns (?rec ctx p a b)" if "json_part a orig" "json_part b upd" for p a b
      by (rule Suc.IH)
        (use that Suc.prems inside_part json_part_size [of a orig] json_part_size [of b upd] in auto)
    then have "parts_defined (?rec ctx) orig upd" by (simp add: parts_defined_def)
    from keywords_defined_comb_free [OF this comb comb, OF Suc.prems(2,3)] show ?thesis using None by simp
  next
    case (Some r)
    let ?key = "(unwrap_or (ref_str orig) [], unwrap_or (ref_str upd) [])"
    let ?ctx = "ctx\<lparr>visited := insert ?key (visited ctx)\<rparr>"
    have key: "?key \<in> ?U"
      using Suc.prems(2,3) unfolding ref_keys_def unwrap_or_def by (auto split: option.splits)
    have follow: "returns (?rec ?ctx p a b)" if "?key \<notin> visited ctx" "inside D a" "inside D b" for p a b
    proof (rule Suc.IH)
      have "?U - visited ?ctx = (?U - visited ctx) - {?key}" by auto
      then have "Suc (card (?U - visited ?ctx)) = card (?U - visited ctx)"
        using card_Suc_Diff1 [of "?U - visited ctx" ?key] that(1) key fin by (simp only: finite_Diff finite_SigmaI Diff_iff) blast
      moreover have "size a + size b \<le> 2 * S" using S [OF that(2)] S [OF that(3)] by simp
      ultimately show "card (?U - visited ?ctx) * Suc (2 * S) + size a + size b < n"
        using fuel_step [OF _ Suc.prems(4)] by (simp only: add.assoc)
    qed (use Suc.prems that in auto)
    have res: "inside D v" if "resolve_ref X orig (orig_root ctx) (orig_refs ctx) = Some v" for v
      by (rule resolve_inside [OF X _ _ that]) (use Suc.prems(1) in \<open>auto simp: ctx_docs_def\<close>)
    have res': "inside D v" if "resolve_ref X upd (upd_root ctx) (upd_refs ctx) = Some v" for v
      by (rule resolve_inside [OF X _ _ that]) (use Suc.prems(1) in \<open>auto simp: ctx_docs_def\<close>)
    have "returns r"
      using Some follow res res' Suc.prems(2,3) unfolding compare_refs_def Let_def
      by (auto split: if_splits option.splits)
    then show ?thesis using Some by simp
  qed
qed simp

subsection \<open>A document compared with itself\<close>

text \<open>A \<open>Value\<close>: members sorted, no number that is not a number.\<close>

fun no_nan :: "json \<Rightarrow> bool" where
  "no_nan (JArr xs) = list_all no_nan xs"
| "no_nan (JObj kvs) = list_all (\<lambda>p. no_nan (snd p)) kvs"
| "no_nan (JNum n) = (number_f64 n \<noteq> F64NaN)"
| "no_nan v = True"

definition json_wf :: "json \<Rightarrow> bool" where
  "json_wf v \<longleftrightarrow> json_sorted v \<and> no_nan v"

lemma json_wf_part: "json_part x v \<Longrightarrow> json_wf v \<Longrightarrow> json_wf x"
  by (induction rule: json_part.induct) (auto simp: json_wf_def list_all_iff)

lemma zip_self: "p \<in> set (zip xs xs) \<Longrightarrow> fst p = snd p \<and> fst p \<in> set xs"
  by (cases p) (auto simp: zip_same)

lemma json_eq_refl: "no_nan v \<Longrightarrow> json_eq v v"
proof (induction v rule: no_nan.induct)
  case (1 xs)
  have "json_eq (fst p) (snd p)" if "p \<in> set (zip xs xs)" for p
    using zip_self [OF that] 1 by (metis list_all_iff no_nan.simps(1))
  then show ?case by simp
next
  case (2 kvs)
  have "json_eq (fst p) (snd p)" if p: "p \<in> set (zip (map snd kvs) (map snd kvs))" for p
  proof -
    obtain q where "q \<in> set kvs" "fst p = snd q" "fst p = snd p" using zip_self [OF p] by auto
    then show ?thesis using 2 by (simp add: list_all_iff)
  qed
  then show ?case by simp
qed (auto simp: json_number_refl)

lemma f64_differs_self: "\<not> f64_differs x x"
  unfolding f64_differs_def by (cases x) (auto simp: round_f64_def f64_epsilon_def pow2_def)

lemma bound_self: "compare_bound path v v k kw = []"
  unfolding compare_bound_def by (auto split: option.splits simp: f64_differs_self)

lemma leaf_keywords_self:
  "compare_type path v v = []" "compare_enum X path v v = []" "compare_required path v v = []"
  "compare_numeric path v v = []" "compare_string_constraints path v v = []" "compare_object_size path v v = []"
  unfolding compare_type_def compare_enum_def compare_required_def compare_numeric_def compare_multiple_of_def
    compare_string_constraints_def compare_pattern_def compare_object_size_def Let_def
  by (auto simp: bound_self f64_differs_self split: option.splits)

definition parts_quiet :: "compare_fn \<Rightarrow> json \<Rightarrow> bool" where
  "parts_quiet cmp v \<longleftrightarrow> (\<forall>p x. json_part x v \<longrightarrow> quiet (cmp p x x))"

lemma wf_object:
  assumes "json_wf v" "Option.bind (json_get v k) as_object = Some kvs" "p \<in> set kvs"
  shows "map_of kvs (fst p) = Some (snd p)"
proof -
  obtain x where x: "json_get v k = Some x" "x = JObj kvs"
    using assms(2) by (cases "json_get v k"; cases "the (json_get v k)") (auto simp: as_object_def)
  then have "json_wf x" using json_wf_part assms(1) by blast
  then have "distinct (map fst kvs)" using x(2) by (simp add: json_wf_def btree_ok_distinct)
  then show ?thesis using assms(3) by (simp add: map_of_eq_Some_iff)
qed

lemma props_self: "json_wf v \<Longrightarrow> p \<in> set (props v) \<Longrightarrow> map_of (props v) (fst p) = Some (snd p)"
  unfolding props_def unwrap_or_def
  by (cases "Option.bind (json_get v ''properties'') as_object") (auto simp: wf_object)

lemma dependencies_self: "json_wf v \<Longrightarrow> p \<in> set (dependencies_of v) \<Longrightarrow> map_of (dependencies_of v) (fst p) = Some (snd p)"
  unfolding dependencies_of_def unwrap_or_def
  by (cases "Option.bind (json_get v ''dependencies'') as_object") (auto simp: wf_object)

lemma properties_quiet:
  assumes "json_wf v" "parts_quiet cmp v"
  shows "quiet (compare_properties X cmp path v v)"
proof -
  have none: "filter (\<lambda>p. map_of (props v) (fst p) = None) (props v) = []"
    using props_self [OF assms(1)] by (auto simp: filter_empty_conv)
  show ?thesis
    unfolding compare_properties_def Let_def none
    using props_self [OF assms(1)] props_part assms(2)
    by (intro collect_quiet) (auto simp: parts_quiet_def)
qed

lemma additional_schema_quiet:
  "parts_quiet cmp v \<Longrightarrow> quiet (compare_additional_schema cmp path kw name (json_get v k) (json_get v k))"
  unfolding compare_additional_schema_def is_schema_opt_def parts_quiet_def by (auto split: option.splits)

text \<open>\<open>items\<close> that is neither a schema object nor a list counts as changed even when it is the same.\<close>

definition items_typed :: "json \<Rightarrow> bool" where
  "items_typed v \<longleftrightarrow> (case json_get v ''items'' of None \<Rightarrow> True | Some x \<Rightarrow> is_object x \<or> is_array x)"

lemma items_quiet:
  assumes "parts_quiet cmp v" "items_typed v"
  shows "quiet (compare_items cmp path v v)"
proof -
  have q: "quiet (cmp p x x)" if "json_part x v" for p x using assms(1) that by (simp add: parts_quiet_def)
  have elems: "quiet (cmp p x y)"
    if "json_get v ''items'' = Some (JArr xs)" "(i, x, y) \<in> set (List.enumerate 0 (zip xs xs))" for p i x y xs
  proof -
    have "x = y" "x \<in> set xs" using that(2) by (auto simp: in_set_enumerate_eq)
    moreover have "json_part x v" using that(1) \<open>x \<in> set xs\<close> by (meson elem json_get_part trans)
    ultimately show ?thesis using q by simp
  qed
  show ?thesis
  proof (cases "json_get v ''items''")
    case (Some x)
    show ?thesis
    proof (cases "is_object x")
      case True
      then show ?thesis using Some q [OF json_get_part [OF Some]] by (simp add: compare_items_def)
    next
      case False
      then obtain xs where "x = JArr xs" using assms(2) Some by (cases x) (auto simp: items_typed_def is_array_def as_array_def)
      then show ?thesis using elems Some False by (auto simp: compare_items_def intro!: collect_quiet)
    qed
  qed (simp add: compare_items_def)
qed

lemma array_constraints_quiet: "parts_quiet cmp v \<Longrightarrow> items_typed v \<Longrightarrow> quiet (compare_array_constraints cmp path v v)"
  unfolding compare_array_constraints_def compare_additional_items_def Let_def
  by (rule collect_quiet) (auto simp: bound_self items_quiet additional_schema_quiet)

lemma additional_properties_quiet: "parts_quiet cmp v \<Longrightarrow> quiet (compare_additional_properties cmp path v v)"
  unfolding compare_additional_properties_def Let_def by (simp add: additional_schema_quiet)

lemma combinators_self:
  assumes "json_wf v"
  shows "compare_combinators branch path v v = Some []"
proof -
  have eq: "json_list_eq xs xs" if b: "branches v k = Some xs" for k xs
  proof -
    obtain x where "json_get v k = Some x" "x = JArr xs"
      using b unfolding branches_def by (cases "json_get v k"; cases "the (json_get v k)") (auto simp: as_array_def)
    then have "no_nan (JArr xs)" using json_wf_part assms unfolding json_wf_def by blast
    then show ?thesis unfolding json_list_eq_def by (rule json_eq_refl)
  qed
  have "compare_all_of branch path v v = Some []"
    unfolding compare_all_of_def compare_branches_def using eq by (auto split: option.splits)
  moreover have "compare_sum branch path v v = Some []"
    unfolding compare_sum_def compare_branches_def sum_branches_def using eq by (auto split: option.splits)
  moreover have "compare_not branch path v v = Some []"
    unfolding compare_not_def using json_wf_part assms json_eq_refl unfolding json_wf_def
    by (auto split: option.splits)
  ultimately show ?thesis by (simp add: compare_combinators_def)
qed

lemma dependencies_quiet:
  assumes "json_wf v" "parts_quiet cmp v"
  shows "quiet (compare_dependencies cmp path v v)"
proof -
  have one: "quiet (compare_dependency cmp q (snd p) (snd p))" if "p \<in> set (dependencies_of v)" for p q
  proof -
    have part: "json_part (snd p) v" by (rule dependencies_part [OF that])
    then have "json_eq (snd p) (snd p)" using json_wf_part assms(1) json_eq_refl unfolding json_wf_def by blast
    then show ?thesis using part assms(2) unfolding compare_dependency_def parts_quiet_def Let_def
      by (auto split: option.splits)
  qed
  have none: "filter (\<lambda>p. map_of (dependencies_of v) (fst p) = None) (dependencies_of v) = []"
    using dependencies_self [OF assms(1)] by (auto simp: filter_empty_conv)
  show ?thesis
    unfolding compare_dependencies_def Let_def none
    using one dependencies_self [OF assms(1)] by (intro collect_quiet) auto
qed

lemma conditionals_self: "compare_conditionals X cmp path v v = Some []"
  unfolding compare_conditionals_def compare_conditional_def by (auto split: option.splits)

lemma keywords_quiet:
  "json_wf v \<Longrightarrow> items_typed v \<Longrightarrow> parts_quiet cmp v \<Longrightarrow> quiet (compare_keywords X cmp branch path v v)"
  unfolding compare_keywords_def
  by (rule collect_quiet)
    (auto simp: leaf_keywords_self combinators_self conditionals_self properties_quiet
      additional_properties_quiet array_constraints_quiet dependencies_quiet)

lemma compare_schema_quiet:
  assumes X: "pointer_ok X" and wf: "\<And>v. inside D v \<Longrightarrow> json_wf v \<and> items_typed v"
  shows "ctx_docs ctx \<subseteq> D \<Longrightarrow> orig_root ctx = upd_root ctx \<Longrightarrow> orig_refs ctx = upd_refs ctx \<Longrightarrow> inside D v \<Longrightarrow>
    quiet (compare_schema X n ctx path v v)"
proof (induction n arbitrary: ctx path v)
  case (Suc n)
  show ?case
  proof (cases "compare_refs X (compare_schema X n) ctx path v v")
    case None
    have "parts_quiet (compare_schema X n ctx) v"
      unfolding parts_quiet_def using Suc inside_part by blast
    then show ?thesis using None keywords_quiet [of v "compare_schema X n ctx" X] wf [OF Suc.prems(4)] by simp
  next
    case (Some r)
    have res: "inside D x" if "resolve_ref X v (upd_root ctx) (upd_refs ctx) = Some x" for x
      by (rule resolve_inside [OF X _ _ that]) (use Suc.prems(1) in \<open>auto simp: ctx_docs_def\<close>)
    have "quiet (compare_schema X n (ctx\<lparr>visited := V\<rparr>) p x x)" if "inside D x" for V p x
      by (rule Suc.IH) (use Suc.prems that in auto)
    then have "quiet r"
      using Some res Suc.prems(2,3) unfolding compare_refs_def Let_def by (auto split: if_splits option.splits)
    then show ?thesis using Some by simp
  qed
qed simp

subsection \<open>When the comparison returns\<close>

text \<open>A check of every value of a document.\<close>

fun everywhere :: "(json \<Rightarrow> bool) \<Rightarrow> json \<Rightarrow> bool" where
  "everywhere P (JArr xs) \<longleftrightarrow> P (JArr xs) \<and> list_all (everywhere P) xs"
| "everywhere P (JObj kvs) \<longleftrightarrow> P (JObj kvs) \<and> list_all (\<lambda>p. everywhere P (snd p)) kvs"
| "everywhere P v \<longleftrightarrow> P v"

lemma everywhere_part: "json_part x v \<Longrightarrow> everywhere P v \<Longrightarrow> everywhere P x"
  by (induction rule: json_part.induct) (auto simp: list_all_iff)

lemma everywhere_top: "everywhere P v \<Longrightarrow> P v"
  by (cases v) auto

lemma everywhere_inside: "(\<And>d. d \<in> D \<Longrightarrow> everywhere P d) \<Longrightarrow> inside D v \<Longrightarrow> P v"
  unfolding inside_def using everywhere_part everywhere_top by blast

lemma everywhere_ref_free: "everywhere (\<lambda>v. ref_str v = None) v \<Longrightarrow> ref_free v"
  unfolding ref_free_def using everywhere_part everywhere_top by fastforce

definition documents :: "json \<Rightarrow> json \<Rightarrow> ref_map \<Rightarrow> ref_map \<Rightarrow> json list" where
  "documents orig upd orefs urefs = orig # upd # map snd orefs @ map snd urefs"

lemma ctx_docs_new: "ctx_docs (json_ctx_new orig upd orefs urefs) = set (documents orig upd orefs urefs)"
  by (auto simp: ctx_docs_def json_ctx_new_def documents_def)

lemma inside_self: "d \<in> D \<Longrightarrow> inside D d"
  unfolding inside_def by blast

lemma inside_size_bound: "finite D \<Longrightarrow> \<exists>S. \<forall>v. inside D v \<longrightarrow> size v \<le> S"
proof -
  assume "finite D"
  then have "size d \<le> sum size D" if "d \<in> D" for d using that by (simp add: member_le_sum)
  moreover have "json_part v d \<Longrightarrow> size v \<le> size d" for v d using json_part_size by fastforce
  ultimately have "inside D v \<Longrightarrow> size v \<le> sum size D" for v unfolding inside_def by (metis le_trans)
  then show ?thesis by blast
qed

lemma comb_free_returns:
  assumes "pointer_ok X" "list_all (everywhere comb_free) (documents orig upd orefs urefs)"
  shows "\<exists>n. returns (compare_with_refs X n orig upd orefs urefs)"
proof -
  let ?D = "set (documents orig upd orefs urefs)"
  have comb: "comb_free v" if "inside ?D v" for v
    by (rule everywhere_inside [OF _ that]) (use assms(2) in \<open>auto simp: list_all_iff\<close>)
  obtain S where S: "\<And>v. inside ?D v \<Longrightarrow> size v \<le> S" using inside_size_bound [of ?D] by auto
  have "inside ?D orig" "inside ?D upd" by (auto intro!: inside_self simp: documents_def)
  then have "returns (compare_schema X n (json_ctx_new orig upd orefs urefs) ''#'' orig upd)"
    if "card (ref_keys ?D \<times> ref_keys ?D - visited (json_ctx_new orig upd orefs urefs)) * Suc (2 * S)
      + size orig + size upd < n" for n
    using guarded_compare_defined [OF assms(1) comb S finite_ref_keys _ _ _ that] ctx_docs_new by auto
  then show ?thesis unfolding compare_with_refs_def by blast
qed

lemma ref_free_returns:
  "everywhere (\<lambda>v. ref_str v = None) orig \<Longrightarrow> everywhere (\<lambda>v. ref_str v = None) upd \<Longrightarrow>
    returns (compare_with_refs X (Suc (size orig + size upd)) orig upd orefs urefs)"
  unfolding compare_with_refs_def by (rule compare_ref_free_defined) (simp_all add: everywhere_ref_free)

text \<open>C34: the JSON Schema comparison returns, and its result does not depend on how deep the
  recursion may go, when the two documents hold no \<open>$ref\<close>, or when no document involved uses
  \<open>allOf\<close>, \<open>anyOf\<close>, \<open>oneOf\<close> or \<open>not\<close>: the guard on visited pairs of references stops
  every other cycle.\<close>

theorem json_comparison_terminates:
  assumes "pointer_ok X"
    and "(everywhere (\<lambda>v. ref_str v = None) orig \<and> everywhere (\<lambda>v. ref_str v = None) upd) \<or>
      list_all (everywhere comb_free) (documents orig upd orefs urefs)"
  shows "\<exists>n ds. \<forall>m\<ge>n. compare_with_refs X m orig upd orefs urefs = Some ds"
proof -
  obtain n where "returns (compare_with_refs X n orig upd orefs urefs)"
    using assms comb_free_returns ref_free_returns by blast
  then obtain ds where "compare_with_refs X n orig upd orefs urefs = Some ds" by (auto simp: returns_def)
  then show ?thesis unfolding compare_with_refs_def using compare_schema_mono by blast
qed

definition member_parsers :: "string third_party" where
  "member_parsers = echo_parsers\<lparr>json_pointer := (\<lambda>doc p. json_get doc (tl p))\<rparr>"

lemma member_pointer_ok: "pointer_ok member_parsers"
  by (auto simp: pointer_ok_def member_parsers_def)

definition linked_list :: json where
  "linked_list = JObj [(''properties'', JObj [(''next'', JObj [(''$ref'', JStr ''#'')])])]"

theorem json_comparison_terminates_witness:
  "\<exists>n ds. \<forall>m\<ge>n. compare_with_refs member_parsers m linked_list linked_list [] [] = Some ds"
  by (rule json_comparison_terminates [OF member_pointer_ok])
    (simp add: linked_list_def documents_def comb_free_def json_get_def)

text \<open>C35: a JSON Schema compared with itself, under the same references, has no differences, provided
  its \<open>items\<close> keywords hold objects or lists: whenever the comparison returns, it returns the
  empty list, and without \<open>$ref\<close> it does return.\<close>

theorem json_self_comparison:
  assumes "pointer_ok X" "list_all (everywhere (\<lambda>v. json_wf v \<and> items_typed v)) (doc # map snd refs)"
  shows "(\<forall>ds. compare_with_refs X n doc doc refs refs = Some ds \<longrightarrow> ds = []) \<and>
    (everywhere (\<lambda>v. ref_str v = None) doc \<longrightarrow> 2 * size doc < n \<longrightarrow> compare_with_refs X n doc doc refs refs = Some [])"
proof -
  let ?D = "set (documents doc doc refs refs)"
  have wf: "json_wf v \<and> items_typed v" if "inside ?D v" for v
    by (rule everywhere_inside [OF _ that]) (use assms(2) in \<open>auto simp: documents_def list_all_iff\<close>)
  have "inside ?D doc" by (rule inside_self) (simp add: documents_def)
  then have "quiet (compare_with_refs X n doc doc refs refs)"
    unfolding compare_with_refs_def
    using compare_schema_quiet [OF assms(1) wf, of _ "json_ctx_new doc doc refs refs"] ctx_docs_new
    by (simp add: json_ctx_new_def)
  moreover have "returns (compare_with_refs X n doc doc refs refs)"
    if "everywhere (\<lambda>v. ref_str v = None) doc" "2 * size doc < n"
    unfolding compare_with_refs_def
    by (rule compare_ref_free_defined) (use that in \<open>simp_all add: everywhere_ref_free\<close>)
  ultimately show ?thesis unfolding quiet_def returns_def by auto
qed

definition point_schema :: json where
  "point_schema = JObj [(''properties'', JObj [(''x'', JObj [(''type'', JStr ''number'')])])]"

theorem json_self_comparison_witness:
  "compare_with_refs member_parsers 100 point_schema point_schema [] [] = Some []"
proof -
  have wf: "list_all (everywhere (\<lambda>v. json_wf v \<and> items_typed v)) (point_schema # map snd ([] :: ref_map))"
    by (simp add: point_schema_def json_wf_def items_typed_def json_get_def btree_ok_def)
  show ?thesis
    using json_self_comparison [OF member_pointer_ok wf, of 100]
    by (simp add: point_schema_def ref_str_def json_get_def)
qed

subsection \<open>Two defects of the comparison\<close>

definition self_ref :: json where
  "self_ref = JObj [(''$ref'', JStr ''#'')]"

definition tree_v1 :: json where
  "tree_v1 = JObj [(''anyOf'', JArr [self_ref])]"

definition tree_v2 :: json where
  "tree_v2 = JObj [(''anyOf'', JArr [self_ref, JObj [(''type'', JStr ''string'')]])]"

lemma self_ref_step:
  "orig_root ctx = tree_v1 \<Longrightarrow> upd_root ctx = tree_v2 \<Longrightarrow> visited ctx = {} \<Longrightarrow>
    compare_schema X (Suc n) ctx path self_ref self_ref =
      compare_schema X n (ctx\<lparr>visited := {(''#'', ''#'')}\<rparr>) (sub_path path ''$ref'') tree_v1 tree_v2"
  by (simp add: compare_refs_def self_ref_def ref_str_def json_get_def as_str_def resolve_ref_def unwrap_or_def)

lemma collect_None: "None \<in> set rs \<Longrightarrow> collect rs = None"
  using collect_defined [of rs] by blast

lemma branches_diverge:
  assumes "branch self_ref self_ref = None"
  shows "compare_keywords X cmp branch path tree_v1 tree_v2 = None"
proof -
  have "branch_edges branch [self_ref, JObj [(''type'', JStr ''string'')]] self_ref = None"
    using assms unfolding branch_edges_def by (intro collect_None) simp
  then have "maximum_matching branch [self_ref] [self_ref, JObj [(''type'', JStr ''string'')]] = None"
    by (simp add: maximum_matching_def)
  then have "compare_sum branch path tree_v1 tree_v2 = None"
    by (simp add: compare_sum_def sum_branches_def branches_def tree_v1_def tree_v2_def json_get_def as_array_def
        compare_branches_def json_list_eq_def)
  then have "compare_combinators branch path tree_v1 tree_v2 = None"
    unfolding compare_combinators_def by (intro collect_None) simp
  then show ?thesis unfolding compare_keywords_def by (intro collect_None) simp
qed

lemma tree_diverges:
  "orig_root ctx = tree_v1 \<Longrightarrow> upd_root ctx = tree_v2 \<Longrightarrow> compare_schema X n ctx path tree_v1 tree_v2 = None"
proof (induction n arbitrary: ctx path rule: less_induct)
  case (less n)
  show ?case
  proof (cases n)
    case (Suc m)
    have "compare_schema X m (ctx\<lparr>visited := {}\<rparr>) ''#'' self_ref self_ref = None"
    proof (cases m)
      case (Suc k)
      then show ?thesis
        using self_ref_step [of "ctx\<lparr>visited := {}\<rparr>" X k] less \<open>n = Suc m\<close> by simp
    qed simp
    then have "branch_compatible (compare_schema X m) ctx self_ref self_ref = None"
      by (simp add: branch_compatible_def)
    then have "compare_keywords X cmp (branch_compatible (compare_schema X m) ctx) path tree_v1 tree_v2 = None" for cmp
      by (rule branches_diverge)
    moreover have "compare_refs X rec ctx path tree_v1 tree_v2 = None" for rec
      by (simp add: compare_refs_def ref_str_def tree_v1_def tree_v2_def json_get_def)
    ultimately show ?thesis using Suc by simp
  qed simp
qed

text \<open>A reference cycle through a combinator is never left: comparing \<open>{anyOf: [{$ref: #}]}\<close>
  with \<open>{anyOf: [{$ref: #}, {type: string}]}\<close> returns at no depth, because the comparison of
  branches forgets which references are being followed.\<close>

theorem json_recursive_branch_diverges:
  "compare_with_refs X n tree_v1 tree_v2 [] [] = None"
  unfolding compare_with_refs_def by (rule tree_diverges) (simp_all add: json_ctx_new_def)

text \<open>A schema whose \<open>items\<close> keyword is a boolean is reported as incompatible with itself.\<close>

theorem json_boolean_items_differ:
  "compare_with_refs X (Suc n) (JObj [(''items'', JBool b)]) (JObj [(''items'', JBool b)]) [] [] =
    Some [jd (Change KType Changed) ''#/items''] \<and> \<not> json_backward_compatible (Change KType Changed)"
proof -
  let ?v = "JObj [(''items'', JBool b)]"
  have wf: "json_wf ?v" by (simp add: json_wf_def btree_ok_def)
  have items: "compare_items cmp path ?v ?v = Some [jd (Change KType Changed) (sub_path path ''items'')]" for cmp path
    by (simp add: compare_items_def json_get_def is_object_def as_object_def)
  have "compare_array_constraints cmp path ?v ?v = Some [jd (Change KType Changed) (sub_path path ''items'')]" for cmp path
    by (simp add: compare_array_constraints_def items bound_self compare_additional_items_def
        compare_additional_schema_def is_false_def is_schema_opt_def json_get_def)
  moreover have "compare_properties X cmp path ?v ?v = Some []" "compare_dependencies cmp path ?v ?v = Some []"
      "compare_additional_properties cmp path ?v ?v = Some []" for cmp path
    by (simp_all add: compare_properties_def compare_dependencies_def compare_additional_properties_def
        compare_additional_schema_def props_def dependencies_of_def is_false_def is_schema_opt_def
        json_get_def unwrap_or_def)
  ultimately have "compare_keywords X cmp branch path ?v ?v = Some [jd (Change KType Changed) (sub_path path ''items'')]"
    for cmp branch path
    by (simp add: compare_keywords_def leaf_keywords_self combinators_self [OF wf] conditionals_self)
  then show ?thesis
    by (simp add: compare_with_refs_def compare_refs_def ref_str_def json_get_def sub_path_def
        json_compatible_changes_def)
qed

end
