(* ===== verification/Pb_Diff.thy ===== *)
theory Pb_Diff
  imports Pb_Descriptor Json_Value
begin

text \<open>
  The structural difference of two Protobuf files (\<^verbatim>\<open>format/protobuf/diff.rs\<close>) and its
  classification (\<^verbatim>\<open>format/protobuf/compat.rs\<close>). A list that the source fills through an
  \<open>out\<close> parameter is the value of the function here; \<open>BTreeSet\<close>s are sorted lists.
\<close>

datatype pb_kind =
    FieldAdded | FieldRemoved | FieldScalarKindChanged (compatible_group: bool) | FieldKindChanged
  | FieldNamedTypeChanged | FieldNumericLabelChanged | FieldStringOrBytesLabelChanged
  | RequiredFieldAdded | RequiredFieldRemoved | MessageRemoved | MessageAdded
  | OneofFieldMovedIn | OneofFieldMovedOut | OneofFieldAdded | OneofFieldRemoved | OneofAdded
  | OneofRemoved | ReservedNumberAdded | ReservedNameAdded | EnumConstAdded | EnumConstRemoved
  | EnumAdded | EnumRemoved | PackageChanged

record pb_difference =
  pd_kind :: pb_kind
  pd_path :: string

abbreviation pb_diff :: "pb_kind \<Rightarrow> string \<Rightarrow> pb_difference" where
  "pb_diff k p \<equiv> \<lparr>pd_kind = k, pd_path = p\<rparr>"

datatype field_kind = Scalar field_type | KEnum | KMessage

record resolver =
  orig_enums :: "string set"
  upd_enums :: "string set"
  orig_proto2 :: bool
  upd_proto2 :: bool

subsection \<open>Field kinds\<close>

text \<open>\<open>rsplit('.').next()\<close>: the last component of a dotted name.\<close>

definition leaf_name :: "string \<Rightarrow> string" where
  "leaf_name s = rev (takeWhile (\<lambda>c. c \<noteq> CHR ''.'') (rev s))"

definition field_kind_of :: "string set \<Rightarrow> field_descriptor \<Rightarrow> field_kind" where
  "field_kind_of enum_names f = (case ff_type_name f of
      Some tn \<Rightarrow> (if leaf_name tn \<in> enum_names then KEnum else KMessage)
    | None \<Rightarrow> Scalar (f_type f))"

definition orig_kind :: "resolver \<Rightarrow> field_descriptor \<Rightarrow> field_kind" where
  "orig_kind r f = field_kind_of (orig_enums r) f"

definition upd_kind :: "resolver \<Rightarrow> field_descriptor \<Rightarrow> field_kind" where
  "upd_kind r f = field_kind_of (upd_enums r) f"

definition dp_name_str :: "descriptor \<Rightarrow> string" where
  "dp_name_str m = unwrap_or (dp_name m) []"

definition en_name_str :: "enum_descriptor \<Rightarrow> string" where
  "en_name_str e = unwrap_or (en_name e) []"

fun collect_enum_names_in_message :: "descriptor \<Rightarrow> string set" where
  "collect_enum_names_in_message (Descriptor n fs nested enums oneofs ranges names me) =
     en_name_str ` set enums \<union> (\<Union>m\<in>set nested. collect_enum_names_in_message m)"

definition collect_enum_names :: "file_descriptor \<Rightarrow> string set" where
  "collect_enum_names file = en_name_str ` set (fd_enum file)
     \<union> (\<Union>m\<in>set (fd_message file). collect_enum_names_in_message m)"

definition real_oneof :: "field_descriptor \<Rightarrow> bool" where
  "real_oneof f \<longleftrightarrow> ff_oneof_index f \<noteq> None \<and> ff_proto3_optional f \<noteq> Some True"

definition explicit_label :: "field_descriptor \<Rightarrow> bool \<Rightarrow> bool" where
  "explicit_label field proto2 \<longleftrightarrow>
     proto2 \<or> ff_proto3_optional field = Some True \<or> f_label field = LRepeated"

text \<open>The wire group of a kind; a message has none.\<close>

fun kind_group :: "field_kind \<Rightarrow> nat option" where
  "kind_group KEnum = Some 1"
| "kind_group KMessage = None"
| "kind_group (Scalar t) = (case t of
      TInt32 \<Rightarrow> Some 1 | TInt64 \<Rightarrow> Some 1 | TUint32 \<Rightarrow> Some 1 | TUint64 \<Rightarrow> Some 1 | TBool \<Rightarrow> Some 1
    | TSint32 \<Rightarrow> Some 2 | TSint64 \<Rightarrow> Some 2
    | TString \<Rightarrow> Some 3 | TBytes \<Rightarrow> Some 3
    | TFixed32 \<Rightarrow> Some 4 | TSfixed32 \<Rightarrow> Some 4
    | TFixed64 \<Rightarrow> Some 5 | TSfixed64 \<Rightarrow> Some 5
    | TFloat \<Rightarrow> Some 6
    | TDouble \<Rightarrow> Some 7
    | TGroup \<Rightarrow> None | TMessage \<Rightarrow> None | TEnum \<Rightarrow> None)"

definition join_path :: "string \<Rightarrow> string \<Rightarrow> string" where
  "join_path prefix name = (if prefix = [] then name else prefix @ ''.'' @ name)"

definition number_path :: "string \<Rightarrow> i32 \<Rightarrow> string" where
  "number_path path num = path @ ''.#'' @ show_int num"

subsection \<open>Fields\<close>

definition compare_field_types :: "string \<Rightarrow> field_kind \<Rightarrow> field_kind \<Rightarrow> string option \<Rightarrow> string option
    \<Rightarrow> pb_difference list" where
  "compare_field_types path ok uk o_type_name u_type_name =
     (if ok = uk
      then (if (ok = KMessage \<or> ok = KEnum) \<and> o_type_name \<noteq> u_type_name
            then [pb_diff FieldNamedTypeChanged path] else [])
      else case (kind_group ok, kind_group uk) of
             (Some go, Some gu) \<Rightarrow> [pb_diff (FieldScalarKindChanged (go = gu)) path]
           | _ \<Rightarrow> [pb_diff FieldKindChanged path])"

definition moved_existing_member_count :: "descriptor \<Rightarrow> descriptor \<Rightarrow> field_descriptor \<Rightarrow> nat" where
  "moved_existing_member_count orig upd field = (case ff_oneof_index field of
      None \<Rightarrow> 0
    | Some idx \<Rightarrow> length (filter (\<lambda>f. list_ex (\<lambda>old. ff_number old = ff_number f \<and> \<not> real_oneof old) (dp_field orig))
        (filter (\<lambda>f. ff_oneof_index f = Some idx \<and> ff_proto3_optional f \<noteq> Some True) (dp_field upd))))"

definition oneof_has_surviving_plain_member :: "descriptor \<Rightarrow> descriptor \<Rightarrow> field_descriptor \<Rightarrow> bool" where
  "oneof_has_surviving_plain_member orig upd field = (case ff_oneof_index field of
      None \<Rightarrow> False
    | Some index \<Rightarrow> list_ex (\<lambda>member. ff_oneof_index member = Some index \<and>
        list_ex (\<lambda>candidate. ff_number candidate = ff_number member \<and> \<not> real_oneof candidate) (dp_field upd))
        (dp_field orig))"

definition compare_oneof_membership :: "string \<Rightarrow> field_descriptor \<Rightarrow> field_descriptor \<Rightarrow> descriptor
    \<Rightarrow> descriptor \<Rightarrow> pb_difference list" where
  "compare_oneof_membership path fo uf orig_msg upd_msg =
     (if \<not> real_oneof fo \<and> real_oneof uf
      then (if moved_existing_member_count orig_msg upd_msg uf \<ge> 2 then [pb_diff OneofFieldMovedIn path] else [])
      else if real_oneof fo \<and> \<not> real_oneof uf then [pb_diff OneofFieldMovedOut path]
      else [])"

definition compare_label :: "string \<Rightarrow> field_descriptor \<Rightarrow> field_descriptor \<Rightarrow> resolver \<Rightarrow> pb_difference list" where
  "compare_label path fo uf r =
     (if f_label fo \<noteq> f_label uf \<and> explicit_label fo (orig_proto2 r) \<and> explicit_label uf (upd_proto2 r)
         \<and> orig_kind r fo = upd_kind r uf
      then [pb_diff (if orig_kind r fo \<in> {Scalar TString, Scalar TBytes}
                     then FieldStringOrBytesLabelChanged else FieldNumericLabelChanged) path]
      else [])"

definition compare_field :: "string \<Rightarrow> field_descriptor \<Rightarrow> field_descriptor \<Rightarrow> descriptor \<Rightarrow> descriptor
    \<Rightarrow> resolver \<Rightarrow> pb_difference list" where
  "compare_field path fo uf orig_msg upd_msg r =
     compare_oneof_membership path fo uf orig_msg upd_msg
     @ compare_label path fo uf r
     @ compare_field_types path (orig_kind r fo) (upd_kind r uf) (ff_type_name fo) (ff_type_name uf)"

definition find_map_entry :: "descriptor \<Rightarrow> field_descriptor \<Rightarrow> descriptor option" where
  "find_map_entry containing field =
     (if f_type field \<noteq> TMessage then None
      else Option.bind (ff_type_name field) (\<lambda>type_name.
        find (\<lambda>nt. dp_name nt = Some (leaf_name type_name) \<and> dp_map_entry nt = Some True) (dp_nested containing)))"

definition field_table :: "descriptor \<Rightarrow> (i32, field_descriptor) btree_map" where
  "field_table m = btree_of_list (map (\<lambda>f. (f_number f, f)) (dp_field m))"

definition compare_map_entries :: "string \<Rightarrow> descriptor \<Rightarrow> descriptor \<Rightarrow> resolver \<Rightarrow> pb_difference list" where
  "compare_map_entries path orig_entry upd_entry r =
     concat (map (\<lambda>num.
       case (map_of (field_table orig_entry) num, map_of (field_table upd_entry) num) of
         (Some fo, Some uf) \<Rightarrow>
           compare_field_types (path @ ''.'' @ (if num = 1 then ''key'' else ''value''))
             (orig_kind r fo) (upd_kind r uf) (ff_type_name fo) (ff_type_name uf)
       | _ \<Rightarrow> []) [1, 2])"

definition removed_field_kind :: "descriptor \<Rightarrow> descriptor \<Rightarrow> field_descriptor \<Rightarrow> pb_kind" where
  "removed_field_kind orig upd fo =
     (if real_oneof fo \<and> \<not> oneof_has_surviving_plain_member orig upd fo then OneofFieldRemoved
      else if f_label fo = LRequired then RequiredFieldRemoved
      else FieldRemoved)"

definition added_field_kind :: "field_descriptor \<Rightarrow> pb_kind" where
  "added_field_kind field =
     (if real_oneof field then OneofFieldAdded
      else if f_label field = LRequired then RequiredFieldAdded
      else FieldAdded)"

definition compare_common_field :: "string \<Rightarrow> field_descriptor \<Rightarrow> field_descriptor \<Rightarrow> descriptor
    \<Rightarrow> descriptor \<Rightarrow> resolver \<Rightarrow> pb_difference list" where
  "compare_common_field fpath fo uf orig upd r =
     (case (find_map_entry orig fo, find_map_entry upd uf) of
        (Some oe, Some ue) \<Rightarrow> compare_map_entries fpath oe ue r
      | _ \<Rightarrow> compare_field fpath fo uf orig upd r)"

definition compare_fields :: "string \<Rightarrow> descriptor \<Rightarrow> descriptor \<Rightarrow> resolver \<Rightarrow> pb_difference list" where
  "compare_fields path orig upd r =
     concat (map (\<lambda>(num, fo). case map_of (field_table upd) num of
         None \<Rightarrow> [pb_diff (removed_field_kind orig upd fo) (number_path path num)]
       | Some uf \<Rightarrow> compare_common_field (number_path path num) fo uf orig upd r) (field_table orig))
     @ concat (map (\<lambda>(num, field). if map_of (field_table orig) num = None
         then [pb_diff (added_field_kind field) (number_path path num)] else []) (field_table upd))"

subsection \<open>Oneofs, reserved entries and enums\<close>

definition btree_set :: "('a::linorder) list \<Rightarrow> 'a list" where
  "btree_set xs = sort (remdups xs)"

definition compare_oneofs :: "string \<Rightarrow> string option list \<Rightarrow> string option list \<Rightarrow> pb_difference list" where
  "compare_oneofs prefix orig upd =
     (let orig_names = btree_set (map (\<lambda>n. unwrap_or n []) orig);
          upd_names = btree_set (map (\<lambda>n. unwrap_or n []) upd)
      in map (\<lambda>n. pb_diff OneofRemoved (join_path prefix n)) (filter (\<lambda>n. n \<notin> set upd_names) orig_names)
         @ map (\<lambda>n. pb_diff OneofAdded (join_path prefix n)) (filter (\<lambda>n. n \<notin> set orig_names) upd_names))"

definition real_oneof_decls :: "descriptor \<Rightarrow> string option list" where
  "real_oneof_decls m =
     filter (\<lambda>n. \<not> (case unwrap_or n [] of c # _ \<Rightarrow> c = CHR ''_'' | [] \<Rightarrow> False)) (dp_oneof m)"

definition reserved_numbers :: "reserved_range list \<Rightarrow> i32 list" where
  "reserved_numbers ranges =
     btree_set (concat (map (\<lambda>rg. [unwrap_or (rr_start rg) 0 .. unwrap_or (rr_end rg) 0 - 1]) ranges))"

definition compare_reserved :: "string \<Rightarrow> reserved_range list \<Rightarrow> reserved_range list \<Rightarrow> pb_difference list" where
  "compare_reserved path orig upd =
     map (\<lambda>num. pb_diff ReservedNumberAdded (path @ ''.reserved#'' @ show_int num))
       (filter (\<lambda>num. num \<notin> set (reserved_numbers orig)) (reserved_numbers upd))"

definition compare_reserved_names :: "string \<Rightarrow> string list \<Rightarrow> string list \<Rightarrow> pb_difference list" where
  "compare_reserved_names path orig upd =
     map (\<lambda>name. pb_diff ReservedNameAdded (path @ ''.reserved_name#'' @ name))
       (filter (\<lambda>name. name \<notin> set (btree_set orig)) (btree_set upd))"

definition enum_table :: "enum_descriptor \<Rightarrow> (i32, string) btree_map" where
  "enum_table e = btree_of_list (map (\<lambda>v. (unwrap_or (ev_number v) 0, unwrap_or (ev_name v) [])) (en_value e))"

definition compare_enum_values :: "string \<Rightarrow> enum_descriptor \<Rightarrow> enum_descriptor \<Rightarrow> pb_difference list" where
  "compare_enum_values path orig upd =
     (let orig_vals = enum_table orig; upd_vals = enum_table upd
      in map (\<lambda>num. pb_diff EnumConstRemoved (number_path path num))
           (filter (\<lambda>num. map_of upd_vals num = None) (btree_keys orig_vals))
         @ map (\<lambda>num. pb_diff EnumConstAdded (number_path path num))
           (filter (\<lambda>num. map_of orig_vals num = None) (btree_keys upd_vals)))"

definition compare_enums :: "string \<Rightarrow> enum_descriptor list \<Rightarrow> enum_descriptor list \<Rightarrow> pb_difference list" where
  "compare_enums prefix orig upd =
     (let orig_by = btree_of_list (map (\<lambda>e. (en_name_str e, e)) orig);
          upd_by = btree_of_list (map (\<lambda>e. (en_name_str e, e)) upd)
      in concat (map (\<lambda>(name, oe). case map_of upd_by name of
             None \<Rightarrow> [pb_diff EnumRemoved (join_path prefix name)]
           | Some ue \<Rightarrow> compare_enum_values (join_path prefix name) oe ue) orig_by)
         @ map (\<lambda>name. pb_diff EnumAdded (join_path prefix name))
           (filter (\<lambda>name. map_of orig_by name = None) (btree_keys upd_by)))"

subsection \<open>Messages\<close>

definition message_table :: "descriptor list \<Rightarrow> (string, descriptor) btree_map" where
  "message_table ms = btree_of_list (map (\<lambda>m. (dp_name_str m, m)) ms)"

text \<open>\<open>compare_messages\<close>, with the comparison of two messages of the same name passed in.\<close>

definition compare_messages_with :: "(string \<Rightarrow> descriptor \<Rightarrow> descriptor \<Rightarrow> pb_difference list) \<Rightarrow> string
    \<Rightarrow> descriptor list \<Rightarrow> descriptor list \<Rightarrow> pb_difference list" where
  "compare_messages_with compare_one prefix orig upd =
     concat (map (\<lambda>(name, om). case map_of (message_table upd) name of
         None \<Rightarrow> [pb_diff MessageRemoved (join_path prefix name)]
       | Some um \<Rightarrow> compare_one (join_path prefix name) om um) (message_table orig))
     @ map (\<lambda>name. pb_diff MessageAdded (join_path prefix name))
         (filter (\<lambda>name. map_of (message_table orig) name = None) (btree_keys (message_table upd)))"

lemma message_table_in: "(name, m) \<in> set (message_table ms) \<Longrightarrow> m \<in> set ms"
  using set_btree_of_list [of "map (\<lambda>m. (dp_name_str m, m)) ms"] by (auto simp: message_table_def)

lemma compare_messages_with_cong [fundef_cong]:
  assumes "prefix = prefix'" "orig = orig'" "upd = upd'"
    and "\<And>p om um. om \<in> set orig' \<Longrightarrow> f p om um = g p om um"
  shows "compare_messages_with f prefix orig upd = compare_messages_with g prefix' orig' upd'"
  unfolding compare_messages_with_def assms(1-3)
  by (rule arg_cong2 [where f = "(@)"], rule arg_cong [where f = concat], rule map_cong [OF refl])
    (auto simp: assms(4) message_table_in split: option.splits)

definition plain_nested :: "descriptor \<Rightarrow> descriptor list" where
  "plain_nested m = filter (\<lambda>nt. dp_map_entry nt \<noteq> Some True) (dp_nested m)"

lemma plain_nested_size: "n \<in> set (plain_nested m) \<Longrightarrow> size n < size m"
  by (cases m) (auto simp: plain_nested_def dest: size_list_estimation' [where f = size, OF _ order_refl])

function compare_message :: "resolver \<Rightarrow> string \<Rightarrow> descriptor \<Rightarrow> descriptor \<Rightarrow> pb_difference list" where
  "compare_message r path orig upd =
     compare_fields path orig upd r
     @ compare_oneofs path (real_oneof_decls orig) (real_oneof_decls upd)
     @ compare_reserved path (dp_reserved_range orig) (dp_reserved_range upd)
     @ compare_reserved_names path (dp_reserved_name orig) (dp_reserved_name upd)
     @ compare_messages_with (\<lambda>p om um. compare_message r p om um) path (plain_nested orig) (plain_nested upd)
     @ compare_enums path (dp_enum orig) (dp_enum upd)"
  by pat_completeness auto
termination
  by (relation "measure (\<lambda>(r, path, orig, upd). size orig)") (auto simp: plain_nested_size)

declare compare_message.simps [simp del]

definition compare_messages :: "string \<Rightarrow> descriptor list \<Rightarrow> descriptor list \<Rightarrow> resolver \<Rightarrow> pb_difference list" where
  "compare_messages prefix orig upd r = compare_messages_with (compare_message r) prefix orig upd"

definition file_resolver :: "file_descriptor \<Rightarrow> file_descriptor \<Rightarrow> resolver" where
  "file_resolver original update = \<lparr>orig_enums = collect_enum_names original,
     upd_enums = collect_enum_names update, orig_proto2 = (fd_syntax original \<noteq> Some ''proto3''),
     upd_proto2 = (fd_syntax update \<noteq> Some ''proto3'')\<rparr>"

definition compare :: "file_descriptor \<Rightarrow> file_descriptor \<Rightarrow> pb_difference list" where
  "compare original update =
     (if fd_package original \<noteq> fd_package update then [pb_diff PackageChanged ''package''] else [])
     @ compare_messages [] (fd_message original) (fd_message update) (file_resolver original update)
     @ compare_enums [] (fd_enum original) (fd_enum update)"

subsection \<open>Classification\<close>

fun is_backward_compatible :: "pb_kind \<Rightarrow> bool" where
  "is_backward_compatible (FieldScalarKindChanged g) = g"
| "is_backward_compatible FieldKindChanged = False"
| "is_backward_compatible FieldNamedTypeChanged = False"
| "is_backward_compatible FieldNumericLabelChanged = False"
| "is_backward_compatible RequiredFieldAdded = False"
| "is_backward_compatible RequiredFieldRemoved = False"
| "is_backward_compatible OneofFieldRemoved = False"
| "is_backward_compatible OneofFieldMovedIn = False"
| "is_backward_compatible MessageRemoved = False"
| "is_backward_compatible _ = True"

text \<open>The \<open>Debug\<close> rendering of a kind.\<close>

fun kind_debug :: "pb_kind \<Rightarrow> string" where
  "kind_debug FieldAdded = ''FieldAdded''"
| "kind_debug FieldRemoved = ''FieldRemoved''"
| "kind_debug (FieldScalarKindChanged g) = ''FieldScalarKindChanged { compatible_group: ''
     @ (if g then ''true'' else ''false'') @ '' }''"
| "kind_debug FieldKindChanged = ''FieldKindChanged''"
| "kind_debug FieldNamedTypeChanged = ''FieldNamedTypeChanged''"
| "kind_debug FieldNumericLabelChanged = ''FieldNumericLabelChanged''"
| "kind_debug FieldStringOrBytesLabelChanged = ''FieldStringOrBytesLabelChanged''"
| "kind_debug RequiredFieldAdded = ''RequiredFieldAdded''"
| "kind_debug RequiredFieldRemoved = ''RequiredFieldRemoved''"
| "kind_debug MessageRemoved = ''MessageRemoved''"
| "kind_debug MessageAdded = ''MessageAdded''"
| "kind_debug OneofFieldMovedIn = ''OneofFieldMovedIn''"
| "kind_debug OneofFieldMovedOut = ''OneofFieldMovedOut''"
| "kind_debug OneofFieldAdded = ''OneofFieldAdded''"
| "kind_debug OneofFieldRemoved = ''OneofFieldRemoved''"
| "kind_debug OneofAdded = ''OneofAdded''"
| "kind_debug OneofRemoved = ''OneofRemoved''"
| "kind_debug ReservedNumberAdded = ''ReservedNumberAdded''"
| "kind_debug ReservedNameAdded = ''ReservedNameAdded''"
| "kind_debug EnumConstAdded = ''EnumConstAdded''"
| "kind_debug EnumConstRemoved = ''EnumConstRemoved''"
| "kind_debug EnumAdded = ''EnumAdded''"
| "kind_debug EnumRemoved = ''EnumRemoved''"
| "kind_debug PackageChanged = ''PackageChanged''"

definition pb_messages :: "pb_difference list \<Rightarrow> string list" where
  "pb_messages diffs = map (\<lambda>d. kind_debug (pd_kind d) @ '' at '' @ pd_path d) diffs"

end
