(* ===== verification/Pb_Diff_Props.thy ===== *)
theory Pb_Diff_Props
  imports Pb_Diff
begin

text \<open>
  Properties of the Protobuf difference: a file does not differ from itself, and when no
  incompatible difference is found every field that survives keeps its wire representation.
\<close>

subsection \<open>A file does not differ from itself\<close>

lemma table_self:
  "(k, v) \<in> set (btree_of_list ps) \<Longrightarrow> map_of (btree_of_list ps) k = Some v"
  by (simp add: btree_in_iff btree_ok_of_list)

lemma tables_self:
  "(k, f) \<in> set (field_table m) \<Longrightarrow> map_of (field_table m) k = Some f"
  "(k, n) \<in> set (enum_table e) \<Longrightarrow> map_of (enum_table e) k = Some n"
  "(q, d) \<in> set (message_table ms) \<Longrightarrow> map_of (message_table ms) q = Some d"
  by (simp_all add: field_table_def enum_table_def message_table_def table_self)

lemma concat_map_Nil: "(\<And>x. x \<in> set xs \<Longrightarrow> f x = []) \<Longrightarrow> concat (map f xs) = []"
  by (induction xs) auto

definition same_sides :: "resolver \<Rightarrow> bool" where
  "same_sides r \<longleftrightarrow> orig_enums r = upd_enums r"

lemma compare_field_types_self: "compare_field_types p k k n n = []"
  by (simp add: compare_field_types_def)

lemma compare_common_field_self:
  "same_sides r \<Longrightarrow> compare_common_field p f f m m r = []"
  by (auto simp: compare_common_field_def compare_map_entries_def compare_field_def
      compare_oneof_membership_def compare_label_def compare_field_types_self orig_kind_def upd_kind_def
      same_sides_def split: option.splits)

lemma compare_fields_self: "same_sides r \<Longrightarrow> compare_fields p m m r = []"
  by (auto simp: compare_fields_def compare_common_field_self intro!: concat_map_Nil
      dest!: tables_self split: option.splits)

lemma compare_enums_self: "compare_enums p es es = []"
  by (auto simp: compare_enums_def compare_enum_values_def Let_def btree_keys_def filter_empty_conv
      intro!: concat_map_Nil dest!: table_self tables_self split: option.splits)

lemma compare_messages_with_self:
  assumes "\<And>q m. m \<in> set ms \<Longrightarrow> f q m m = []"
  shows "compare_messages_with f p ms ms = []"
proof -
  have "map_of (message_table ms) q = Some d \<and> f (join_path p q) d d = []" if "(q, d) \<in> set (message_table ms)" for q d
    using tables_self(3) [OF that] message_table_in [OF that] assms by simp
  then show ?thesis
    by (force simp: compare_messages_with_def btree_keys_def filter_empty_conv intro!: concat_map_Nil)
qed

lemma compare_message_self:
  assumes "same_sides r"
  shows "compare_message r p m m = []"
proof (induction m arbitrary: p rule: measure_induct_rule [of size])
  case (less m)
  have "compare_messages_with (compare_message r) p (plain_nested m) (plain_nested m) = []"
    by (rule compare_messages_with_self) (simp add: less plain_nested_size)
  then show ?case
    using assms
    by (subst compare_message.simps)
      (simp add: compare_fields_self compare_enums_self compare_oneofs_def compare_reserved_def
        compare_reserved_names_def Let_def filter_empty_conv)
qed

lemma compare_self: "compare d d = []"
  by (simp add: compare_def compare_messages_def compare_enums_self compare_messages_with_self
      compare_message_self same_sides_def file_resolver_def)

subsection \<open>Surviving fields\<close>

text \<open>The pairs of messages that the comparison matches: those with the same name on both sides,
  at the top level or nested in a matched pair.\<close>

inductive matched :: "file_descriptor \<Rightarrow> file_descriptor \<Rightarrow> descriptor \<Rightarrow> descriptor \<Rightarrow> bool"
  for original :: file_descriptor and update :: file_descriptor where
  top: "map_of (message_table (fd_message original)) name = Some om \<Longrightarrow>
    map_of (message_table (fd_message update)) name = Some um \<Longrightarrow> matched original update om um"
| nested: "matched original update om um \<Longrightarrow>
    map_of (message_table (plain_nested om)) name = Some on \<Longrightarrow>
    map_of (message_table (plain_nested um)) name = Some un \<Longrightarrow> matched original update on un"

lemma compare_messages_with_matched:
  assumes "map_of (message_table orig) name = Some om" "map_of (message_table upd) name = Some um"
  shows "set (f (join_path p name) om um) \<subseteq> set (compare_messages_with f p orig upd)"
proof -
  have "(name, om) \<in> set (message_table orig)" using assms(1) by (rule map_of_SomeD)
  then show ?thesis using assms(2) by (force simp: compare_messages_with_def)
qed

lemma matched_differences:
  assumes "matched original update om um"
  shows "\<exists>path. set (compare_message (file_resolver original update) path om um) \<subseteq> set (compare original update)"
  using assms
proof (induction rule: matched.induct)
  case (top name om um)
  from compare_messages_with_matched [OF top] show ?case
    unfolding compare_def compare_messages_def by fastforce
next
  case (nested om um name on un)
  then obtain path where "set (compare_message (file_resolver original update) path om um) \<subseteq> set (compare original update)"
    by blast
  moreover have "set (compare_message (file_resolver original update) (join_path path name) on un)
      \<subseteq> set (compare_message (file_resolver original update) path om um)"
    using compare_messages_with_matched [OF nested(2,3), of "compare_message (file_resolver original update)" path]
    by (subst (2) compare_message.simps) auto
  ultimately show ?case by blast
qed

lemma matched_fields:
  assumes "matched original update om um"
    and "map_of (field_table om) num = Some fo" "map_of (field_table um) num = Some uf"
  shows "\<exists>path. set (compare_common_field path fo uf om um (file_resolver original update)) \<subseteq> set (compare original update)"
proof -
  obtain path where "set (compare_message (file_resolver original update) path om um) \<subseteq> set (compare original update)"
    using matched_differences [OF assms(1)] by blast
  moreover have "set (compare_common_field (number_path path num) fo uf om um (file_resolver original update))
      \<subseteq> set (compare_message (file_resolver original update) path om um)"
    using map_of_SomeD [OF assms(2)] assms(3)
    by (subst compare_message.simps) (force simp: compare_fields_def)
  ultimately show ?thesis by blast
qed

definition compatible_diffs :: "pb_difference list \<Rightarrow> bool" where
  "compatible_diffs ds \<longleftrightarrow> list_all (\<lambda>d. is_backward_compatible (pd_kind d)) ds"

lemma compatible_types:
  "compatible_diffs (compare_field_types p k k' n n') \<Longrightarrow>
    (k = k' \<and> (k = KMessage \<or> k = KEnum \<longrightarrow> n = n')) \<or> (\<exists>g. kind_group k = Some g \<and> kind_group k' = Some g)"
  by (auto simp: compatible_diffs_def compare_field_types_def split: if_splits option.splits)

text \<open>When the Protobuf comparison finds no incompatible difference, every field number that a
  message carries on both sides (and that is not a map on both) keeps its wire representation:
  either the kinds agree, with the same referenced type, or both belong to the same wire group.\<close>

theorem compatible_keeps_wire_group:
  assumes "compatible_diffs (compare original update)" "matched original update om um"
    and "map_of (field_table om) num = Some fo" "map_of (field_table um) num = Some uf"
    and "find_map_entry om fo = None \<or> find_map_entry um uf = None"
  defines "k \<equiv> orig_kind (file_resolver original update) fo"
    and "k' \<equiv> upd_kind (file_resolver original update) uf"
  shows "(k = k' \<and> (k = KMessage \<or> k = KEnum \<longrightarrow> ff_type_name fo = ff_type_name uf)) \<or>
    (\<exists>g. kind_group k = Some g \<and> kind_group k' = Some g)"
proof -
  obtain path where "set (compare_common_field path fo uf om um (file_resolver original update)) \<subseteq> set (compare original update)"
    using matched_fields [OF assms(2-4)] by blast
  then have "compatible_diffs (compare_common_field path fo uf om um (file_resolver original update))"
    using assms(1) by (auto simp: compatible_diffs_def list_all_iff)
  then have "compatible_diffs (compare_field_types path k k' (ff_type_name fo) (ff_type_name uf))"
    using assms(5) by (auto simp: compare_common_field_def compare_field_def compatible_diffs_def k_def k'_def
        split: option.splits)
  then show ?thesis by (rule compatible_types)
qed

text \<open>A file with one message of one scalar field.\<close>

definition scalar_field :: "field_type \<Rightarrow> field_descriptor" where
  "scalar_field t = \<lparr>ff_name = Some ''f'', ff_number = Some 1, ff_label = Some LOptional, ff_type = Some t,
     ff_type_name = None, ff_oneof_index = None, ff_proto3_optional = None, ff_other = []\<rparr>"

definition scalar_message :: "field_type \<Rightarrow> descriptor" where
  "scalar_message t = Descriptor (Some ''M'') [scalar_field t] [] [] [] [] [] None"

definition scalar_file :: "field_type \<Rightarrow> file_descriptor" where
  "scalar_file t = \<lparr>fd_name = None, fd_package = None, fd_dependency = [], fd_message = [scalar_message t],
     fd_enum = [], fd_service = [], fd_syntax = Some ''proto3'', fd_source_info = None, fd_other = []\<rparr>"

lemma scalar_tables:
  "message_table [scalar_message t] = [(''M'', scalar_message t)]"
  "field_table (scalar_message t) = [(1, scalar_field t)]"
  "plain_nested (scalar_message t) = []"
  by (simp_all add: message_table_def field_table_def btree_of_list_def dp_name_str_def scalar_message_def
      scalar_field_def f_number_def plain_nested_def)

lemma show_int_one: "show_int 1 = ''1''"
  by code_simp

lemma compare_scalar_files:
  "compare (scalar_file t) (scalar_file u) =
     compare_field_types ''M.#1'' (Scalar t) (Scalar u) None None"
proof -
  have "compare_message r p (scalar_message t) (scalar_message u) =
      compare_field_types (p @ ''.#1'') (Scalar t) (Scalar u) None None" for r p
    by (subst compare_message.simps)
      (simp add: compare_fields_def field_table_def f_number_def plain_nested_def compare_messages_with_def message_table_def btree_of_list_def
        btree_keys_def compare_oneofs_def real_oneof_decls_def btree_set_def compare_reserved_def reserved_numbers_def
        compare_reserved_names_def compare_enums_def compare_common_field_def find_map_entry_def compare_field_def
        compare_oneof_membership_def real_oneof_def compare_label_def orig_kind_def upd_kind_def field_kind_of_def
        scalar_message_def scalar_field_def f_label_def f_type_def number_path_def show_int_one
        split: option.splits)
  then show ?thesis
    by (simp add: compare_def compare_messages_def compare_messages_with_def scalar_file_def scalar_tables
        btree_keys_def compare_enums_def btree_of_list_def join_path_def)
qed

theorem compatible_keeps_wire_group_witness:
  "\<exists>g. kind_group (Scalar TInt32) = Some g \<and> kind_group (Scalar TInt64) = Some g"
proof -
  have m: "matched (scalar_file TInt32) (scalar_file TInt64) (scalar_message TInt32) (scalar_message TInt64)"
    by (rule matched.top [of _ "''M''"]) (simp_all add: scalar_file_def scalar_tables)
  have c: "compatible_diffs (compare (scalar_file TInt32) (scalar_file TInt64))"
    by (simp add: compare_scalar_files compare_field_types_def compatible_diffs_def)
  have "orig_kind r (scalar_field t) = Scalar t" "upd_kind r (scalar_field t) = Scalar t" for r t
    by (simp_all add: orig_kind_def upd_kind_def field_kind_of_def scalar_field_def f_type_def)
  then show ?thesis
    using compatible_keeps_wire_group [OF c m, of 1 "scalar_field TInt32" "scalar_field TInt64"]
    by (simp add: scalar_tables find_map_entry_def scalar_field_def f_type_def)
qed

end
