(* ===== verification/Compat.thy ===== *)
theory Compat
  imports Store Pb_Diff Json_Diff
begin

text \<open>
  Compatibility: the directional check of each format (\<open>check\<close> in \<^verbatim>\<open>format/avro.rs\<close>,
  \<^verbatim>\<open>format/json/mod.rs\<close>, \<^verbatim>\<open>format/protobuf/mod.rs\<close> and \<^verbatim>\<open>format/mod.rs\<close>) and the
  engine that picks the level, the versions and the directions (\<^verbatim>\<open>compat/mod.rs\<close>). A result is
  \<open>None\<close> when the JSON comparison exceeds the recursion depth \<open>n\<close> the stack allows, which aborts
  the process.
\<close>

subsection \<open>Avro\<close>

fun erase_logical_types :: "json \<Rightarrow> json" where
  "erase_logical_types (JObj kvs) =
     (let erased = map (\<lambda>p. (fst p, erase_logical_types (snd p))) kvs
      in JObj (if map_of kvs ''logicalType'' \<noteq> None
           then btree_remove ''scale'' (btree_remove ''precision'' (btree_remove ''logicalType'' erased))
           else erased))"
| "erase_logical_types (JArr vs) = JArr (map erase_logical_types vs)"
| "erase_logical_types v = v"

definition member_str :: "(string \<times> json) list \<Rightarrow> string \<Rightarrow> string option" where
  "member_str kvs k = Option.bind (map_of kvs k) as_str"

definition member_array :: "(string \<times> json) list \<Rightarrow> string \<Rightarrow> json list option" where
  "member_array kvs k = Option.bind (map_of kvs k) as_array"

text \<open>A writer known to the reader under an alias takes the reader's name.\<close>

definition rename_alias :: "(string \<times> json) list \<Rightarrow> (string \<times> json) list \<Rightarrow> (string \<times> json) list" where
  "rename_alias reader writer = (case (member_str reader ''name'', member_str writer ''name'') of
      (Some rn, Some wn) \<Rightarrow>
        (if rn \<noteq> wn \<and> (case member_array reader ''aliases'' of
              None \<Rightarrow> False | Some aliases \<Rightarrow> \<exists>a\<in>set aliases. as_str a = Some wn)
         then btree_insert ''name'' (JStr rn) writer else writer)
    | _ \<Rightarrow> writer)"

text \<open>A reader enum with a default among its symbols also takes the writer's symbols.\<close>

definition push_new :: "json list \<Rightarrow> json \<Rightarrow> json list" where
  "push_new symbols symbol = (if \<exists>s\<in>set symbols. json_eq s symbol then symbols else symbols @ [symbol])"

definition merge_symbols :: "(string \<times> json) list \<Rightarrow> (string \<times> json) list \<Rightarrow> (string \<times> json) list" where
  "merge_symbols reader writer =
     (if member_str reader ''type'' = Some ''enum'' \<and> member_str writer ''type'' = Some ''enum''
      then (case (member_str reader ''default'', member_array writer ''symbols'', member_array reader ''symbols'') of
              (Some dflt, Some ws, Some rs) \<Rightarrow>
                (if \<exists>s\<in>set rs. as_str s = Some dflt
                 then btree_insert ''symbols'' (JArr (foldl push_new rs ws)) reader else reader)
            | _ \<Rightarrow> reader)
      else reader)"

fun set_member :: "string \<Rightarrow> json \<Rightarrow> json \<Rightarrow> json" where
  "set_member k x (JObj kvs) = JObj (btree_insert k x kvs)"
| "set_member k x v = v"

definition field_name :: "json \<Rightarrow> string option" where
  "field_name field = Option.bind (json_get field ''name'') as_str"

text \<open>The position of the first writer field with a name.\<close>

definition field_index :: "string \<Rightarrow> json list \<Rightarrow> nat option" where
  "field_index name fs = find (\<lambda>i. field_name (fs ! i) = Some name) [0..<length fs]"

lemma size_json_get: "json_get v k = Some x \<Longrightarrow> size x < size v"
proof -
  assume "json_get v k = Some x"
  then obtain kvs where v: "v = JObj kvs" "(k, x) \<in> set kvs"
    by (auto simp: json_get_def split: json.splits dest: map_of_SomeD)
  then show ?thesis using size_list_estimation' [of "(k, x)" kvs "size x" "size_prod (\<lambda>_. 0) size"] by simp
qed

lemma size_member_array: "member_array kvs k = Some xs \<Longrightarrow> size_list size xs < size (JObj kvs)"
proof -
  assume "member_array kvs k = Some xs"
  then obtain v where "map_of kvs k = Some v" "as_array v = Some xs"
    by (auto simp: member_array_def bind_eq_Some_conv)
  then have "json_get (JObj kvs) k = Some (JArr xs)" by (cases v) (auto simp: json_get_def as_array_def)
  then show ?thesis using size_json_get by fastforce
qed

text \<open>\<open>apply_reader_rules\<close>, which changes both documents in place; \<open>apply_list\<close> is its walk over two
  lists and \<open>apply_fields\<close> its loop over the fields of the reader. The name and the symbols that
  it sets before are not fields, so the fields are read from the objects as they came.\<close>

function (sequential)
  apply_reader_rules :: "json \<Rightarrow> json \<Rightarrow> json \<times> json" and
  apply_list :: "json list \<Rightarrow> json list \<Rightarrow> json list \<times> json list" and
  apply_fields :: "json list \<Rightarrow> json list \<Rightarrow> json list \<times> json list" where
  "apply_reader_rules (JObj ro) (JObj wo) =
     (let wo1 = rename_alias ro wo; ro1 = merge_symbols ro wo1
      in case (member_array ro ''fields'', member_array wo ''fields'') of
           (Some rf, Some wfs) \<Rightarrow>
             (let both = apply_fields rf wfs
              in (JObj (btree_insert ''fields'' (JArr (fst both)) ro1),
                  JObj (btree_insert ''fields'' (JArr (snd both)) wo1)))
         | _ \<Rightarrow> (JObj ro1, JObj wo1))"
| "apply_reader_rules (JArr rs) (JArr ws) =
     (let both = apply_list rs ws in (JArr (fst both), JArr (snd both)))"
| "apply_reader_rules r w = (r, w)"
| "apply_list (r # rs) (w # ws) =
     (let one = apply_reader_rules r w; rest = apply_list rs ws
      in (fst one # fst rest, snd one # snd rest))"
| "apply_list rs ws = (rs, ws)"
| "apply_fields [] wfs = ([], wfs)"
| "apply_fields (f # fs) wfs =
     (let skip = (\<lambda>_. let rest = apply_fields fs wfs in (f # fst rest, snd rest))
      in case Option.bind (field_name f) (\<lambda>name. field_index name wfs) of
           None \<Rightarrow> skip ()
         | Some i \<Rightarrow>
             (case (json_get f ''type'', json_get (wfs ! i) ''type'') of
                (Some rt, Some wt) \<Rightarrow>
                  (let one = apply_reader_rules rt wt;
                       rest = apply_fields fs (wfs[i := set_member ''type'' (snd one) (wfs ! i)])
                   in (set_member ''type'' (fst one) f # fst rest, snd rest))
              | _ \<Rightarrow> skip ()))"
  by pat_completeness auto

termination
  by (relation "measure (\<lambda>x. case x of Inl (r, _) \<Rightarrow> size r
      | Inr (Inl (rs, _)) \<Rightarrow> size_list size rs | Inr (Inr (fs, _)) \<Rightarrow> size_list size fs)")
    (auto dest!: size_json_get [OF sym] size_member_array [OF sym])

definition avro_check :: "'a third_party \<Rightarrow> string \<Rightarrow> string \<Rightarrow> resolved_reference list \<Rightarrow> resolved_reference list
    \<Rightarrow> string list + unit" where
  "avro_check X reader writer reader_refs writer_refs =
     (let err = (\<lambda>side e. [side @ '': Avro: '' @ e]); parse_err = (\<lambda>side e. [side @ '': '' @ error_display (display_strings X) e])
      in rbind (map_err (err ''reader'') (from_str_value X reader)) (\<lambda>rv.
         rbind (map_err (err ''writer'') (from_str_value X writer)) (\<lambda>wv.
         let both = apply_reader_rules (erase_logical_types rv) (erase_logical_types wv)
         in rbind (map_err (parse_err ''reader'') (avro_parse X (serde_to_string X (fst both)) reader_refs)) (\<lambda>rs.
            rbind (map_err (parse_err ''writer'') (avro_parse X (serde_to_string X (snd both)) writer_refs)) (\<lambda>ws.
              case avro_can_read X (fst ws) (fst rs) of
                Inr AvroFull \<Rightarrow> Inr ()
              | Inr AvroPartial \<Rightarrow> Inl [''reader resolves only part of what the writer can produce'']
              | Inl e \<Rightarrow> Inl [e])))))"

subsection \<open>JSON Schema and Protobuf\<close>

definition json_verdict :: "json_difference list \<Rightarrow> string list + unit" where
  "json_verdict ds =
     (let incompatible = filter (\<lambda>x. \<not> json_backward_compatible (jd_kind x)) ds
      in if incompatible = [] then Inr () else Inl (json_messages incompatible))"

definition json_check :: "'a third_party \<Rightarrow> nat \<Rightarrow> string \<Rightarrow> string \<Rightarrow> resolved_reference list \<Rightarrow> resolved_reference list
    \<Rightarrow> (string list + unit) option" where
  "json_check X n reader writer reader_refs writer_refs =
     (let parse_err = (\<lambda>side e. [side @ '': '' @ error_display (display_strings X) e])
      in case map_err (parse_err ''reader'') (json_parse X reader reader_refs) of
           Inl msgs \<Rightarrow> Some (Inl msgs)
         | Inr (rv, rrefs) \<Rightarrow>
             (case map_err (parse_err ''writer'') (json_parse X writer writer_refs) of
                Inl msgs \<Rightarrow> Some (Inl msgs)
              | Inr (wv, wrefs) \<Rightarrow> map_option json_verdict (compare_with_refs X n wv rv wrefs rrefs)))"

text \<open>The references both sides import under the same name with different texts.\<close>

fun compare_references :: "'a third_party \<Rightarrow> resolved_reference list \<Rightarrow> resolved_reference list
    \<Rightarrow> resolved_reference list \<Rightarrow> string list + pb_difference list" where
  "compare_references X reader_refs writer_refs [] = Inr []"
| "compare_references X reader_refs writer_refs (w # ws) =
     (if rr_ty w \<noteq> Protobuf then compare_references X reader_refs writer_refs ws
      else case find (\<lambda>r. rr_ty r = Protobuf \<and> rr_name r = rr_name w) reader_refs of
             None \<Rightarrow> compare_references X reader_refs writer_refs ws
           | Some r \<Rightarrow>
               (if rr_schema w = rr_schema r then compare_references X reader_refs writer_refs ws
                else
                  let perr = (\<lambda>side e. [side @ '' reference: '' @ error_display (display_strings X) e])
                  in rbind (map_err (perr ''writer'')
                       (protobuf_parse X (rr_schema w) (filter (\<lambda>x. rr_name x \<noteq> rr_name w) writer_refs))) (\<lambda>wd.
                     rbind (map_err (perr ''reader'')
                       (protobuf_parse X (rr_schema r) (filter (\<lambda>x. rr_name x \<noteq> rr_name r) reader_refs))) (\<lambda>rd.
                     rbind (compare_references X reader_refs writer_refs ws) (\<lambda>rest.
                       Inr (compare (fst wd) (fst rd) @ rest))))))"

definition pb_verdict :: "pb_difference list \<Rightarrow> string list + unit" where
  "pb_verdict ds =
     (let incompatible = filter (\<lambda>x. \<not> is_backward_compatible (pd_kind x)) ds
      in if incompatible = [] then Inr () else Inl (pb_messages incompatible))"

definition protobuf_check :: "'a third_party \<Rightarrow> string \<Rightarrow> string \<Rightarrow> resolved_reference list \<Rightarrow> resolved_reference list
    \<Rightarrow> string list + unit" where
  "protobuf_check X reader writer reader_refs writer_refs =
     (let parse_err = (\<lambda>side e. [side @ '': '' @ error_display (display_strings X) e])
      in rbind (map_err (parse_err ''reader'') (protobuf_parse X reader reader_refs)) (\<lambda>rd.
         rbind (map_err (parse_err ''writer'') (protobuf_parse X writer writer_refs)) (\<lambda>wd.
         rbind (compare_references X reader_refs writer_refs writer_refs) (\<lambda>rest.
           pb_verdict (compare (fst wd) (fst rd) @ rest)))))"

definition format_check :: "'a third_party \<Rightarrow> nat \<Rightarrow> schema_type \<Rightarrow> string \<Rightarrow> string \<Rightarrow> resolved_reference list
    \<Rightarrow> resolved_reference list \<Rightarrow> (string list + unit) option" where
  "format_check X n ty reader writer reader_refs writer_refs = (case ty of
      Avro \<Rightarrow> Some (avro_check X reader writer reader_refs writer_refs)
    | Protobuf \<Rightarrow> Some (protobuf_check X reader writer reader_refs writer_refs)
    | Json \<Rightarrow> json_check X n reader writer reader_refs writer_refs)"

subsection \<open>Levels\<close>

datatype compatibility_level =
    NoCompat
  | Backward
  | BackwardTransitive
  | Forward
  | ForwardTransitive
  | Full
  | FullTransitive

datatype direction = NewReadsOld | OldReadsNew

record verdict =
  is_compatible :: bool
  verdict_messages :: "string list"

definition level_names :: "(string \<times> compatibility_level) list" where
  "level_names = [(''NONE'', NoCompat), (''BACKWARD'', Backward), (''BACKWARD_TRANSITIVE'', BackwardTransitive),
     (''FORWARD'', Forward), (''FORWARD_TRANSITIVE'', ForwardTransitive), (''FULL'', Full),
     (''FULL_TRANSITIVE'', FullTransitive)]"

definition try_parse_level :: "string \<Rightarrow> compatibility_level option" where
  "try_parse_level s = map_of level_names s"

definition parse_level :: "string \<Rightarrow> compatibility_level" where
  "parse_level s = unwrap_or (try_parse_level s) Backward"

definition is_transitive :: "compatibility_level \<Rightarrow> bool" where
  "is_transitive level \<longleftrightarrow> level \<in> {BackwardTransitive, ForwardTransitive, FullTransitive}"

fun directions :: "compatibility_level \<Rightarrow> direction list" where
  "directions NoCompat = []"
| "directions Backward = [NewReadsOld]"
| "directions BackwardTransitive = [NewReadsOld]"
| "directions Forward = [OldReadsNew]"
| "directions ForwardTransitive = [OldReadsNew]"
| "directions Full = [NewReadsOld, OldReadsNew]"
| "directions FullTransitive = [NewReadsOld, OldReadsNew]"

definition effective_level :: "store_state \<Rightarrow> string \<Rightarrow> compatibility_level" where
  "effective_level snap subject =
     parse_level (case subject_compat snap subject of None \<Rightarrow> global_compat snap | Some s \<Rightarrow> s)"

subsection \<open>The engine\<close>

text \<open>The messages a check adds; \<open>None\<close> when it does not return.\<close>

fun check_direction :: "'a third_party \<Rightarrow> nat \<Rightarrow> schema_type \<Rightarrow> string \<Rightarrow> resolved_reference list \<Rightarrow> string
    \<Rightarrow> resolved_reference list \<Rightarrow> direction \<Rightarrow> string list option" where
  "check_direction X n ty candidate crefs existing erefs NewReadsOld =
     map_option (\<lambda>r. case r of Inl msgs \<Rightarrow> msgs | Inr _ \<Rightarrow> []) (format_check X n ty candidate existing crefs erefs)"
| "check_direction X n ty candidate crefs existing erefs OldReadsNew =
     map_option (\<lambda>r. case r of Inl msgs \<Rightarrow> msgs | Inr _ \<Rightarrow> []) (format_check X n ty existing candidate erefs crefs)"

definition check_pair :: "'a third_party \<Rightarrow> nat \<Rightarrow> schema_type \<Rightarrow> string \<Rightarrow> resolved_reference list \<Rightarrow> string
    \<Rightarrow> resolved_reference list \<Rightarrow> direction list \<Rightarrow> string list option" where
  "check_pair X n ty candidate crefs existing erefs dirs =
     collect (map (check_direction X n ty candidate crefs existing erefs) dirs)"

definition existing_closure :: "store_state \<Rightarrow> schema_reference list \<Rightarrow> resolved_reference list" where
  "existing_closure snap refs = unwrap_or (result_ok (resolve_closure snap refs)) []"

definition check_registration :: "'a third_party \<Rightarrow> nat \<Rightarrow> store_state \<Rightarrow> string \<Rightarrow> schema_type \<Rightarrow> string
    \<Rightarrow> resolved_reference list \<Rightarrow> (sr_error + unit) option" where
  "check_registration X n snap subject ty candidate crefs =
     (let level = effective_level snap subject; dirs = directions level; vs = versions_schemas snap subject
      in if dirs = [] then Some (Inr ())
         else if vs = [] then Some (Inr ())
         else
           let targets = (if is_transitive level then vs else [last vs])
           in map_option (\<lambda>msgs. if msgs = [] then Inr () else Inl (Incompatible msgs))
                (collect (map (\<lambda>(vty, vschema, vrefs).
                   check_pair X n ty candidate crefs vschema (existing_closure snap vrefs) dirs) targets)))"

definition check_against_version :: "'a third_party \<Rightarrow> nat \<Rightarrow> store_state \<Rightarrow> string \<Rightarrow> schema_type \<Rightarrow> string
    \<Rightarrow> resolved_reference list \<Rightarrow> schema_version option \<Rightarrow> (sr_error + verdict) option" where
  "check_against_version X n snap subject ty candidate crefs ver =
     (if versions snap subject False = None then Some (Inl (SubjectNotFound subject))
      else case version snap subject ver False of
             None \<Rightarrow> Some (Inl VersionNotFound)
           | Some existing \<Rightarrow>
               (let dirs = directions (effective_level snap subject)
                in if dirs = [] then Some (Inr \<lparr>is_compatible = True, verdict_messages = []\<rparr>)
                   else map_option (\<lambda>msgs. Inr \<lparr>is_compatible = (msgs = []), verdict_messages = msgs\<rparr>)
                          (check_pair X n ty candidate crefs (vs_schema existing)
                             (existing_closure snap (vs_references existing)) dirs)))"

end
