(* ===== verification/Election.thy ===== *)
theory Election
  imports Schema_Records Samples
begin

text \<open>
  Primary election over a Kafka group (\<^verbatim>\<open>election/protocol.rs\<close>, \<^verbatim>\<open>election/mod.rs\<close>,
  \<^verbatim>\<open>election/client.rs\<close>): the identity and assignment records with their JSON encoding, the
  leader's choice of the primary, and the membership loop as a step function on the node's state.
  The coordinator's answers are the events of a step; connecting to the coordinator, the requests on the
  wire and leaving the group are in \<open>Election_Session\<close>.
\<close>

subsection \<open>Wire records\<close>

record sr_identity =
  si_host :: string
  si_port :: i32
  si_master_eligibility :: bool
  si_scheme :: string
  si_version :: i32

record sr_assignment =
  as_error :: i32
  as_master :: "string option"
  as_master_identity :: "sr_identity option"
  as_version :: i32

definition sr_version :: i32 where
  "sr_version = 1"

definition identity_url :: "sr_identity \<Rightarrow> string" where
  "identity_url i = si_scheme i @ ''://'' @ si_host i @ '':'' @ show_int (si_port i)"

definition ser_identity :: "sr_identity \<Rightarrow> json" where
  "ser_identity i = JObj [(''host'', JStr (si_host i)), (''port'', json_int (si_port i)),
     (''master_eligibility'', JBool (si_master_eligibility i)), (''scheme'', JStr (si_scheme i)),
     (''version'', json_int (si_version i))]"

definition de_identity :: "json \<Rightarrow> sr_identity option" where
  "de_identity v =
     Option.bind (struct_members [''host'', ''port'', ''master_eligibility'', ''scheme'', ''version''] v) (\<lambda>ms.
     Option.bind (de_field de_string None ms ''host'') (\<lambda>h.
     Option.bind (de_field de_i32 None ms ''port'') (\<lambda>p.
     Option.bind (de_field de_bool None ms ''master_eligibility'') (\<lambda>m.
     Option.bind (de_field de_string None ms ''scheme'') (\<lambda>s.
     Option.bind (de_field de_i32 None ms ''version'') (\<lambda>n.
       Some \<lparr>si_host = h, si_port = p, si_master_eligibility = m, si_scheme = s, si_version = n\<rparr>))))))"

definition ser_assignment :: "sr_assignment \<Rightarrow> json" where
  "ser_assignment a = JObj [(''error'', json_int (as_error a)), (''master'', ser_option JStr (as_master a)),
     (''master_identity'', ser_option ser_identity (as_master_identity a)), (''version'', json_int (as_version a))]"

definition de_assignment :: "json \<Rightarrow> sr_assignment option" where
  "de_assignment v =
     Option.bind (struct_members [''error'', ''master'', ''master_identity'', ''version''] v) (\<lambda>ms.
     Option.bind (de_field de_i32 None ms ''error'') (\<lambda>e.
     Option.bind (de_field (de_option de_string) (Some None) ms ''master'') (\<lambda>m.
     Option.bind (de_field (de_option de_identity) (Some None) ms ''master_identity'') (\<lambda>i.
     Option.bind (de_field de_i32 None ms ''version'') (\<lambda>n.
       Some \<lparr>as_error = e, as_master = m, as_master_identity = i, as_version = n\<rparr>)))))"

definition default_assignment :: sr_assignment where
  "default_assignment = \<lparr>as_error = 0, as_master = None, as_master_identity = None, as_version = 0\<rparr>"

subsection \<open>Choosing the primary\<close>

text \<open>\<open>min_by\<close>: the first of the least elements.\<close>

fun min_by :: "('a \<Rightarrow> 'k::linorder) \<Rightarrow> 'a list \<Rightarrow> 'a option" where
  "min_by f [] = None"
| "min_by f (x # xs) = (case min_by f xs of
      None \<Rightarrow> Some x | Some y \<Rightarrow> if f x \<le> f y then Some x else Some y)"

definition select_master :: "(string \<times> sr_identity) list \<Rightarrow> (string \<times> sr_identity) option" where
  "select_master members =
     min_by (\<lambda>p. identity_url (snd p)) (filter (\<lambda>p. si_master_eligibility (snd p)) members)"

text \<open>\<open>parse_identity\<close>: the advertised URL, split at the first \<open>://\<close> and the last colon.\<close>

fun split_once :: "string \<Rightarrow> string \<Rightarrow> (string \<times> string) option" where
  "split_once sep [] = (if sep = [] then Some ([], []) else None)"
| "split_once sep (c # cs) =
     (if take (length sep) (c # cs) = sep then Some ([], drop (length sep) (c # cs))
      else map_option (\<lambda>(a, b). (c # a, b)) (split_once sep cs))"

fun rsplit_once :: "char \<Rightarrow> string \<Rightarrow> (string \<times> string) option" where
  "rsplit_once sep [] = None"
| "rsplit_once sep (c # cs) = (case rsplit_once sep cs of
      Some (a, b) \<Rightarrow> Some (c # a, b)
    | None \<Rightarrow> if c = sep then Some ([], cs) else None)"

definition parse_identity :: "(string \<Rightarrow> i32 option) \<Rightarrow> string \<Rightarrow> bool \<Rightarrow> sr_identity option" where
  "parse_identity parse_port url eligible =
     Option.bind (split_once ''://'' url) (\<lambda>(scheme, rest).
     Option.bind (rsplit_once (CHR '':'') rest) (\<lambda>(host, port).
     Option.bind (parse_port port) (\<lambda>p.
       Some \<lparr>si_host = host, si_port = p, si_master_eligibility = eligible, si_scheme = scheme, si_version = 1\<rparr>)))"

subsection \<open>The membership loop\<close>

record primary_state =
  ps_is_primary :: bool
  ps_primary_url :: "string option"
  ps_generation_id :: "i32 option"
  ps_member_id :: "string option"

definition no_primary :: primary_state where
  "no_primary = \<lparr>ps_is_primary = False, ps_primary_url = None, ps_generation_id = None, ps_member_id = None\<rparr>"

record 'b join_answer =
  ja_error :: int
  ja_member :: string
  ja_leader :: string
  ja_generation :: i32
  ja_members :: "(string \<times> 'b) list"

record 'b sync_answer =
  sa_error :: int
  sa_assignment :: 'b

text \<open>What the leader sends with \<open>SyncGroup\<close>: the same assignment for every member.\<close>

definition leader_assignment :: "'b codec \<Rightarrow> (string \<times> 'b) list \<Rightarrow> 'b" where
  "leader_assignment C members =
     (let ids = List.map_filter (\<lambda>p. map_option (\<lambda>i. (fst p, i)) (Option.bind (from_slice C (snd p)) de_identity)) members;
          chosen = select_master ids
      in to_vec C (ser_assignment \<lparr>as_error = 0, as_master = map_option fst chosen,
           as_master_identity = map_option snd chosen, as_version = sr_version\<rparr>))"

definition sync_assignments :: "'b codec \<Rightarrow> 'b join_answer \<Rightarrow> (string \<times> 'b) list" where
  "sync_assignments C jg =
     (if ja_leader jg = ja_member jg
      then map (\<lambda>m. (fst m, leader_assignment C (ja_members jg))) (ja_members jg) else [])"

text \<open>\<open>join_and_sync\<close> on the coordinator's answers; \<open>jg2\<close> answers the second attempt after
  \<open>MEMBER_ID_REQUIRED\<close>. The member id is kept in the session's state also when it fails.\<close>

definition join_and_sync :: "'b join_answer \<Rightarrow> 'b join_answer \<Rightarrow> 'b sync_answer \<Rightarrow> string
    \<Rightarrow> (string + i32 \<times> 'b) \<times> string" where
  "join_and_sync jg1 jg2 sg member =
     (let (member1, jg) = (if ja_error jg1 = 79 then (ja_member jg1, jg2) else (member, jg1))
      in if ja_error jg \<noteq> 0 then (Inl (''JoinGroup error '' @ show_int (ja_error jg)), member1)
         else if sa_error sg \<noteq> 0 then (Inl (''SyncGroup error '' @ show_int (sa_error sg)), ja_member jg)
         else (Inr (ja_generation jg, sa_assignment sg), ja_member jg))"

definition publish :: "'b codec \<Rightarrow> sr_identity \<Rightarrow> 'b \<Rightarrow> i32 \<Rightarrow> string \<Rightarrow> primary_state" where
  "publish C identity assignment generation member =
     (let parsed = unwrap_or (Option.bind (from_slice C assignment) de_assignment) default_assignment;
          is_primary = (as_master_identity parsed = Some identity)
      in \<lparr>ps_is_primary = is_primary, ps_primary_url = map_option identity_url (as_master_identity parsed),
          ps_generation_id = (if is_primary then Some generation else None),
          ps_member_id = (if is_primary then Some member else None)\<rparr>)"

record election_client =
  ec_member :: string
  ec_generation :: "i32 option"
  ec_primary :: primary_state

datatype 'b election_event =
    Joined "'b join_answer" "'b join_answer" "'b sync_answer"
  | HeartbeatAnswered int
  | SessionFailed

definition election_start :: election_client where
  "election_start = \<lparr>ec_member = [], ec_generation = None, ec_primary = no_primary\<rparr>"

text \<open>\<open>run\<close> after an error of the session: forget the member id and withdraw the published state.\<close>

definition session_failed :: "election_client \<Rightarrow> election_client" where
  "session_failed c = c\<lparr>ec_member := [], ec_generation := None, ec_primary := no_primary\<rparr>"

definition on_joined :: "'b codec \<Rightarrow> sr_identity \<Rightarrow> 'b join_answer \<Rightarrow> 'b join_answer \<Rightarrow> 'b sync_answer
    \<Rightarrow> election_client \<Rightarrow> election_client" where
  "on_joined C identity jg1 jg2 sg c = (case join_and_sync jg1 jg2 sg (ec_member c) of
      (Inl e, member) \<Rightarrow> session_failed c
    | (Inr (generation, assignment), member) \<Rightarrow>
        c\<lparr>ec_member := member, ec_generation := Some generation,
          ec_primary := publish C identity assignment generation member\<rparr>)"

definition on_heartbeat :: "int \<Rightarrow> election_client \<Rightarrow> election_client" where
  "on_heartbeat code c =
     (if code = 27 \<or> code = 22 then c\<lparr>ec_generation := None\<rparr>
      else if code = 25 then c\<lparr>ec_member := [], ec_generation := None\<rparr>
      else if code = 16 \<or> code = 15 \<or> code = 14 then session_failed c
      else c)"

fun election_step :: "'b codec \<Rightarrow> sr_identity \<Rightarrow> 'b election_event \<Rightarrow> election_client \<Rightarrow> election_client" where
  "election_step C identity (Joined jg1 jg2 sg) c =
     (if ec_generation c = None then on_joined C identity jg1 jg2 sg c else c)"
| "election_step C identity (HeartbeatAnswered code) c =
     (if ec_generation c = None then c else on_heartbeat code c)"
| "election_step C identity SessionFailed c = session_failed c"

definition run_election :: "'b codec \<Rightarrow> sr_identity \<Rightarrow> 'b election_event list \<Rightarrow> election_client" where
  "run_election C identity events = fold (election_step C identity) events election_start"

subsection \<open>Encodings\<close>

definition identity_ok :: "sr_identity \<Rightarrow> bool" where
  "identity_ok i \<longleftrightarrow> i32_range (si_port i) \<and> i32_range (si_version i)"

lemma ser_identity_integral [simp]: "json_integral (ser_identity i)"
  by (simp add: ser_identity_def)

lemma ser_identity_not_null [simp]: "ser_identity i \<noteq> JNull"
  by (simp add: ser_identity_def)

lemma de_identity_ser [simp]: "identity_ok i \<Longrightarrow> de_identity (ser_identity i) = Some i"
  by (simp add: identity_ok_def ser_identity_def de_identity_def struct_members_def de_field_def)

lemma de_option_identity [simp]:
  "(\<And>i. x = Some i \<Longrightarrow> identity_ok i) \<Longrightarrow> de_option de_identity (ser_option ser_identity x) = Some x"
  by (cases x) (simp_all add: ser_option_def)

lemma de_assignment_ser:
  assumes "i32_range (as_error a)" "i32_range (as_version a)"
    and "\<And>i. as_master_identity a = Some i \<Longrightarrow> identity_ok i"
  shows "de_assignment (ser_assignment a) = Some a"
  using assms by (simp add: ser_assignment_def de_assignment_def struct_members_def de_field_def)

lemma ser_assignment_integral [simp]: "json_integral (ser_assignment a)"
  by (simp add: ser_assignment_def)

subsection \<open>Agreement\<close>

lemma min_by_None: "min_by f xs = None \<longleftrightarrow> xs = []"
  by (cases xs) (auto split: option.splits)

lemma min_by_Some: "min_by f xs = Some x \<Longrightarrow> x \<in> set xs \<and> (\<forall>y\<in>set xs. f x \<le> f y)"
proof (induction xs arbitrary: x)
  case (Cons a xs)
  show ?case
  proof (cases "min_by f xs")
    case None
    then have "xs = []" by (simp add: min_by_None)
    then show ?thesis using Cons.prems by simp
  next
    case (Some y)
    note y = Cons.IH [OF Some]
    show ?thesis
    proof (cases "f a \<le> f y")
      case True
      then have "x = a" using Cons.prems Some by simp
      then show ?thesis using True y by (auto intro: order_trans)
    next
      case False
      then have "x = y" using Cons.prems Some by simp
      then show ?thesis using False y by auto
    qed
  qed
qed simp

lemma select_master_Some:
  "select_master ms = Some m \<Longrightarrow>
    m \<in> set ms \<and> si_master_eligibility (snd m) \<and>
    (\<forall>m'\<in>set ms. si_master_eligibility (snd m') \<longrightarrow> identity_url (snd m) \<le> identity_url (snd m'))"
  unfolding select_master_def by (drule min_by_Some) auto

lemma select_master_None:
  "select_master ms = None \<longleftrightarrow> (\<forall>m\<in>set ms. \<not> si_master_eligibility (snd m))"
  by (auto simp: select_master_def min_by_None filter_empty_conv)

definition encoded_members :: "'b codec \<Rightarrow> (string \<times> sr_identity) list \<Rightarrow> (string \<times> 'b) list" where
  "encoded_members C ms = map (\<lambda>m. (fst m, to_vec C (ser_identity (snd m)))) ms"

lemma leader_reads_members:
  assumes "codec_roundtrip C" "list_all (\<lambda>m. identity_ok (snd m)) ms"
  shows "List.map_filter (\<lambda>p. map_option (\<lambda>i. (fst p, i)) (Option.bind (from_slice C (snd p)) de_identity))
    (encoded_members C ms) = ms"
  using assms(2) by (induction ms) (auto simp: encoded_members_def List.map_filter_simps assms(1))

lemma publish_chosen:
  assumes C: "codec_roundtrip C" and ms: "list_all (\<lambda>m. identity_ok (snd m)) ms"
  shows "publish C identity (leader_assignment C (encoded_members C ms)) g m =
    (let chosen = map_option snd (select_master ms)
     in \<lparr>ps_is_primary = (chosen = Some identity), ps_primary_url = map_option identity_url chosen,
         ps_generation_id = (if chosen = Some identity then Some g else None),
         ps_member_id = (if chosen = Some identity then Some m else None)\<rparr>)"
proof -
  let ?a = "\<lparr>as_error = 0, as_master = map_option fst (select_master ms),
    as_master_identity = map_option snd (select_master ms), as_version = sr_version\<rparr>"
  have "identity_ok i" if i: "as_master_identity ?a = Some i" for i
  proof -
    obtain p where p: "select_master ms = Some p" "i = snd p" using i by auto
    then show ?thesis using select_master_Some [OF p(1)] ms by (simp add: list_all_iff)
  qed
  then have "de_assignment (ser_assignment ?a) = Some ?a"
    by (intro de_assignment_ser) (simp_all add: sr_version_def i32_range_def)
  moreover have "leader_assignment C (encoded_members C ms) = to_vec C (ser_assignment ?a)"
    unfolding leader_assignment_def leader_reads_members [OF C ms] Let_def ..
  ultimately show ?thesis
    by (simp add: publish_def C unwrap_or_def Let_def)
qed

text \<open>C33: one primary per generation: when the group's leader assigns from the members' identities, the
  nodes that consider themselves primary all have the same identity, which is an eligible member
  with the least URL, every node names the same primary URL, and there is no primary exactly when no
  member is eligible.\<close>

theorem election_agreement:
  fixes ms :: "(string \<times> sr_identity) list"
  assumes "codec_roundtrip C" "list_all (\<lambda>m. identity_ok (snd m)) ms"
  defines "a \<equiv> leader_assignment C (encoded_members C ms)"
  shows "(ps_is_primary (publish C i a g m) \<and> ps_is_primary (publish C j a g' m') \<longrightarrow> i = j) \<and>
    ps_primary_url (publish C i a g m) = ps_primary_url (publish C j a g' m') \<and>
    (ps_is_primary (publish C i a g m) \<longrightarrow> i \<in> snd ` set ms \<and> si_master_eligibility i \<and>
      (\<forall>k\<in>snd ` set ms. si_master_eligibility k \<longrightarrow> identity_url i \<le> identity_url k)) \<and>
    (ps_primary_url (publish C i a g m) = None \<longleftrightarrow> (\<forall>k\<in>snd ` set ms. \<not> si_master_eligibility k))"
proof (cases "select_master ms")
  case None
  then show ?thesis
    using select_master_None [of ms] by (auto simp: a_def publish_chosen [OF assms(1,2)])
next
  case (Some p)
  have "\<not> (\<forall>k\<in>snd ` set ms. \<not> si_master_eligibility k)" using select_master_Some [OF Some] by blast
  then show ?thesis
    using Some select_master_Some [OF Some] by (auto simp: a_def publish_chosen [OF assms(1,2)])
qed

definition node_at :: "string \<Rightarrow> bool \<Rightarrow> sr_identity" where
  "node_at host eligible = \<lparr>si_host = host, si_port = 8081, si_master_eligibility = eligible,
     si_scheme = ''http'', si_version = 1\<rparr>"

theorem election_agreement_witness:
  "ps_is_primary (publish value_codec (node_at ''a'' True)
      (leader_assignment value_codec (encoded_members value_codec [(''m1'', node_at ''b'' True), (''m2'', node_at ''a'' True)]))
      7 ''m2'') \<and>
    \<not> ps_is_primary (publish value_codec (node_at ''b'' True)
      (leader_assignment value_codec (encoded_members value_codec [(''m1'', node_at ''b'' True), (''m2'', node_at ''a'' True)]))
      7 ''m1'')"
proof -
  let ?ms = "[(''m1'', node_at ''b'' True), (''m2'', node_at ''a'' True)]"
  have ok: "list_all (\<lambda>m. identity_ok (snd m)) ?ms" by (simp add: node_at_def identity_ok_def i32_range_def)
  have "\<not> identity_url (node_at ''b'' True) \<le> identity_url (node_at ''a'' True)"
    by (simp add: identity_url_def node_at_def less_char_def)
  then have "select_master ?ms = Some (''m2'', node_at ''a'' True)"
    by (simp add: select_master_def) (simp add: node_at_def)
  then have "ps_is_primary (publish value_codec (node_at ''a'' True)
      (leader_assignment value_codec (encoded_members value_codec ?ms)) 7 ''m2'')"
    unfolding publish_chosen [OF value_codec_roundtrip ok] by simp
  moreover have "node_at ''a'' True \<noteq> node_at ''b'' True" by (simp add: node_at_def)
  ultimately show ?thesis
    using election_agreement [OF value_codec_roundtrip ok, of "node_at ''a'' True" 7 "''m2''" "node_at ''b'' True" 7 "''m1''"]
    by blast
qed

subsection \<open>The published state\<close>

definition published_ok :: "sr_identity \<Rightarrow> primary_state \<Rightarrow> bool" where
  "published_ok identity p \<longleftrightarrow>
     (ps_is_primary p \<longleftrightarrow> ps_generation_id p \<noteq> None) \<and> (ps_is_primary p \<longleftrightarrow> ps_member_id p \<noteq> None) \<and>
     (ps_is_primary p \<longrightarrow> ps_primary_url p = Some (identity_url identity))"

lemma publish_ok: "published_ok identity (publish C identity a g m)"
  by (auto simp: published_ok_def publish_def Let_def)

lemma no_primary_ok: "published_ok identity no_primary"
  by (simp add: published_ok_def no_primary_def)

lemma election_step_ok:
  "published_ok identity (ec_primary c) \<Longrightarrow> published_ok identity (ec_primary (election_step C identity ev c))"
  by (cases ev)
    (auto simp: on_joined_def on_heartbeat_def session_failed_def publish_ok no_primary_ok split: prod.splits sum.splits)

text \<open>Whatever the coordinator answers, a node publishes a generation and a member id exactly while
  it publishes itself as the primary, and then under its own URL; after a failed session it is not
  the primary.\<close>

theorem election_publishes_ok:
  "published_ok identity (ec_primary (run_election C identity events)) \<and>
    \<not> ps_is_primary (ec_primary (run_election C identity (events @ [SessionFailed])))"
proof -
  have "published_ok identity (ec_primary (fold (election_step C identity) events c))"
    if "published_ok identity (ec_primary c)" for c
    using that by (induction events arbitrary: c) (auto intro: election_step_ok)
  from this [of election_start] have "published_ok identity (ec_primary (run_election C identity events))"
    by (simp add: run_election_def election_start_def no_primary_ok)
  moreover have "ec_primary (run_election C identity (events @ [SessionFailed])) = no_primary"
    by (simp add: run_election_def session_failed_def)
  ultimately show ?thesis by (simp add: no_primary_def)
qed

end
