(* ===== verification/Kafkastore.thy ===== *)
theory Kafkastore
  imports Compat Election Compaction
begin

text \<open>
  The facade over the topic (\<^verbatim>\<open>kafkastore/mod.rs\<close>, \<^verbatim>\<open>kafkastore/writer.rs\<close>): every mutating
  request takes the write gate, synchronises the local store with the topic, decides on the store,
  produces its records and waits until the reader applied them. The state is the topic, the reader
  (how many records of the topic it has read, the live store it maintains, and the rebuild it is in
  after the topic was replaced), the election watch and the generation of the transactional producer.
  What the broker and the clock do to a call is a \<open>broker_answer\<close> from the list that the state
  carries: other writers' records that reach the topic first, whether the call's own record does,
  how the call and the wait for the reader end, how far the reader gets meanwhile, and a change of the
  election watch. A list that is used up answers with success.

  Each request is a decision on the store (its guards, its result and the records it produces) that
  \<open>write_through\<close> runs; the outer \<open>option\<close> is \<open>None\<close> when the process aborts in a JSON comparison.
\<close>

subsection \<open>The environment\<close>

datatype call_result = Completed | Errored string | StoreTimedOut | DeadlinePassed

text \<open>How a wait for a barrier ends. A wait is invalidated when the reader finds the topic replaced by
  another, whose log the answer carries.\<close>

datatype 'b wait_result = WaitSeen | WaitInvalidated "'b raw_log" | ReaderStopped | WaitDeadline

record 'b broker_answer =
  ba_others :: "'b raw_log"
  ba_landed :: bool
  ba_result :: call_result
  ba_wait :: "'b wait_result"
  ba_read :: nat
  ba_primary :: "primary_state option"

definition success :: "'b broker_answer" where
  "success = \<lparr>ba_others = [], ba_landed = True, ba_result = Completed, ba_wait = WaitSeen, ba_read = 0, ba_primary = None\<rparr>"

text \<open>What the facade is built with: the third-party parsers, the JSON codec, the configured initial
  state, the depth of the stack and the texts of the barrier tokens.\<close>

record ('a, 'b) registry =
  re_parsers :: "'a third_party"
  re_codec :: "'b codec"
  re_defaults :: store_state
  re_depth :: nat
  re_token :: "nat \<Rightarrow> string"

record 'b kafka_store =
  ks_topic :: "'b raw_log"
  ks_topic_id :: nat
  ks_store :: store_state
  ks_applied :: nat
  ks_rebuild :: "rebuild option"
  ks_primary :: "primary_state option"
  ks_fenced :: "i32 option"
  ks_tokens :: nat
  ks_answers :: "'b broker_answer list"

type_synonym ('b, 'v) ks_op = "'b kafka_store \<Rightarrow> (sr_error + 'v) \<times> 'b kafka_store"

definition ks_bind :: "('b, 'v) ks_op \<Rightarrow> ('v \<Rightarrow> ('b, 'w) ks_op) \<Rightarrow> ('b, 'w) ks_op" where
  "ks_bind f g s = (case f s of (Inl e, s') \<Rightarrow> (Inl e, s') | (Inr v, s') \<Rightarrow> g v s')"

definition ks_return :: "'v \<Rightarrow> ('b, 'v) ks_op" where
  "ks_return v s = (Inr v, s)"

text \<open>The next answer; the election watch is only read when one is installed.\<close>

definition next_answer :: "'b kafka_store \<Rightarrow> 'b broker_answer \<times> 'b kafka_store" where
  "next_answer s =
     (let a = (case ks_answers s of [] \<Rightarrow> success | a # _ \<Rightarrow> a);
          primary = (case ba_primary a of
              Some p \<Rightarrow> map_option (\<lambda>_. p) (ks_primary s) | None \<Rightarrow> ks_primary s)
      in (a, s\<lparr>ks_answers := tl (ks_answers s), ks_primary := primary\<rparr>))"

subsection \<open>The writer\<close>

text \<open>\<open>writer_before\<close> with \<open>backend_error\<close>: how a call's end reaches the caller.\<close>

fun call_outcome :: "call_result \<Rightarrow> sr_error + unit" where
  "call_outcome Completed = Inr ()"
| "call_outcome (Errored e) = Inl (Backend e)"
| "call_outcome StoreTimedOut = Inl OperationTimedOut"
| "call_outcome DeadlinePassed = Inl OperationTimedOut"

definition produce_record :: "'b \<Rightarrow> 'b option \<Rightarrow> 'b kafka_store \<Rightarrow> call_result \<times> 'b kafka_store" where
  "produce_record key value s =
     (let (a, s1) = next_answer s
      in (ba_result a,
          s1\<lparr>ks_topic := ks_topic s1 @ ba_others a @ (if ba_landed a then [(key, value)] else [])\<rparr>))"

text \<open>A call that writes nothing itself; other writers' records may land meanwhile.\<close>

definition interfere :: "'b kafka_store \<Rightarrow> 'b broker_answer \<times> 'b kafka_store" where
  "interfere s = (let (a, s1) = next_answer s in (a, s1\<lparr>ks_topic := ks_topic s1 @ ba_others a\<rparr>))"

text \<open>\<open>produce_fenced\<close>: the record is sent in a transaction that also commits an empty set of
  offsets for the election group, which the coordinator refuses to a stale member. The record becomes
  visible when the commit lands. A call that fails aborts the transaction; one that runs out of time
  drops it.\<close>

definition abort_after :: "call_result \<Rightarrow> 'b kafka_store \<Rightarrow> 'b kafka_store" where
  "abort_after r s = (case r of Errored _ \<Rightarrow> snd (interfere s) | _ \<Rightarrow> s)"

definition produce_fenced :: "'b \<Rightarrow> 'b option \<Rightarrow> 'b kafka_store \<Rightarrow> call_result \<times> 'b kafka_store" where
  "produce_fenced key value s =
     (let (begun, s1) = interfere s
      in if ba_result begun \<noteq> Completed then (ba_result begun, s1)
         else let (sent, s2) = interfere s1
         in if ba_result sent \<noteq> Completed then (ba_result sent, abort_after (ba_result sent) s2)
         else let (offsets, s3) = interfere s2
         in if ba_result offsets \<noteq> Completed then (ba_result offsets, abort_after (ba_result offsets) s3)
         else produce_record key value s3)"

type_synonym election_group = "i32 \<times> string"

definition produce :: "election_group option \<Rightarrow> 'b \<Rightarrow> 'b option \<Rightarrow> ('b, unit) ks_op" where
  "produce grp key value s =
     (let (r, s') = (case grp of Some _ \<Rightarrow> produce_fenced key value s | None \<Rightarrow> produce_record key value s)
      in (call_outcome r, s'))"

text \<open>\<open>fence\<close>: the transactional producer is initialised once per generation.\<close>

definition fence :: "i32 \<Rightarrow> ('b, unit) ks_op" where
  "fence generation s =
     (if ks_fenced s = Some generation then (Inr (), s)
      else let (a, s1) = next_answer s
           in (call_outcome (ba_result a),
               if ba_result a = Completed then s1\<lparr>ks_fenced := Some generation\<rparr> else s1))"

definition barrier_key :: "'b codec \<Rightarrow> string \<Rightarrow> 'b" where
  "barrier_key C token = to_vec C (JObj [(''keytype'', JStr ''NOOP''), (''magic'', json_int 0), (''barrier'', JStr token)])"

definition barrier_value :: "'b codec \<Rightarrow> 'b" where
  "barrier_value C = to_vec C (JObj [])"

subsection \<open>Barriers\<close>

text \<open>The clean-up of a dropped \<open>BarrierGuard\<close>: a tombstone whose failure is only logged.\<close>

definition clear_barrier :: "('a, 'b) registry \<Rightarrow> string \<Rightarrow> 'b kafka_store \<Rightarrow> call_result \<times> 'b kafka_store" where
  "clear_barrier R token s = produce_record (barrier_key (re_codec R) token) None s"

definition order_barrier :: "('a, 'b) registry \<Rightarrow> ('b, string) ks_op" where
  "order_barrier R s =
     (let token = re_token R (ks_tokens s);
          (r, s1) = produce_record (barrier_key (re_codec R) token) (Some (barrier_value (re_codec R)))
            (s\<lparr>ks_tokens := Suc (ks_tokens s)\<rparr>)
      in case call_outcome r of
           Inr _ \<Rightarrow> (Inr token, s1)
         | Inl e \<Rightarrow> (Inl e, snd (clear_barrier R token s1)))"

text \<open>\<open>finish\<close> under the request's deadline: a clean-up that fails is logged and tried again in the
  background.\<close>

definition finish_barrier :: "('a, 'b) registry \<Rightarrow> string \<Rightarrow> ('b, unit) ks_op" where
  "finish_barrier R token s =
     (let (r, s1) = clear_barrier R token s
      in if r = Completed then (Inr (), s1)
         else (if r = DeadlinePassed then Inl OperationTimedOut else Inr (), snd (clear_barrier R token s1)))"

subsection \<open>The reader behind the facade\<close>

text \<open>The reader task reads the next \<open>n\<close> records of the topic into the live store, or into the store of a
  rebuild, which replaces the live store when it has reached its end.\<close>

definition read_on :: "('a, 'b) registry \<Rightarrow> nat \<Rightarrow> 'b kafka_store \<Rightarrow> 'b kafka_store" where
  "read_on R n s =
     (let new = take n (drop (ks_applied s) (ks_topic s));
          apply = fold (apply_record (re_parsers R)) (decode_log (re_codec R) new);
          applied = ks_applied s + length new;
          live = (if ks_rebuild s = None then apply (ks_store s) else ks_store s);
          rebuild = map_option (\<lambda>rb. rb\<lparr>rb_store := apply (rb_store rb)\<rparr>) (ks_rebuild s);
          (live', rebuild') = complete_rebuild live rebuild (int applied)
      in s\<lparr>ks_store := live', ks_rebuild := rebuild', ks_applied := applied\<rparr>)"

text \<open>The topic is replaced: the reader starts over on the new log, into a store of its own.\<close>

definition replace_topic :: "('a, 'b) registry \<Rightarrow> 'b raw_log \<Rightarrow> 'b kafka_store \<Rightarrow> 'b kafka_store" where
  "replace_topic R fresh s =
     (let (live, next, rebuild) = begin_rebuild (ks_store s) (re_defaults R) None 0 (int (length fresh)) False
      in s\<lparr>ks_topic := fresh, ks_topic_id := Suc (ks_topic_id s), ks_store := live, ks_applied := nat next, ks_rebuild := rebuild\<rparr>)"

text \<open>Where the reader must get to for the waiter of a barrier to see it: past the barrier's record, the last
  one with its key, and out of a rebuild. A barrier that is not in the topic is never seen.\<close>

definition barrier_end :: "'b \<Rightarrow> 'b raw_log \<Rightarrow> nat option" where
  "barrier_end key topic =
     (if key \<in> fst ` set topic then Some (length topic - length (takeWhile (\<lambda>r. fst r \<noteq> key) (rev topic))) else None)"

definition read_past :: "('a, 'b) registry \<Rightarrow> nat \<Rightarrow> 'b kafka_store \<Rightarrow> 'b kafka_store" where
  "read_past R n s =
     (let goal = (case ks_rebuild s of None \<Rightarrow> n | Some rb \<Rightarrow> max n (nat (rb_end_offset rb)))
      in read_on R (goal - ks_applied s) s)"

definition await_barrier :: "('a, 'b) registry \<Rightarrow> string \<Rightarrow> ('b, unit) ks_op" where
  "await_barrier R token s =
     (let (a, s1) = interfere s; s2 = read_on R (ba_read a) s1
      in case ba_wait a of
           WaitSeen \<Rightarrow>
             (case barrier_end (barrier_key (re_codec R) token) (ks_topic s2) of
                Some n \<Rightarrow> finish_barrier R token (read_past R n s2)
              | None \<Rightarrow> (Inl OperationTimedOut, snd (clear_barrier R token s2)))
         | WaitInvalidated fresh \<Rightarrow>
             (Inl (Backend ''schema topic was replaced before applying the write''),
              snd (clear_barrier R token (replace_topic R fresh s2)))
         | ReaderStopped \<Rightarrow> (Inl OperationTimedOut, snd (clear_barrier R token s2))
         | WaitDeadline \<Rightarrow> (Inl OperationTimedOut, snd (clear_barrier R token s2)))"

definition synchronise :: "('a, 'b) registry \<Rightarrow> ('b, unit) ks_op" where
  "synchronise R = ks_bind (order_barrier R) (await_barrier R)"

definition await_applied :: "('a, 'b) registry \<Rightarrow> ('b, unit) ks_op" where
  "await_applied R = synchronise R"

subsection \<open>Preparing a write\<close>

definition write_guard :: "('b, unit) ks_op" where
  "write_guard s =
     (let (a, s1) = next_answer s
      in if ba_result a = DeadlinePassed then (Inl OperationTimedOut, s1) else (Inr (), s1))"

definition election_unchanged :: "i32 \<Rightarrow> string \<Rightarrow> ('b, election_group option) ks_op" where
  "election_unchanged generation member s =
     (if (case ks_primary s of
            Some after \<Rightarrow> \<not> ps_is_primary after \<or> ps_generation_id after \<noteq> Some generation
              \<or> ps_member_id after \<noteq> Some member
          | None \<Rightarrow> False)
      then (Inl (UnknownLeader ''primary election changed while synchronizing the schema store''), s)
      else (Inr (Some (generation, member)), s))"

definition prepare_write :: "('a, 'b) registry \<Rightarrow> ('b, election_group option) ks_op" where
  "prepare_write R s = (case ks_primary s of
      None \<Rightarrow> ks_bind (synchronise R) (\<lambda>_. ks_return None) s
    | Some before \<Rightarrow>
        (case (ps_generation_id before, ps_member_id before) of
           (Some generation, Some member) \<Rightarrow>
             (if \<not> ps_is_primary before then (Inl (UnknownLeader ''node is not the elected primary''), s)
              else ks_bind (fence generation) (\<lambda>_. ks_bind (synchronise R) (\<lambda>_. election_unchanged generation member)) s)
         | _ \<Rightarrow> (Inl (UnknownLeader ''node is not the elected primary''), s)))"

subsection \<open>Running a decision\<close>

type_synonym ('b, 'v) decision = "(sr_error + 'v \<times> 'b raw_log) option"

fun produce_all :: "election_group option \<Rightarrow> 'b raw_log \<Rightarrow> ('b, unit) ks_op" where
  "produce_all grp [] s = (Inr (), s)"
| "produce_all grp ((k, v) # rest) s = ks_bind (produce grp k v) (\<lambda>_. produce_all grp rest) s"

definition write_through :: "('a, 'b) registry \<Rightarrow> (store_state \<Rightarrow> ('b, 'v) decision) \<Rightarrow> 'b kafka_store
    \<Rightarrow> (sr_error + 'v) option \<times> 'b kafka_store" where
  "write_through R decide s =
     (case ks_bind write_guard (\<lambda>_. prepare_write R) s of
        (Inl e, s1) \<Rightarrow> (Some (Inl e), s1)
      | (Inr grp, s1) \<Rightarrow>
          (case decide (ks_store s1) of
             None \<Rightarrow> (None, s1)
           | Some (Inl e) \<Rightarrow> (Some (Inl e), s1)
           | Some (Inr (v, recs)) \<Rightarrow>
               (if recs = [] then (Some (Inr v), s1)
                else case ks_bind (produce_all grp recs) (\<lambda>_. await_applied R) s1 of
                       (Inl e, s2) \<Rightarrow> (Some (Inl e), s2)
                     | (Inr _, s2) \<Rightarrow> (Some (Inr v), s2))))"

subsection \<open>The decisions\<close>

definition written :: "'b \<times> 'b \<Rightarrow> 'b \<times> 'b option" where
  "written kv = (fst kv, Some (snd kv))"

definition version_label :: "string \<Rightarrow> schema_version \<Rightarrow> string" where
  "version_label subject v = subject @ '':'' @ show_int (version_raw v)"

definition ensure_writable :: "store_state \<Rightarrow> string \<Rightarrow> sr_error + unit" where
  "ensure_writable s subject =
     (if effective_mode s subject = ''READONLY'' then Inl (OperationNotPermitted subject) else Inr ())"

record register_request =
  rq_subject :: string
  rq_ty :: schema_type
  rq_schema :: string
  rq_references :: "schema_reference list"
  rq_message_type :: "string option"
  rq_import_id :: "schema_id option"
  rq_import_version :: "schema_version option"

definition import_decision :: "('a, 'b) registry \<Rightarrow> register_request \<Rightarrow> resolved_reference list \<Rightarrow> string \<Rightarrow> store_state
    \<Rightarrow> sr_error + registered \<times> 'b raw_log" where
  "import_decision R q resolved schema s =
     (case (rq_import_id q, rq_import_version q) of
        (Some i, Some v) \<Rightarrow>
          rbind (parse (re_parsers R) (rq_ty q) schema resolved) (\<lambda>_.
          rbind (schema_id_conflicts (re_parsers R) s i (rq_ty q) schema (rq_references q) (rq_message_type q)) (\<lambda>conflict.
            if conflict then Inl (SchemaIdConflict i)
            else Inr (\<lparr>reg_id = i, reg_version = v\<rparr>,
              [written (encode_schema_with_message_type (re_codec R) (rq_subject q) v i (rq_ty q) schema
                 (rq_references q) (rq_message_type q))])))
      | _ \<Rightarrow> Inl (InvalidSchema ''IMPORT mode requires explicit id and version''))"

definition new_decision :: "('a, 'b) registry \<Rightarrow> register_request \<Rightarrow> string \<Rightarrow> store_state
    \<Rightarrow> sr_error + registered \<times> 'b raw_log" where
  "new_decision R q schema s =
     rbind (register (re_parsers R) s (rq_subject q) (rq_ty q) schema (rq_references q) (rq_message_type q)) (\<lambda>(reg, _).
       Inr (reg, [written (encode_schema_with_message_type (re_codec R) (rq_subject q) (reg_version reg) (reg_id reg)
         (rq_ty q) schema (rq_references q) (rq_message_type q))]))"

definition register_decision :: "('a, 'b) registry \<Rightarrow> register_request \<Rightarrow> store_state \<Rightarrow> ('b, registered) decision" where
  "register_decision R q s =
     (let mode = effective_mode s (rq_subject q)
      in if mode = ''READONLY'' then Some (Inl (OperationNotPermitted (rq_subject q)))
         else case resolve_closure s (rq_references q) of
                Inl e \<Rightarrow> Some (Inl e)
              | Inr resolved \<Rightarrow>
                  (case normalized_storage_form (re_parsers R) (rq_ty q) (rq_schema q) resolved of
                     Inl e \<Rightarrow> Some (Inl e)
                   | Inr schema \<Rightarrow>
                       (if mode = ''IMPORT'' then Some (import_decision R q resolved schema s)
                        else case find_under_subject (re_parsers R) s (rq_subject q) (rq_ty q) schema
                                    (rq_references q) (rq_message_type q) False of
                               Some existing \<Rightarrow> Some (Inr (existing, []))
                             | None \<Rightarrow>
                                 (case check_registration (re_parsers R) (re_depth R) s (rq_subject q) (rq_ty q) schema resolved of
                                    None \<Rightarrow> None
                                  | Some (Inl e) \<Rightarrow> Some (Inl e)
                                  | Some (Inr _) \<Rightarrow> Some (new_decision R q schema s)))))"

definition set_compat_decision :: "('a, 'b) registry \<Rightarrow> string option \<Rightarrow> string \<Rightarrow> store_state \<Rightarrow> ('b, unit) decision" where
  "set_compat_decision R subject level s =
     (let mode = (case subject of Some x \<Rightarrow> effective_mode s x | None \<Rightarrow> global_mode s)
      in Some (if mode = ''READONLY'' then Inl (OperationNotPermitted (unwrap_or subject ''global''))
               else Inr ((), [written (encode_config (re_codec R) subject level)])))"

definition delete_compat_decision :: "('a, 'b) registry \<Rightarrow> string \<Rightarrow> store_state \<Rightarrow> ('b, string option) decision" where
  "delete_compat_decision R subject s = (case subject_compat s subject of
      None \<Rightarrow> Some (Inr (None, []))
    | Some level \<Rightarrow> Some (Inr (Some level, [(config_key_bytes (re_codec R) (Some subject), None)])))"

definition protect :: "store_state \<Rightarrow> string \<Rightarrow> schema_version \<Rightarrow> sr_error + unit" where
  "protect s subject v =
     (if referenced_by s subject v False \<noteq> [] then Inl (ReferencedByOthers (version_label subject v)) else Inr ())"

fun protect_all :: "store_state \<Rightarrow> string \<Rightarrow> schema_version list \<Rightarrow> sr_error + unit" where
  "protect_all s subject [] = Inr ()"
| "protect_all s subject (v # vs) = rbind (protect s subject v) (\<lambda>_. protect_all s subject vs)"

definition soft_delete_version_decision :: "('a, 'b) registry \<Rightarrow> string \<Rightarrow> schema_version \<Rightarrow> store_state
    \<Rightarrow> ('b, schema_version) decision" where
  "soft_delete_version_decision R subject v s = Some (
     rbind (ensure_writable s subject) (\<lambda>_.
     if versions s subject True = None then Inl (SubjectNotFound subject)
     else rbind (ok_or (version s subject (Some v) True) VersionNotFound) (\<lambda>found.
          rbind (protect s subject v) (\<lambda>_.
            Inr (vs_version found,
              [written (encode_schema_deleted_with_message_type (re_codec R) subject (vs_version found) (vs_id found)
                 (vs_ty found) (vs_schema found) (vs_references found) (vs_message_type found, vs_extra found))])))))"

definition permanent_delete_version_decision :: "('a, 'b) registry \<Rightarrow> string \<Rightarrow> schema_version \<Rightarrow> store_state
    \<Rightarrow> ('b, schema_version) decision" where
  "permanent_delete_version_decision R subject v s = Some (
     rbind (ensure_writable s subject) (\<lambda>_.
     if versions s subject True = None then Inl (SubjectNotFound subject)
     else if version s subject (Some v) True = None then Inl VersionNotFound
     else if version s subject (Some v) False \<noteq> None then Inl (VersionNotSoftDeleted subject (version_raw v))
     else rbind (protect s subject v) (\<lambda>_.
       Inr (v, [written (encode_version_high_water (re_codec R) subject (next_version s subject)),
                (encode_tombstone (re_codec R) subject v, None)]))))"

definition soft_delete_subject_decision :: "('a, 'b) registry \<Rightarrow> string \<Rightarrow> store_state
    \<Rightarrow> ('b, schema_version list) decision" where
  "soft_delete_subject_decision R subject s = Some (
     rbind (ensure_writable s subject) (\<lambda>_.
     case versions s subject False of
       None \<Rightarrow> (if versions s subject True \<noteq> None then Inl (SubjectSoftDeleted subject) else Inl (SubjectNotFound subject))
     | Some vs \<Rightarrow>
         rbind (protect_all s subject vs) (\<lambda>_.
           Inr (vs, [written (encode_delete_subject (re_codec R) subject (fold max vs (SchemaVersion 0)))]))))"

definition permanent_delete_subject_decision :: "('a, 'b) registry \<Rightarrow> string \<Rightarrow> store_state
    \<Rightarrow> ('b, schema_version list) decision" where
  "permanent_delete_subject_decision R subject s = Some (
     rbind (ensure_writable s subject) (\<lambda>_.
     rbind (ok_or (versions s subject True) (SubjectNotFound subject)) (\<lambda>vs.
     if versions s subject False \<noteq> None then Inl (SubjectNotSoftDeleted subject)
     else rbind (protect_all s subject vs) (\<lambda>_.
       Inr (vs, written (encode_version_high_water (re_codec R) subject (next_version s subject))
                # map (\<lambda>v. (encode_tombstone (re_codec R) subject v, None)) vs
                @ [(config_key_bytes (re_codec R) (Some subject), None), (mode_key_bytes (re_codec R) (Some subject), None)])))))"

definition valid_modes :: "string list" where
  "valid_modes = [''READWRITE'', ''READONLY'', ''IMPORT'']"

definition global_mode_decision :: "('a, 'b) registry \<Rightarrow> string \<Rightarrow> store_state \<Rightarrow> ('b, unit) decision" where
  "global_mode_decision R mode s = Some (
     if mode = ''IMPORT'' \<and> subjects s True \<noteq> [] then Inl (OperationNotPermitted ''registry not empty'')
     else Inr ((), [written (encode_mode (re_codec R) None mode)]))"

definition subject_mode_decision :: "('a, 'b) registry \<Rightarrow> string \<Rightarrow> string \<Rightarrow> store_state \<Rightarrow> ('b, unit) decision" where
  "subject_mode_decision R subject mode s = Some (
     if mode = ''IMPORT'' \<and> versions s subject True \<noteq> None then Inl (OperationNotPermitted subject)
     else Inr ((), [written (encode_mode (re_codec R) (Some subject) mode)]))"

definition clear_mode_decision :: "('a, 'b) registry \<Rightarrow> string \<Rightarrow> store_state \<Rightarrow> ('b, unit) decision" where
  "clear_mode_decision R subject s = Some (Inr ((), [(mode_key_bytes (re_codec R) (Some subject), None)]))"

subsection \<open>The requests\<close>

text \<open>\<open>start\<close> on a topic: the initial barrier and its wait, which has no deadline but may be
  cancelled.\<close>

fun call_error :: "call_result \<Rightarrow> string" where
  "call_error (Errored e) = e"
| "call_error _ = ''schema-store operation timed out''"

definition await_barrier_rx :: "('a, 'b) registry \<Rightarrow> string \<Rightarrow> 'b kafka_store \<Rightarrow> (string + unit) \<times> 'b kafka_store" where
  "await_barrier_rx R token s =
     (let (a, s1) = interfere s; s2 = read_on R (ba_read a) s1
      in case ba_wait a of
           WaitSeen \<Rightarrow>
             (case barrier_end (barrier_key (re_codec R) token) (ks_topic s2) of
                Some n \<Rightarrow> (Inr (), read_past R n s2)
              | None \<Rightarrow> (Inl ''schema-store startup cancelled during replay'', s2))
         | WaitInvalidated fresh \<Rightarrow> (Inl ''schema topic was replaced during initial replay'', replace_topic R fresh s2)
         | WaitDeadline \<Rightarrow> (Inl ''schema-store startup cancelled during replay'', s2)
         | ReaderStopped \<Rightarrow> (Inl ''schema-store reader stopped during initial replay'', s2))"

text \<open>The state in which the reader is spawned.\<close>

definition ks_spawned :: "('a, 'b) registry \<Rightarrow> 'b raw_log \<Rightarrow> 'b broker_answer list \<Rightarrow> 'b kafka_store" where
  "ks_spawned R topic answers = \<lparr>ks_topic = topic, ks_topic_id = 0, ks_store = re_defaults R, ks_applied = 0, ks_rebuild = None,
     ks_primary = None, ks_fenced = None, ks_tokens = 1, ks_answers = answers\<rparr>"

definition ks_start :: "('a, 'b) registry \<Rightarrow> 'b raw_log \<Rightarrow> 'b broker_answer list \<Rightarrow> (string + unit) \<times> 'b kafka_store" where
  "ks_start R topic answers =
     (let token = re_token R 0;
          (r, s1) = produce_record (barrier_key (re_codec R) token) (Some (barrier_value (re_codec R)))
            (ks_spawned R topic answers)
      in if r \<noteq> Completed then (Inl (call_error r), snd (clear_barrier R token s1))
         else case await_barrier_rx R token s1 of
                (Inl e, s2) \<Rightarrow> (Inl e, snd (clear_barrier R token s2))
              | (Inr _, s2) \<Rightarrow>
                  (let (r', s3) = clear_barrier R token s2
                   in (Inr (), if r' = Completed then s3 else snd (clear_barrier R token s3))))"

definition ks_install_primary :: "primary_state \<Rightarrow> 'b kafka_store \<Rightarrow> 'b kafka_store" where
  "ks_install_primary p s = s\<lparr>ks_primary := Some p\<rparr>"

definition ks_register :: "('a, 'b) registry \<Rightarrow> register_request \<Rightarrow> 'b kafka_store
    \<Rightarrow> (sr_error + registered) option \<times> 'b kafka_store" where
  "ks_register R q = write_through R (register_decision R q)"

definition ks_set_compat :: "('a, 'b) registry \<Rightarrow> string option \<Rightarrow> string \<Rightarrow> 'b kafka_store
    \<Rightarrow> (sr_error + unit) option \<times> 'b kafka_store" where
  "ks_set_compat R subject level = write_through R (set_compat_decision R subject level)"

definition ks_delete_subject_compat :: "('a, 'b) registry \<Rightarrow> string \<Rightarrow> 'b kafka_store
    \<Rightarrow> (sr_error + string option) option \<times> 'b kafka_store" where
  "ks_delete_subject_compat R subject = write_through R (delete_compat_decision R subject)"

definition ks_soft_delete_version :: "('a, 'b) registry \<Rightarrow> string \<Rightarrow> schema_version \<Rightarrow> 'b kafka_store
    \<Rightarrow> (sr_error + schema_version) option \<times> 'b kafka_store" where
  "ks_soft_delete_version R subject v = write_through R (soft_delete_version_decision R subject v)"

definition ks_permanent_delete_version :: "('a, 'b) registry \<Rightarrow> string \<Rightarrow> schema_version \<Rightarrow> 'b kafka_store
    \<Rightarrow> (sr_error + schema_version) option \<times> 'b kafka_store" where
  "ks_permanent_delete_version R subject v = write_through R (permanent_delete_version_decision R subject v)"

definition ks_soft_delete_subject :: "('a, 'b) registry \<Rightarrow> string \<Rightarrow> 'b kafka_store
    \<Rightarrow> (sr_error + schema_version list) option \<times> 'b kafka_store" where
  "ks_soft_delete_subject R subject = write_through R (soft_delete_subject_decision R subject)"

definition ks_permanent_delete_subject :: "('a, 'b) registry \<Rightarrow> string \<Rightarrow> 'b kafka_store
    \<Rightarrow> (sr_error + schema_version list) option \<times> 'b kafka_store" where
  "ks_permanent_delete_subject R subject = write_through R (permanent_delete_subject_decision R subject)"

definition ks_set_global_mode :: "('a, 'b) registry \<Rightarrow> string \<Rightarrow> 'b kafka_store
    \<Rightarrow> (sr_error + unit) option \<times> 'b kafka_store" where
  "ks_set_global_mode R mode s =
     (if mode \<notin> set valid_modes then (Some (Inl (InvalidMode mode)), s)
      else write_through R (global_mode_decision R mode) s)"

definition ks_set_subject_mode :: "('a, 'b) registry \<Rightarrow> string \<Rightarrow> string \<Rightarrow> 'b kafka_store
    \<Rightarrow> (sr_error + unit) option \<times> 'b kafka_store" where
  "ks_set_subject_mode R subject mode s =
     (if mode \<notin> set valid_modes then (Some (Inl (InvalidMode mode)), s)
      else write_through R (subject_mode_decision R subject mode) s)"

definition ks_clear_subject_mode :: "('a, 'b) registry \<Rightarrow> string \<Rightarrow> 'b kafka_store
    \<Rightarrow> (sr_error + unit) option \<times> 'b kafka_store" where
  "ks_clear_subject_mode R subject = write_through R (clear_mode_decision R subject)"

text \<open>The mutating requests of the facade, and a history of them.\<close>

datatype ks_request =
    Register register_request
  | SetCompat "string option" string
  | DeleteSubjectCompat string
  | SoftDeleteVersion string schema_version
  | PermanentDeleteVersion string schema_version
  | SoftDeleteSubject string
  | PermanentDeleteSubject string
  | SetGlobalMode string
  | SetSubjectMode string string
  | ClearSubjectMode string

definition forget :: "(sr_error + 'v) option \<times> 'b kafka_store \<Rightarrow> (sr_error + unit) option \<times> 'b kafka_store" where
  "forget r = (map_option (\<lambda>x. rbind x (\<lambda>_. Inr ())) (fst r), snd r)"

fun ks_handle :: "('a, 'b) registry \<Rightarrow> ks_request \<Rightarrow> 'b kafka_store \<Rightarrow> (sr_error + unit) option \<times> 'b kafka_store" where
  "ks_handle R (Register q) s = forget (ks_register R q s)"
| "ks_handle R (SetCompat subject level) s = ks_set_compat R subject level s"
| "ks_handle R (DeleteSubjectCompat subject) s = forget (ks_delete_subject_compat R subject s)"
| "ks_handle R (SoftDeleteVersion subject v) s = forget (ks_soft_delete_version R subject v s)"
| "ks_handle R (PermanentDeleteVersion subject v) s = forget (ks_permanent_delete_version R subject v s)"
| "ks_handle R (SoftDeleteSubject subject) s = forget (ks_soft_delete_subject R subject s)"
| "ks_handle R (PermanentDeleteSubject subject) s = forget (ks_permanent_delete_subject R subject s)"
| "ks_handle R (SetGlobalMode mode) s = ks_set_global_mode R mode s"
| "ks_handle R (SetSubjectMode subject mode) s = ks_set_subject_mode R subject mode s"
| "ks_handle R (ClearSubjectMode subject) s = ks_clear_subject_mode R subject s"

definition ks_run :: "('a, 'b) registry \<Rightarrow> ks_request list \<Rightarrow> 'b kafka_store \<Rightarrow> 'b kafka_store" where
  "ks_run R requests s = fold (\<lambda>q s. snd (ks_handle R q s)) requests s"

text \<open>The states a started registry can get into: it handles requests and is told of elections, and between
  two requests the reader reads on, other writers append to the topic, the topic is replaced, and the brokers and
  clocks do whatever they do.\<close>

inductive ks_reachable :: "('a, 'b) registry \<Rightarrow> 'b kafka_store \<Rightarrow> bool" for R :: "('a, 'b) registry" where
  started: "ks_start R topic answers = (Inr (), s) \<Longrightarrow> ks_reachable R s"
| handled: "ks_reachable R s \<Longrightarrow> ks_reachable R (snd (ks_handle R q s))"
| elected: "ks_reachable R s \<Longrightarrow> ks_reachable R (ks_install_primary p s)"
| reads_on: "ks_reachable R s \<Longrightarrow> ks_reachable R (read_on R n s)"
| appended: "ks_reachable R s \<Longrightarrow> ks_reachable R (s\<lparr>ks_topic := ks_topic s @ records\<rparr>)"
| replaced: "ks_reachable R s \<Longrightarrow> ks_reachable R (replace_topic R fresh s)"
| environment: "ks_reachable R s \<Longrightarrow> ks_reachable R (s\<lparr>ks_answers := answers\<rparr>)"

end
