(* ===== verification/Kafkastore_Props.thy ===== *)
theory Kafkastore_Props
  imports Kafkastore Store_Queries Replay_Log
begin

text \<open>
  What the facade guarantees. Whatever the brokers, the other writers, the election and the reader do,
  the reader keeps the live store in step with the topic, also when the topic is replaced under it; a
  refused request writes nothing; a node that is not the primary writes nothing; and a version that the
  store has a live reference to is not deleted. Where no one else writes to the topic and acknowledged
  records are kept (\<open>honest\<close>), an answer is exactly the decision on what the topic stands for, and an
  acknowledged registration is visible in the live store.
\<close>

subsection \<open>The reader keeps up with the topic\<close>

text \<open>The state that a log stands for.\<close>

definition replay_of :: "('a, 'b) registry \<Rightarrow> 'b raw_log \<Rightarrow> store_state" where
  "replay_of R topic = replay (re_parsers R) (re_defaults R) (decode_log (re_codec R) topic)"

text \<open>Outside a rebuild the live store is the replay of what was read of the topic. In a rebuild that is
  the store being rebuilt, its end is ahead of the reader and in the topic, and the live store is still the
  replay of the log that it was read from.\<close>

definition tracked :: "('a, 'b) registry \<Rightarrow> 'b kafka_store \<Rightarrow> bool" where
  "tracked R s \<longleftrightarrow> ks_applied s \<le> length (ks_topic s) \<and>
     (case ks_rebuild s of
        None \<Rightarrow> ks_store s = replay_of R (take (ks_applied s) (ks_topic s))
      | Some rb \<Rightarrow> rb_store rb = replay_of R (take (ks_applied s) (ks_topic s)) \<and>
          int (ks_applied s) < rb_end_offset rb \<and> rb_end_offset rb \<le> int (length (ks_topic s)) \<and>
          (\<exists>former. ks_store s = replay_of R former))"

text \<open>A topic that is not replaced only grows, and the reader never goes back on it.\<close>

definition extended :: "'b kafka_store \<Rightarrow> 'b kafka_store \<Rightarrow> bool" where
  "extended s s' \<longleftrightarrow> (\<exists>ext. ks_topic s' = ks_topic s @ ext) \<and> ks_applied s \<le> ks_applied s'"

definition evolves :: "('a, 'b) registry \<Rightarrow> 'b kafka_store \<Rightarrow> 'b kafka_store \<Rightarrow> bool" where
  "evolves R s s' \<longleftrightarrow> (tracked R s \<longrightarrow> tracked R s') \<and> ks_topic_id s \<le> ks_topic_id s' \<and>
     (ks_topic_id s' = ks_topic_id s \<longrightarrow> extended s s')"

lemma extended_refl [simp]: "extended s s"
  by (simp add: extended_def)

lemma extended_trans: "extended s t \<Longrightarrow> extended t u \<Longrightarrow> extended s u"
  unfolding extended_def by (metis append.assoc le_trans)

lemma evolves_refl [simp]: "evolves R s s"
  by (simp add: evolves_def)

lemma evolves_trans: "evolves R s t \<Longrightarrow> evolves R t u \<Longrightarrow> evolves R s u"
  unfolding evolves_def by (metis extended_trans le_antisym le_trans)

lemma replay_of_append:
  "replay_of R (xs @ ys) = fold (apply_record (re_parsers R)) (decode_log (re_codec R) ys) (replay_of R xs)"
  by (simp add: replay_of_def replay_def decode_log_def)

lemma read_on_frame [simp]:
  "ks_topic (read_on R n s) = ks_topic s" "ks_topic_id (read_on R n s) = ks_topic_id s"
  "ks_answers (read_on R n s) = ks_answers s" "ks_primary (read_on R n s) = ks_primary s"
  "ks_fenced (read_on R n s) = ks_fenced s" "ks_tokens (read_on R n s) = ks_tokens s"
  by (simp_all add: read_on_def Let_def split: prod.splits)

lemma read_on_applied:
  "ks_applied (read_on R n s) = ks_applied s + min n (length (ks_topic s) - ks_applied s)"
  by (simp add: read_on_def Let_def min.commute split: prod.splits)

lemma read_on_tracked:
  assumes "tracked R s"
  shows "tracked R (read_on R n s)"
proof -
  let ?new = "take n (drop (ks_applied s) (ks_topic s))"
  have "take (ks_applied s + length ?new) (ks_topic s) = take (ks_applied s) (ks_topic s) @ ?new"
    by (simp add: take_add min_def)
  then have "fold (apply_record (re_parsers R)) (decode_log (re_codec R) ?new) (replay_of R (take (ks_applied s) (ks_topic s))) =
      replay_of R (take (ks_applied s + length ?new) (ks_topic s))"
    by (simp only: replay_of_append)
  then show ?thesis
    using assms by (auto simp: tracked_def read_on_def complete_rebuild_def Let_def split: option.splits)
qed

text \<open>A reader that has read to the end of the topic is out of every rebuild.\<close>

lemma read_past_end:
  assumes "tracked R s"
  shows "ks_store (read_past R (length (ks_topic s)) s) = replay_of R (ks_topic s)"
proof -
  let ?s = "read_past R (length (ks_topic s)) s"
  have s: "?s = read_on R (length (ks_topic s) - ks_applied s) s"
    using assms by (auto simp: read_past_def tracked_def split: option.splits)
  then have t: "tracked R ?s" and a: "ks_applied ?s = length (ks_topic s)" "ks_topic ?s = ks_topic s"
    using read_on_tracked [OF assms] assms by (simp_all add: read_on_applied tracked_def)
  show ?thesis using t a by (auto simp: tracked_def split: option.splits)
qed

lemma replace_topic_tracked: "tracked R (replace_topic R fresh s)" if "tracked R s"
proof -
  have "\<exists>former. ks_store s = replay_of R former" using that by (auto simp: tracked_def split: option.splits)
  then show ?thesis
    by (auto simp: tracked_def replace_topic_def begin_rebuild_def replay_of_def replay_def decode_log_def Let_def)
qed

lemma tracked_append: "tracked R s \<Longrightarrow> tracked R (s\<lparr>ks_topic := ks_topic s @ ext\<rparr>)"
  by (auto simp: tracked_def split: option.splits)

lemma tracked_cong:
  assumes "ks_topic s' = ks_topic s" "ks_applied s' = ks_applied s" "ks_store s' = ks_store s" "ks_rebuild s' = ks_rebuild s"
  shows "tracked R s' = tracked R s"
  unfolding tracked_def assms ..

lemma read_on_evolves: "evolves R s (read_on R n s)"
  by (simp add: evolves_def read_on_tracked extended_def read_on_applied)

lemma read_past_frame [simp]:
  "ks_topic (read_past R n s) = ks_topic s" "ks_topic_id (read_past R n s) = ks_topic_id s"
  "ks_answers (read_past R n s) = ks_answers s" "ks_primary (read_past R n s) = ks_primary s"
  "ks_fenced (read_past R n s) = ks_fenced s" "ks_tokens (read_past R n s) = ks_tokens s"
  by (simp_all add: read_past_def Let_def)

lemma replace_topic_frame [simp]:
  "ks_topic (replace_topic R fresh s) = fresh" "ks_topic_id (replace_topic R fresh s) = Suc (ks_topic_id s)"
  "ks_answers (replace_topic R fresh s) = ks_answers s" "ks_primary (replace_topic R fresh s) = ks_primary s"
  "ks_fenced (replace_topic R fresh s) = ks_fenced s" "ks_tokens (replace_topic R fresh s) = ks_tokens s"
  by (simp_all add: replace_topic_def Let_def split: prod.splits)

lemma replace_topic_evolves: "evolves R s (replace_topic R fresh s)"
  by (simp add: evolves_def replace_topic_tracked)

subsection \<open>How a call changes the topic\<close>

text \<open>Every record a call adds is another writer's or a barrier's.\<close>

definition barrier_record :: "('a, 'b) registry \<Rightarrow> 'b \<times> 'b option \<Rightarrow> bool" where
  "barrier_record R r \<longleftrightarrow> (\<exists>token. fst r = barrier_key (re_codec R) token)"

definition foreign :: "'b kafka_store \<Rightarrow> 'b \<times> 'b option \<Rightarrow> bool" where
  "foreign s r \<longleftrightarrow> (\<exists>a\<in>set (ks_answers s). r \<in> set (ba_others a))"

definition replacing :: "'b broker_answer \<Rightarrow> bool" where
  "replacing a \<longleftrightarrow> (\<exists>fresh. ba_wait a = WaitInvalidated fresh)"

definition silent :: "('a, 'b) registry \<Rightarrow> 'b kafka_store \<Rightarrow> 'b kafka_store \<Rightarrow> bool" where
  "silent R s s' \<longleftrightarrow> ks_topic_id s \<le> ks_topic_id s' \<and>
     (ks_topic_id s' = ks_topic_id s \<longrightarrow>
       (\<exists>ext. ks_topic s' = ks_topic s @ ext \<and> (\<forall>r\<in>set ext. foreign s r \<or> barrier_record R r))) \<and>
     (ks_topic_id s' = ks_topic_id s \<or> (\<exists>a\<in>set (ks_answers s). replacing a)) \<and>
     set (ks_answers s') \<subseteq> set (ks_answers s)"

lemma silent_refl [simp]: "silent R s s"
  by (simp add: silent_def)

lemma foreign_mono: "set (ks_answers t) \<subseteq> set (ks_answers s) \<Longrightarrow> foreign t r \<Longrightarrow> foreign s r"
  unfolding foreign_def by blast

lemma silent_trans:
  assumes "silent R s t" "silent R t u"
  shows "silent R s u"
proof -
  have a: "set (ks_answers t) \<subseteq> set (ks_answers s)" "set (ks_answers u) \<subseteq> set (ks_answers s)"
    "ks_topic_id s \<le> ks_topic_id t" "ks_topic_id t \<le> ks_topic_id u"
    "ks_topic_id u = ks_topic_id s \<or> (\<exists>a\<in>set (ks_answers s). replacing a)"
    using assms unfolding silent_def by auto
  have "\<exists>ext. ks_topic u = ks_topic s @ ext \<and> (\<forall>r\<in>set ext. foreign s r \<or> barrier_record R r)"
    if "ks_topic_id u = ks_topic_id s"
  proof -
    have "ks_topic_id t = ks_topic_id s" "ks_topic_id u = ks_topic_id t" using that a(3,4) by auto
    then obtain e1 e2 where e: "ks_topic t = ks_topic s @ e1" "\<forall>r\<in>set e1. foreign s r \<or> barrier_record R r"
        "ks_topic u = ks_topic t @ e2" "\<forall>r\<in>set e2. foreign t r \<or> barrier_record R r"
      using assms unfolding silent_def by blast
    then have "\<forall>r\<in>set (e1 @ e2). foreign s r \<or> barrier_record R r"
      using foreign_mono [OF a(1)] by (metis Un_iff set_append)
    then show ?thesis using e by (metis append.assoc)
  qed
  then show ?thesis using a unfolding silent_def by (auto intro: order_trans)
qed

lemma next_answer_state:
  "ks_topic (snd (next_answer s)) = ks_topic s" "ks_store (snd (next_answer s)) = ks_store s"
  "set (ks_answers (snd (next_answer s))) \<subseteq> set (ks_answers s)"
  "ks_answers s = [] \<and> fst (next_answer s) = success \<or> fst (next_answer s) \<in> set (ks_answers s)"
  "ks_topic_id (snd (next_answer s)) = ks_topic_id s" "ks_applied (snd (next_answer s)) = ks_applied s"
  "ks_rebuild (snd (next_answer s)) = ks_rebuild s"
  by (cases "ks_answers s"; auto simp: next_answer_def Let_def)+

lemma next_answer_others: "r \<in> set (ba_others (fst (next_answer s))) \<Longrightarrow> foreign s r"
  using next_answer_state(4) [of s] by (auto simp: foreign_def success_def)

lemma next_answer_steps [simp]: "evolves R s (snd (next_answer s))" "silent R s (snd (next_answer s))"
  using next_answer_state [of s] tracked_cong [of "snd (next_answer s)" s R]
  by (simp_all add: evolves_def silent_def extended_def)

lemma append_evolves: "evolves R s t \<Longrightarrow> evolves R s (t\<lparr>ks_topic := ks_topic t @ ext\<rparr>)"
  by (rule evolves_trans, assumption) (simp add: evolves_def extended_def tracked_append)

lemma produce_record_steps:
  "evolves R s (snd (produce_record k v s))"
  "barrier_record R (k, v) \<Longrightarrow> silent R s (snd (produce_record k v s))"
proof -
  show "evolves R s (snd (produce_record k v s))"
    using append_evolves [OF next_answer_steps(1), of R s] by (auto simp: produce_record_def split: prod.splits)
  show "barrier_record R (k, v) \<Longrightarrow> silent R s (snd (produce_record k v s))"
    using next_answer_state [of s] next_answer_others [of _ s]
    by (auto simp: produce_record_def silent_def split: prod.splits)
qed

lemma clear_barrier_steps [simp]:
  "evolves R s (snd (clear_barrier R token s))" "silent R s (snd (clear_barrier R token s))"
  unfolding clear_barrier_def
  by (rule produce_record_steps, rule produce_record_steps, auto simp: barrier_record_def)

lemma interfere_eq:
  "interfere s = (fst (next_answer s), (snd (next_answer s))\<lparr>ks_topic := ks_topic s @ ba_others (fst (next_answer s))\<rparr>)"
  using next_answer_state(1) [of s] by (auto simp: interfere_def split: prod.splits)

lemma others_steps:
  "evolves R s (snd (interfere s))" "silent R s (snd (interfere s))"
proof -
  show "evolves R s (snd (interfere s))"
    using append_evolves [OF next_answer_steps(1), of R s] by (auto simp: interfere_def split: prod.splits)
  show "silent R s (snd (interfere s))"
    using next_answer_state [of s] next_answer_others [of _ s]
    by (auto simp: interfere_def silent_def split: prod.splits)
qed

subsection \<open>Relations between the states of a call\<close>

text \<open>A relation that holds across the calls to the broker holds across the clean-up of barriers; one that also
  holds when the reader reads on or starts over on a replaced topic holds across a synchronisation; and one that
  ignores the producer's generation across the preparation of a write.\<close>

locale record_relation =
  fixes R :: "('a, 'b) registry" and rel :: "'b kafka_store \<Rightarrow> 'b kafka_store \<Rightarrow> bool"
  assumes refl: "rel s s"
    and trans: "rel s t \<Longrightarrow> rel t u \<Longrightarrow> rel s u"
    and answer: "rel s (snd (next_answer s))"
    and others: "rel s (snd (interfere s))"
    and barrier: "rel s (snd (produce_record (barrier_key (re_codec R) token) v s))"
    and tokens: "rel s (s\<lparr>ks_tokens := n\<rparr>)"
begin

lemma bind: "rel s (snd (f s)) \<Longrightarrow> (\<And>v t. rel t (snd (g v t))) \<Longrightarrow> rel s (snd (ks_bind f g s))"
  unfolding ks_bind_def by (auto split: prod.splits sum.splits intro: trans)

lemma clear: "rel s (snd (clear_barrier R token s))"
  unfolding clear_barrier_def by (rule barrier)

lemma order: "rel s (snd (order_barrier R s))"
proof -
  let ?s = "s\<lparr>ks_tokens := Suc (ks_tokens s)\<rparr>"
  let ?token = "re_token R (ks_tokens s)"
  let ?p = "produce_record (barrier_key (re_codec R) ?token) (Some (barrier_value (re_codec R))) ?s"
  have p: "rel s (snd ?p)" by (rule trans [OF tokens barrier])
  have "snd (order_barrier R s) = snd ?p \<or> snd (order_barrier R s) = snd (clear_barrier R ?token (snd ?p))"
    unfolding order_barrier_def Let_def by (auto split: prod.splits sum.splits)
  then show ?thesis using p trans [OF p clear, of ?token] by (elim disjE) simp_all
qed

lemma finish: "rel s (snd (finish_barrier R token s))"
  using clear [of s token] trans [OF clear clear, of s token token]
  by (cases "clear_barrier R token s") (auto simp: finish_barrier_def)

lemma guard: "rel s (snd (write_guard s))"
  using answer [of s] by (auto simp: write_guard_def split: prod.splits)

end

locale barrier_relation = record_relation R rel
  for R :: "('a, 'b) registry" and rel :: "'b kafka_store \<Rightarrow> 'b kafka_store \<Rightarrow> bool" +
  assumes reads: "rel s (read_on R n s)"
    and replaced: "ba_wait (fst (interfere s)) = WaitInvalidated fresh \<Longrightarrow>
      rel s (replace_topic R fresh (read_on R n (snd (interfere s))))"
begin

lemma past: "rel s (Kafkastore.read_past R n s)"
  unfolding read_past_def Let_def by (rule reads)

lemma await: "rel s (snd (await_barrier R token s))"
proof -
  have r: "rel s (read_on R n (snd (interfere s)))" for n by (rule trans [OF others reads])
  have "rel s (snd (clear_barrier R token (replace_topic R fresh (read_on R n (snd (interfere s))))))"
    if "ba_wait (fst (interfere s)) = WaitInvalidated fresh" for fresh n
    by (rule trans [OF replaced [OF that] clear])
  moreover have "rel s (snd (clear_barrier R token (read_on R n (snd (interfere s)))))" for n
    by (rule trans [OF r clear])
  moreover have "rel s (snd (finish_barrier R token (Kafkastore.read_past R m (read_on R n (snd (interfere s))))))" for m n
    by (rule trans [OF trans [OF r past] finish])
  ultimately show ?thesis
    by (auto simp: await_barrier_def Let_def split: prod.splits wait_result.splits option.splits)
qed

lemma await_rx: "rel s (snd (await_barrier_rx R token s))"
proof -
  have r: "rel s (read_on R n (snd (interfere s)))" for n by (rule trans [OF others reads])
  moreover have "rel s (Kafkastore.read_past R m (read_on R n (snd (interfere s))))" for m n by (rule trans [OF r past])
  ultimately show ?thesis
    using replaced [of s] by (auto simp: await_barrier_rx_def Let_def split: prod.splits wait_result.splits option.splits)
qed

lemma fenced_record:
  assumes "\<And>s. rel s (snd (produce_record k v s))"
  shows "rel s (snd (produce_fenced k v s))"
proof -
  let ?s1 = "snd (interfere s)" let ?s2 = "snd (interfere ?s1)" let ?s3 = "snd (interfere ?s2)"
  have 1: "rel s ?s1" by (rule others)
  have 2: "rel s ?s2" by (rule trans [OF 1 others])
  have 3: "rel s ?s3" by (rule trans [OF 2 others])
  have a: "rel s (abort_after r t)" if "rel s t" for r t
    using that trans [OF that others] by (cases r) (simp_all add: abort_after_def)
  show ?thesis
    using 1 a [OF 2] a [OF 3] trans [OF 3 assms]
    by (auto simp: produce_fenced_def Let_def split: prod.splits)
qed

lemma synchronise: "rel s (snd (synchronise R s))"
  unfolding synchronise_def by (rule bind [OF order await])

end

locale call_relation = barrier_relation R rel
  for R :: "('a, 'b) registry" and rel :: "'b kafka_store \<Rightarrow> 'b kafka_store \<Rightarrow> bool" +
  assumes fenced: "rel s (s\<lparr>ks_fenced := g\<rparr>)"
begin

lemma fence: "rel s (snd (Kafkastore.fence g s))"
  using answer [of s] trans [OF answer fenced, of s] refl by (cases "next_answer s") (auto simp: fence_def)

lemma prepare: "rel s (snd (prepare_write R s))"
proof -
  have "rel s (snd (ks_bind (Kafkastore.fence gen) (\<lambda>_. ks_bind (Kafkastore.synchronise R) (\<lambda>_. election_unchanged gen member)) s))"
    for gen member
    by (rule bind [OF fence]) (rule bind [OF synchronise], simp add: election_unchanged_def refl)
  moreover have "rel s (snd (ks_bind (Kafkastore.synchronise R) (\<lambda>_. ks_return None) s))"
    by (rule bind [OF synchronise]) (simp add: ks_return_def refl)
  ultimately show ?thesis using refl by (auto simp: prepare_write_def split: option.splits)
qed

lemma guarded: "rel s (snd (ks_bind write_guard (\<lambda>_. prepare_write R) s))"
  by (rule bind [OF guard prepare])

end

text \<open>A synchronisation keeps the producer's generation, and no step installs or removes the watch.\<close>

interpretation generation: barrier_relation R "\<lambda>s s'. ks_fenced s' = ks_fenced s" for R
  by unfold_locales (simp_all add: next_answer_def interfere_def produce_record_def Let_def)

interpretation watch: call_relation R "\<lambda>s s'. ks_primary s' = None \<longleftrightarrow> ks_primary s = None" for R
  by unfold_locales (simp_all add: next_answer_def interfere_def produce_record_def Let_def
      split: option.splits)

interpretation ev: call_relation R "evolves R" for R
proof
  fix s :: "'b kafka_store" and n
  show "evolves R s (s\<lparr>ks_tokens := n\<rparr>)"
    using tracked_cong [of "s\<lparr>ks_tokens := n\<rparr>" s R] by (simp add: evolves_def extended_def)
next
  fix s :: "'b kafka_store" and g
  show "evolves R s (s\<lparr>ks_fenced := g\<rparr>)"
    using tracked_cong [of "s\<lparr>ks_fenced := g\<rparr>" s R] by (simp add: evolves_def extended_def)
next
  fix s fresh n show "evolves R s (replace_topic R fresh (read_on R n (snd (interfere s))))"
    by (rule evolves_trans [OF evolves_trans [OF others_steps(1) read_on_evolves] replace_topic_evolves])
qed (auto intro: evolves_trans others_steps produce_record_steps read_on_evolves)

lemma silent_replaced:
  assumes "ba_wait (fst (interfere s)) = WaitInvalidated fresh"
  shows "silent R s (replace_topic R fresh (read_on R n (snd (interfere s))))"
proof -
  have "fst (next_answer s) \<noteq> success" using assms by (auto simp: interfere_eq success_def)
  then have "\<exists>a\<in>set (ks_answers s). replacing a"
    using next_answer_state(4) [of s] assms by (auto simp: interfere_eq replacing_def)
  then show ?thesis using next_answer_state [of s] by (simp add: silent_def interfere_eq)
qed

interpretation quiet_calls: call_relation R "silent R" for R
proof
  fix s token v show "silent R s (snd (produce_record (barrier_key (re_codec R) token) v s))"
    by (rule produce_record_steps) (auto simp: barrier_record_def)
qed (auto intro: silent_trans others_steps silent_replaced, simp_all add: silent_def foreign_def)

subsection \<open>The store is a replay of the topic\<close>

lemma produce_evolves: "evolves R s (snd (produce grp k v s))"
  using produce_record_steps(1) [of R s k v] ev.fenced_record [of R k v s, OF produce_record_steps(1)]
  by (cases grp) (auto simp: produce_def split: prod.splits)

lemma produce_all_evolves: "evolves R s (snd (produce_all grp recs s))"
proof (induction recs arbitrary: s)
  case (Cons r recs)
  show ?case
    by (cases r) (simp only: produce_all.simps, rule ev.bind [OF produce_evolves Cons.IH])
qed simp

text \<open>A call of the facade ends before its records are produced, or produces them.\<close>

lemma write_through_cases [consumes 1, case_names unprepared decided produced]:
  assumes "write_through R decide s = (r, s')"
  obtains e where "ks_bind write_guard (\<lambda>_. prepare_write R) s = (Inl e, s')" "r = Some (Inl e)"
  | u where "ks_bind write_guard (\<lambda>_. prepare_write R) s = (Inr u, s')"
      "decide (ks_store s') = None \<and> r = None \<or>
       (\<exists>e. decide (ks_store s') = Some (Inl e) \<and> r = Some (Inl e)) \<or>
       (\<exists>v. decide (ks_store s') = Some (Inr (v, [])) \<and> r = Some (Inr v))"
  | u s1 v recs x where "ks_bind write_guard (\<lambda>_. prepare_write R) s = (Inr u, s1)"
      "decide (ks_store s1) = Some (Inr (v, recs))" "recs \<noteq> []"
      "ks_bind (produce_all u recs) (\<lambda>_. await_applied R) s1 = (x, s')" "r = Some (map_sum (\<lambda>e. e) (\<lambda>_. v) x)"
proof -
  obtain g s1 where g: "ks_bind write_guard (\<lambda>_. prepare_write R) s = (g, s1)" by fastforce
  show thesis
  proof (cases g)
    case (Inl e)
    then show thesis using assms g that(1) [of e] by (simp add: write_through_def)
  next
    case (Inr u)
    consider "decide (ks_store s1) = None" | e where "decide (ks_store s1) = Some (Inl e)"
      | v where "decide (ks_store s1) = Some (Inr (v, []))"
      | v recs where "decide (ks_store s1) = Some (Inr (v, recs))" "recs \<noteq> []"
      by (metis option.exhaust sum.exhaust surj_pair)
    then show thesis
    proof cases
      case (4 v recs)
      obtain x s2 where x: "ks_bind (produce_all u recs) (\<lambda>_. await_applied R) s1 = (x, s2)" by fastforce
      show thesis
        by (rule that(3) [of u s1 v recs x]) (use assms g Inr 4 x in \<open>auto simp: write_through_def split: sum.splits\<close>)
    qed (use assms g Inr that(2) [of u] in \<open>auto simp: write_through_def\<close>)
  qed
qed

lemma write_through_evolves: "evolves R s (snd (write_through R decide s))"
proof -
  obtain r s' where w: "write_through R decide s = (r, s')" by fastforce
  then show ?thesis
  proof (cases rule: write_through_cases)
    case (unprepared e)
    then show ?thesis using ev.guarded [of R s] w by simp
  next
    case (decided u)
    then show ?thesis using ev.guarded [of R s] w by simp
  next
    case (produced u s1 v recs x)
    have "evolves R s1 (snd (ks_bind (produce_all u recs) (\<lambda>_. await_applied R) s1))"
      unfolding await_applied_def by (rule ev.bind [OF produce_all_evolves ev.synchronise])
    then show ?thesis using ev.guarded [of R s] w produced evolves_trans by fastforce
  qed
qed

lemma forget_state [simp]: "snd (forget r) = snd r"
  by (simp add: forget_def)

lemmas request_defs = ks_register_def ks_set_compat_def ks_delete_subject_compat_def
  ks_soft_delete_version_def ks_permanent_delete_version_def ks_soft_delete_subject_def
  ks_permanent_delete_subject_def ks_set_global_mode_def ks_set_subject_mode_def ks_clear_subject_mode_def

lemma ks_handle_evolves: "evolves R s (snd (ks_handle R q s))"
  by (cases q) (simp_all add: request_defs write_through_evolves)

lemma ks_run_evolves: "evolves R s (ks_run R qs s)"
proof (induction qs arbitrary: s)
  case (Cons q qs)
  have "ks_run R (q # qs) s = ks_run R qs (snd (ks_handle R q s))" by (simp add: ks_run_def)
  then show ?case using evolves_trans [OF ks_handle_evolves Cons.IH] by metis
qed (simp add: ks_run_def)

lemma ks_start_evolves: "evolves R (ks_spawned R topic answers) (snd (ks_start R topic answers))"
  (is "evolves R ?s0 _")
proof -
  let ?token = "re_token R 0"
  obtain r s1 where p: "produce_record (barrier_key (re_codec R) ?token) (Some (barrier_value (re_codec R))) ?s0 = (r, s1)"
    by fastforce
  obtain w s2 where w: "await_barrier_rx R ?token s1 = (w, s2)" by fastforce
  obtain c s3 where c: "clear_barrier R ?token s2 = (c, s3)" by fastforce
  have 1: "evolves R ?s0 s1" using ev.barrier [of R ?s0 ?token] p by (metis snd_conv)
  have "evolves R s1 s2" using w ev.await_rx [of R s1 ?token] by simp
  with 1 have 2: "evolves R ?s0 s2" by (rule evolves_trans)
  have 3: "evolves R ?s0 s3" using evolves_trans [OF 2 ev.clear [of R s2 ?token]] c by simp
  have "snd (ks_start R topic answers) \<in> {snd (clear_barrier R ?token s1), snd (clear_barrier R ?token s2), s3,
      snd (clear_barrier R ?token s3)}"
    using p w c by (auto simp: ks_start_def Let_def split: sum.splits)
  then show ?thesis
    using evolves_trans [OF 1 ev.clear] evolves_trans [OF 2 ev.clear] evolves_trans [OF 3 ev.clear] 3
    by auto
qed

lemma spawned_tracked: "tracked R (ks_spawned R topic answers)"
  by (simp add: tracked_def ks_spawned_def replay_of_def replay_def decode_log_def)

lemma reachable_tracked: "ks_reachable R s \<Longrightarrow> tracked R s"
proof (induction rule: ks_reachable.induct)
  case (started topic answers s)
  then show ?case using ks_start_evolves [of R topic answers] spawned_tracked [of R topic answers] by (simp add: evolves_def)
next
  case (handled s q)
  then show ?case using ks_handle_evolves [of R s q] by (simp add: evolves_def)
next
  case (elected s p)
  then show ?case using tracked_cong [of "ks_install_primary p s" s R] by (simp add: ks_install_primary_def)
next
  case (environment s answers)
  then show ?case using tracked_cong [of "s\<lparr>ks_answers := answers\<rparr>" s R] by simp
qed (simp_all add: read_on_tracked tracked_append replace_topic_tracked)

lemma replay_of_ok: "re_defaults R = with_defaults compatibility mode \<Longrightarrow> store_ok (replay_of R topic)"
  unfolding replay_of_def replay_def by (simp add: records.replay_ok [OF with_defaults_ok])


subsection \<open>Refused requests\<close>

text \<open>The errors that leave open whether a record was written.\<close>

fun in_doubt :: "sr_error \<Rightarrow> bool" where
  "in_doubt (Backend e) = True"
| "in_doubt OperationTimedOut = True"
| "in_doubt _ = False"

lemma call_outcome_in_doubt: "call_outcome r = Inl e \<Longrightarrow> in_doubt e"
  by (cases r) auto

lemma synchronise_in_doubt: "synchronise R s = (Inl e, s') \<Longrightarrow> in_doubt e"
  by (auto simp: synchronise_def ks_bind_def order_barrier_def await_barrier_def finish_barrier_def Let_def
      dest: call_outcome_in_doubt split: prod.splits sum.splits wait_result.splits option.splits if_splits)

lemma produce_all_in_doubt: "produce_all grp recs s = (Inl e, s') \<Longrightarrow> in_doubt e"
proof (induction recs arbitrary: s)
  case (Cons r recs)
  then show ?case
    by (cases r) (auto simp: ks_bind_def produce_def Let_def dest: call_outcome_in_doubt split: prod.splits sum.splits)
qed simp

lemma production_in_doubt:
  "ks_bind (produce_all grp recs) (\<lambda>_. await_applied R) s = (Inl e, s') \<Longrightarrow> in_doubt e"
  by (auto simp: ks_bind_def await_applied_def dest: produce_all_in_doubt synchronise_in_doubt
      split: prod.splits sum.splits)

text \<open>Only a backend failure can come with a replaced topic.\<close>

interpretation same_topic: record_relation R "\<lambda>s s'. ks_topic_id s' = ks_topic_id s" for R
  by unfold_locales (simp_all add: next_answer_def interfere_def produce_record_def Let_def)

lemma await_topic_id:
  assumes "await_barrier R token s = (r, s')"
  shows "ks_topic_id s' = ks_topic_id s \<or> (\<exists>m. r = Inl (Backend m))"
proof -
  obtain a s1 where i: "interfere s = (a, s1)" by fastforce
  let ?s2 = "read_on R (ba_read a) s1"
  have "ks_topic_id s1 = ks_topic_id s" using same_topic.others [of s] i by simp
  then have "ks_topic_id (snd (clear_barrier R token ?s2)) = ks_topic_id s"
    "ks_topic_id (snd (finish_barrier R token (read_past R n ?s2))) = ks_topic_id s" for n
    using same_topic.clear [of R token ?s2] same_topic.finish [of R token "read_past R n ?s2"] by simp_all
  then show ?thesis
    using assms i by (auto simp: await_barrier_def Let_def split: wait_result.splits option.splits) (metis snd_conv)+
qed

lemma synchronise_topic_id:
  assumes "synchronise R s = (r, s')"
  shows "ks_topic_id s' = ks_topic_id s \<or> (\<exists>m. r = Inl (Backend m))"
proof -
  obtain x s1 where o1: "order_barrier R s = (x, s1)" by fastforce
  then have "ks_topic_id s1 = ks_topic_id s" using same_topic.order [of R s] by simp
  then show ?thesis
    using assms o1 await_topic_id [of R _ s1 r s'] by (cases x) (auto simp: synchronise_def ks_bind_def)
qed

lemma fence_topic_id: "ks_topic_id (snd (fence g s)) = ks_topic_id s"
  using next_answer_state(5) [of s] by (auto simp: fence_def split: prod.splits)

lemma prepare_topic_id:
  assumes "prepare_write R s = (r, s')"
  shows "ks_topic_id s' = ks_topic_id s \<or> (\<exists>m. r = Inl (Backend m))"
proof -
  have f: "fence g s = (x, s1) \<Longrightarrow> ks_topic_id s1 = ks_topic_id s" for g x s1
    using fence_topic_id [of g s] by simp
  show ?thesis
    using assms
    by (auto simp: prepare_write_def ks_bind_def ks_return_def election_unchanged_def
        dest!: f synchronise_topic_id split: prod.splits sum.splits option.splits if_splits)
qed

lemma prepared_topic_id:
  assumes "ks_bind write_guard (\<lambda>_. prepare_write R) s = (r, s')"
  shows "ks_topic_id s' = ks_topic_id s \<or> (\<exists>m. r = Inl (Backend m))"
proof -
  obtain x s1 where g: "write_guard s = (x, s1)" by fastforce
  then have "ks_topic_id s1 = ks_topic_id s" using same_topic.guard [of s] by simp
  then show ?thesis using assms g prepare_topic_id [of R s1 r s'] by (cases x) (auto simp: ks_bind_def)
qed

lemma write_through_refused:
  assumes "write_through R decide s = (Some (Inl e), s')" "\<not> in_doubt e"
  shows "silent R s s' \<and> ks_topic_id s' = ks_topic_id s"
  using assms(1)
proof (cases rule: write_through_cases)
  case (unprepared e')
  then show ?thesis using quiet_calls.guarded [of R s] prepared_topic_id [OF unprepared(1)] assms(2) by auto
next
  case (decided u)
  then show ?thesis using quiet_calls.guarded [of R s] prepared_topic_id [OF decided(1)] by simp
next
  case (produced u s1 v recs x)
  then have "x = Inl e" by (cases x) auto
  then show ?thesis using produced production_in_doubt assms(2) by blast
qed

text \<open>What a request decides on a store, with the value it returns dropped.\<close>

definition drop_value :: "('b, 'v) decision \<Rightarrow> ('b, unit) decision" where
  "drop_value d = map_option (\<lambda>r. rbind r (\<lambda>(_, recs). Inr ((), recs))) d"

fun request_decision :: "('a, 'b) registry \<Rightarrow> ks_request \<Rightarrow> store_state \<Rightarrow> ('b, unit) decision" where
  "request_decision R (Register q) = (\<lambda>t. drop_value (register_decision R q t))"
| "request_decision R (SetCompat subject level) = set_compat_decision R subject level"
| "request_decision R (DeleteSubjectCompat subject) = (\<lambda>t. drop_value (delete_compat_decision R subject t))"
| "request_decision R (SoftDeleteVersion subject v) = (\<lambda>t. drop_value (soft_delete_version_decision R subject v t))"
| "request_decision R (PermanentDeleteVersion subject v) = (\<lambda>t. drop_value (permanent_delete_version_decision R subject v t))"
| "request_decision R (SoftDeleteSubject subject) = (\<lambda>t. drop_value (soft_delete_subject_decision R subject t))"
| "request_decision R (PermanentDeleteSubject subject) = (\<lambda>t. drop_value (permanent_delete_subject_decision R subject t))"
| "request_decision R (SetGlobalMode mode) =
    (if mode \<notin> set valid_modes then (\<lambda>_. Some (Inl (InvalidMode mode))) else global_mode_decision R mode)"
| "request_decision R (SetSubjectMode subject mode) =
    (if mode \<notin> set valid_modes then (\<lambda>_. Some (Inl (InvalidMode mode))) else subject_mode_decision R subject mode)"
| "request_decision R (ClearSubjectMode subject) = clear_mode_decision R subject"

lemma drop_value_simps [simp]:
  "drop_value None = None" "drop_value (Some (Inl e)) = Some (Inl e)"
  "drop_value (Some (Inr (v, recs))) = Some (Inr ((), recs))"
  by (simp_all add: drop_value_def)

lemma forget_write_through:
  "forget (write_through R d s) = write_through R (\<lambda>t. drop_value (d t)) s"
proof -
  obtain r s' where w: "write_through R d s = (r, s')" by fastforce
  then show ?thesis
  proof (cases rule: write_through_cases)
    case (produced u s1 v recs x)
    then show ?thesis by (cases x) (simp_all add: w forget_def write_through_def)
  qed (auto simp: w forget_def write_through_def)
qed

text \<open>A request is refused for its mode before the facade is entered, or is run.\<close>

lemma ks_handle_cases:
  "ks_handle R q s = write_through R (request_decision R q) s \<or>
   (\<exists>m. ks_handle R q s = (Some (Inl (InvalidMode m)), s) \<and> (\<forall>t. request_decision R q t = Some (Inl (InvalidMode m))))"
  by (cases q) (simp_all add: request_defs forget_write_through)

text \<open>C32: a request that is answered with an error other than a backend failure or a timeout has
  written nothing: the records the topic gained meanwhile are other writers' records and the
  facade's own barriers.\<close>

theorem refused_request_writes_nothing:
  assumes "ks_handle R q s = (Some (Inl e), s')" "\<not> in_doubt e"
  shows "\<exists>ext. ks_topic s' = ks_topic s @ ext \<and>
    (\<forall>r\<in>set ext. (\<exists>a\<in>set (ks_answers s). r \<in> set (ba_others a)) \<or>
      (\<exists>token. fst r = barrier_key (re_codec R) token))"
proof -
  have "silent R s s'" "ks_topic_id s' = ks_topic_id s"
    using ks_handle_cases [of R q s] assms write_through_refused by fastforce+
  then show ?thesis unfolding silent_def foreign_def barrier_record_def by simp
qed

subsection \<open>Requests in the absence of other writers\<close>

text \<open>The state the topic stands for.\<close>

definition topic_store :: "('a, 'b) registry \<Rightarrow> 'b kafka_store \<Rightarrow> store_state" where
  "topic_store R s = replay_of R (ks_topic s)"

text \<open>An acknowledged record is in the topic, no one else writes to it, and it is not replaced during the call.\<close>

definition honest :: "'b kafka_store \<Rightarrow> bool" where
  "honest s \<longleftrightarrow> (\<forall>a\<in>set (ks_answers s). (ba_result a = Completed \<longrightarrow> ba_landed a) \<and> ba_others a = [] \<and> \<not> replacing a)"

lemma decode_barrier: "codec_roundtrip C \<Longrightarrow> decode C (barrier_key C token) v = Noop"
  by (simp add: decode_def barrier_key_def keytype_of_to_vec as_str_def decode_noop_def de_high_water_key_def
      struct_members_def de_field_def)

lemma apply_noops: "\<forall>r\<in>set rs. r = Noop \<Longrightarrow> fold (apply_record X) rs s = s"
  by (induction rs) (simp_all add: apply_record_def)

lemma silent_topic_store:
  assumes "codec_roundtrip (re_codec R)" "honest s" "silent R s s'"
  shows "honest s'" "topic_store R s' = topic_store R s"
proof -
  have "ks_topic_id s' = ks_topic_id s" using assms(2,3) unfolding silent_def honest_def by blast
  then obtain ext where e: "ks_topic s' = ks_topic s @ ext" "\<forall>r\<in>set ext. foreign s r \<or> barrier_record R r"
      "set (ks_answers s') \<subseteq> set (ks_answers s)"
    using assms(3) unfolding silent_def by blast
  show "honest s'" using assms(2) e(3) unfolding honest_def by blast
  have "r = Noop" if r: "r \<in> set (decode_log (re_codec R) ext)" for r
  proof -
    obtain k v where kv: "(k, v) \<in> set ext" "r = decode (re_codec R) k v" using r by (auto simp: decode_log_def)
    then have "barrier_record R (k, v)" using e(2) assms(2) by (fastforce simp: foreign_def honest_def)
    then show ?thesis using kv(2) decode_barrier [OF assms(1)] by (auto simp: barrier_record_def)
  qed
  then have "fold (apply_record (re_parsers R)) (decode_log (re_codec R) ext) t = t" for t
    by (intro apply_noops ballI)
  then show "topic_store R s' = topic_store R s"
    using e(1) by (simp add: topic_store_def replay_of_append)
qed

lemma clear_barrier_store [simp]: "ks_store (snd (clear_barrier R token s)) = ks_store s"
  using next_answer_state(2) [of s] by (auto simp: clear_barrier_def produce_record_def split: prod.splits)

lemma finish_barrier_store: "ks_store (snd (finish_barrier R token s)) = ks_store s"
  using clear_barrier_store [of R token s]
  by (cases "clear_barrier R token s") (auto simp: finish_barrier_def)

lemma honest_interfere:
  assumes "honest s"
  shows "honest (snd (interfere s))" "ks_topic (snd (interfere s)) = ks_topic s"
  using assms next_answer_state [of s] by (auto simp: interfere_def honest_def success_def split: prod.splits)

lemma barrier_end_last: "barrier_end k (topic @ [(k, v)]) = Some (Suc (length topic))"
  by (simp add: barrier_end_def)

lemma order_landed:
  assumes "honest s" "order_barrier R s = (Inr token, s1)"
  shows "\<exists>topic v. ks_topic s1 = topic @ [(barrier_key (re_codec R) token, v)]"
proof -
  let ?s = "s\<lparr>ks_tokens := Suc (ks_tokens s)\<rparr>"
  obtain r t where p: "produce_record (barrier_key (re_codec R) (re_token R (ks_tokens s))) (Some (barrier_value (re_codec R))) ?s = (r, t)"
    by fastforce
  then have "call_outcome r = Inr ()" "token = re_token R (ks_tokens s)" "s1 = t"
    using assms(2) by (auto simp: order_barrier_def Let_def split: sum.splits)
  moreover from this(1) have "r = Completed" by (cases r) auto
  ultimately show ?thesis
    using p next_answer_state(4) [of ?s] assms(1)
    by (auto simp: produce_record_def honest_def success_def split: prod.splits)
qed

lemma synchronise_synced:
  assumes "codec_roundtrip (re_codec R)" "honest s" "tracked R s" "synchronise R s = (Inr u, s')"
  shows "ks_store s' = topic_store R s'"
proof -
  obtain token s1 where o1: "order_barrier R s = (Inr token, s1)" "await_barrier R token s1 = (Inr u, s')"
    using assms(4) by (auto simp: synchronise_def ks_bind_def split: prod.splits sum.splits)
  obtain a s2 where i: "interfere s1 = (a, s2)" by fastforce
  have h1: "honest s1" using silent_topic_store(1) [OF assms(1,2)] quiet_calls.order [of R s] o1(1) by simp
  have h2: "honest s2" "ks_topic s2 = ks_topic s1" using honest_interfere [OF h1] i by simp_all
  let ?s3 = "read_on R (ba_read a) s2"
  have "evolves R s s1" using ev.order [of R s] o1(1) by simp
  from evolves_trans [OF this] have "evolves R s s2" using ev.others [of R s1] i by simp
  then have "tracked R s2" using assms(3) by (simp add: evolves_def)
  then have t3: "tracked R ?s3" by (rule read_on_tracked)
  let ?s4 = "read_past R (length (ks_topic s1)) ?s3"
  have "barrier_end (barrier_key (re_codec R) token) (ks_topic ?s3) = Some (length (ks_topic s1))"
    using order_landed [OF assms(2) o1(1)] h2(2) by (auto simp: barrier_end_last)
  then have f: "finish_barrier R token ?s4 = (Inr u, s')"
    using o1(2) i by (auto simp: await_barrier_def Let_def split: wait_result.splits)
  have "honest ?s4" using h2(1) by (simp add: honest_def)
  moreover have "silent R ?s4 s'" using quiet_calls.finish [of R ?s4 token] f by simp
  ultimately have "topic_store R s' = topic_store R ?s4" by (rule silent_topic_store(2) [OF assms(1)])
  moreover have "ks_store s' = ks_store ?s4" using f finish_barrier_store [of R token ?s4] by simp
  moreover have "ks_store ?s4 = replay_of R (ks_topic s1)" using read_past_end [OF t3] h2(2) by simp
  ultimately show ?thesis using h2(2) by (simp add: topic_store_def)
qed

lemma prepared_synced:
  assumes "codec_roundtrip (re_codec R)" "honest s" "tracked R s" "ks_bind write_guard (\<lambda>_. prepare_write R) s = (Inr u, s')"
  shows "ks_store s' = topic_store R s'"
proof -
  obtain s1 u1 where g: "write_guard s = (Inr u1, s1)" "prepare_write R s1 = (Inr u, s')"
    using assms(4) by (auto simp: ks_bind_def split: prod.splits sum.splits)
  have h1: "honest s1" using silent_topic_store(1) [OF assms(1,2)] quiet_calls.guard [of R s] g(1) by simp
  have t1: "tracked R s1" using ev.guard [of R s] g(1) assms(3) by (simp add: evolves_def)
  show ?thesis
  proof (cases "ks_primary s1")
    case None
    then have "synchronise R s1 = (Inr (), s')"
      using g(2) by (auto simp: prepare_write_def ks_bind_def ks_return_def split: prod.splits sum.splits)
    then show ?thesis by (rule synchronise_synced [OF assms(1) h1 t1])
  next
    case (Some before)
    then obtain gen u2 s2 where f: "fence gen s1 = (Inr u2, s2)" "synchronise R s2 = (Inr (), s')"
      using g(2) by (auto simp: prepare_write_def ks_bind_def election_unchanged_def
          split: prod.splits sum.splits option.splits if_splits)
    have "honest s2" using silent_topic_store(1) [OF assms(1) h1] quiet_calls.fence [of R s1 gen] f(1) by simp
    moreover have "tracked R s2" using ev.fence [of R s1 gen] f(1) t1 by (simp add: evolves_def)
    ultimately show ?thesis using synchronise_synced [OF assms(1) _ _ f(2)] by simp
  qed
qed

lemma honest_abort:
  assumes "honest s"
  shows "honest (abort_after r s)" "ks_topic (abort_after r s) = ks_topic s"
  using honest_interfere [OF assms] assms by (cases r; simp add: abort_after_def)+

definition lands :: "'b kafka_store \<Rightarrow> 'b \<times> 'b option \<Rightarrow> call_result \<times> 'b kafka_store \<Rightarrow> bool" where
  "lands s r = (\<lambda>(c, s'). honest s' \<and> (ks_topic s' = ks_topic s \<or> ks_topic s' = ks_topic s @ [r]) \<and>
     (c = Completed \<longrightarrow> ks_topic s' = ks_topic s @ [r]))"

lemma honest_record: "honest s \<Longrightarrow> lands s (k, v) (produce_record k v s)"
  using next_answer_state [of s] by (auto simp: lands_def produce_record_def honest_def success_def split: prod.splits)

lemma honest_fenced:
  assumes "honest s"
  shows "lands s (k, v) (produce_fenced k v s)"
proof -
  let ?s1 = "snd (interfere s)" let ?s2 = "snd (interfere ?s1)" let ?s3 = "snd (interfere ?s2)"
  note h1 = honest_interfere [OF assms] note h2 = honest_interfere [OF h1(1)] note h3 = honest_interfere [OF h2(1)]
  have "lands s (k, v) (produce_record k v ?s3)"
    using honest_record [OF h3(1), of k v] h1 h2 h3 by (simp add: lands_def)
  then show ?thesis
    using h1 h2 h3 honest_abort [OF h2(1)] honest_abort [OF h3(1)]
    by (auto simp: produce_fenced_def Let_def lands_def split: prod.splits)
qed

lemma produce_all_prefix:
  assumes "honest s" "produce_all grp recs s = (x, s')"
  shows "honest s' \<and> (\<exists>n. ks_topic s' = ks_topic s @ take n recs \<and> (x = Inr () \<longrightarrow> take n recs = recs))"
  using assms
proof (induction recs arbitrary: s)
  case (Cons r recs)
  obtain k v where r: "r = (k, v)" by fastforce
  obtain c s1 where p: "(case grp of Some _ \<Rightarrow> produce_fenced k v s | None \<Rightarrow> produce_record k v s) = (c, s1)" by fastforce
  have "lands s r (c, s1)"
    using honest_record [OF Cons.prems(1), of k v] honest_fenced [OF Cons.prems(1), of k v] p r by (cases grp) auto
  then have h1: "honest s1" and land: "ks_topic s1 = ks_topic s \<or> ks_topic s1 = ks_topic s @ [r]"
    "c = Completed \<longrightarrow> ks_topic s1 = ks_topic s @ [r]"
    by (auto simp: lands_def)
  have q: "produce grp k v s = (call_outcome c, s1)" by (simp add: produce_def p)
  show ?case
  proof (cases c)
    case Completed
    then have "produce_all grp recs s1 = (x, s')" using Cons.prems(2) q r by (simp add: ks_bind_def)
    from Cons.IH [OF h1 this] obtain n where "honest s'" "ks_topic s' = ks_topic s1 @ take n recs"
      "x = Inr () \<longrightarrow> take n recs = recs" by blast
    then show ?thesis using land(2) Completed by (intro conjI exI [of _ "Suc n"]) simp_all
  qed (use Cons.prems(2) q r h1 land(1) in \<open>auto simp: ks_bind_def intro: exI [of _ 0] exI [of _ "Suc 0"]\<close>)
qed simp

lemma topic_store_append:
  assumes "ks_topic s' = ks_topic s @ recs"
  shows "topic_store R s' = fold (apply_record (re_parsers R)) (decode_log (re_codec R) recs) (topic_store R s)"
  using assms by (simp add: topic_store_def replay_of_append)

lemma production_prefix:
  assumes "codec_roundtrip (re_codec R)" "honest s" "tracked R s"
    and "ks_bind (produce_all grp recs) (\<lambda>_. await_applied R) s = (x, s')"
  shows "\<exists>n. topic_store R s' =
      fold (apply_record (re_parsers R)) (decode_log (re_codec R) (take n recs)) (topic_store R s) \<and>
    (x = Inr () \<longrightarrow> take n recs = recs \<and> ks_store s' = topic_store R s')"
proof -
  obtain y s1 where p: "produce_all grp recs s = (y, s1)" by fastforce
  obtain n where n: "honest s1" "ks_topic s1 = ks_topic s @ take n recs" "y = Inr () \<longrightarrow> take n recs = recs"
    using produce_all_prefix [OF assms(2) p] by blast
  have t1: "tracked R s1" using produce_all_evolves [of R s grp recs] p assms(3) by (simp add: evolves_def)
  show ?thesis
  proof (cases y)
    case (Inl e)
    then have "s' = s1" "x = Inl e" using assms(4) p by (simp_all add: ks_bind_def)
    then show ?thesis using topic_store_append [OF n(2)] by auto
  next
    case (Inr u)
    then have w: "synchronise R s1 = (x, s')" using assms(4) p by (simp add: ks_bind_def await_applied_def)
    then have "silent R s1 s'" using quiet_calls.synchronise [of R s1] by simp
    then have "topic_store R s' = topic_store R s1" by (rule silent_topic_store(2) [OF assms(1) n(1)])
    moreover have "ks_store s' = topic_store R s'" if "x = Inr ()"
      using synchronise_synced [OF assms(1) n(1) t1] w that by blast
    ultimately show ?thesis using topic_store_append [OF n(2)] n(3) Inr by (intro exI [of _ n]) simp
  qed
qed

text \<open>What a request's answer says of the store the topic stands for before (\<open>t\<close>) and after it.\<close>

fun answer_ok :: "('a, 'b) registry \<Rightarrow> ('b, 'v) decision \<Rightarrow> store_state \<Rightarrow> (sr_error + 'v) option \<Rightarrow> store_state \<Rightarrow> bool" where
  "answer_ok R d t None t' \<longleftrightarrow> d = None \<and> t' = t"
| "answer_ok R d t (Some (Inr v)) t' \<longleftrightarrow>
    (\<exists>recs. d = Some (Inr (v, recs)) \<and> t' = fold (apply_record (re_parsers R)) (decode_log (re_codec R) recs) t)"
| "answer_ok R d t (Some (Inl e)) t' \<longleftrightarrow>
    t' = t \<and> (d = Some (Inl e) \<or> in_doubt e \<or> (\<exists>m. e = UnknownLeader m)) \<or>
    in_doubt e \<and> (\<exists>v recs n. d = Some (Inr (v, recs)) \<and>
      t' = fold (apply_record (re_parsers R)) (decode_log (re_codec R) (take n recs)) t)"

lemma prepare_errors:
  "ks_bind write_guard (\<lambda>_. prepare_write R) s = (Inl e, s') \<Longrightarrow> in_doubt e \<or> (\<exists>m. e = UnknownLeader m)"
  by (auto simp: ks_bind_def ks_return_def write_guard_def prepare_write_def fence_def election_unchanged_def Let_def
      dest: call_outcome_in_doubt synchronise_in_doubt split: prod.splits sum.splits option.splits if_splits)

lemma write_through_answer:
  assumes "codec_roundtrip (re_codec R)" "honest s" "tracked R s" "write_through R decide s = (r, s')"
  shows "answer_ok R (decide (topic_store R s)) (topic_store R s) r (topic_store R s') \<and>
    ((\<exists>u. r = Some (Inr u)) \<longrightarrow> ks_store s' = topic_store R s')"
  using assms(4)
proof (cases rule: write_through_cases)
  case (unprepared e)
  then have "silent R s s'" using quiet_calls.guarded [of R s] by simp
  from silent_topic_store(2) [OF assms(1,2) this] show ?thesis
    using unprepared(2) prepare_errors [OF unprepared(1)] by auto
next
  case (decided u)
  then have "silent R s s'" using quiet_calls.guarded [of R s] by simp
  from silent_topic_store(2) [OF assms(1,2) this] show ?thesis
    using decided prepared_synced [OF assms(1-3) decided(1)] by (auto simp: decode_log_def)
next
  case (produced u s1 v recs x)
  then have "silent R s s1" using quiet_calls.guarded [of R s] by simp
  note t = silent_topic_store [OF assms(1,2) this]
  from produced prepared_synced [OF assms(1-3) produced(1)] t(2)
  have d: "decide (topic_store R s) = Some (Inr (v, recs))" by simp
  have "tracked R s1" using ev.guarded [of R s] produced(1) assms(3) by (simp add: evolves_def)
  then obtain n where "topic_store R s' =
      fold (apply_record (re_parsers R)) (decode_log (re_codec R) (take n recs)) (topic_store R s)"
    "x = Inr () \<longrightarrow> take n recs = recs \<and> ks_store s' = topic_store R s'"
    using production_prefix [OF assms(1) t(1) _ produced(4)] unfolding t(2) by blast
  then show ?thesis
    using d produced(5) production_in_doubt [of u recs R s1 _ s'] produced(4) by (cases x) auto
qed

lemma ks_handle_answer:
  assumes "codec_roundtrip (re_codec R)" "honest s" "tracked R s" "ks_handle R q s = (r, s')"
  shows "answer_ok R (request_decision R q (topic_store R s)) (topic_store R s) r (topic_store R s') \<and>
    ((\<exists>u. r = Some (Inr u)) \<longrightarrow> ks_store s' = topic_store R s')"
  using ks_handle_cases [of R q s]
proof
  assume "ks_handle R q s = write_through R (request_decision R q) s"
  with assms(4) show ?thesis by (intro write_through_answer [OF assms(1-3)]) simp
qed (use assms(4) in auto)

text \<open>C1: when no one else writes to the topic, acknowledged records are kept and the topic is not replaced
  during the call, the facade refines the requests' decisions, from every state in which the reader keeps the
  store in step with the topic, as it does in every reachable state: on the store the topic stands for, a request
  that is answered with success has decided so and the topic stands for the store with its records applied, which
  the live store then is; a refusal is the decision's own, or the refusal of a node that does not lead, and changes
  nothing; after a failure or a timeout a prefix of its records may have been applied.\<close>

theorem facade_refines_decisions:
  assumes "codec_roundtrip (re_codec R)" "honest s" "tracked R s" "ks_handle R q s = (r, s')"
  shows "answer_ok R (request_decision R q (topic_store R s)) (topic_store R s) r (topic_store R s') \<and>
    ((\<exists>u. r = Some (Inr u)) \<longrightarrow> ks_store s' = topic_store R s')"
  by (rule ks_handle_answer [OF assms])

subsection \<open>Leadership\<close>

lemma fence_generation: "fence g s = (Inr u, s') \<Longrightarrow> ks_fenced s' = Some g"
  by (auto simp: fence_def Let_def split: prod.splits if_splits) (metis call_outcome.elims sum.distinct(1))

text \<open>C28: where an election is installed, a request reaches the point where it decides and
  produces only while the watch, read after the synchronisation, names this node the primary, in the
  generation its transactional producer is fenced for.\<close>

theorem writes_need_fenced_leadership:
  assumes "ks_bind write_guard (\<lambda>_. prepare_write R) s = (Inr u, s')" "ks_primary s \<noteq> None"
  shows "\<exists>p g. ks_primary s' = Some p \<and> ps_is_primary p \<and> ps_generation_id p = Some g \<and> ks_fenced s' = Some g"
proof -
  obtain u1 s1 where g: "write_guard s = (Inr u1, s1)" "prepare_write R s1 = (Inr u, s')"
    using assms(1) by (auto simp: ks_bind_def split: prod.splits sum.splits)
  have "ks_primary s1 \<noteq> None" using watch.guard [of s] g(1) assms(2) by simp
  then obtain gen member where
      "ks_bind (fence gen) (\<lambda>_. ks_bind (synchronise R) (\<lambda>_. election_unchanged gen member)) s1 = (Inr u, s')"
    using g(2) by (auto simp: prepare_write_def split: option.splits if_splits)
  then obtain u2 s2 s3 where f: "fence gen s1 = (Inr u2, s2)" "synchronise R s2 = (Inr (), s3)"
      "election_unchanged gen member s3 = (Inr u, s')"
    by (auto simp: ks_bind_def split: prod.splits sum.splits)
  then have "s3 = s'" by (simp add: election_unchanged_def split: if_splits)
  note f = f [unfolded this]
  have "ks_fenced s' = Some gen"
    using generation.synchronise [of R s2] fence_generation [OF f(1)] f(2) by simp
  moreover have "ks_primary s' \<noteq> None"
    using watch.fence [where s = s1 and g = gen] watch.synchronise [of R s2] f \<open>ks_primary s1 \<noteq> None\<close> by simp
  ultimately show ?thesis using f(3) by (auto simp: election_unchanged_def split: if_splits)
qed

text \<open>A node that follows another primary refuses every mutating request and leaves the topic as
  it is, as long as the watch does not change under the request.\<close>

theorem secondary_never_writes:
  fixes s :: "'b kafka_store"
  assumes "ks_primary s = Some p" "\<not> ps_is_primary p" "list_all (\<lambda>a. ba_primary a = None) (ks_answers s)"
  shows "\<exists>e. fst (ks_handle R q s) = Some (Inl e) \<and> ks_topic (snd (ks_handle R q s)) = ks_topic s"
proof -
  have "ks_primary (snd (next_answer s)) = Some p"
    using assms(1,3) by (cases "ks_answers s") (simp_all add: next_answer_def success_def)
  then have "\<exists>e s'. ks_bind write_guard (\<lambda>_. prepare_write R) s = (Inl e, s') \<and> ks_topic s' = ks_topic s"
    using assms(2) next_answer_state(1) [of s]
    by (auto simp: ks_bind_def write_guard_def prepare_write_def split: prod.splits option.splits)
  then have "\<exists>e s'. write_through R d s = (Some (Inl e), s') \<and> ks_topic s' = ks_topic s" for d :: "store_state \<Rightarrow> ('b, unit) decision"
    by (auto simp: write_through_def)
  then show ?thesis using ks_handle_cases [of R q s] by (metis fst_conv snd_conv)
qed

subsection \<open>Reading what was registered\<close>

lemma find_under_subject_version:
  assumes "store_ok t" "find_under_subject X t subject ty schema references message_type False = Some reg"
  shows "\<exists>found. version t subject (Some (reg_version reg)) False = Some found \<and> vs_id found = reg_id reg"
proof -
  obtain vs e where v: "map_of (st_subjects t) subject = Some vs" "e \<in> set vs" "ve_id e = reg_id reg"
      "\<not> ve_deleted e" "reg_version reg = ve_version e"
    using assms(2) by (auto simp: find_under_subject_def find_under_subject_canonical_def Option.bind_eq_Some_conv
        dest!: find_SomeD)
  then have "entry_of t subject (ve_version e) = Some e"
    using entry_in_of [OF assms(1)] by (simp add: entry_in_def)
  moreover obtain rs where "map_of (st_by_id t) (ve_id e) = Some rs"
    using store_ok_entry(2) [OF assms(1) v(1,2)] by blast
  ultimately show ?thesis using v by (simp add: version_entry_of [OF assms(1)] versioned_def)
qed

lemma apply_request_version:
  assumes "store_ok t"
  shows "version (apply_schema X (request_value subject reg ty schema references message_type) t) subject
      (Some (reg_version reg)) False =
    Some \<lparr>vs_id = reg_id reg, vs_version = reg_version reg, vs_ty = ty, vs_schema = schema,
      vs_references = references, vs_message_type = message_type, vs_extra = []\<rparr>"
  by (simp add: version_entry_of [OF apply_schema_ok [OF assms]] apply_schema_entry [OF assms] apply_schema_by_id
      versioned_def)

lemma decode_request:
  assumes "codec_roundtrip C" "i32_range (version_raw (reg_version reg))" "i32_range (id_raw (reg_id reg))"
    and "list_all reference_ok references"
  shows "decode_log C [written (encode_schema_with_message_type C subject (reg_version reg) (reg_id reg) ty schema
      references message_type)] =
    [Schema (schema_key_new subject (reg_version reg)) (request_value subject reg ty schema references message_type)]"
  (is "decode_log C [written (encode_schema_with_message_type C _ _ _ _ _ _ _)] = _")
proof -
  have "schema_value_ok (request_value subject reg ty schema references message_type)"
    using assms(2-4) by (simp add: schema_value_ok_def extra_ok_def request_value_def parts_value_def)
  then show ?thesis
    using decode_schema_kv [OF assms(1)]
    by (simp add: decode_log_def written_def encode_schema_with_message_type_def request_value_def)
qed

text \<open>A registration is answered from a live version of the subject, or with one record.\<close>

text \<open>The text that a registration stores, and whether a live version of the subject already has the content
  of the request.\<close>

definition request_text :: "('a, 'b) registry \<Rightarrow> register_request \<Rightarrow> store_state \<Rightarrow> string \<Rightarrow> bool" where
  "request_text R q t schema \<longleftrightarrow> (\<exists>resolved. resolve_closure t (rq_references q) = Inr resolved \<and>
     normalized_storage_form (re_parsers R) (rq_ty q) (rq_schema q) resolved = Inr schema)"

definition stores_request :: "('a, 'b) registry \<Rightarrow> register_request \<Rightarrow> store_state \<Rightarrow> versioned_schema \<Rightarrow> bool" where
  "stores_request R q t found \<longleftrightarrow> request_text R q t (vs_schema found) \<and> vs_ty found = rq_ty q \<and>
     vs_references found = rq_references q \<and> vs_message_type found = rq_message_type q"

definition already_registered :: "('a, 'b) registry \<Rightarrow> register_request \<Rightarrow> store_state \<Rightarrow> registered \<Rightarrow> bool" where
  "already_registered R q t reg \<longleftrightarrow> (\<exists>schema. request_text R q t schema \<and>
     find_under_subject (re_parsers R) t (rq_subject q) (rq_ty q) schema (rq_references q) (rq_message_type q) False = Some reg)"

lemma register_decision_cases:
  assumes "register_decision R q t = Some (Inr (reg, recs))"
  obtains "recs = []" "already_registered R q t reg"
  | schema where "request_text R q t schema" "recs = [written (encode_schema_with_message_type (re_codec R) (rq_subject q)
      (reg_version reg) (reg_id reg) (rq_ty q) schema (rq_references q) (rq_message_type q))]"
  using assms
  by (auto simp: register_decision_def import_decision_def new_decision_def Let_def rbind_Inr_iff request_text_def
      already_registered_def split: if_splits sum.splits option.splits)

lemma register_visible:
  assumes "codec_roundtrip (re_codec R)" "honest s" "tracked R s" "re_defaults R = with_defaults compatibility mode"
    and "ks_register R q s = (Some (Inr reg), s')"
    and "list_all reference_ok (rq_references q)" "i32_range (version_raw (reg_version reg))" "i32_range (id_raw (reg_id reg))"
  shows "\<exists>found. version (ks_store s') (rq_subject q) (Some (reg_version reg)) False = Some found \<and> vs_id found = reg_id reg \<and>
    (stores_request R q (topic_store R s) found \<or> already_registered R q (topic_store R s) reg \<and> ks_store s' = topic_store R s)"
proof -
  note answer = write_through_answer [OF assms(1-3) assms(5) [unfolded ks_register_def]]
  then obtain recs where r: "register_decision R q (topic_store R s) = Some (Inr (reg, recs))"
      "ks_store s' = fold (apply_record (re_parsers R)) (decode_log (re_codec R) recs) (topic_store R s)"
    by auto
  have ok: "store_ok (topic_store R s)"
    unfolding topic_store_def by (rule replay_of_ok [OF assms(4)])
  show ?thesis
  proof (rule register_decision_cases [OF r(1)])
    assume old: "recs = []" "already_registered R q (topic_store R s) reg"
    then obtain found where "version (topic_store R s) (rq_subject q) (Some (reg_version reg)) False = Some found"
        "vs_id found = reg_id reg"
      using find_under_subject_version [OF ok] unfolding already_registered_def by blast
    then show ?thesis using old r(2) by (simp add: decode_log_def)
  next
    fix schema assume "request_text R q (topic_store R s) schema" "recs = [written (encode_schema_with_message_type (re_codec R)
      (rq_subject q) (reg_version reg) (reg_id reg) (rq_ty q) schema (rq_references q) (rq_message_type q))]"
    then show ?thesis
      using decode_request [OF assms(1,7,8,6)] r(2)
      by (simp add: apply_record_def apply_request_version [OF ok] stores_request_def)
  qed
qed


subsection \<open>References protect what they name\<close>

lemma protect_all_refuses: "v \<in> set vs \<Longrightarrow> referenced_by t subject v False \<noteq> [] \<Longrightarrow> \<exists>e. protect_all t subject vs = Inl e"
  by (induction vs) (auto simp: protect_def rbind_def split: sum.splits)

lemma ensure_writable_cases: "ensure_writable t subject = Inr () \<or> (\<exists>e. ensure_writable t subject = Inl e)"
  by (simp add: ensure_writable_def)

text \<open>The requests that would delete version \<open>v\<close> of a subject.\<close>

definition deletes :: "ks_request \<Rightarrow> string \<Rightarrow> schema_version \<Rightarrow> store_state \<Rightarrow> bool" where
  "deletes q subject v t \<longleftrightarrow> q = SoftDeleteVersion subject v \<or> q = PermanentDeleteVersion subject v \<or>
     q = SoftDeleteSubject subject \<and> (\<exists>vs. versions t subject False = Some vs \<and> v \<in> set vs) \<or>
     q = PermanentDeleteSubject subject \<and> (\<exists>vs. versions t subject True = Some vs \<and> v \<in> set vs)"

lemma protected_decision:
  assumes "referenced_by t subject v False \<noteq> []" "deletes q subject v t"
  shows "\<exists>e. request_decision R q t = Some (Inl e)"
  using assms ensure_writable_cases [of t subject] protect_all_refuses [of v _ t subject]
  by (auto simp: deletes_def soft_delete_version_decision_def permanent_delete_version_decision_def
      soft_delete_subject_decision_def permanent_delete_subject_decision_def protect_def ok_or_def rbind_def
      split: sum.splits option.splits; force)

lemma deletes_runs: "deletes q subject v t \<Longrightarrow> ks_handle R q s = write_through R (request_decision R q) s"
  using ks_handle_cases [of R q s] by (auto simp: deletes_def request_defs forget_write_through)

text \<open>C31: a version that a live version of some subject refers to is protected, whatever the brokers, the other
  writers and the election do: when the live store, as it is once the request has synchronised with the topic, has a
  live reference to a version, every request that would delete that version, alone or with its subject, softly or
  permanently, is answered with an error and ends in that very state: it writes no record, and all that the
  topic gained while it synchronised are other writers' records and the facade's barriers, unless the topic was
  replaced meanwhile.\<close>

theorem referenced_versions_protected:
  assumes "s1 = snd (ks_bind write_guard (\<lambda>_. prepare_write R) s)"
    and "referenced_by (ks_store s1) subject v False \<noteq> []" "deletes q subject v (ks_store s1)"
  shows "\<exists>e. ks_handle R q s = (Some (Inl e), s1) \<and>
    (ks_topic_id s1 = ks_topic_id s \<longrightarrow> (\<exists>ext. ks_topic s1 = ks_topic s @ ext \<and>
      (\<forall>r\<in>set ext. (\<exists>a\<in>set (ks_answers s). r \<in> set (ba_others a)) \<or> (\<exists>token. fst r = barrier_key (re_codec R) token))))"
proof -
  obtain e where "request_decision R q (ks_store s1) = Some (Inl e)" using protected_decision [OF assms(2,3)] by blast
  then have "\<exists>e. ks_handle R q s = (Some (Inl e), s1)"
    using assms(1) deletes_runs [OF assms(3), of R s] by (auto simp: write_through_def split: prod.splits sum.splits)
  then show ?thesis
    using quiet_calls.guarded [of R s] assms(1) unfolding silent_def foreign_def barrier_record_def by auto
qed

subsection \<open>Requests on a healthy cluster\<close>

text \<open>Every call is answered, and this node leads if an election is installed.\<close>

definition healthy :: "'b kafka_store \<Rightarrow> bool" where
  "healthy s \<longleftrightarrow> ks_answers s = [] \<and> (case ks_primary s of None \<Rightarrow> True
     | Some p \<Rightarrow> ps_is_primary p \<and> ps_generation_id p \<noteq> None \<and> ps_member_id p \<noteq> None)"

lemma healthy_honest: "healthy s \<Longrightarrow> honest s"
  by (simp add: healthy_def honest_def)

lemma healthy_answer: "ks_answers s = [] \<Longrightarrow> next_answer s = (success, s)"
  by (simp add: next_answer_def success_def)

lemma success_simps [simp]:
  "ba_others success = []" "ba_landed success" "ba_result success = Completed" "ba_wait success = WaitSeen"
  "ba_read success = 0" "ba_primary success = None"
  by (simp_all add: success_def)

lemma healthy_produce:
  "ks_answers s = [] \<Longrightarrow> produce_record k v s = (Completed, s\<lparr>ks_topic := ks_topic s @ [(k, v)]\<rparr>)"
  by (simp add: produce_record_def healthy_answer)

lemma healthy_fenced:
  "ks_answers s = [] \<Longrightarrow> produce_fenced k v s = (Completed, s\<lparr>ks_topic := ks_topic s @ [(k, v)]\<rparr>)"
  by (simp add: produce_fenced_def interfere_def healthy_answer healthy_produce)

lemma healthy_synchronise:
  assumes "ks_answers s = []"
  shows "\<exists>s'. synchronise R s = (Inr (), s') \<and> ks_answers s' = [] \<and> ks_primary s' = ks_primary s"
proof -
  let ?token = "re_token R (ks_tokens s)"
  let ?s1 = "s\<lparr>ks_tokens := Suc (ks_tokens s),
    ks_topic := ks_topic s @ [(barrier_key (re_codec R) ?token, Some (barrier_value (re_codec R)))]\<rparr>"
  have o1: "order_barrier R s = (Inr ?token, ?s1)"
    using assms by (simp add: order_barrier_def Let_def healthy_produce)
  have "interfere ?s1 = (success, ?s1)"
    using assms by (simp add: interfere_def healthy_answer)
  then have "await_barrier R ?token ?s1 =
      finish_barrier R ?token (read_past R (Suc (length (ks_topic s))) (read_on R (ba_read success) ?s1))"
    by (simp add: await_barrier_def Let_def barrier_end_last)
  then show ?thesis
    using o1 assms by (simp add: synchronise_def ks_bind_def finish_barrier_def clear_barrier_def healthy_produce Let_def)
qed

lemma healthy_prepare:
  assumes "healthy s"
  shows "\<exists>grp s'. ks_bind write_guard (\<lambda>_. prepare_write R) s = (Inr grp, s') \<and> ks_answers s' = []"
proof -
  have a: "ks_answers s = []" using assms by (simp add: healthy_def)
  have g: "write_guard s = (Inr (), s)" by (simp add: write_guard_def healthy_answer [OF a])
  have f: "\<exists>s1. fence g s = (Inr (), s1) \<and> ks_answers s1 = [] \<and> ks_primary s1 = ks_primary s" for g
    using a by (simp add: fence_def healthy_answer)
  show ?thesis
  proof (cases "ks_primary s")
    case None
    then show ?thesis using healthy_synchronise [OF a, of R] g by (auto simp: ks_bind_def prepare_write_def ks_return_def)
  next
    case (Some p)
    then obtain gen m where p: "ps_generation_id p = Some gen" "ps_member_id p = Some m" "ps_is_primary p"
      using assms by (auto simp: healthy_def)
    obtain s1 where s1: "fence gen s = (Inr (), s1)" "ks_answers s1 = []" "ks_primary s1 = ks_primary s" using f by blast
    show ?thesis
      using healthy_synchronise [OF s1(2), of R] g p s1 Some by (auto simp: ks_bind_def prepare_write_def election_unchanged_def)
  qed
qed

lemma healthy_produce_all: "ks_answers s = [] \<Longrightarrow> \<exists>s'. produce_all grp recs s = (Inr (), s') \<and> ks_answers s' = []"
proof (induction recs arbitrary: s)
  case (Cons r recs)
  then show ?case
    by (cases r; cases grp) (simp_all add: ks_bind_def produce_def healthy_produce healthy_fenced)
qed simp

lemma healthy_write_through:
  assumes "codec_roundtrip (re_codec R)" "healthy s" "tracked R s"
  shows "fst (write_through R decide s) = map_option (map_sum (\<lambda>e. e) fst) (decide (topic_store R s))"
proof -
  obtain grp s1 where p: "ks_bind write_guard (\<lambda>_. prepare_write R) s = (Inr grp, s1)" "ks_answers s1 = []"
    using healthy_prepare [OF assms(2)] by blast
  have "silent R s s1" using quiet_calls.guarded [of R s] p(1) by simp
  note same = silent_topic_store(2) [OF assms(1) healthy_honest [OF assms(2)] this]
  have t: "ks_store s1 = topic_store R s"
    unfolding same [symmetric] by (rule prepared_synced [OF assms(1) healthy_honest [OF assms(2)] assms(3) p(1)])
  have w: "\<exists>s2. ks_bind (produce_all grp recs) (\<lambda>_. await_applied R) s1 = (Inr (), s2)" for recs
  proof -
    obtain s2 where s2: "produce_all grp recs s1 = (Inr (), s2)" "ks_answers s2 = []"
      using healthy_produce_all [OF p(2)] by blast
    then show ?thesis using healthy_synchronise [OF s2(2), of R] by (auto simp: ks_bind_def await_applied_def)
  qed
  obtain r s' where h: "write_through R decide s = (r, s')" by fastforce
  then show ?thesis
  proof (cases rule: write_through_cases)
    case (produced u s2 v recs x)
    then show ?thesis using p(1) t h w [of recs] by auto
  qed (use p(1) t h in auto)
qed

text \<open>C14: what a request does on a healthy cluster (every call to the broker succeeds, no one else writes, and the
  node leads if an election is installed), from every state in which the reader keeps the store in step with the topic,
  however far it has read and also in the middle of a rebuild: the answer is exactly what the request decides on
  the store that the topic stands for, no record is lost and none is refused for another reason. An accepted request
  leaves the topic and the live store at that store with its records applied; a refused one leaves what the topic
  stands for as it is (encoded JSON reads back). There is no answer exactly when the decision overflows the stack in a JSON comparison.\<close>

theorem healthy_cluster_answers:
  assumes "codec_roundtrip (re_codec R)" "healthy s" "tracked R s" "ks_handle R q s = (answer, s')"
  shows "case request_decision R q (topic_store R s) of
      None \<Rightarrow> answer = None \<and> topic_store R s' = topic_store R s
    | Some (Inl e) \<Rightarrow> answer = Some (Inl e) \<and> topic_store R s' = topic_store R s
    | Some (Inr (v, recs)) \<Rightarrow> answer = Some (Inr v) \<and>
        topic_store R s' = fold (apply_record (re_parsers R)) (decode_log (re_codec R) recs) (topic_store R s) \<and>
        ks_store s' = topic_store R s'"
proof -
  have d: "answer = map_option (map_sum (\<lambda>e. e) fst) (request_decision R q (topic_store R s))"
    using ks_handle_cases [of R q s] healthy_write_through [OF assms(1-3), of "request_decision R q"] assms(4)
    by (elim disjE exE conjE) (metis fst_conv, simp)
  note a = ks_handle_answer [OF assms(1) healthy_honest [OF assms(2)] assms(3,4)]
  show ?thesis using a d by (auto split: option.splits sum.splits)
qed

subsection \<open>The properties on concrete requests\<close>

text \<open>A registry on an empty topic and one that starts from given contents, each on a healthy cluster
  without an election; and a follower.\<close>

definition registry_on :: "store_state \<Rightarrow> (string, json) registry" where
  "registry_on t = \<lparr>re_parsers = echo_parsers, re_codec = value_codec, re_defaults = t, re_depth = 8,
     re_token = (\<lambda>n. replicate n CHR ''b'')\<rparr>"

definition idle_on :: "store_state \<Rightarrow> json kafka_store" where
  "idle_on t = \<lparr>ks_topic = [], ks_topic_id = 0, ks_store = t, ks_applied = 0, ks_rebuild = None,
     ks_primary = None, ks_fenced = None, ks_tokens = 0, ks_answers = []\<rparr>"

abbreviation idle_store :: "json kafka_store" where
  "idle_store \<equiv> idle_on empty_store"

definition leading :: primary_state where
  "leading = \<lparr>ps_is_primary = True, ps_primary_url = None, ps_generation_id = Some 4, ps_member_id = Some ''m''\<rparr>"

definition following :: primary_state where
  "following = leading\<lparr>ps_is_primary := False\<rparr>"

definition int_request :: register_request where
  "int_request = \<lparr>rq_subject = ''a'', rq_ty = Avro, rq_schema = ''int'', rq_references = [], rq_message_type = None,
     rq_import_id = None, rq_import_version = None\<rparr>"

lemma registry_on_simps [simp]:
  "re_parsers (registry_on t) = echo_parsers" "re_codec (registry_on t) = value_codec" "re_defaults (registry_on t) = t"
  by (simp_all add: registry_on_def)

lemma idle_healthy: "healthy (idle_on t)"
  by (simp add: healthy_def idle_on_def)

lemma idle_replay: "re_defaults R = t \<Longrightarrow> tracked R (idle_on t)" "re_defaults R = t \<Longrightarrow> topic_store R (idle_on t) = t"
  by (simp_all add: tracked_def topic_store_def idle_on_def replay_of_def replay_def decode_log_def)

lemma idle_topic_store [simp]: "topic_store (registry_on t) (idle_on t) = t"
  by (simp add: idle_replay)

lemma idle_tracked: "tracked (registry_on t) (idle_on t)"
  by (simp add: idle_replay)

lemma int_decision:
  "register_decision (registry_on empty_store) int_request empty_store =
     Some (Inr (first_registered, [written (encode_schema_with_message_type value_codec ''a'' (SchemaVersion 1)
       (SchemaId 1) Avro ''int'' [] None)]))"
proof -
  have mode: "effective_mode empty_store ''a'' = ''READWRITE''"
    by (simp add: effective_mode_def empty_store_def with_defaults_def subject_mode_def global_mode_def)
  have "normalized_storage_form echo_parsers Avro ''int'' [] = Inr ''int''"
    by (simp add: normalized_storage_form_def echo_parsers_def avro_parse_def parse_def from_str_value_def Let_def)
  moreover have "find_under_subject echo_parsers empty_store ''a'' Avro ''int'' [] None False = None"
    by (simp add: find_under_subject_def dedup_key_def find_under_subject_canonical_def empty_store_def with_defaults_def)
  moreover have "check_registration echo_parsers 8 empty_store ''a'' Avro ''int'' [] = Some (Inr ())"
    by (simp add: check_registration_def empty_store_def with_defaults_def versions_schemas_def Let_def)
  ultimately show ?thesis
    using mode by (simp add: register_decision_def int_request_def new_decision_def register_one_schema
        registry_on_def resolve_closure_def)
qed

lemma idle_register:
  "\<exists>s'. ks_register (registry_on empty_store) int_request idle_store = (Some (Inr first_registered), s')"
  using healthy_write_through [of "registry_on empty_store" idle_store "register_decision (registry_on empty_store) int_request"]
  by (simp add: value_codec_roundtrip idle_healthy idle_tracked int_decision ks_register_def prod_eq_iff)

text \<open>A registry started on an empty topic handles a request, is elected and loses its topic to another one.\<close>

definition restarted :: "json raw_log \<Rightarrow> json kafka_store" where
  "restarted fresh = replace_topic (registry_on empty_store) fresh (ks_install_primary leading
     (snd (ks_handle (registry_on empty_store) (SetCompat None ''FULL'') (snd (ks_start (registry_on empty_store) [] [])))))"

lemma start_idle: "fst (ks_start (registry_on empty_store) [] []) = Inr ()"
proof -
  let ?R = "registry_on empty_store"
  let ?token = "re_token ?R 0" let ?k = "barrier_key value_codec ?token"
  let ?s1 = "(ks_spawned ?R [] [])\<lparr>ks_topic := [(?k, Some (barrier_value value_codec))]\<rparr>"
  have a: "ks_answers (ks_spawned ?R [] []) = []" "ks_topic (ks_spawned ?R [] []) = []" by (simp_all add: ks_spawned_def)
  then have p: "produce_record ?k (Some (barrier_value value_codec)) (ks_spawned ?R [] []) = (Completed, ?s1)"
    by (simp add: healthy_produce)
  have "interfere ?s1 = (success, ?s1)"
    using a by (simp add: interfere_def healthy_answer)
  then have "await_barrier_rx ?R ?token ?s1 = (Inr (), read_past ?R 1 (read_on ?R (ba_read success) ?s1))"
    using barrier_end_last [of ?k "[]"] by (simp add: await_barrier_rx_def Let_def)
  then show ?thesis using p by (simp add: ks_start_def Let_def split: prod.splits)
qed

lemma restarted_reachable: "ks_reachable (registry_on empty_store) (restarted fresh)"
  unfolding restarted_def
  by (intro ks_reachable.replaced ks_reachable.elected ks_reachable.handled ks_reachable.started [of _ "[]" "[]"])
    (simp add: prod_eq_iff start_idle)


theorem refused_request_writes_nothing_witness:
  "\<exists>ext. ks_topic (snd (ks_handle (registry_on empty_store) (SoftDeleteSubject ''x'') idle_store)) = [] @ ext \<and>
    (\<forall>r\<in>set ext. \<exists>token. fst r = barrier_key value_codec token)"
proof -
  have "request_decision (registry_on empty_store) (SoftDeleteSubject ''x'') empty_store = Some (Inl (SubjectNotFound ''x''))"
    by (simp add: soft_delete_subject_decision_def ensure_writable_def effective_mode_def subject_mode_def global_mode_def
        empty_store_def with_defaults_def versions_def)
  then have "fst (ks_handle (registry_on empty_store) (SoftDeleteSubject ''x'') idle_store) = Some (Inl (SubjectNotFound ''x''))"
    using healthy_write_through [of "registry_on empty_store" idle_store
        "request_decision (registry_on empty_store) (SoftDeleteSubject ''x'')"]
      ks_handle_cases [of "registry_on empty_store" "SoftDeleteSubject ''x''" idle_store]
    by (auto simp: value_codec_roundtrip idle_healthy idle_tracked)
  then show ?thesis
    using refused_request_writes_nothing [of "registry_on empty_store" "SoftDeleteSubject ''x''" idle_store
        "SubjectNotFound ''x''" "snd (ks_handle (registry_on empty_store) (SoftDeleteSubject ''x'') idle_store)"]
    by (simp add: prod_eq_iff idle_on_def)
qed

theorem facade_refines_decisions_witness:
  "ks_store (snd (ks_handle (registry_on empty_store) (Register int_request) idle_store)) =
    apply_schema echo_parsers (request_value ''a'' first_registered Avro ''int'' [] None) empty_store"
proof -
  obtain s' where "ks_register (registry_on empty_store) int_request idle_store = (Some (Inr first_registered), s')"
    using idle_register by blast
  then have "ks_handle (registry_on empty_store) (Register int_request) idle_store = (Some (Inr ()), s')"
    by (simp add: forget_def)
  from facade_refines_decisions [OF _ healthy_honest [OF idle_healthy] idle_tracked this] show ?thesis
    using \<open>ks_handle _ _ _ = _\<close>
      decode_request [OF value_codec_roundtrip, of first_registered "[]" "''a''" Avro "''int''" None]
    by (auto simp: value_codec_roundtrip int_decision i32_range_def apply_record_def)
qed

theorem healthy_cluster_answers_witness:
  "fst (ks_handle (registry_on empty_store) (Register int_request) idle_store) = Some (Inr ()) \<and>
   ks_store (snd (ks_handle (registry_on empty_store) (Register int_request) idle_store)) =
     apply_schema echo_parsers (request_value ''a'' first_registered Avro ''int'' [] None) empty_store"
  using healthy_cluster_answers [of "registry_on empty_store" idle_store "Register int_request", OF _ _ _ prod.collapse [symmetric]]
    decode_request [OF value_codec_roundtrip, of first_registered "[]" "''a''" Avro "''int''" None]
  by (simp add: value_codec_roundtrip idle_healthy idle_tracked int_decision i32_range_def apply_record_def)


theorem writes_need_fenced_leadership_witness:
  "\<exists>grp s' p g. ks_bind write_guard (\<lambda>_. prepare_write (registry_on empty_store)) (ks_install_primary leading idle_store) = (Inr grp, s') \<and>
    ks_primary s' = Some p \<and> ps_is_primary p \<and> ps_generation_id p = Some g \<and> ks_fenced s' = Some g"
proof -
  have "healthy (ks_install_primary leading idle_store)"
    by (simp add: healthy_def ks_install_primary_def idle_on_def leading_def)
  from healthy_prepare [OF this, of "registry_on empty_store"] obtain grp s' where s':
    "ks_bind write_guard (\<lambda>_. prepare_write (registry_on empty_store)) (ks_install_primary leading idle_store) = (Inr grp, s')"
    by blast
  then show ?thesis using writes_need_fenced_leadership [OF s'] by (simp add: ks_install_primary_def)
qed

theorem secondary_never_writes_witness:
  "\<exists>e. fst (ks_handle (registry_on empty_store) (Register int_request) (ks_install_primary following idle_store)) = Some (Inl e) \<and>
    ks_topic (snd (ks_handle (registry_on empty_store) (Register int_request) (ks_install_primary following idle_store))) = []"
  using secondary_never_writes [of "ks_install_primary following idle_store" following "registry_on empty_store" "Register int_request"]
  by (simp add: ks_install_primary_def idle_on_def following_def)

theorem referenced_versions_protected_witness:
  "\<exists>e s1. ks_handle (registry_on two_schemas) (SoftDeleteVersion ''a'' (SchemaVersion 1)) (idle_on two_schemas) = (Some (Inl e), s1) \<and>
    ks_store s1 = two_schemas"
proof -
  let ?R = "registry_on two_schemas" and ?s = "idle_on two_schemas"
  obtain grp s1 where p: "ks_bind write_guard (\<lambda>_. prepare_write ?R) ?s = (Inr grp, s1)"
    using healthy_prepare [OF idle_healthy] by blast
  note h = value_codec_roundtrip healthy_honest [OF idle_healthy]
  have "silent ?R ?s s1" using quiet_calls.guarded [of ?R ?s] p by simp
  then have s1: "ks_store s1 = two_schemas"
    using prepared_synced [OF _ healthy_honest [OF idle_healthy] idle_tracked p] silent_topic_store(2) [of ?R ?s s1]
    by (simp add: h)
  have "map_of (st_by_id two_schemas) (SchemaId 1) = map_of (st_by_id one_schema) (SchemaId 1)"
    by (simp add: two_schemas_def apply_schema_by_id referring_value_def)
  then have "referenced_by two_schemas ''a'' (SchemaVersion 1) False \<noteq> []"
    by (simp add: referenced_by_def two_schemas_entries refers_to_def a_reference_def btree_values_def one_schema_def)
  then show ?thesis
    using referenced_versions_protected [of s1 ?R ?s "''a''" "SchemaVersion 1" "SoftDeleteVersion ''a'' (SchemaVersion 1)"] p s1
    by (auto simp: deletes_def)
qed

end
