(* ===== verification/Reader_Props.thy ===== *)
theory Reader_Props
  imports Compaction
begin

text \<open>
  The reader task: its stores satisfy the invariant in every reachable state, a published barrier
  means that everything the topic holds up to the barrier record is in the live store, and a
  rebuild replaces the live store only when it has caught up.
\<close>

subsection \<open>Barriers\<close>

text \<open>What a writer relies on when it waits for its barrier.\<close>

locale barrier_service =
  fixes reserve :: "'t \<Rightarrow> 's \<Rightarrow> 's" and observe :: "'t \<Rightarrow> 's \<Rightarrow> 's"
    and cancel :: "'t \<Rightarrow> 's \<Rightarrow> 's" and invalidate :: "'s \<Rightarrow> 's"
    and status :: "'t \<Rightarrow> 's \<Rightarrow> barrier_poll" and waiting :: "'t \<Rightarrow> 's \<Rightarrow> bool"
  assumes reserve_waiting: "waiting t (reserve t s)"
    and reserve_status: "status u (reserve t s) = status u s"
    and observe_status: "status u (observe t s) =
      (if u = t \<and> waiting t s \<and> status t s = PollPending then PollSeen else status u s)"
    and observe_waiting: "waiting u (observe t s) = waiting u s"
    and cancel_status: "status t (cancel t s) = PollPending"
    and cancel_waiting: "\<not> waiting t (cancel t s)"
    and invalidate_status: "waiting t s \<Longrightarrow> status t (invalidate s) = PollInvalidated"
begin

lemma observe_all_status:
  "status t s = PollPending \<Longrightarrow> waiting t s \<Longrightarrow>
    status t (fold observe ts s) = (if t \<in> set ts then PollSeen else PollPending)"
proof (induction ts arbitrary: s)
  case (Cons u ts)
  have stay: "status t s = PollSeen \<Longrightarrow> status t (fold observe us s) = PollSeen" for us s
    by (induction us arbitrary: s) (auto simp: observe_status)
  from Cons stay [of "observe u s" ts] show ?case
    by (cases "u = t") (auto simp: observe_status observe_waiting)
qed simp

lemma cancelled_stays_pending:
  "status t (fold observe ts (cancel t s)) = PollPending"
proof -
  have "status t s = PollPending \<Longrightarrow> \<not> waiting t s \<Longrightarrow> status t (fold observe ts s) = PollPending" for s
  proof (induction ts arbitrary: s)
    case (Cons u ts)
    then have "status t (observe u s) = PollPending" "\<not> waiting t (observe u s)"
      by (auto simp: observe_status observe_waiting)
    with Cons.IH show ?case by simp
  qed simp
  then show ?thesis by (simp add: cancel_status cancel_waiting)
qed

end

interpretation tracker: barrier_service reserve observe cancel invalidate_all
  "\<lambda>t b. fst (poll t b)" "\<lambda>t b. t \<in> bar_pending b"
  by unfold_locales (auto simp: reserve_def observe_def cancel_def invalidate_all_def poll_def)

text \<open>A reserved token is reported as seen exactly when the reader observed it after the
  reservation, and a cancelled token is never reported as seen by later observations.\<close>

theorem barrier_seen_iff_observed:
  assumes "token \<notin> bar_seen b" "token \<notin> bar_invalidated b"
  shows "fst (poll token (fold observe ts (reserve token b))) = (if token \<in> set ts then PollSeen else PollPending) \<and>
    fst (poll token (fold observe ts (cancel token b))) = PollPending"
proof -
  have "fst (poll token (reserve token b)) = PollPending" "token \<in> bar_pending (reserve token b)"
    using assms by (simp_all add: poll_def reserve_def)
  then show ?thesis using tracker.observe_all_status tracker.cancelled_stays_pending by blast
qed

theorem barrier_seen_iff_observed_witness:
  "fst (poll 7 (fold observe [3, 7] (reserve 7 no_barriers))) = PollSeen \<and>
   fst (poll 7 (fold observe [3] (reserve 7 no_barriers))) = PollPending"
  using barrier_seen_iff_observed [of 7 no_barriers "[3, 7]"] barrier_seen_iff_observed [of 7 no_barriers "[3]"]
  by (simp add: no_barriers_def)

subsection \<open>The invariant of the task\<close>

definition reader_ok :: "reader \<Rightarrow> bool" where
  "reader_ok r \<longleftrightarrow> store_ok (rd_store r) \<and> (\<forall>rb. rd_rebuild r = Some rb \<longrightarrow> store_ok (rb_store rb))"

lemma count_failure_simps [simp]:
  "rd_store (count_failure r) = rd_store r" "rd_rebuild (count_failure r) = rd_rebuild r"
  "rd_next (count_failure r) = rd_next r" "rd_barriers (count_failure r) = rd_barriers r"
  "rd_observed (count_failure r) = rd_observed r" "rd_topic_id (count_failure r) = rd_topic_id r"
  by (simp_all add: count_failure_def)

lemma begin_rebuild_ok:
  assumes "store_ok live" "store_ok defaults" "begin_rebuild live defaults previous start e keep = (live', next, rb)"
  shows "store_ok live' \<and> (\<forall>b. rb = Some b \<longrightarrow> store_ok (rb_store b))"
  using assms by (auto simp: begin_rebuild_def Let_def config_ops_ok(8) split: if_splits option.splits)

lemma on_record_ok: "reader_ok r \<Longrightarrow> reader_ok (on_record P C X lr r)"
  by (auto simp: on_record_def reader_ok_def Let_def apply_record_ok split: option.splits prod.splits)

lemma on_cursor_ok: "reader_ok r \<Longrightarrow> reader_ok (on_cursor c r)"
  by (auto simp: on_cursor_def reader_ok_def complete_rebuild_def Let_def split: option.splits if_splits)

lemma fold_on_record_ok: "reader_ok r \<Longrightarrow> reader_ok (fold (on_record P C X) rs r)"
  by (induction rs arbitrary: r) (auto simp: on_record_ok)

lemma on_fetched_ok: "reader_ok r \<Longrightarrow> reader_ok (on_fetched P C X progress r)"
proof -
  assume "reader_ok r"
  then have "reader_ok (r\<lparr>rd_consecutive := 0\<rparr>)" by (simp add: reader_ok_def)
  then show ?thesis
    by (auto simp: on_fetched_def Let_def on_cursor_ok fold_on_record_ok split: option.splits)
qed

lemma on_connected_ok:
  assumes "reader_ok r" "store_ok defaults"
  shows "reader_ok (on_connected defaults resolved bounds r)"
  using assms begin_rebuild_ok [OF _ assms(2)]
  by (auto simp: on_connected_def reader_ok_def Let_def split: option.splits prod.splits)

lemma on_fetch_failed_ok:
  assumes "reader_ok r" "store_ok defaults"
  shows "reader_ok (on_fetch_failed defaults e bounds r)"
  using assms begin_rebuild_ok [OF _ assms(2)]
  by (auto simp: on_fetch_failed_def reader_ok_def Let_def split: option.splits prod.splits fetch_error_action.splits)

lemma reader_step_ok:
  assumes "store_ok defaults" "reader_ok r"
  shows "reader_ok (reader_step P C X defaults ev r)"
proof (cases ev)
  case (Connected t b)
  then show ?thesis using assms by (auto simp: on_connected_ok)
next
  case ConnectFailed
  then show ?thesis using assms by (auto simp: reader_ok_def)
next
  case (Fetched p)
  then show ?thesis using assms by (auto simp: on_fetched_ok)
next
  case (FetchFailed e b)
  then show ?thesis using assms by (auto simp: on_fetch_failed_ok)
qed

lemma run_reader_ok:
  assumes "store_ok defaults" "reader_ok r"
  shows "reader_ok (run_reader P C X defaults events r)"
  using assms(2) unfolding run_reader_def
  by (induction events arbitrary: r) (auto simp: reader_step_ok [OF assms(1)])

subsection \<open>One fetch\<close>

text \<open>What a log record contributes: a decoded record and perhaps a barrier token.\<close>

definition record_of :: "'b codec \<Rightarrow> 'b log_record \<Rightarrow> schema_record" where
  "record_of C lr = decode C (unwrap_or (lr_key lr) (empty_slice C)) (lr_value lr)"

definition token_of :: "(string \<Rightarrow> uuid option) \<Rightarrow> 'b codec \<Rightarrow> 'b log_record \<Rightarrow> uuid option" where
  "token_of P C lr = barrier_token P C (unwrap_or (lr_key lr) (empty_slice C)) (lr_value lr)"

definition fresh_records :: "reader \<Rightarrow> 'b log_record list \<Rightarrow> 'b log_record list" where
  "fresh_records r rs = filter (\<lambda>lr. rd_next r \<le> lr_offset lr) rs"

lemma on_record_frame [simp]:
  "rd_next (on_record P C X lr r) = rd_next r"
  "rd_barriers (on_record P C X lr r) = rd_barriers r"
  "rd_topic_id (on_record P C X lr r) = rd_topic_id r"
  "rd_connected (on_record P C X lr r) = rd_connected r"
  by (auto simp: on_record_def Let_def split: option.splits prod.splits)

lemma fold_on_record_frame [simp]:
  "rd_next (fold (on_record P C X) rs r) = rd_next r"
  "rd_barriers (fold (on_record P C X) rs r) = rd_barriers r"
  "rd_topic_id (fold (on_record P C X) rs r) = rd_topic_id r"
  "rd_connected (fold (on_record P C X) rs r) = rd_connected r"
  by (induction rs arbitrary: r) simp_all

lemma fresh_records_frame [simp]: "fresh_records (on_record P C X lr r) rs = fresh_records r rs"
  by (simp add: fresh_records_def)

lemma fold_on_record_observed:
  "rd_observed (fold (on_record P C X) rs r) = rd_observed r @ List.map_filter (token_of P C) (fresh_records r rs)"
proof (induction rs arbitrary: r)
  case (Cons lr rs)
  show ?case
    by (simp add: Cons.IH)
      (auto simp: on_record_def Let_def fresh_records_def token_of_def List.map_filter_simps
        split: option.splits prod.splits)
qed (simp add: fresh_records_def List.map_filter_simps)

lemma fold_on_record_live:
  "rd_rebuild r = None \<Longrightarrow> rd_rebuild (fold (on_record P C X) rs r) = None \<and>
    rd_store (fold (on_record P C X) rs r) =
      fold (apply_record X) (map (record_of C) (fresh_records r rs)) (rd_store r)"
proof (induction rs arbitrary: r)
  case (Cons lr rs)
  then have "rd_rebuild (on_record P C X lr r) = None"
    by (auto simp: on_record_def Let_def split: prod.splits)
  from Cons.IH [OF this] Cons.prems show ?case
    by (auto simp: on_record_def Let_def fresh_records_def record_of_def split: prod.splits)
qed (simp add: fresh_records_def)

lemma fold_on_record_rebuild:
  "rd_rebuild r = Some rb \<Longrightarrow> rd_store (fold (on_record P C X) rs r) = rd_store r \<and>
    rd_rebuild (fold (on_record P C X) rs r) =
      Some (rb\<lparr>rb_store := fold (apply_record X) (map (record_of C) (fresh_records r rs)) (rb_store rb)\<rparr>)"
proof (induction rs arbitrary: r rb)
  case (Cons lr rs)
  show ?case
  proof (cases "lr_offset lr < rd_next r")
    case True
    then show ?thesis using Cons by (simp add: on_record_def fresh_records_def)
  next
    case False
    let ?rb = "rb\<lparr>rb_store := apply_record X (record_of C lr) (rb_store rb)\<rparr>"
    have "rd_rebuild (on_record P C X lr r) = Some ?rb" "rd_store (on_record P C X lr r) = rd_store r"
      using False Cons.prems by (auto simp: on_record_def Let_def record_of_def split: prod.splits)
    with Cons.IH [OF this(1)] False show ?thesis
      by (simp add: fresh_records_def)
  qed
qed (simp add: fresh_records_def)

text \<open>C39: while the reader rebuilds, fetches go into the rebuilt copy only: the live store and the
  published barriers stay as they are until the copy reaches the log end that was recorded when the
  rebuild began, and then the copy, with every fetched record applied, becomes the live store.\<close>

theorem rebuild_is_atomic:
  fixes r :: reader and progress :: "'b fetch_progress"
  assumes "rd_connected r" "rd_rebuild r = Some rb" "fp_next_offset progress = Some cursor"
  shows "let r' = reader_step P C X defaults (Fetched progress) r;
             copy = fold (apply_record X) (map (record_of C) (fresh_records r (fp_records progress))) (rb_store rb)
    in if max (rd_next r) cursor < rb_end_offset rb
       then rd_store r' = rd_store r \<and> rd_barriers r' = rd_barriers r \<and>
         rd_rebuild r' = Some (rb\<lparr>rb_store := copy\<rparr>)
       else rd_store r' = copy \<and> rd_rebuild r' = None"
proof -
  let ?r0 = "r\<lparr>rd_consecutive := 0\<rparr>"
  have "fresh_records ?r0 (fp_records progress) = fresh_records r (fp_records progress)"
    by (simp add: fresh_records_def)
  then show ?thesis
    using assms fold_on_record_rebuild [of ?r0 rb P C X "fp_records progress"]
    by (auto simp: on_fetched_def on_cursor_def complete_rebuild_def Let_def)
qed

definition rebuilding :: reader where
  "rebuilding = (spawn_reader 1 one_schema)\<lparr>rd_connected := True,
     rd_rebuild := Some \<lparr>rb_store = empty_store, rb_end_offset = 3\<rparr>\<rparr>"

theorem rebuild_is_atomic_witness:
  "rd_store (reader_step (\<lambda>_. None) value_codec echo_parsers empty_store
     (Fetched \<lparr>fp_records = [], fp_next_offset = Some 2\<rparr>) rebuilding) = one_schema \<and>
   rd_store (reader_step (\<lambda>_. None) value_codec echo_parsers empty_store
     (Fetched \<lparr>fp_records = [], fp_next_offset = Some 3\<rparr>) rebuilding) = empty_store"
  using rebuild_is_atomic [of rebuilding "\<lparr>rb_store = empty_store, rb_end_offset = 3\<rparr>"
      "\<lparr>fp_records = [], fp_next_offset = Some 2\<rparr>" 2 "\<lambda>_. None" value_codec echo_parsers empty_store]
    rebuild_is_atomic [of rebuilding "\<lparr>rb_store = empty_store, rb_end_offset = 3\<rparr>"
      "\<lparr>fp_records = [], fp_next_offset = Some 3\<rparr>" 3 "\<lambda>_. None" value_codec echo_parsers empty_store]
  by (simp add: rebuilding_def spawn_reader_def fresh_records_def Let_def)

subsection \<open>Tailing one topic\<close>

text \<open>The records of the topic below an offset.\<close>

definition below :: "int \<Rightarrow> 'b log_record list \<Rightarrow> 'b log_record list" where
  "below n log = filter (\<lambda>lr. lr_offset lr < n) log"

text \<open>An answer of the broker to a fetch at the reader's offset: the records of the topic from there
  up to the cursor it returns, perhaps after records of the same batch that lie before.\<close>

definition answers :: "'b log_record list \<Rightarrow> reader \<Rightarrow> 'b fetch_progress \<Rightarrow> bool" where
  "answers log r progress \<longleftrightarrow> (case fp_next_offset progress of
      None \<Rightarrow> fresh_records r (fp_records progress) = []
    | Some cursor \<Rightarrow> rd_next r \<le> cursor \<and>
        fresh_records r (fp_records progress) = filter (\<lambda>lr. rd_next r \<le> lr_offset lr \<and> lr_offset lr < cursor) log)"

text \<open>The reader on a topic that is not recreated and whose log start it does not lose, interleaved
  with the barrier operations of writers.\<close>

inductive tails :: "(string \<Rightarrow> uuid option) \<Rightarrow> 'b codec \<Rightarrow> 'a third_party \<Rightarrow> store_state \<Rightarrow> uuid
    \<Rightarrow> 'b log_record list \<Rightarrow> reader \<Rightarrow> bool"
  for P :: "string \<Rightarrow> uuid option" and C :: "'b codec" and X :: "'a third_party"
    and defaults :: store_state and topic :: uuid and log :: "'b log_record list" where
  start: "tails P C X defaults topic log (spawn_reader topic defaults)"
| connect: "tails P C X defaults topic log r \<Longrightarrow>
    tails P C X defaults topic log (reader_step P C X defaults (Connected topic bounds) r)"
| connect_failed: "tails P C X defaults topic log r \<Longrightarrow>
    tails P C X defaults topic log (reader_step P C X defaults ConnectFailed r)"
| fetch: "tails P C X defaults topic log r \<Longrightarrow> answers log r progress \<Longrightarrow>
    tails P C X defaults topic log (reader_step P C X defaults (Fetched progress) r)"
| fetch_failed: "tails P C X defaults topic log r \<Longrightarrow> fetch_error_action_of e \<noteq> ResetToLogStart \<Longrightarrow>
    tails P C X defaults topic log (reader_step P C X defaults (FetchFailed e bounds) r)"
| reserve: "tails P C X defaults topic log r \<Longrightarrow>
    tails P C X defaults topic log (r\<lparr>rd_barriers := reserve t (rd_barriers r)\<rparr>)"
| poll: "tails P C X defaults topic log r \<Longrightarrow>
    tails P C X defaults topic log (r\<lparr>rd_barriers := snd (poll t (rd_barriers r))\<rparr>)"
| cancel: "tails P C X defaults topic log r \<Longrightarrow>
    tails P C X defaults topic log (r\<lparr>rd_barriers := cancel t (rd_barriers r)\<rparr>)"

definition tailed :: "(string \<Rightarrow> uuid option) \<Rightarrow> 'b codec \<Rightarrow> 'a third_party \<Rightarrow> store_state \<Rightarrow> uuid
    \<Rightarrow> 'b log_record list \<Rightarrow> reader \<Rightarrow> bool" where
  "tailed P C X defaults topic log r \<longleftrightarrow> rd_rebuild r = None \<and> rd_topic_id r = topic \<and>
     rd_store r = replay X defaults (map (record_of C) (below (rd_next r) log)) \<and>
     set (rd_observed r) \<union> bar_seen (rd_barriers r) \<subseteq> set (List.map_filter (token_of P C) (below (rd_next r) log))"

lemma set_map_filter: "y \<in> set (List.map_filter f xs) \<longleftrightarrow> (\<exists>x\<in>set xs. f x = Some y)"
  by (force simp: List.map_filter_def image_iff)

lemma fold_observe_seen: "bar_seen (fold observe ts b) \<subseteq> set ts \<union> bar_seen b"
proof (induction ts arbitrary: b)
  case (Cons t ts)
  have "bar_seen (observe t b) \<subseteq> insert t (bar_seen b)" by (auto simp: observe_def)
  with Cons.IH [of "observe t b"] show ?case by auto
qed simp

lemma map_filter_append: "List.map_filter f (xs @ ys) = List.map_filter f xs @ List.map_filter f ys"
  by (simp add: List.map_filter_def)

lemma below_extend:
  assumes "sorted_wrt (<) (map lr_offset log)" "n \<le> c"
  shows "below c log = below n log @ filter (\<lambda>lr. n \<le> lr_offset lr \<and> lr_offset lr < c) log"
  using assms(1)
proof (induction log)
  case (Cons lr log)
  show ?case
  proof (cases "lr_offset lr < n")
    case True
    then show ?thesis using Cons assms(2) by (simp add: below_def)
  next
    case False
    then have "filter (\<lambda>x. lr_offset x < n) log = []"
      using Cons.prems by (auto simp: filter_empty_conv)
    then show ?thesis using False Cons by (auto simp: below_def)
  qed
qed (simp add: below_def)

lemma below_start: "\<forall>lr\<in>set log. 0 \<le> lr_offset lr \<Longrightarrow> below 0 log = []"
  by (auto simp: below_def filter_empty_conv)

lemma tailed_fetched:
  assumes log: "sorted_wrt (<) (map lr_offset log)" and t: "tailed P C X defaults topic log r"
    and a: "answers log r progress"
  shows "tailed P C X defaults topic log (on_fetched P C X progress r)"
proof -
  let ?r0 = "r\<lparr>rd_consecutive := 0\<rparr>" and ?rs = "fp_records progress"
  let ?r1 = "fold (on_record P C X) ?rs ?r0"
  have fr: "fresh_records ?r0 ?rs = fresh_records r ?rs" by (simp add: fresh_records_def)
  have live: "rd_rebuild ?r1 = None"
    "rd_store ?r1 = fold (apply_record X) (map (record_of C) (fresh_records r ?rs)) (rd_store r)"
    using fold_on_record_live [of ?r0 P C X ?rs] t fr by (simp_all add: tailed_def)
  have obs: "rd_observed ?r1 = rd_observed r @ List.map_filter (token_of P C) (fresh_records r ?rs)"
    by (simp add: fold_on_record_observed fr)
  show ?thesis
  proof (cases "fp_next_offset progress")
    case None
    then have "fresh_records r ?rs = []" using a by (simp add: answers_def)
    then show ?thesis
      using t live obs None by (simp add: on_fetched_def tailed_def List.map_filter_simps)
  next
    case (Some c)
    then have le: "rd_next r \<le> c" and f: "fresh_records r ?rs = filter (\<lambda>lr. rd_next r \<le> lr_offset lr \<and> lr_offset lr < c) log"
      using a by (simp_all add: answers_def)
    have ext: "below c log = below (rd_next r) log @ fresh_records r ?rs"
      using below_extend [OF log le] f by simp
    have store: "rd_store ?r1 = replay X defaults (map (record_of C) (below c log))"
      using t live(2) ext by (simp add: tailed_def replay_def)
    have "set (rd_observed ?r1) \<union> bar_seen (rd_barriers r) \<subseteq> set (List.map_filter (token_of P C) (below c log))"
      using t obs unfolding tailed_def ext map_filter_append by auto
    then have "bar_seen (fold observe (rd_observed ?r1) (rd_barriers r)) \<subseteq> set (List.map_filter (token_of P C) (below c log))"
      using fold_observe_seen by fastforce
    then show ?thesis
      using t Some le live(1) store
      by (simp add: on_fetched_def on_cursor_def complete_rebuild_def Let_def tailed_def max_absorb2)
  qed
qed

lemma tails_tailed:
  assumes log: "sorted_wrt (<) (map lr_offset log)" "\<forall>lr\<in>set log. 0 \<le> lr_offset lr"
    and "tails P C X defaults topic log r"
  shows "tailed P C X defaults topic log r"
  using assms(3)
proof (induction rule: tails.induct)
  case start
  then show ?case
    using below_start [OF log(2)] by (simp add: tailed_def spawn_reader_def no_barriers_def replay_def)
next
  case (connect r bounds)
  then show ?case by (simp add: tailed_def on_connected_def)
next
  case (connect_failed r)
  then show ?case by (simp add: tailed_def)
next
  case (fetch r progress)
  then show ?case by (simp add: tailed_fetched [OF log(1)])
next
  case (fetch_failed r e bounds)
  then show ?case
    by (auto simp: tailed_def on_fetch_failed_def Let_def split: fetch_error_action.splits)
next
  case (reserve r t)
  then show ?case by (simp add: tailed_def reserve_def)
next
  case (poll r t)
  then show ?case by (auto simp: tailed_def poll_def)
next
  case (cancel r t)
  then show ?case by (auto simp: tailed_def cancel_def)
qed

text \<open>C11: read your writes: on a topic that is only appended to, the live store is always the replay
  of the records below the reader's offset, and when a writer's barrier is reported as seen, the
  barrier record, and with it every record before it, is among them.\<close>

theorem seen_barrier_means_applied:
  assumes "sorted_wrt (<) (map lr_offset log)" "\<forall>lr\<in>set log. 0 \<le> lr_offset lr"
    and "tails P C X defaults topic log r"
  shows "rd_store r = replay X defaults (map (record_of C) (below (rd_next r) log)) \<and>
    (fst (poll token (rd_barriers r)) = PollSeen \<longrightarrow>
      (\<exists>lr\<in>set (below (rd_next r) log). token_of P C lr = Some token))"
proof -
  have t: "tailed P C X defaults topic log r" by (rule tails_tailed [OF assms])
  have "token \<in> bar_seen (rd_barriers r)" if "fst (poll token (rd_barriers r)) = PollSeen"
    using that by (auto simp: poll_def split: if_splits)
  with t show ?thesis unfolding tailed_def by (auto simp: set_map_filter)
qed

text \<open>A topic that holds one barrier record, read by a reader whose writer reserved the token.\<close>

definition sample_uuid :: "string \<Rightarrow> uuid option" where
  "sample_uuid s = (if s = ''t7'' then Some 7 else None)"

definition barrier_log :: "json log_record list" where
  "barrier_log = [\<lparr>lr_offset = 0,
     lr_key = Some (JObj [(''barrier'', JStr ''t7''), (''keytype'', JStr ''NOOP'')]), lr_value = None\<rparr>]"

definition barrier_reader :: reader where
  "barrier_reader = reader_step sample_uuid value_codec echo_parsers empty_store
     (Fetched \<lparr>fp_records = barrier_log, fp_next_offset = Some 1\<rparr>)
     (reader_step sample_uuid value_codec echo_parsers empty_store (Connected 1 None)
       ((spawn_reader 1 empty_store)\<lparr>rd_barriers := reserve 7 no_barriers\<rparr>))"

lemma barrier_reader_tails: "tails sample_uuid value_codec echo_parsers empty_store 1 barrier_log barrier_reader"
  unfolding barrier_reader_def
proof (intro tails.fetch tails.connect)
  show "tails sample_uuid value_codec echo_parsers empty_store 1 barrier_log
      ((spawn_reader 1 empty_store)\<lparr>rd_barriers := reserve 7 no_barriers\<rparr>)"
    using tails.reserve [OF tails.start, of sample_uuid value_codec echo_parsers empty_store 1 barrier_log 7]
    by (simp add: spawn_reader_def)
qed (simp add: answers_def on_connected_def spawn_reader_def fresh_records_def barrier_log_def)

lemma barrier_token_sample: "token_of sample_uuid value_codec (hd barrier_log) = Some 7"
  by (simp add: token_of_def barrier_token_def barrier_log_def from_slice_value_def value_codec_def
      json_get_def as_str_def sample_uuid_def btree_of_list_def less_char_def)

lemma barrier_reader_seen:
  "fst (poll 7 (rd_barriers barrier_reader)) = PollSeen" "rd_next barrier_reader = 1"
proof -
  let ?r = "(spawn_reader 1 empty_store)\<lparr>rd_barriers := reserve 7 no_barriers, rd_connected := True\<rparr>"
  let ?r1 = "fold (on_record sample_uuid value_codec echo_parsers) barrier_log ?r"
  have "List.map_filter (token_of sample_uuid value_codec) (fresh_records ?r barrier_log) = [7]"
    using barrier_token_sample
    by (simp add: fresh_records_def barrier_log_def spawn_reader_def List.map_filter_simps)
  then have obs: "rd_observed ?r1 = [7]"
    by (simp add: fold_on_record_observed spawn_reader_def)
  have none: "rd_rebuild ?r1 = None"
    by (rule fold_on_record_live [THEN conjunct1]) (simp add: spawn_reader_def)
  have r1: "rd_barriers ?r1 = reserve 7 no_barriers" "rd_next ?r1 = 0" by (simp_all add: spawn_reader_def)
  have eq: "barrier_reader = on_cursor 1 ?r1"
    by (simp add: barrier_reader_def on_connected_def on_fetched_def spawn_reader_def)
  have "rd_barriers barrier_reader = observe 7 (reserve 7 no_barriers)" "rd_next barrier_reader = 1"
    unfolding eq on_cursor_def complete_rebuild_def Let_def none r1 by (simp_all add: obs)
  then show "fst (poll 7 (rd_barriers barrier_reader)) = PollSeen" "rd_next barrier_reader = 1"
    by (simp_all add: poll_def observe_def reserve_def no_barriers_def)
qed

theorem seen_barrier_means_applied_witness:
  "rd_store barrier_reader = replay echo_parsers empty_store (map (record_of value_codec) (below 1 barrier_log)) \<and>
   (\<exists>lr\<in>set (below 1 barrier_log). token_of sample_uuid value_codec lr = Some 7)"
  using seen_barrier_means_applied [OF _ _ barrier_reader_tails, of 7] barrier_reader_seen
  by (simp add: barrier_log_def)

subsection \<open>The id mark across resets\<close>

definition id_mark_kept :: "reader \<Rightarrow> bool" where
  "id_mark_kept r \<longleftrightarrow> (\<forall>rb. rd_rebuild r = Some rb \<longrightarrow> st_max_id (rd_store r) \<le> st_max_id (rb_store rb))"

lemma fold_on_record_mark:
  assumes "id_mark_kept r"
  shows "id_mark_kept (fold (on_record P C X) rs r) \<and>
    st_max_id (rd_store r) \<le> st_max_id (rd_store (fold (on_record P C X) rs r))"
proof (cases "rd_rebuild r")
  case None
  then show ?thesis
    using fold_on_record_live [OF None, of P C X rs] id_mark.mark_replay
    by (simp add: id_mark_kept_def)
next
  case (Some rb)
  then show ?thesis
    using fold_on_record_rebuild [OF Some, of P C X rs] assms
      order_trans [OF _ id_mark.mark_replay, of "st_max_id (rd_store r)" "rb_store rb" X]
    by (simp add: id_mark_kept_def)
qed

lemma on_cursor_mark:
  assumes "id_mark_kept r"
  shows "id_mark_kept (on_cursor c r) \<and> st_max_id (rd_store r) \<le> st_max_id (rd_store (on_cursor c r))"
  using assms
  by (auto simp: id_mark_kept_def on_cursor_def complete_rebuild_def Let_def split: option.splits if_splits)

lemma reset_mark:
  assumes "id_mark_kept r" "begin_rebuild (rd_store r) defaults (rd_rebuild r) a b True = (live, next, rb)"
  shows "st_max_id (rd_store r) \<le> st_max_id live \<and>
    (\<forall>x. rb = Some x \<longrightarrow> st_max_id live \<le> st_max_id (rb_store x))"
  using assms
  by (auto simp: id_mark_kept_def begin_rebuild_def preserve_id_high_water_def Let_def max.coboundedI2
      split: if_splits option.splits)

lemma reader_step_mark:
  assumes "id_mark_kept r" "\<And>t b. ev = Connected t b \<Longrightarrow> t = rd_topic_id r"
  shows "id_mark_kept (reader_step P C X defaults ev r) \<and>
    st_max_id (rd_store r) \<le> st_max_id (rd_store (reader_step P C X defaults ev r)) \<and>
    rd_topic_id (reader_step P C X defaults ev r) = rd_topic_id r"
proof (cases ev)
  case (Connected t b)
  with assms show ?thesis by (auto simp: on_connected_def id_mark_kept_def)
next
  case ConnectFailed
  with assms show ?thesis by (auto simp: id_mark_kept_def)
next
  case (Fetched p)
  let ?r1 = "fold (on_record P C X) (fp_records p) (r\<lparr>rd_consecutive := 0\<rparr>)"
  have "id_mark_kept ?r1" "st_max_id (rd_store r) \<le> st_max_id (rd_store ?r1)"
    using fold_on_record_mark [of "r\<lparr>rd_consecutive := 0\<rparr>" P C X "fp_records p"] assms(1)
    by (simp_all add: id_mark_kept_def)
  moreover from this(1) have "id_mark_kept (on_cursor c ?r1)"
    "st_max_id (rd_store ?r1) \<le> st_max_id (rd_store (on_cursor c ?r1))" for c
    using on_cursor_mark by blast+
  moreover have "rd_topic_id (on_cursor c ?r1) = rd_topic_id r" for c
    by (simp add: on_cursor_def Let_def split: prod.splits)
  ultimately show ?thesis
    using Fetched assms(1) by (auto simp: on_fetched_def Let_def intro: order_trans split: option.splits)
next
  case (FetchFailed e b)
  have kept: "id_mark_kept (count_failure r)" using assms(1) by (simp add: id_mark_kept_def)
  show ?thesis
    using FetchFailed assms(1) kept reset_mark [OF kept, of defaults]
    by (auto simp: on_fetch_failed_def Let_def id_mark_kept_def
        split: fetch_error_action.splits option.splits prod.splits)
qed

text \<open>On one topic, no sequence of broker answers, connection losses and resets to the log start
  ever lowers the highest id the live store knows, so ids assigned before a reset are not handed out
  again after it.\<close>

theorem resets_keep_id_mark:
  assumes "list_all (\<lambda>ev. case ev of Connected t b \<Rightarrow> t = topic | _ \<Rightarrow> True) events"
  shows "st_max_id initial \<le> st_max_id (rd_store (run_reader P C X defaults events (spawn_reader topic initial)))"
proof -
  have "id_mark_kept r \<Longrightarrow> rd_topic_id r = topic \<Longrightarrow>
      list_all (\<lambda>ev. case ev of Connected t b \<Rightarrow> t = topic | _ \<Rightarrow> True) events \<Longrightarrow>
      st_max_id (rd_store r) \<le> st_max_id (rd_store (run_reader P C X defaults events r))" for r
    unfolding run_reader_def
  proof (induction events arbitrary: r)
    case (Cons ev events)
    have "id_mark_kept (reader_step P C X defaults ev r)"
      "st_max_id (rd_store r) \<le> st_max_id (rd_store (reader_step P C X defaults ev r))"
      "rd_topic_id (reader_step P C X defaults ev r) = topic"
      using reader_step_mark [of r ev P C X defaults] Cons.prems by (auto split: reader_event.splits)
    with Cons.IH [of "reader_step P C X defaults ev r"] Cons.prems(3) show ?case
      by (auto intro: order_trans)
  qed simp
  from this [of "spawn_reader topic initial"] assms show ?thesis
    by (simp add: id_mark_kept_def spawn_reader_def)
qed

theorem resets_keep_id_mark_witness:
  "SchemaId 1 \<le> st_max_id (rd_store (run_reader sample_uuid value_codec echo_parsers empty_store
     [Connected 1 None, FetchFailed (Server 1) (Some (5, 5))] (spawn_reader 1 one_schema)))"
  using resets_keep_id_mark [of 1 "[Connected 1 None, FetchFailed (Server 1) (Some (5, 5))]" one_schema
      sample_uuid value_codec echo_parsers empty_store]
  by (simp add: one_schema_def)

end
