(* ===== verification/Reader_Facade.thy ===== *)
theory Reader_Facade
  imports Kafkastore_Props Reader_Props
begin

text \<open>
  The reader task (\<open>Reader\<close>, a step function on the broker's answers) is what the facade's model of the
  reader stands for: a fetch is a \<open>read_on\<close>, a connection that finds another topic is a \<open>replace_topic\<close>
  that invalidates every waiter, and a waiter sees its barrier when the record with its token was read and
  no rebuild is under way.
\<close>

text \<open>The records of a topic, each at its offset.\<close>

definition offset_record :: "'b raw_log \<Rightarrow> nat \<Rightarrow> 'b log_record" where
  "offset_record topic i = \<lparr>lr_offset = int i, lr_key = Some (fst (topic ! i)), lr_value = snd (topic ! i)\<rparr>"

definition numbered :: "'b raw_log \<Rightarrow> 'b log_record list" where
  "numbered topic = map (offset_record topic) [0..<length topic]"

text \<open>The reader task that stands behind a state of the facade.\<close>

definition behind :: "'b kafka_store \<Rightarrow> reader \<Rightarrow> bool" where
  "behind s r \<longleftrightarrow> rd_store r = ks_store s \<and> rd_rebuild r = ks_rebuild s \<and> rd_next r = int (ks_applied s)"

lemma numbered_between:
  assumes "a \<le> c" "c \<le> length topic"
  shows "filter (\<lambda>lr. int a \<le> lr_offset lr \<and> lr_offset lr < int c) (numbered topic) = map (offset_record topic) [a..<c]"
proof -
  have "[0..<length topic] = [0..<a] @ [a..<c] @ [c..<length topic]"
    using assms upt_add_eq_append [of 0 a "length topic - a"] upt_add_eq_append [of a c "length topic - c"] by simp
  moreover have "filter (\<lambda>i. a \<le> i \<and> i < c) [0..<a] = []" "filter (\<lambda>i. a \<le> i \<and> i < c) [c..<length topic] = []"
    "filter (\<lambda>i. a \<le> i \<and> i < c) [a..<c] = [a..<c]"
    by (auto simp: filter_empty_conv filter_id_conv)
  ultimately have "filter (\<lambda>i. a \<le> i \<and> i < c) [0..<length topic] = [a..<c]" by simp
  then show ?thesis by (simp add: numbered_def filter_map comp_def offset_record_def)
qed

lemma numbered_decoded:
  assumes "a \<le> c" "c \<le> length topic"
  shows "map (record_of C) (map (offset_record topic) [a..<c]) = decode_log C (take (c - a) (drop a topic))"
proof (rule nth_equalityI)
  show "length (map (record_of C) (map (offset_record topic) [a..<c])) = length (decode_log C (take (c - a) (drop a topic)))"
    using assms by (simp add: decode_log_def)
  fix i assume "i < length (map (record_of C) (map (offset_record topic) [a..<c]))"
  then have "i < c - a" by simp
  then show "map (record_of C) (map (offset_record topic) [a..<c]) ! i = decode_log C (take (c - a) (drop a topic)) ! i"
    using assms by (simp add: decode_log_def record_of_def offset_record_def unwrap_or_def case_prod_beta)
qed

text \<open>A fetch that the broker answers with the records of the topic from the reader's offset up to the cursor.\<close>

lemma fetch_reads_on:
  assumes "behind s r" "ks_applied s \<le> length (ks_topic s)" "rd_connected r"
    and "answers (numbered (ks_topic s)) r progress" "fp_next_offset progress = Some (int c)" "c \<le> length (ks_topic s)"
  shows "behind (read_on R (c - ks_applied s) s)
      (reader_step P (re_codec R) (re_parsers R) defaults (Fetched progress) r)"
proof -
  let ?n = "c - ks_applied s" and ?C = "re_codec R" and ?X = "re_parsers R" and ?r0 = "r\<lparr>rd_consecutive := 0\<rparr>"
  let ?r1 = "fold (on_record P ?C ?X) (fp_records progress) ?r0"
  let ?new = "decode_log ?C (take ?n (drop (ks_applied s) (ks_topic s)))"
  have le: "ks_applied s \<le> c" using assms(1,4,5) by (simp add: answers_def behind_def)
  have "fresh_records ?r0 (fp_records progress) = map (offset_record (ks_topic s)) [ks_applied s..<c]"
    using assms(1,4,5) numbered_between [OF le assms(6)] by (simp add: answers_def behind_def fresh_records_def)
  then have new: "map (record_of ?C) (fresh_records ?r0 (fp_records progress)) = ?new"
    using numbered_decoded [OF le assms(6)] by simp
  have len: "ks_applied s + length (take ?n (drop (ks_applied s) (ks_topic s))) = c" using le assms(2,6) by simp
  have step: "reader_step P ?C ?X defaults (Fetched progress) r = on_cursor (int c) ?r1"
    using assms(3,5) by (simp add: on_fetched_def)
  have nxt: "max (rd_next ?r1) (int c) = int c" using assms(1) le by (simp add: behind_def)
  have "rd_store ?r1 = (if ks_rebuild s = None then fold (apply_record ?X) ?new (ks_store s) else ks_store s)"
    "rd_rebuild ?r1 = map_option (\<lambda>rb. rb\<lparr>rb_store := fold (apply_record ?X) ?new (rb_store rb)\<rparr>) (ks_rebuild s)"
    using fold_on_record_live [of ?r0 P ?C ?X "fp_records progress"] assms(1) new
      fold_on_record_rebuild [of ?r0 _ P ?C ?X "fp_records progress"]
    by (cases "ks_rebuild s"; simp add: behind_def)+
  then show ?thesis
    unfolding step on_cursor_def nxt read_on_def Let_def len behind_def
    by (auto split: prod.splits)
qed

lemma connect_replaces:
  assumes "behind s r" "\<not> rd_connected r" "rd_topic_id r \<noteq> 0" "resolved \<noteq> rd_topic_id r"
  shows "behind (replace_topic R fresh s)
      (reader_step P (re_codec R) (re_parsers R) (re_defaults R) (Connected resolved (Some (0, int (length fresh)))) r)"
  using assms by (auto simp: behind_def on_connected_def replace_topic_def begin_rebuild_def Let_def)

lemma fetch_publishes:
  assumes "behind s r" "rd_connected r" "answers (numbered (ks_topic s)) r progress"
    and "fp_next_offset progress = Some (int c)" "c \<le> length (ks_topic s)"
    and r': "r' = reader_step P (re_codec R) (re_parsers R) defaults (Fetched progress) r"
    and "token \<in> bar_pending (rd_barriers r)" "fst (poll token (rd_barriers r)) = PollPending"
  shows "fst (poll token (rd_barriers r')) =
    (if rd_rebuild r' = None \<and> (token \<in> set (rd_observed r) \<or>
        (\<exists>i\<in>set [ks_applied s..<c]. token_of P (re_codec R) (offset_record (ks_topic s) i) = Some token))
     then PollSeen else PollPending)"
proof -
  let ?C = "re_codec R" and ?X = "re_parsers R" and ?r0 = "r\<lparr>rd_consecutive := 0\<rparr>"
  let ?r1 = "fold (on_record P ?C ?X) (fp_records progress) ?r0"
  have le: "ks_applied s \<le> c" using assms(1,3,4) by (simp add: answers_def behind_def)
  have "fresh_records ?r0 (fp_records progress) = map (offset_record (ks_topic s)) [ks_applied s..<c]"
    using assms(1,3,4) numbered_between [OF le assms(5)] by (simp add: answers_def behind_def fresh_records_def)
  then have obs: "set (rd_observed ?r1) = set (rd_observed r) \<union>
      {t. \<exists>i\<in>set [ks_applied s..<c]. token_of P ?C (offset_record (ks_topic s) i) = Some t}"
    by (auto simp: fold_on_record_observed set_map_filter)
  have step: "r' = on_cursor (int c) ?r1" using assms(2,4) r' by (simp add: on_fetched_def)
  have "rd_barriers r' = (if rd_rebuild r' = None then fold observe (rd_observed ?r1) (rd_barriers r) else rd_barriers r)"
    unfolding step on_cursor_def Let_def by (auto split: prod.splits)
  then show ?thesis using tracker.observe_all_status [OF assms(8,7)] assms(8) obs by auto
qed

text \<open>C26: the reader task is a simulation of the reader in the facade's state. When the broker answers a fetch at
  the task's offset with the records of the topic up to a cursor, a task that stands behind a state of the facade
  stands behind the state in which the facade's reader has read on to the cursor: the live store, the rebuild and the
  offset agree. A pending token is then reported as seen exactly when no rebuild is under way and its record was
  among those read, now or during the rebuild. When the task finds another topic under the name, it stands behind the
  state with the replaced topic, and every pending token is reported as invalidated.\<close>

theorem reader_feeds_facade:
  assumes "behind s r" "ks_applied s \<le> length (ks_topic s)"
  shows "(\<forall>progress c. rd_connected r \<and> answers (numbered (ks_topic s)) r progress \<and>
        fp_next_offset progress = Some (int c) \<and> c \<le> length (ks_topic s) \<longrightarrow>
      (let s' = read_on R (c - ks_applied s) s;
           r' = reader_step P (re_codec R) (re_parsers R) (re_defaults R) (Fetched progress) r
       in behind s' r' \<and> ks_applied s' = c \<and>
         (\<forall>token\<in>bar_pending (rd_barriers r). fst (poll token (rd_barriers r)) = PollPending \<longrightarrow>
           fst (poll token (rd_barriers r')) =
             (if ks_rebuild s' = None \<and> (token \<in> set (rd_observed r) \<or>
                  (\<exists>i\<in>set [ks_applied s..<c]. token_of P (re_codec R) (offset_record (ks_topic s) i) = Some token))
              then PollSeen else PollPending)))) \<and>
    (\<forall>resolved fresh. \<not> rd_connected r \<and> rd_topic_id r \<noteq> 0 \<and> resolved \<noteq> rd_topic_id r \<longrightarrow>
      (let r' = reader_step P (re_codec R) (re_parsers R) (re_defaults R) (Connected resolved (Some (0, int (length fresh)))) r
       in behind (replace_topic R fresh s) r' \<and>
         (\<forall>token\<in>bar_pending (rd_barriers r). fst (poll token (rd_barriers r')) = PollInvalidated)))"
proof (intro conjI allI impI)
  fix progress c
  assume a: "rd_connected r \<and> answers (numbered (ks_topic s)) r progress \<and>
        fp_next_offset progress = Some (int c) \<and> c \<le> length (ks_topic s)"
  let ?s' = "read_on R (c - ks_applied s) s"
  let ?r' = "reader_step P (re_codec R) (re_parsers R) (re_defaults R) (Fetched progress) r"
  have b: "behind ?s' ?r'" using fetch_reads_on [OF assms] a by blast
  have le: "ks_applied s \<le> c" using assms(1) a by (auto simp: answers_def behind_def)
  have c: "ks_applied ?s' = c" using le a assms(2) by (auto simp: read_on_applied min_def)
  show "let s' = ?s'; r' = ?r' in behind s' r' \<and> ks_applied s' = c \<and>
      (\<forall>token\<in>bar_pending (rd_barriers r). fst (poll token (rd_barriers r)) = PollPending \<longrightarrow>
        fst (poll token (rd_barriers r')) =
          (if ks_rebuild s' = None \<and> (token \<in> set (rd_observed r) \<or>
               (\<exists>i\<in>set [ks_applied s..<c]. token_of P (re_codec R) (offset_record (ks_topic s) i) = Some token))
           then PollSeen else PollPending))"
    using b c a fetch_publishes [OF assms(1), of progress c ?r' P R "re_defaults R"] by (simp add: Let_def behind_def)
next
  fix resolved fresh
  assume a: "\<not> rd_connected r \<and> rd_topic_id r \<noteq> 0 \<and> resolved \<noteq> rd_topic_id r"
  then show "let r' = reader_step P (re_codec R) (re_parsers R) (re_defaults R) (Connected resolved (Some (0, int (length fresh)))) r
    in behind (replace_topic R fresh s) r' \<and>
      (\<forall>token\<in>bar_pending (rd_barriers r). fst (poll token (rd_barriers r')) = PollInvalidated)"
    using connect_replaces [OF assms(1), of resolved R fresh P]
    by (auto simp: on_connected_def begin_rebuild_def Let_def intro: tracker.invalidate_status)
qed

text \<open>A topic with one barrier, read by a task whose writer waits for it; and the same task, finding another
  topic.\<close>

definition barrier_topic :: "json raw_log" where
  "barrier_topic = [(JObj [(''barrier'', JStr ''t7''), (''keytype'', JStr ''NOOP'')], None)]"

definition waiting_reader :: reader where
  "waiting_reader = (spawn_reader 1 empty_store)\<lparr>rd_barriers := reserve 7 no_barriers\<rparr>"

lemma waiting_simps [simp]:
  "bar_pending (rd_barriers waiting_reader) = {7}" "fst (poll 7 (rd_barriers waiting_reader)) = PollPending"
  "\<not> rd_connected waiting_reader" "rd_topic_id waiting_reader = 1" "rd_next waiting_reader = 0"
  by (simp_all add: waiting_reader_def spawn_reader_def reserve_def no_barriers_def poll_def)

lemma barrier_topic_numbered: "numbered barrier_topic = barrier_log" "offset_record barrier_topic 0 = hd barrier_log"
  by (simp_all add: numbered_def barrier_topic_def barrier_log_def offset_record_def)

theorem reader_feeds_facade_witness:
  "fst (poll 7 (rd_barriers (reader_step sample_uuid value_codec echo_parsers empty_store
      (Fetched \<lparr>fp_records = barrier_log, fp_next_offset = Some 1\<rparr>) (waiting_reader\<lparr>rd_connected := True\<rparr>)))) = PollSeen \<and>
   behind (replace_topic (registry_on empty_store) barrier_topic (idle_store\<lparr>ks_topic := barrier_topic\<rparr>))
     (reader_step sample_uuid value_codec echo_parsers empty_store (Connected 2 (Some (0, 1))) waiting_reader)"
proof -
  let ?R = "registry_on empty_store" and ?s = "idle_store\<lparr>ks_topic := barrier_topic\<rparr>"
  let ?r = "waiting_reader\<lparr>rd_connected := True\<rparr>" and ?p = "\<lparr>fp_records = barrier_log, fp_next_offset = Some 1\<rparr>"
  have b: "behind ?s ?r" "behind ?s waiting_reader" "ks_applied ?s \<le> length (ks_topic ?s)"
    by (simp_all add: behind_def idle_on_def waiting_reader_def spawn_reader_def)
  have "answers (numbered (ks_topic ?s)) ?r ?p"
    by (simp add: answers_def barrier_topic_numbered(1)) (simp add: barrier_log_def fresh_records_def)
  then have "fst (poll 7 (rd_barriers (reader_step sample_uuid value_codec echo_parsers empty_store (Fetched ?p) ?r))) = PollSeen"
    using reader_feeds_facade [OF b(1,3), of ?R sample_uuid, THEN conjunct1, rule_format, of ?p 1]
      barrier_token_sample barrier_topic_numbered(2)
    by (simp add: Let_def idle_on_def read_on_def complete_rebuild_def barrier_topic_def)
  then show ?thesis
    using reader_feeds_facade [OF b(2,3), of ?R sample_uuid, THEN conjunct2, rule_format, of 2 barrier_topic]
    by (simp add: Let_def) (simp add: barrier_topic_def)
qed

end
