(* ===== verification/Compat_Props.thy ===== *)
theory Compat_Props
  imports Compat Store_Queries Pb_Diff_Props Json_Diff_Props
begin

text \<open>
  What the compatibility engine enforces: the checks a registration has to pass, how the levels
  compare, and that the dry run of \<open>/compatibility\<close> predicts the registration.
\<close>

subsection \<open>The checks a registration has to pass\<close>

definition target_versions :: "compatibility_level \<Rightarrow> 'b list \<Rightarrow> 'b list" where
  "target_versions level vs = (if is_transitive level \<or> vs = [] then vs else [last vs])"

lemma collect_empty_iff: "collect rs = Some [] \<longleftrightarrow> (\<forall>r\<in>set rs. r = Some [])"
proof (induction rs)
  case (Cons r rs)
  then show ?case by (cases r; cases "collect rs") auto
qed simp

lemma collect_map_empty_iff: "collect (map f xs) = Some [] \<longleftrightarrow> (\<forall>x\<in>set xs. f x = Some [])"
  by (simp add: collect_empty_iff)

definition passes :: "'a third_party \<Rightarrow> nat \<Rightarrow> store_state \<Rightarrow> schema_type \<Rightarrow> string \<Rightarrow> resolved_reference list
    \<Rightarrow> direction \<Rightarrow> string \<times> schema_reference list \<Rightarrow> bool" where
  "passes X n snap ty candidate crefs dir t \<longleftrightarrow>
     check_direction X n ty candidate crefs (fst t) (existing_closure snap (snd t)) dir = Some []"

lemma check_pair_passes:
  "check_pair X n ty candidate crefs vschema (existing_closure snap vrefs) dirs = Some [] \<longleftrightarrow>
    (\<forall>d\<in>set dirs. passes X n snap ty candidate crefs d (vschema, vrefs))"
  by (simp add: check_pair_def collect_map_empty_iff passes_def)

lemma check_registration_iff:
  "check_registration X n snap subject ty candidate crefs = Some (Inr ()) \<longleftrightarrow>
    (\<forall>t\<in>set (target_versions (effective_level snap subject) (versions_schemas snap subject)).
      \<forall>d\<in>set (directions (effective_level snap subject)). passes X n snap ty candidate crefs d (snd t))"
proof -
  let ?ts = "if is_transitive (effective_level snap subject) then versions_schemas snap subject
    else [last (versions_schemas snap subject)]"
  let ?dirs = "directions (effective_level snap subject)"
  let ?f = "\<lambda>(vty :: schema_type, vschema, vrefs).
    check_pair X n ty candidate crefs vschema (existing_closure snap vrefs) ?dirs"
  have "map_option (\<lambda>msgs. if msgs = [] then Inr () else Inl (Incompatible msgs)) r = Some (Inr ()) \<longleftrightarrow> r = Some []" for r
    by (cases r) auto
  moreover have "?f t = Some [] \<longleftrightarrow> (\<forall>d\<in>set ?dirs. passes X n snap ty candidate crefs d (snd t))" for t
    by (cases t) (simp add: check_pair_passes)
  ultimately show ?thesis
    by (auto simp: check_registration_def Let_def target_versions_def collect_map_empty_iff)
qed

subsection \<open>Stronger and weaker levels\<close>

definition level_implies :: "compatibility_level \<Rightarrow> compatibility_level \<Rightarrow> bool" where
  "level_implies strong weak \<longleftrightarrow>
     set (directions weak) \<subseteq> set (directions strong) \<and> (is_transitive weak \<longrightarrow> is_transitive strong)"

lemma target_versions_mono:
  "(is_transitive weak \<longrightarrow> is_transitive strong) \<Longrightarrow> set (target_versions weak vs) \<subseteq> set (target_versions strong vs)"
  by (auto simp: target_versions_def)

lemma resolve_into_cong:
  "(\<And>k. target_schema t k = target_schema s k) \<Longrightarrow> resolve_into t rs st = resolve_into s rs st"
proof (induction s rs st rule: resolve_into.induct)
  case (2 s r rs st)
  then show ?case by (auto split: option.splits intro!: rbind_cong)
qed simp

lemma level_change_simps:
  "versions_schemas (set_subject_compat subject level s) subject' = versions_schemas s subject'"
  "existing_closure (set_subject_compat subject level s) refs = existing_closure s refs"
  "effective_level (set_subject_compat subject level s) subject = parse_level level"
proof -
  have "target_schema (set_subject_compat subject level s) k = target_schema s k" for k
    by (simp add: target_schema_def id_of_def set_subject_compat_def)
  then show "existing_closure (set_subject_compat subject level s) refs = existing_closure s refs"
    using resolve_into_cong [of "set_subject_compat subject level s" s]
    by (simp add: existing_closure_def resolve_closure_def)
  show "versions_schemas (set_subject_compat subject level s) subject' = versions_schemas s subject'"
    by (cases "map_of (st_subjects s) subject'") (simp_all add: versions_schemas_def set_subject_compat_def)
qed (simp add: set_subject_compat_def effective_level_def subject_compat_def)

lemma passes_level_change [simp]:
  "passes X n (set_subject_compat subject level s) = passes X n s"
  by (simp add: passes_def fun_eq_iff level_change_simps)

lemma parse_level_names:
  "parse_level ''FULL'' = Full" "parse_level ''BACKWARD'' = Backward" "parse_level ''FORWARD'' = Forward"
  by (simp_all add: parse_level_def try_parse_level_def level_names_def unwrap_or_def)

text \<open>The levels are ordered by what they admit: a candidate that a subject accepts under some
  level is accepted under every level that asks for no other direction and is not transitive unless
  the first is; and it is accepted under \<open>FULL\<close> exactly when it is under both \<open>BACKWARD\<close> and
  \<open>FORWARD\<close>.\<close>

theorem level_strength:
  fixes X n s subject ty candidate crefs
  defines "accepts \<equiv> \<lambda>level. check_registration X n (set_subject_compat subject level s) subject ty candidate crefs = Some (Inr ())"
  shows "(level_implies (parse_level strong) (parse_level weak) \<and> accepts strong \<longrightarrow> accepts weak) \<and>
    (accepts ''FULL'' \<longleftrightarrow> accepts ''BACKWARD'' \<and> accepts ''FORWARD'')"
proof -
  have acc: "accepts l \<longleftrightarrow> (\<forall>t\<in>set (target_versions (parse_level l) (versions_schemas s subject)).
      \<forall>d\<in>set (directions (parse_level l)). passes X n s ty candidate crefs d (snd t))" for l
    by (simp add: accepts_def check_registration_iff level_change_simps)
  have "level_implies (parse_level strong) (parse_level weak) \<and> accepts strong \<longrightarrow> accepts weak"
    unfolding acc level_implies_def
    using target_versions_mono [of "parse_level weak" "parse_level strong" "versions_schemas s subject"]
    by blast
  moreover have "accepts ''FULL'' \<longleftrightarrow> accepts ''BACKWARD'' \<and> accepts ''FORWARD''"
    unfolding acc parse_level_names by (simp add: target_versions_def is_transitive_def ball_conj_distrib)
  ultimately show ?thesis by blast
qed

theorem level_strength_witness:
  "check_registration echo_parsers 0 (set_subject_compat ''a'' ''BACKWARD'' one_schema) ''a'' Avro ''int'' [] =
    Some (Inr ())"
proof -
  have "check_registration echo_parsers 0 (set_subject_compat ''a'' ''FULL'' one_schema) ''a'' Avro ''int'' [] =
    Some (Inr ())"
    by code_simp
  then show ?thesis
    using level_strength [of "''FULL''" "''BACKWARD''" echo_parsers 0 "''a''" one_schema Avro "''int''" "[]"]
    by (simp add: parse_level_names level_implies_def is_transitive_def)
qed

subsection \<open>The dry run\<close>

lemma map_filter_all:
  assumes "\<And>x. x \<in> set xs \<Longrightarrow> f x = Some (g x)"
  shows "List.map_filter f xs = map g xs"
  using assms by (induction xs) (auto simp: List.map_filter_simps)

lemma versions_schemas_versions:
  assumes s: "store_ok s" and vs: "versions s subject False = Some vs"
  shows "list_all2 (\<lambda>t v. \<exists>x. version s subject (Some v) False = Some x \<and>
    snd t = (vs_schema x, vs_references x)) (versions_schemas s subject) vs"
proof -
  obtain es where es: "map_of (st_subjects s) subject = Some es" "vs = map ve_version (filter (visible False) es)"
    using vs by (auto simp: versions_def Let_def bind_eq_Some_conv split: if_splits)
  let ?g = "\<lambda>e. the (map_of (st_by_id s) (ve_id e))"
  have reg: "map_of (st_by_id s) (ve_id e) = Some (?g e)" if "e \<in> set es" for e
    using store_ok_entry(2) [OF s es(1) that] by auto
  have "version s subject (Some (ve_version e)) False = Some (versioned e (?g e))"
    if e: "e \<in> set es" "visible False e" for e
  proof -
    have "entry_of s subject (ve_version e) = Some e"
      using es(1) e(1) by (intro entry_in_of [OF s]) (auto simp: entry_in_def)
    then show ?thesis using e(2) by (simp add: version_entry_of [OF s]) (metis reg [OF e(1)])
  qed
  moreover have "versions_schemas s subject =
      map (\<lambda>e. (rs_ty (?g e), rs_schema (?g e), rs_references (?g e))) (filter (visible False) es)"
    unfolding versions_schemas_def es(1)
    by (simp, rule map_filter_all) (use reg in auto)
  ultimately show ?thesis
    unfolding es(2) by (simp add: list_all2_map1 list_all2_map2 list_all2_same versioned_def)
qed

lemma compatible_iff_passes:
  assumes "versions s subject False \<noteq> None" "version s subject (Some v) False = Some x"
  shows "(\<exists>vd. check_against_version X n s subject ty candidate crefs (Some v) = Some (Inr vd) \<and> is_compatible vd) \<longleftrightarrow>
    (\<forall>d\<in>set (directions (effective_level s subject)). passes X n s ty candidate crefs d (vs_schema x, vs_references x))"
proof (cases "directions (effective_level s subject) = []")
  case False
  then show ?thesis
    using assms by (auto simp: check_against_version_def Let_def check_pair_passes [symmetric])
qed (use assms in \<open>auto simp: check_against_version_def\<close>)

lemma target_versions_all2:
  "list_all2 R xs ys \<Longrightarrow> list_all2 R (target_versions level xs) (target_versions level ys)"
proof (cases "xs = [] \<or> ys = []")
  case False
  assume "list_all2 R xs ys"
  moreover from this have "R (last xs) (last ys)" using False
    by (metis diff_less last_conv_nth length_greater_0_conv less_one list_all2_conv_all_nth)
  ultimately show ?thesis by (auto simp: target_versions_def dest: list_all2_lengthD)
qed (auto simp: target_versions_def)

text \<open>C36: the dry run predicts the registration: a candidate passes the check of a registration exactly
  when the \<open>/compatibility\<close> query finds it compatible with the latest live version or, under a
  transitive level, with every live version.\<close>

theorem dry_run_predicts_registration:
  assumes "store_ok s" "versions s subject False = Some vs"
  shows "check_registration X n s subject ty candidate crefs = Some (Inr ()) \<longleftrightarrow>
    (\<forall>v\<in>set (target_versions (effective_level s subject) vs).
      \<exists>vd. check_against_version X n s subject ty candidate crefs (Some v) = Some (Inr vd) \<and> is_compatible vd)"
proof -
  let ?level = "effective_level s subject"
  let ?P = "\<lambda>t. \<forall>d\<in>set (directions ?level). passes X n s ty candidate crefs d (snd t)"
  let ?Q = "\<lambda>v. \<exists>vd. check_against_version X n s subject ty candidate crefs (Some v) = Some (Inr vd) \<and> is_compatible vd"
  have some: "versions s subject False \<noteq> None" using assms(2) by simp
  have "list_all2 (\<lambda>t v. ?P t \<longleftrightarrow> ?Q v) (versions_schemas s subject) vs"
    using versions_schemas_versions [OF assms]
  proof (rule list_all2_mono)
    fix t v assume "\<exists>x. version s subject (Some v) False = Some x \<and> snd t = (vs_schema x, vs_references x)"
    then obtain x where x: "version s subject (Some v) False = Some x" "snd t = (vs_schema x, vs_references x)"
      by blast
    show "?P t \<longleftrightarrow> ?Q v" unfolding compatible_iff_passes [OF some x(1)] x(2) ..
  qed
  then have "list_all2 (\<lambda>t v. ?P t \<longleftrightarrow> ?Q v) (target_versions ?level (versions_schemas s subject)) (target_versions ?level vs)"
    by (rule target_versions_all2)
  then have "(\<forall>t\<in>set (target_versions ?level (versions_schemas s subject)). ?P t) \<longleftrightarrow>
      (\<forall>v\<in>set (target_versions ?level vs). ?Q v)"
    by (induction rule: list_all2_induct) auto
  then show ?thesis by (simp add: check_registration_iff)
qed

theorem dry_run_predicts_registration_witness:
  "\<exists>vd. check_against_version echo_parsers 0 one_schema ''a'' Avro ''int'' [] (Some (SchemaVersion 1)) = Some (Inr vd) \<and>
    is_compatible vd"
proof -
  have vs: "versions one_schema ''a'' False = Some [SchemaVersion 1]" by code_simp
  have "check_registration echo_parsers 0 one_schema ''a'' Avro ''int'' [] = Some (Inr ())" by code_simp
  then show ?thesis
    using dry_run_predicts_registration [OF one_schema_ok vs, of echo_parsers 0 Avro "''int''" "[]"]
    by (simp add: target_versions_def)
qed

subsection \<open>Self-compatibility\<close>

lemma find_only: "x \<in> set xs \<Longrightarrow> P x \<Longrightarrow> (\<And>y. y \<in> set xs \<Longrightarrow> P y \<Longrightarrow> y = x) \<Longrightarrow> find P xs = Some x"
proof (induction xs)
  case (Cons y ys)
  show ?case
  proof (cases "P y")
    case True
    then show ?thesis using Cons.prems(3) [of y] by simp
  next
    case False
    then show ?thesis using Cons by (metis find.simps(2) list.set_intros(2) set_ConsD)
  qed
qed simp

lemma compare_references_self:
  assumes "distinct (map rr_name refs)" "set ws \<subseteq> set refs"
  shows "compare_references X refs refs ws = Inr []"
  using assms(2)
proof (induction ws)
  case (Cons w ws)
  show ?case
  proof (cases "rr_ty w = Protobuf")
    case True
    have "find (\<lambda>r. rr_ty r = Protobuf \<and> rr_name r = rr_name w) refs = Some w"
      by (rule find_only) (use Cons.prems True assms(1) in \<open>auto simp: distinct_map inj_on_def\<close>)
    then show ?thesis using Cons True by simp
  qed (use Cons in simp)
qed simp

text \<open>A Protobuf schema that parses can read its own data: the check of a schema against itself
  under the same, distinctly named references succeeds.\<close>

theorem protobuf_self_compatible:
  assumes "protobuf_parse X schema refs = Inr d" "distinct (map rr_name refs)"
  shows "protobuf_check X schema schema refs refs = Inr ()"
  using compare_references_self [OF assms(2) subset_refl, of X] assms(1)
  by (simp add: protobuf_check_def compare_self pb_verdict_def map_err_def)

theorem protobuf_self_compatible_witness:
  "protobuf_check (echo_parsers\<lparr>protox_parse := (\<lambda>_ _. Inr (scalar_file TInt32))\<rparr>) ''s'' ''s'' [] [] = Inr ()"
  by (rule protobuf_self_compatible [of _ _ _ "(scalar_file TInt32, normalize (scalar_file TInt32))"])
    (simp_all add: protobuf_parse_def scalar_file_def echo_parsers_def map_err_def)

end
