(* ===== verification/Store_Types.thy ===== *)
theory Store_Types
  imports Compaction
begin

text \<open>
  The widths of the store's numbers: ids and versions are \<open>i32\<close>, which the model keeps as integers. Whatever
  bytes the topic holds, what is decoded from it and what the store makes of it stay in the range of an \<open>i32\<close>,
  so the unbounded integers of the model never leave the machine's.
\<close>

subsection \<open>Records that fit\<close>

abbreviation id_fits :: "schema_id \<Rightarrow> bool" where "id_fits i \<equiv> i32_range (id_raw i)"
abbreviation version_fits :: "schema_version \<Rightarrow> bool" where "version_fits v \<equiv> i32_range (version_raw v)"

definition value_fits :: "schema_value \<Rightarrow> bool" where
  "value_fits v \<longleftrightarrow> version_fits (sval_version v) \<and> id_fits (sval_id v) \<and> list_all reference_ok (sval_references v)"

definition record_fits :: "schema_record \<Rightarrow> bool" where
  "record_fits rec = (case rec of
      Schema k v \<Rightarrow> version_fits (sk_version k) \<and> value_fits v
    | Tombstone k \<Rightarrow> version_fits (sk_version k)
    | DeleteSubject k v \<Rightarrow> version_fits (dv_version v)
    | VersionHighWater k v \<Rightarrow> version_fits (hv_next_version v)
    | _ \<Rightarrow> True)"

lemma de_version_field: "de_field de_version None ms k = Some v \<Longrightarrow> version_fits v"
  by (auto simp: de_version_def dest!: de_field_cases de_i32_range)

lemma de_id_field: "de_field de_id None ms k = Some i \<Longrightarrow> id_fits i"
  by (auto simp: de_id_def dest!: de_field_cases de_i32_range)

lemma de_references_fit: "de_field (de_vec de_reference) (Some []) ms k = Some rs \<Longrightarrow> list_all reference_ok rs"
  by (auto dest!: de_field_cases de_references_ok)

lemma de_schema_value_fits: "de_schema_value j = Some v \<Longrightarrow> value_fits v"
  by (auto simp: de_schema_value_def value_fits_def Option.bind_eq_Some_conv dest: de_version_field de_id_field de_references_fit)

lemma de_schema_key_fits: "de_schema_key j = Some k \<Longrightarrow> version_fits (sk_version k)"
  by (auto simp: de_schema_key_def Option.bind_eq_Some_conv dest: de_version_field)

lemma decode_fits: "record_fits (decode C k v)"
proof -
  have "record_fits (decode_schema C k v)"
    by (auto simp: decode_schema_def record_fits_def Option.bind_eq_Some_conv split: option.splits
        dest: de_schema_key_fits de_schema_value_fits)
  moreover have "record_fits (decode_delete_subject C k v)"
    by (auto simp: decode_delete_subject_def record_fits_def Option.bind_eq_Some_conv de_delete_subject_value_def
        split: option.splits dest: de_version_field)
  moreover have "record_fits (decode_noop C k v)"
    by (auto simp: decode_noop_def record_fits_def Option.bind_eq_Some_conv de_high_water_value_def
        split: option.splits dest: de_version_field)
  moreover have "record_fits (decode_config C k v)" "record_fits (decode_mode C k v)"
    by (auto simp: decode_config_def decode_mode_def record_fits_def split: option.splits)
  ultimately show ?thesis by (auto simp: decode_def record_fits_def split: option.splits if_splits)
qed

subsection \<open>Stores that fit\<close>

definition entries_fit :: "version_entry list \<Rightarrow> bool" where
  "entries_fit vs \<longleftrightarrow> (\<forall>e\<in>set vs. version_fits (ve_version e) \<and> id_fits (ve_id e))"

definition store_fits :: "store_state \<Rightarrow> bool" where
  "store_fits s \<longleftrightarrow> (\<forall>(_, vs)\<in>set (st_subjects s). entries_fit vs) \<and>
     (\<forall>(i, reg)\<in>set (st_by_id s). id_fits i \<and> list_all reference_ok (rs_references reg)) \<and>
     (\<forall>(_, i)\<in>set (st_by_canonical s). id_fits i) \<and> (\<forall>(i, _)\<in>set (st_canonical_by_id s). id_fits i) \<and>
     id_fits (st_max_id s) \<and> (\<forall>(_, v)\<in>set (st_next_versions s). version_fits v)"

lemma btree_insert_subset: "set (btree_insert k v m) \<subseteq> insert (k, v) (set m)"
  by (induction k v m rule: btree_insert.induct) auto

lemma btree_insert_all: "\<forall>p\<in>set m. P p \<Longrightarrow> P (k, v) \<Longrightarrow> \<forall>p\<in>set (btree_insert k v m). P p"
  using btree_insert_subset by fastforce

lemma btree_remove_all: "\<forall>p\<in>set m. P p \<Longrightarrow> \<forall>p\<in>set (btree_remove k m). P p"
  by (auto simp: btree_remove_def)

lemma saturating_fits: "i32_range (i32_saturating_add a b)"
  by (auto simp: i32_saturating_add_def i32_range_def)

lemma max_fits: "version_fits a \<Longrightarrow> version_fits b \<Longrightarrow> version_fits (max a b)" "id_fits i \<Longrightarrow> id_fits j \<Longrightarrow> id_fits (max i j)"
  by (auto simp: max_def)

lemma subject_entries_fit: "store_fits s \<Longrightarrow> map_of (st_subjects s) subject = Some vs \<Longrightarrow> entries_fit vs"
  by (auto simp: store_fits_def dest!: map_of_SomeD)

lemma entries_fit_or_none: "store_fits s \<Longrightarrow> entries_fit (unwrap_or (map_of (st_subjects s) subject) [])"
  by (cases "map_of (st_subjects s) subject") (auto simp: entries_fit_def [of "[]"] dest: subject_entries_fit)

lemma bump_next_fits:
  assumes "store_fits s" and "version_fits v"
  shows "store_fits (bump_next subject v s)"
proof -
  have "version_fits (case map_of (st_next_versions s) subject of None \<Rightarrow> v | Some current \<Rightarrow> max current v)"
    using assms max_fits(1) by (auto simp: store_fits_def split: option.splits dest!: map_of_SomeD)
  then show ?thesis using assms by (auto simp: store_fits_def bump_next_def dest!: subsetD [OF btree_insert_subset])
qed

lemma observe_version_fits: "store_fits s \<Longrightarrow> store_fits (observe_version subject v s)"
  by (simp add: observe_version_def bump_next_fits saturating_fits)

lemma set_subjects_fits:
  "store_fits s \<Longrightarrow> entries_fit vs \<Longrightarrow> store_fits (s\<lparr>st_subjects := btree_insert subject vs (st_subjects s)\<rparr>)"
  by (auto simp: store_fits_def dest!: subsetD [OF btree_insert_subset])

lemma forget_canonical_fits: "store_fits s \<Longrightarrow> store_fits (forget_canonical i s)"
  by (auto simp: forget_canonical_def store_fits_def Let_def btree_remove_def split: option.splits)

lemma bind_canonical_fits: "store_fits s \<Longrightarrow> id_fits i \<Longrightarrow> store_fits (bind_canonical i key s)"
  by (auto simp: bind_canonical_def store_fits_def Let_def btree_remove_def split: option.splits dest!: subsetD [OF btree_insert_subset])

lemma index_canonical_fits: "store_fits s \<Longrightarrow> id_fits (sval_id v) \<Longrightarrow> store_fits (index_canonical X v s)"
  by (auto simp: index_canonical_def bind_canonical_fits split: sum.splits)

lemma update_entry_fits: "entries_fit es \<Longrightarrow> id_fits i \<Longrightarrow> entries_fit (update_entry v i d es)"
  by (induction v i d es rule: update_entry.induct) (auto simp: entries_fit_def)

lemma upsert_entry_fits: "entries_fit es \<Longrightarrow> version_fits v \<Longrightarrow> id_fits i \<Longrightarrow> entries_fit (upsert_entry v i d es)"
  by (cases "find (\<lambda>e. ve_version e = v) es = None") (simp add: upsert_entry_def entries_fit_def, simp add: upsert_entry_def update_entry_fits)

lemma set_entry_fits: "store_fits s \<Longrightarrow> value_fits v \<Longrightarrow> store_fits (set_entry v s)"
  unfolding set_entry_def value_fits_def
  by (intro set_subjects_fits upsert_entry_fits entries_fit_or_none) simp_all

lemma apply_schema_fits:
  assumes "store_fits s" and "value_fits v"
  shows "store_fits (apply_schema X v s)"
proof -
  have "store_fits (s\<lparr>st_max_id := max (st_max_id s) (sval_id v)\<rparr>)"
    using assms max_fits(2) by (simp add: store_fits_def value_fits_def)
  then have "store_fits (forget_canonical (sval_id v) (observe_version (sval_subject v) (sval_version v)
      (s\<lparr>st_max_id := max (st_max_id s) (sval_id v)\<rparr>)))" (is "store_fits ?s3")
    by (intro forget_canonical_fits observe_version_fits)
  then have "store_fits (?s3\<lparr>st_by_id := btree_insert (sval_id v) (stored_schema v) (st_by_id ?s3)\<rparr>)"
    using assms(2) by (auto simp: store_fits_def value_fits_def stored_schema_def dest!: subsetD [OF btree_insert_subset])
  then show ?thesis using assms(2) by (auto simp: apply_schema_def Let_def value_fits_def intro!: set_entry_fits index_canonical_fits)
qed

lemma soft_delete_subject_fits: "store_fits s \<Longrightarrow> store_fits (snd (soft_delete_subject subject s))"
  by (auto simp: soft_delete_subject_def entries_fit_def intro!: set_subjects_fits split: option.splits dest: subject_entries_fit)

lemma permanent_delete_version_fits:
  assumes "store_fits s"
  shows "store_fits (snd (permanent_delete_version subject v s))"
proof -
  let ?s1 = "observe_version subject v s"
  have one: "store_fits ?s1" by (rule observe_version_fits [OF assms])
  have two: "store_fits (?s1\<lparr>st_subjects := btree_insert subject vs (st_subjects ?s1)\<rparr>)" if "entries_fit vs" for vs
    using one that by (rule set_subjects_fits)
  have gone: "store_fits (t\<lparr>st_subjects := btree_remove subject (st_subjects t)\<rparr>)" if "store_fits t" for t :: store_state
    using that by (auto simp: store_fits_def btree_remove_def)
  have none: "entries_fit []" by (simp add: entries_fit_def)
  show ?thesis
  proof (cases "map_of (st_subjects ?s1) subject")
    case None
    then show ?thesis using one by (simp add: permanent_delete_version_def)
  next
    case (Some vs)
    have left: "entries_fit (filter (\<lambda>e. ve_version e \<noteq> v) vs)" using subject_entries_fit [OF one Some] by (simp add: entries_fit_def)
    show ?thesis using two [OF left] gone [OF two [OF none]] Some
      by (simp add: permanent_delete_version_def Let_def)
  qed
qed

lemma settings_fit:
  "store_fits (set_subject_mode a b s) = store_fits s" "store_fits (set_global_mode b s) = store_fits s"
  "store_fits (clear_subject_mode a s) = store_fits s" "store_fits (clear_global_mode s) = store_fits s"
  "store_fits (set_subject_compat a b s) = store_fits s" "store_fits (set_global_compat b s) = store_fits s"
  "store_fits (clear_subject_compat a s) = store_fits s"
  by (simp_all add: store_fits_def set_subject_mode_def set_global_mode_def clear_subject_mode_def clear_global_mode_def
      set_subject_compat_def set_global_compat_def clear_subject_compat_def)

lemma apply_record_fits: "store_fits s \<Longrightarrow> record_fits rec \<Longrightarrow> store_fits (apply_record X rec s)"
  by (auto simp: apply_record_def record_fits_def settings_fit apply_schema_fits soft_delete_subject_fits permanent_delete_version_fits
      observe_next_version_def bump_next_fits split: schema_record.splits option.splits)

subsection \<open>Replays\<close>

text \<open>A replayed state machine whose records may be assumed well formed.\<close>

locale guarded_replay =
  fixes step :: "'r \<Rightarrow> 's \<Rightarrow> 's" and ok :: "'s \<Rightarrow> bool" and good :: "'r \<Rightarrow> bool"
  assumes guarded_step: "ok s \<Longrightarrow> good r \<Longrightarrow> ok (step r s)"
begin

lemma guarded_fold: "ok s \<Longrightarrow> list_all good rs \<Longrightarrow> ok (fold step rs s)"
  by (induction rs arbitrary: s) (auto simp: guarded_step)

end

interpretation widths: guarded_replay "apply_record X" store_fits record_fits for X :: "'a third_party"
  by unfold_locales (rule apply_record_fits)

lemma decoded_log_fits: "list_all record_fits (decode_log C raw)"
  by (auto simp: decode_log_def list_all_iff decode_fits)

text \<open>A registration stays in range too, even when the id wraps around.\<close>

lemma assign_id_fits:
  assumes "store_fits s" and "list_all reference_ok (rs_references reg)"
  shows "id_fits (fst (assign_id key reg s)) \<and> store_fits (snd (assign_id key reg s))"
  using assms by (auto simp: assign_id_def i32_add_def Let_def store_fits_def split: option.splits
      dest!: subsetD [OF btree_insert_subset] map_of_SomeD)

lemma next_version_fits: "store_fits s \<Longrightarrow> version_fits (next_version s subject)"
  by (auto simp: next_version_def unwrap_or_def store_fits_def i32_range_def split: option.splits dest!: map_of_SomeD)

lemma register_new_fits:
  assumes "store_fits s" and "list_all reference_ok (rs_references reg)"
  shows "store_fits (snd (register_new key subject reg s)) \<and> id_fits (reg_id (fst (register_new key subject reg s))) \<and>
    version_fits (reg_version (fst (register_new key subject reg s)))"
proof -
  obtain i s1 where a: "assign_id key reg s = (i, s1)" by fastforce
  have f: "id_fits i" "store_fits s1" using assign_id_fits [OF assms, of key] a by simp_all
  have v: "version_fits (next_version s1 subject)" by (rule next_version_fits [OF f(2)])
  let ?s2 = "observe_version subject (next_version s1 subject) s1"
  have "store_fits ?s2" by (rule observe_version_fits [OF f(2)])
  then have "store_fits (push_version subject \<lparr>ve_version = next_version s1 subject, ve_id = i, ve_deleted = False\<rparr> ?s2)"
    unfolding push_version_def using f(1) v
    using entries_fit_or_none [OF \<open>store_fits ?s2\<close>] by (intro set_subjects_fits) (auto simp: entries_fit_def)
  then show ?thesis using f v by (simp add: register_new_def a Let_def)
qed

text \<open>Every number of the store is an \<open>i32\<close>: for any bytes on the topic, and any codec and parsers, the store that
  a node replays holds only ids, versions, references and next versions in the range of an \<open>i32\<close>, and so does
  the store after a registration of a schema whose references are, also when the next id wraps around.\<close>

lemma replayed_fits: "store_fits (replay X (with_defaults compatibility mode) (decode_log C topic))"
proof -
  have "store_fits (with_defaults compatibility mode)"
    by (simp add: store_fits_def with_defaults_def default_schema_id_def i32_range_def)
  then show ?thesis unfolding replay_def by (rule widths.guarded_fold [OF _ decoded_log_fits])
qed

lemma register_fits:
  assumes "store_fits s" "list_all reference_ok references"
    and "register X s subject ty schema references message_type = Inr (reg, s')"
  shows "store_fits s'" "i32_range (id_raw (reg_id reg))" "i32_range (version_raw (reg_version reg))"
proof -
  from assms(3) have "store_fits s' \<and> id_fits (reg_id reg) \<and> version_fits (reg_version reg)"
  proof (cases rule: register_cases)
    case (existing key)
    then show ?thesis using assms(1)
      by (auto simp: find_under_subject_canonical_def Option.bind_eq_Some_conv store_fits_def entries_fit_def
          dest!: map_of_SomeD find_SomeD)
  next
    case (new key)
    then show ?thesis
      using register_new_fits [OF assms(1), of "request_schema ty schema references message_type" key subject] assms(2) by simp
  qed
  then show "store_fits s'" "i32_range (id_raw (reg_id reg))" "i32_range (version_raw (reg_version reg))" by blast+
qed

text \<open>The answers of a store that fits.\<close>

lemma version_found_fits:
  assumes "store_fits s" "version s subject want d = Some found"
  shows "version_fits (vs_version found)" "id_fits (vs_id found)" "list_all reference_ok (vs_references found)"
proof -
  obtain es e reg where f: "map_of (st_subjects s) subject = Some es" "e \<in> set es" "map_of (st_by_id s) (ve_id e) = Some reg"
      "vs_version found = ve_version e" "vs_id found = ve_id e" "vs_references found = rs_references reg"
    using assms(2) by (auto simp: version_def rfind_def Option.bind_eq_Some_conv split: option.splits dest!: find_SomeD)
  then show "version_fits (vs_version found)" "id_fits (vs_id found)"
    using subject_entries_fit [OF assms(1) f(1)] by (auto simp: entries_fit_def)
  show "list_all reference_ok (vs_references found)"
    using assms(1) f(3,6) unfolding store_fits_def by (auto dest!: map_of_SomeD)
qed

lemma versions_fit:
  assumes "store_fits s" "versions s subject d = Some vs" "v \<in> set vs"
  shows "version_fits v"
proof -
  obtain es where "map_of (st_subjects s) subject = Some es" "v \<in> ve_version ` set es"
    using assms(2,3) by (auto simp: versions_def Let_def Option.bind_eq_Some_conv split: if_splits)
  then show ?thesis using subject_entries_fit [OF assms(1)] by (force simp: entries_fit_def)
qed

end
