(* ===== verification/Topic_Records.thy ===== *)
theory Topic_Records
  imports Kafkastore_Props Store_Types
begin

text \<open>
  The topics that registries write: every record is a barrier or one that some request decided on the state that
  such a topic stood for. On these topics a record's key and its meaning determine each other, so compacting them is
  invisible to a registry that replays them.
\<close>

subsection \<open>The records of the registry\<close>

inductive registry_record :: "'b codec \<Rightarrow> 'b \<times> 'b option \<Rightarrow> bool" for C :: "'b codec" where
  schema: "schema_value_ok (parts_value p) \<Longrightarrow> registry_record C (written (schema_kv C p))"
| tombstone: "version_fits v \<Longrightarrow> registry_record C (encode_tombstone C subject v, None)"
| config: "registry_record C (written (encode_config C owner level))"
| config_cleared: "registry_record C (config_key_bytes C (Some subject), None)"
| mode: "registry_record C (written (encode_mode C owner m))"
| mode_cleared: "registry_record C (mode_key_bytes C (Some subject), None)"
| delete_subject: "version_fits v \<Longrightarrow> registry_record C (written (encode_delete_subject C subject v))"
| high_water: "version_fits v \<Longrightarrow> registry_record C (written (encode_version_high_water C subject v))"
| barrier: "registry_record C (barrier_key C token, value)"

text \<open>The key of a slot, as the registry writes it.\<close>

fun key_json :: "slot \<Rightarrow> json" where
  "key_json (VersionSlot q) = ser_schema_key (schema_key_new (fst q) (snd q))"
| "key_json (DeleteSlot subject) = ser_delete_subject_key \<lparr>dk_keytype = ''DELETE_SUBJECT'', dk_subject = subject, dk_magic = 0\<rparr>"
| "key_json (ConfigSlot owner) = ser_config_key \<lparr>ck_keytype = ''CONFIG'', ck_subject = owner, ck_magic = 0\<rparr>"
| "key_json (ModeSlot owner) = ser_mode_key \<lparr>mk_keytype = ''MODE'', mk_subject = owner, mk_magic = 0\<rparr>"

lemmas key_defs = ser_schema_key_def schema_key_new_def ser_delete_subject_key_def ser_config_key_def ser_mode_key_def

lemma to_vec_inject:
  "codec_roundtrip C \<Longrightarrow> json_integral a \<Longrightarrow> json_integral b \<Longrightarrow> to_vec C a = to_vec C b \<longleftrightarrow> a = b"
  by (metis from_slice_to_vec option.inject)

lemma key_json_integral: "json_integral (key_json sl)"
  by (cases sl) (simp_all add: key_defs)

lemma ser_option_inject: "ser_option JStr x = ser_option JStr y \<longleftrightarrow> x = y"
  by (cases x; cases y) (simp_all add: ser_option_def)

lemma key_json_inject: "key_json sl = key_json sl' \<longleftrightarrow> sl = sl'"
  by (cases sl; cases sl') (auto simp: key_defs ser_option_inject ser_version_def json_int_def prod_eq_iff
      schema_version.expand split: if_splits)

definition keyed :: "'b codec \<Rightarrow> 'b \<times> 'b option \<Rightarrow> bool" where
  "keyed C r \<longleftrightarrow> \<not> global_config_tombstone (decode C (fst r) (snd r)) \<and>
     (case slot_of (decode C (fst r) (snd r)) of
        Some sl \<Rightarrow> fst r = to_vec C (key_json sl)
      | None \<Rightarrow> (\<forall>sl. fst r \<noteq> to_vec C (key_json sl)))"

lemma registry_record_keyed:
  assumes "codec_roundtrip C" "registry_record C r"
  shows "keyed C r"
  using assms(2)
proof (cases rule: registry_record.cases)
  case (schema p)
  then show ?thesis
    using decode_schema_kv [OF assms(1) schema(2)]
    by (simp add: keyed_def written_def global_config_tombstone_def schema_kv_def parts_value_def)
next
  case (tombstone v subject)
  then show ?thesis
    using decode_tombstone [OF assms(1) tombstone(2)]
    by (simp add: keyed_def global_config_tombstone_def encode_tombstone_def schema_key_new_def)
next
  case (config owner level)
  then show ?thesis
    using decode_encode_config [OF assms(1)]
    by (simp add: keyed_def written_def global_config_tombstone_def encode_config_def)
next
  case (config_cleared subject)
  then show ?thesis
    using decode_config_key [OF assms(1)]
    by (simp add: keyed_def global_config_tombstone_def config_key_bytes_def)
next
  case (mode owner m)
  then show ?thesis
    using decode_encode_mode [OF assms(1)]
    by (simp add: keyed_def written_def global_config_tombstone_def encode_mode_def)
next
  case (mode_cleared subject)
  then show ?thesis
    using decode_mode_key [OF assms(1)]
    by (simp add: keyed_def global_config_tombstone_def mode_key_bytes_def)
next
  case (delete_subject v subject)
  then show ?thesis
    using decode_encode_delete_subject [OF assms(1) delete_subject(2)]
    by (simp add: keyed_def written_def global_config_tombstone_def encode_delete_subject_def)
next
  case (high_water v subject)
  have "ser_high_water_key k \<noteq> key_json sl" if "hk_keytype k = ''NOOP''" for k sl
    using that by (cases sl) (simp_all add: key_defs ser_high_water_key_def)
  moreover have "json_integral (ser_high_water_key k)" for k by (simp add: ser_high_water_key_def)
  ultimately show ?thesis
    using decode_encode_high_water [OF assms(1) high_water(2)] high_water to_vec_inject [OF assms(1)] key_json_integral
    by (simp add: keyed_def written_def global_config_tombstone_def encode_version_high_water_def)
next
  case (barrier token v)
  let ?k = "JObj [(''keytype'', JStr ''NOOP''), (''magic'', json_int 0), (''barrier'', JStr token)]"
  have "?k \<noteq> key_json sl" for sl by (cases sl) (simp_all add: key_defs)
  moreover have "json_integral ?k" by simp
  ultimately show ?thesis
    using decode_barrier [OF assms(1)] barrier to_vec_inject [OF assms(1)] key_json_integral
    by (simp add: keyed_def global_config_tombstone_def barrier_key_def)
qed

lemma keyed_records_log:
  assumes "codec_roundtrip C" "\<forall>r\<in>set raw. keyed C r"
  shows "keyed_log C raw"
proof -
  have kd: "keyed C (k, v)" if "(k, v) \<in> set raw" for k v using assms(2) that by blast
  have k: "\<not> global_config_tombstone (decode C k v)"
      "slot_of (decode C k v) = Some sl \<Longrightarrow> k = to_vec C (key_json sl)"
      "slot_of (decode C k v) = None \<Longrightarrow> k \<noteq> to_vec C (key_json sl)" if "(k, v) \<in> set raw" for k v sl
    using kd [OF that] by (simp_all add: keyed_def)
  have inj: "to_vec C (key_json a) = to_vec C (key_json b) \<longleftrightarrow> a = b" for a b
    using to_vec_inject [OF assms(1) key_json_integral key_json_integral] key_json_inject by simp
  have "k = k' \<longleftrightarrow> slot_of (decode C k v) = slot_of (decode C k' v')"
    if r: "(k, v) \<in> set raw" "(k', v') \<in> set raw" "slot_of (decode C k v) \<noteq> None" for k v k' v'
  proof -
    obtain sl where sl: "slot_of (decode C k v) = Some sl" using r(3) by blast
    note key = k(2) [OF r(1) sl]
    show ?thesis
    proof (cases "slot_of (decode C k' v')")
      case None
      then show ?thesis using k(3) [OF r(2) None, of sl] key sl by simp
    next
      case (Some sl')
      then show ?thesis using k(2) [OF r(2) Some] key sl inj [of sl sl'] by simp
    qed
  qed
  then show ?thesis using k(1) unfolding keyed_log_def by blast
qed

subsection \<open>What requests write\<close>

text \<open>The extra members of a stored schema, which come back in the record of a soft delete.\<close>

definition extras_ok :: "store_state \<Rightarrow> bool" where
  "extras_ok s \<longleftrightarrow> (\<forall>i reg. map_of (st_by_id s) i = Some reg \<longrightarrow> extra_ok (rs_extra reg))"

definition record_extra_ok :: "schema_record \<Rightarrow> bool" where
  "record_extra_ok rec = (case rec of Schema k v \<Rightarrow> extra_ok (sval_extra v) | _ \<Rightarrow> True)"

lemma by_id_kept:
  "st_by_id (snd (soft_delete_subject subject s)) = st_by_id s"
  "st_by_id (snd (permanent_delete_version subject v s)) = st_by_id s"
  "st_by_id (observe_next_version subject v s) = st_by_id s"
  by (simp_all add: soft_delete_subject_def permanent_delete_version_def observe_next_version_def observe_version_def
      bump_next_def Let_def split: option.splits)

lemma settings_by_id_kept:
  "st_by_id (set_subject_mode a b s) = st_by_id s" "st_by_id (set_global_mode b s) = st_by_id s"
  "st_by_id (clear_subject_mode a s) = st_by_id s" "st_by_id (clear_global_mode s) = st_by_id s"
  "st_by_id (set_subject_compat a b s) = st_by_id s" "st_by_id (set_global_compat b s) = st_by_id s"
  "st_by_id (clear_subject_compat a s) = st_by_id s"
  by (simp_all add: set_subject_mode_def set_global_mode_def clear_subject_mode_def clear_global_mode_def
      set_subject_compat_def set_global_compat_def clear_subject_compat_def)

lemma extras_ok_step: "extras_ok s \<Longrightarrow> record_extra_ok rec \<Longrightarrow> extras_ok (apply_record X rec s)"
  unfolding extras_ok_def record_extra_ok_def
  by (cases rec) (simp_all add: apply_record_def apply_schema_by_id stored_schema_def by_id_kept settings_by_id_kept
      split: option.splits)

interpretation extras: guarded_replay "apply_record X" extras_ok record_extra_ok for X :: "'a third_party"
  by unfold_locales (rule extras_ok_step)

lemma registry_record_extra:
  assumes "codec_roundtrip C" "registry_record C (k, v)"
  shows "record_extra_ok (decode C k v)"
  using assms(2)
proof (cases rule: registry_record.cases)
  case (schema p)
  then show ?thesis
    using decode_schema_kv [OF assms(1) schema(2)] schema(2)
    by (simp add: written_def record_extra_ok_def schema_value_ok_def)
qed (use decode_tombstone [OF assms(1)] decode_encode_config [OF assms(1)] decode_config_key [OF assms(1)]
      decode_encode_mode [OF assms(1)] decode_mode_key [OF assms(1)] decode_encode_delete_subject [OF assms(1)]
      decode_encode_high_water [OF assms(1)] decode_barrier [OF assms(1)] in \<open>auto simp: written_def record_extra_ok_def\<close>)

lemma registry_records_extras:
  assumes "codec_roundtrip (re_codec R)" "re_defaults R = with_defaults compatibility mode"
    and "\<forall>r\<in>set topic. registry_record (re_codec R) r"
  shows "extras_ok (replay_of R topic)"
  unfolding replay_of_def replay_def
proof (rule extras.guarded_fold)
  show "extras_ok (re_defaults R)" by (simp add: assms(2) extras_ok_def with_defaults_def)
  show "list_all record_extra_ok (decode_log (re_codec R) topic)"
    using assms(3) registry_record_extra [OF assms(1)] by (auto simp: decode_log_def list_all_iff)
qed

text \<open>The numbers of a request are of type \<open>i32\<close>.\<close>

fun request_fits :: "ks_request \<Rightarrow> bool" where
  "request_fits (Register q) \<longleftrightarrow> list_all reference_ok (rq_references q) \<and>
     (\<forall>i. rq_import_id q = Some i \<longrightarrow> id_fits i) \<and> (\<forall>v. rq_import_version q = Some v \<longrightarrow> version_fits v)"
| "request_fits _ \<longleftrightarrow> True"

lemma encoded_record:
  assumes "version_fits v" "id_fits i" "list_all reference_ok references"
  shows "registry_record C (written (encode_schema_with_message_type C subject v i ty schema references message_type))"
    and "extra_ok extra \<Longrightarrow>
      registry_record C (written (encode_schema_deleted_with_message_type C subject v i ty schema references (message_type, extra)))"
  using assms unfolding encode_schema_with_message_type_def encode_schema_deleted_with_message_type_def
  by (auto intro!: registry_record.schema simp: schema_value_ok_def parts_value_def extra_ok_def)

lemma register_decision_records:
  assumes "store_fits t" "request_fits (Register q)" "register_decision R q t = Some (Inr (reg, recs))" "r \<in> set recs"
  shows "registry_record (re_codec R) r"
proof -
  have imp: "registry_record (re_codec R) r" if "import_decision R q resolved schema t = Inr (reg, recs)" for resolved schema
    using that assms(2,4) by (auto simp: import_decision_def rbind_Inr_iff intro: encoded_record split: option.splits if_splits)
  have new: "registry_record (re_codec R) r" if "new_decision R q schema t = Inr (reg, recs)" for schema
    using that assms(2,4) register_fits [OF assms(1)]
    by (auto simp: new_decision_def rbind_Inr_iff intro!: encoded_record)
  show ?thesis
    using assms(3,4) imp new by (auto simp: register_decision_def Let_def split: if_splits sum.splits option.splits)
qed

lemma version_extra: "extras_ok t \<Longrightarrow> version t subject want d = Some found \<Longrightarrow> extra_ok (vs_extra found)"
  by (auto simp: version_def extras_ok_def Option.bind_eq_Some_conv)

lemma fold_max_fits: "\<forall>v\<in>set vs. version_fits v \<Longrightarrow> version_fits a \<Longrightarrow> version_fits (fold max vs a)"
  by (induction vs arbitrary: a) (auto simp: max_fits)

lemma version_delete_records:
  assumes "store_fits t" "extras_ok t" "r \<in> set recs"
  shows "soft_delete_version_decision R subject v t = Some (Inr (x, recs)) \<Longrightarrow> registry_record (re_codec R) r"
    and "permanent_delete_version_decision R subject v t = Some (Inr (x, recs)) \<Longrightarrow> registry_record (re_codec R) r"
proof -
  assume "soft_delete_version_decision R subject v t = Some (Inr (x, recs))"
  then obtain found where f: "version t subject (Some v) True = Some found"
      "r = written (encode_schema_deleted_with_message_type (re_codec R) subject (vs_version found) (vs_id found)
         (vs_ty found) (vs_schema found) (vs_references found) (vs_message_type found, vs_extra found))"
    using assms(3) by (auto simp: soft_delete_version_decision_def ok_or_def rbind_Inr_iff split: if_splits option.splits)
  then show "registry_record (re_codec R) r"
    using encoded_record(2) [OF version_found_fits [OF assms(1) f(1)] version_extra [OF assms(2) f(1)]] by simp
next
  assume d: "permanent_delete_version_decision R subject v t = Some (Inr (x, recs))"
  then obtain found where f: "version t subject (Some v) True = Some found"
    by (auto simp: permanent_delete_version_decision_def rbind_Inr_iff split: if_splits)
  then have "version_fits v"
    using version_found_fits(1) [OF assms(1) f] by (auto simp: version_def Option.bind_eq_Some_conv dest!: find_SomeD)
  then show "registry_record (re_codec R) r"
    using d assms(3) next_version_fits [OF assms(1)]
    by (auto simp: permanent_delete_version_decision_def rbind_Inr_iff
        intro!: registry_record.high_water registry_record.tombstone split: if_splits)
qed

lemma subject_delete_records:
  assumes "store_fits t" "r \<in> set recs"
  shows "soft_delete_subject_decision R subject t = Some (Inr (x, recs)) \<Longrightarrow> registry_record (re_codec R) r"
    and "permanent_delete_subject_decision R subject t = Some (Inr (x, recs)) \<Longrightarrow> registry_record (re_codec R) r"
proof -
  have "version_fits (SchemaVersion 0)" by (simp add: i32_range_def)
  then show "soft_delete_subject_decision R subject t = Some (Inr (x, recs)) \<Longrightarrow> registry_record (re_codec R) r"
    using assms(2) versions_fit [OF assms(1)] fold_max_fits
    by (auto simp: soft_delete_subject_decision_def rbind_Inr_iff intro!: registry_record.delete_subject split: option.splits if_splits)
  show "permanent_delete_subject_decision R subject t = Some (Inr (x, recs)) \<Longrightarrow> registry_record (re_codec R) r"
    using assms(2) versions_fit [OF assms(1)] next_version_fits [OF assms(1)]
    by (auto simp: permanent_delete_subject_decision_def ok_or_def rbind_Inr_iff
        intro!: registry_record.high_water registry_record.tombstone registry_record.config_cleared registry_record.mode_cleared
        split: option.splits if_splits)
qed

lemma drop_value_SomeD: "drop_value d = Some (Inr (x, recs)) \<Longrightarrow> \<exists>v. d = Some (Inr (v, recs))"
  by (auto simp: drop_value_def rbind_Inr_iff)

lemma decision_records:
  assumes "store_fits t" "extras_ok t" "request_fits q" "request_decision R q t = Some (Inr (v, recs))" "r \<in> set recs"
  shows "registry_record (re_codec R) r"
proof (cases q)
  case (Register x)
  then obtain reg where "register_decision R x t = Some (Inr (reg, recs))" using assms(4) drop_value_SomeD by fastforce
  from register_decision_records [OF assms(1) _ this assms(5)] show ?thesis using assms(3) Register by blast
next
  case (SetCompat subject level)
  then show ?thesis using assms(4,5)
    by (auto simp: set_compat_decision_def Let_def intro: registry_record.config split: if_splits)
next
  case (DeleteSubjectCompat subject)
  then show ?thesis using assms(4,5)
    by (auto simp: delete_compat_decision_def intro: registry_record.config_cleared dest!: drop_value_SomeD split: option.splits)
next
  case (SoftDeleteVersion subject x)
  then show ?thesis using assms(4) version_delete_records(1) [OF assms(1,2,5)] by (auto dest!: drop_value_SomeD)
next
  case (PermanentDeleteVersion subject x)
  then show ?thesis using assms(4) version_delete_records(2) [OF assms(1,2,5)] by (auto dest!: drop_value_SomeD)
next
  case (SoftDeleteSubject subject)
  then show ?thesis using assms(4) subject_delete_records(1) [OF assms(1,5)] by (auto dest!: drop_value_SomeD)
next
  case (PermanentDeleteSubject subject)
  then show ?thesis using assms(4) subject_delete_records(2) [OF assms(1,5)] by (auto dest!: drop_value_SomeD)
next
  case (SetGlobalMode x)
  then show ?thesis using assms(4,5)
    by (auto simp: global_mode_decision_def intro: registry_record.mode split: if_splits)
next
  case (SetSubjectMode subject x)
  then show ?thesis using assms(4,5)
    by (auto simp: subject_mode_decision_def intro: registry_record.mode split: if_splits)
next
  case (ClearSubjectMode subject)
  then show ?thesis using assms(4,5) by (auto simp: clear_mode_decision_def intro: registry_record.mode_cleared)
qed

subsection \<open>Topics that registries write\<close>

text \<open>Each record is a barrier, or one of those that some request decided on the state that such a topic stood for:
  the topic as it then was, or what a slower node had seen of it. The cleaner may compact the topic at any time.\<close>

inductive registry_topic :: "('a, 'b) registry \<Rightarrow> 'b raw_log \<Rightarrow> bool" for R :: "('a, 'b) registry" where
  empty: "registry_topic R []"
| barrier: "registry_topic R topic \<Longrightarrow> registry_topic R (topic @ [(barrier_key (re_codec R) token, value)])"
| decided: "registry_topic R topic \<Longrightarrow> registry_topic R seen \<Longrightarrow> request_fits q \<Longrightarrow>
    request_decision R q (replay_of R seen) = Some (Inr (v, recs)) \<Longrightarrow> r \<in> set recs \<Longrightarrow> registry_topic R (topic @ [r])"
| compacted: "registry_topic R topic \<Longrightarrow> compacts topic topic' \<Longrightarrow> registry_topic R topic'"

lemma replay_of_fits: "re_defaults R = with_defaults compatibility mode \<Longrightarrow> store_fits (replay_of R topic)"
  unfolding replay_of_def by (simp add: replayed_fits)

lemma registry_topic_records:
  assumes "codec_roundtrip (re_codec R)" "re_defaults R = with_defaults compatibility mode" "registry_topic R topic"
  shows "\<forall>r\<in>set topic. registry_record (re_codec R) r"
  using assms(3)
proof (induction rule: registry_topic.induct)
  case (decided topic seen q v recs r)
  then have "registry_record (re_codec R) r"
    using decision_records [OF replay_of_fits [OF assms(2)] registry_records_extras [OF assms(1,2)], of seen q R v recs r] by blast
  then show ?case using decided.IH(1) by simp
next
  case (compacted topic topic')
  then show ?case using compacts_subset by blast
qed (auto intro: registry_record.barrier)

lemma barriers_registry_topic:
  "registry_topic R topic \<Longrightarrow> \<forall>r\<in>set ext. barrier_record R r \<Longrightarrow> registry_topic R (topic @ ext)"
proof (induction ext rule: rev_induct)
  case (snoc r ext)
  then obtain token where "r = (barrier_key (re_codec R) token, snd r)" by (auto simp: barrier_record_def prod_eq_iff)
  then show ?case using registry_topic.barrier [of R "topic @ ext" token "snd r"] snoc by simp
qed simp

lemma decided_registry_topic:
  assumes "registry_topic R topic" "registry_topic R seen" "request_fits q"
    and "request_decision R q (replay_of R seen) = Some (Inr (v, recs))" "set ext \<subseteq> set recs"
  shows "registry_topic R (topic @ ext)"
  using assms(5)
proof (induction ext rule: rev_induct)
  case (snoc r ext)
  then show ?case using registry_topic.decided [OF _ assms(2-4), of "topic @ ext" r] by simp
qed (simp add: assms(1))

lemma silent_registry_topic:
  assumes "honest s" "silent R s s'" "registry_topic R (ks_topic s)"
  shows "registry_topic R (ks_topic s')"
proof -
  have "ks_topic_id s' = ks_topic_id s" using assms(1,2) unfolding silent_def honest_def by blast
  then obtain ext where "ks_topic s' = ks_topic s @ ext" "\<forall>r\<in>set ext. foreign s r \<or> barrier_record R r"
    using assms(2) unfolding silent_def by blast
  moreover have "\<not> foreign s r" for r using assms(1) by (auto simp: foreign_def honest_def)
  ultimately show ?thesis using barriers_registry_topic [OF assms(3)] by simp
qed

text \<open>A facade on such a topic keeps it such.\<close>

lemma handled_registry_topic:
  assumes "codec_roundtrip (re_codec R)" "honest s" "tracked R s" "request_fits q" "registry_topic R (ks_topic s)"
  shows "registry_topic R (ks_topic (snd (ks_handle R q s)))"
proof -
  obtain r s' where w: "write_through R (request_decision R q) s = (r, s')" by fastforce
  then have "registry_topic R (ks_topic s')"
  proof (cases rule: write_through_cases)
    case (unprepared e)
    then show ?thesis using silent_registry_topic [OF assms(2) _ assms(5)] quiet_calls.guarded [of R s] by simp
  next
    case (decided u)
    then show ?thesis using silent_registry_topic [OF assms(2) _ assms(5)] quiet_calls.guarded [of R s] by simp
  next
    case (produced u s1 v recs x)
    have q: "silent R s s1" using quiet_calls.guarded [of R s] produced(1) by simp
    have h: "honest s1" and t: "registry_topic R (ks_topic s1)"
      using silent_topic_store(1) [OF assms(1,2) q] silent_registry_topic [OF assms(2) q assms(5)] by simp_all
    have d: "request_decision R q (replay_of R (ks_topic s1)) = Some (Inr (v, recs))"
      using prepared_synced [OF assms(1-3) produced(1)] produced(2) by (simp add: topic_store_def)
    obtain y s2 where p: "produce_all u recs s1 = (y, s2)" by fastforce
    obtain n where n: "honest s2" "ks_topic s2 = ks_topic s1 @ take n recs" using produce_all_prefix [OF h p] by blast
    have t2: "registry_topic R (ks_topic s2)"
      unfolding n(2) by (rule decided_registry_topic [OF t t assms(4) d set_take_subset])
    show ?thesis
    proof (cases y)
      case (Inl e)
      then show ?thesis using produced(4) p t2 by (simp add: ks_bind_def)
    next
      case (Inr a)
      then have "s' = snd (synchronise R s2)" using produced(4) p by (simp add: ks_bind_def await_applied_def)
      then show ?thesis using silent_registry_topic [OF n(1) quiet_calls.synchronise t2] by simp
    qed
  qed
  then show ?thesis using ks_handle_cases [of R q s] w assms(5) by auto
qed

text \<open>C6: log compaction is invisible on every topic that registries write, that is, whose records are barriers and
  records that requests decided on the state such a topic stood for (in whatever interleaving, partly written or on a
  stale view), and which the cleaner may have compacted before: a registry that starts from the compacted topic has the
  same subjects, versions, ids and deleted flags, and the same compatibility levels and modes, as one that replayed the
  full topic, where encoded JSON reads back. Where no one else writes, every request that the facade handles leaves such a topic behind.\<close>

theorem compaction_preserves_state:
  assumes "codec_roundtrip (re_codec R)" "re_defaults R = with_defaults compatibility mode"
    and "registry_topic R topic" "compacts topic topic'"
  shows "st_subjects (replay_of R topic) = st_subjects (replay_of R topic') \<and>
    st_global_compat (replay_of R topic) = st_global_compat (replay_of R topic') \<and>
    st_subject_compat (replay_of R topic) = st_subject_compat (replay_of R topic') \<and>
    st_global_mode (replay_of R topic) = st_global_mode (replay_of R topic') \<and>
    st_subject_mode (replay_of R topic) = st_subject_mode (replay_of R topic') \<and>
    (honest s \<and> tracked R s \<and> ks_topic s = topic \<and> request_fits q \<longrightarrow> registry_topic R (ks_topic (snd (ks_handle R q s))))"
proof -
  have r: "replay_of R xs = restore (re_parsers R) (re_codec R) compatibility mode xs" for xs
    by (simp add: replay_of_def restore_def assms(2))
  have "keyed_log (re_codec R) topic"
    using keyed_records_log [OF assms(1)] registry_topic_records [OF assms(1-3)] registry_record_keyed [OF assms(1)] by blast
  from keyed_compaction [OF assms(4) this, of "re_parsers R" compatibility mode] show ?thesis
    using handled_registry_topic [OF assms(1), of s q] assms(3) unfolding r by auto
qed

subsection \<open>The property on a concrete topic\<close>

text \<open>The global level is set twice and a barrier is cleared; the cleaner keeps the last level.\<close>

definition level_record :: "string \<Rightarrow> json \<times> json option" where
  "level_record l = written (encode_config value_codec None l)"

definition level_topic :: "json raw_log" where
  "level_topic = [level_record ''FULL'', level_record ''NONE'', (barrier_key value_codec ''t'', None)]"

lemma level_topic_written: "registry_topic (registry_on empty_store) level_topic"
proof -
  let ?R = "registry_on empty_store"
  have "replay_of ?R [] = empty_store" by (simp add: replay_of_def replay_def decode_log_def)
  then have d: "request_decision ?R (SetCompat None l) (replay_of ?R []) = Some (Inr ((), [level_record l]))" for l
    by (simp add: set_compat_decision_def global_mode_def empty_store_def with_defaults_def level_record_def)
  have "registry_topic ?R ([] @ [level_record ''FULL''])"
    by (rule registry_topic.decided [OF registry_topic.empty registry_topic.empty _ d]) simp_all
  from registry_topic.decided [OF this registry_topic.empty _ d [of "''NONE''"], of "level_record ''NONE''"]
  have "registry_topic ?R [level_record ''FULL'', level_record ''NONE'']" by simp
  from registry_topic.barrier [OF this, of "''t''" None] show ?thesis by (simp add: level_topic_def)
qed

lemma level_topic_compacts: "compacts level_topic [level_record ''NONE'']"
proof (rule compacts.steps)
  have key: "fst (level_record l) = fst (level_record m)" for l m
    by (simp add: level_record_def written_def encode_config_def)
  have "fst (level_record ''FULL'') \<in> fst ` set (tl level_topic)" using key by (auto simp: level_topic_def)
  from compacts.superseded [OF this, of "[]" "snd (level_record ''FULL'')"]
  show "compacts level_topic [level_record ''NONE'', (barrier_key value_codec ''t'', None)]"
    by (simp add: level_topic_def)
  have "fst (level_record ''NONE'') \<noteq> barrier_key value_codec ''t''"
    by (simp add: level_record_def written_def encode_config_def barrier_key_def value_codec_def ser_config_key_def)
  then show "compacts [level_record ''NONE'', (barrier_key value_codec ''t'', None)] [level_record ''NONE'']"
    using compacts.tombstone [of "barrier_key value_codec ''t''" "[level_record ''NONE'']" "[]"] by simp
qed

theorem compaction_preserves_state_witness:
  "st_subjects (replay_of (registry_on empty_store) level_topic) = st_subjects (replay_of (registry_on empty_store) [level_record ''NONE'']) \<and>
   st_global_compat (replay_of (registry_on empty_store) level_topic) =
     st_global_compat (replay_of (registry_on empty_store) [level_record ''NONE''])"
  using compaction_preserves_state [of "registry_on empty_store" "''BACKWARD''" "''READWRITE''", OF _ _ level_topic_written level_topic_compacts]
  by (simp add: value_codec_roundtrip empty_store_def [symmetric])

end
