(* ===== verification/Authn.thy ===== *)
theory Authn
  imports Election "HOL-Library.Sublist"
begin

text \<open>
  Authentication (\<^verbatim>\<open>auth/basic.rs\<close>, \<^verbatim>\<open>auth/mod.rs\<close>): the Basic credential store with its file
  format and role requirement, the constant-time comparison, the resolution of a request's principal
  and the middleware with the audit records it emits. Base64, bcrypt, the Bearer validator and the
  check of header values are parameters. Strings are their UTF-8 bytes; the \<open>str\<close> methods the
  code uses are modelled on them.
\<close>

unbundle bit_operations_syntax

subsection \<open>Strings\<close>

fun split_on :: "char \<Rightarrow> string \<Rightarrow> string list" where
  "split_on sep [] = [[]]"
| "split_on sep (c # cs) = (if c = sep then [] # split_on sep cs
     else case split_on sep cs of [] \<Rightarrow> [[c]] | w # ws \<Rightarrow> (c # w) # ws)"

text \<open>The encodings of the characters with the Unicode property \<open>White_Space\<close>, which \<open>str::trim\<close>
  removes.\<close>

definition white_space :: "string list" where
  "white_space = map (\<lambda>n. [char_of n]) [9 :: nat, 10, 11, 12, 13, 32] @
     map (map char_of) ([[194 :: nat, 133], [194, 160], [225, 154, 128], [226, 128, 168], [226, 128, 169], [226, 128, 175],
       [226, 129, 159], [227, 128, 128]] @ map (\<lambda>n. [226, 128, n]) [128..<139])"

fun trim_with :: "string list \<Rightarrow> nat \<Rightarrow> string \<Rightarrow> string" where
  "trim_with ws 0 s = s"
| "trim_with ws (Suc n) s = (case find (\<lambda>w. prefix w s) ws of
     Some w \<Rightarrow> trim_with ws n (drop (length w) s) | None \<Rightarrow> s)"

definition trim :: "string \<Rightarrow> string" where
  "trim s = (let t = trim_with white_space (length s) s
             in rev (trim_with (map rev white_space) (length t) (rev t)))"

definition strip_cr :: "string \<Rightarrow> string" where
  "strip_cr l = (if l \<noteq> [] \<and> last l = char_of (13 :: nat) then butlast l else l)"

definition lines :: "string \<Rightarrow> string list" where
  "lines s = (let parts = split_on (char_of (10 :: nat)) s
              in map strip_cr (if last parts = [] then butlast parts else parts))"

text \<open>\<open>str::from_utf8\<close>: the well-formed byte sequences.\<close>

definition continuation :: "nat \<Rightarrow> bool" where
  "continuation b \<longleftrightarrow> 128 \<le> b \<and> b \<le> 191"

fun utf8_ok :: "nat list \<Rightarrow> bool" where
  "utf8_ok [] = True"
| "utf8_ok (a # rest) =
    (if a \<le> 127 then utf8_ok rest
     else if 194 \<le> a \<and> a \<le> 223 then (case rest of b # r \<Rightarrow> continuation b \<and> utf8_ok r | _ \<Rightarrow> False)
     else if 224 \<le> a \<and> a \<le> 239 then (case rest of b # c # r \<Rightarrow>
         (if a = 224 then 160 \<le> b \<and> b \<le> 191 else if a = 237 then 128 \<le> b \<and> b \<le> 159 else continuation b)
         \<and> continuation c \<and> utf8_ok r | _ \<Rightarrow> False)
     else if 240 \<le> a \<and> a \<le> 244 then (case rest of b # c # d # r \<Rightarrow>
         (if a = 240 then 144 \<le> b \<and> b \<le> 191 else if a = 244 then 128 \<le> b \<and> b \<le> 143 else continuation b)
         \<and> continuation c \<and> continuation d \<and> utf8_ok r | _ \<Rightarrow> False)
     else False)"

definition from_utf8 :: "string \<Rightarrow> string option" where
  "from_utf8 raw = (if utf8_ok (map of_char raw) then Some raw else None)"

subsection \<open>The Basic credential store\<close>

record basic_user =
  bu_credential :: string
  bu_roles :: "string list"

definition basic_user_parse :: "string \<Rightarrow> basic_user" where
  "basic_user_parse value = (case split_on (CHR '','') value of
      [] \<Rightarrow> \<lparr>bu_credential = [], bu_roles = []\<rparr>
    | c # roles \<Rightarrow> \<lparr>bu_credential = trim c, bu_roles = filter (\<lambda>r. r \<noteq> []) (map trim roles)\<rparr>)"

record basic_auth_store =
  bs_users :: "string \<rightharpoonup> basic_user"
  bs_required_roles :: "string list"

definition from_users :: "(string \<times> string) list \<Rightarrow> basic_auth_store" where
  "from_users users = \<lparr>bs_users = fold (\<lambda>(u, c) m. m(u \<mapsto> basic_user_parse c)) users Map.empty, bs_required_roles = []\<rparr>"

definition load_line :: "string \<Rightarrow> (string \<rightharpoonup> basic_user) \<Rightarrow> (string \<rightharpoonup> basic_user)" where
  "load_line l users =
     (let l = trim l
      in if l = [] \<or> hd l = CHR ''#'' then users
         else case split_once '':'' l of
                Some (u, c) \<Rightarrow> (let u = trim u in if u \<noteq> [] then users(u \<mapsto> basic_user_parse c) else users)
              | None \<Rightarrow> users)"

text \<open>\<open>load\<close>: the lines of the file, if one is configured, then the inline users in the order the map
  yields them.\<close>

definition load_user :: "string \<times> string \<Rightarrow> (string \<rightharpoonup> basic_user) \<Rightarrow> (string \<rightharpoonup> basic_user)" where
  "load_user p users = (let u = trim (fst p) in if u \<noteq> [] then users(u \<mapsto> basic_user_parse (snd p)) else users)"

definition load :: "('e + string) option \<Rightarrow> (string \<times> string) list \<Rightarrow> string list \<Rightarrow> 'e + basic_auth_store" where
  "load file inline required =
     (let store = (\<lambda>users. \<lparr>bs_users = fold load_user inline users, bs_required_roles = required\<rparr>)
      in case file of
           None \<Rightarrow> Inr (store Map.empty)
         | Some r \<Rightarrow> rbind r (\<lambda>text. Inr (store (fold load_line (lines text) Map.empty))))"

definition constant_time_eq :: "string \<Rightarrow> string \<Rightarrow> bool" where
  "constant_time_eq a b =
     (fold (\<lambda>(index, expected) diff.
        diff OR ((of_char expected :: nat) XOR (if index < length b then of_char (b ! index) else 0)))
        (enumerate 0 a) (length a XOR length b) = 0)"

definition credential_matches :: "(string \<Rightarrow> string \<Rightarrow> bool option) \<Rightarrow> string \<Rightarrow> string \<Rightarrow> bool" where
  "credential_matches bcrypt_verify stored pass =
     (if prefix ''$2'' stored then unwrap_or (bcrypt_verify pass stored) False
      else constant_time_eq stored pass)"

definition role_matches :: "string list \<Rightarrow> string list \<Rightarrow> bool" where
  "role_matches required roles \<longleftrightarrow> required = [] \<or> list_ex (\<lambda>r. r \<in> set required) roles
     \<or> ''*'' \<in> set required \<and> roles \<noteq> []"

definition authenticate :: "(string \<Rightarrow> string \<Rightarrow> bool option) \<Rightarrow> basic_auth_store \<Rightarrow> string \<Rightarrow> string \<Rightarrow> string list option" where
  "authenticate bcrypt_verify store user pass =
     Option.bind (bs_users store user) (\<lambda>stored.
       if \<not> credential_matches bcrypt_verify (bu_credential stored) pass
          \<or> \<not> role_matches (bs_required_roles store) (bu_roles stored) then None
       else Some (bu_roles stored))"

subsection \<open>Principals\<close>

datatype auth_method = Anonymous | SaslPlain | SaslOAuthBearer | MTls | SaslScramSha256 | SaslScramSha512 | SaslGssapi

record principal =
  pr_name :: string
  pr_method :: auth_method
  pr_groups :: "string list"

definition anonymous :: principal where
  "anonymous = \<lparr>pr_name = ''ANONYMOUS'', pr_method = Anonymous, pr_groups = []\<rparr>"

datatype auth_decision = Authn principal | Unauthorized

text \<open>What the middleware is built with; the functions are the third-party validators.\<close>

record auth_state =
  as_base64_decode :: "string \<Rightarrow> string option"
  as_bcrypt_verify :: "string \<Rightarrow> string \<Rightarrow> bool option"
  as_header_value_ok :: "string \<Rightarrow> bool"
  as_basic :: "basic_auth_store option"
  as_bearer :: "(string \<Rightarrow> int \<Rightarrow> principal option) option"
  as_require_auth :: bool
  as_realm :: string
  as_forward_secret :: "string option"

text \<open>A request as the layers see it: the header values are those that are readable as text.\<close>

datatype http_method = GET | HEAD | POST | PUT | DELETE | PATCH | OtherMethod string

record http_request =
  hr_method :: http_method
  hr_path :: string
  hr_query :: string
  hr_content_type :: "string option"
  hr_body :: string
  hr_forwarded :: bool
  hr_secret :: "string option"
  hr_authorization :: "string option"
  hr_mtls :: "principal option"
  hr_peer :: "(string \<times> int) option"
  hr_principal :: "principal option"
  hr_trusted :: bool

definition basic_credentials :: "auth_state \<Rightarrow> string \<Rightarrow> (string \<times> string) option" where
  "basic_credentials st b64 =
     Option.bind (as_base64_decode st b64) (\<lambda>raw. Option.bind (from_utf8 raw) (split_once '':''))"

definition resolve_basic :: "auth_state \<Rightarrow> string \<Rightarrow> auth_decision" where
  "resolve_basic st b64 = (case as_basic st of
      None \<Rightarrow> Unauthorized
    | Some store \<Rightarrow>
        (case basic_credentials st b64 of
           None \<Rightarrow> Unauthorized
         | Some (user, pass) \<Rightarrow>
             (case authenticate (as_bcrypt_verify st) store user pass of
                Some roles \<Rightarrow> Authn \<lparr>pr_name = user, pr_method = SaslPlain, pr_groups = roles\<rparr>
              | None \<Rightarrow> Unauthorized)))"

definition resolve_bearer :: "auth_state \<Rightarrow> int \<Rightarrow> string \<Rightarrow> auth_decision" where
  "resolve_bearer st now token = (case as_bearer st of
      None \<Rightarrow> Unauthorized
    | Some validate \<Rightarrow> (case validate token now of Some p \<Rightarrow> Authn p | None \<Rightarrow> Unauthorized))"

definition resolve :: "string option \<Rightarrow> principal option \<Rightarrow> auth_state \<Rightarrow> int \<Rightarrow> auth_decision" where
  "resolve auth mtls st now = (case mtls of
      Some p \<Rightarrow> Authn p
    | None \<Rightarrow>
        (case Option.bind auth (strip_prefix ''Bearer '') of
           Some token \<Rightarrow> resolve_bearer st now token
         | None \<Rightarrow>
             (case Option.bind auth (strip_prefix ''Basic '') of
                Some b64 \<Rightarrow> resolve_basic st b64
              | None \<Rightarrow> if as_require_auth st then Unauthorized else Authn anonymous)))"

subsection \<open>The middleware\<close>

definition attempted_identity :: "auth_state \<Rightarrow> string option \<Rightarrow> string \<times> string" where
  "attempted_identity st auth = (case Option.bind auth (strip_prefix ''Basic '') of
      Some encoded \<Rightarrow>
        (''basic'', unwrap_or (map_option fst (basic_credentials st encoded)) ''unknown'')
    | None \<Rightarrow>
        (case auth of
           Some v \<Rightarrow> if prefix ''Bearer '' v then (''bearer'', ''unknown'') else (''unknown'', ''unknown'')
         | None \<Rightarrow> (''none'', ''ANONYMOUS'')))"

fun audit_auth_method :: "auth_method \<Rightarrow> string" where
  "audit_auth_method Anonymous = ''none''"
| "audit_auth_method SaslPlain = ''basic''"
| "audit_auth_method SaslOAuthBearer = ''bearer''"
| "audit_auth_method MTls = ''mtls''"
| "audit_auth_method _ = ''unknown''"

fun method_name :: "http_method \<Rightarrow> string" where
  "method_name GET = ''GET''"
| "method_name HEAD = ''HEAD''"
| "method_name POST = ''POST''"
| "method_name PUT = ''PUT''"
| "method_name DELETE = ''DELETE''"
| "method_name PATCH = ''PATCH''"
| "method_name (OtherMethod m) = m"

record audit_principal =
  ap_name :: string
  ap_method :: string

datatype audit_event =
    AuthenticationFailure string audit_principal "string \<times> int" string int
  | AdminOperation audit_principal "string \<times> int" string "string \<times> string" int
  | AuthorizationDenied audit_principal "string \<times> int" string string string int

definition audit_source :: "http_request \<Rightarrow> string \<times> int" where
  "audit_source q = unwrap_or (hr_peer q) (''unknown'', 0)"

record http_response =
  rs_status :: int
  rs_error_code :: int
  rs_message :: string
  rs_www_authenticate :: "string option"

definition unauthorized :: "auth_state \<Rightarrow> http_response" where
  "unauthorized st =
     (let challenge = ''basic realm='' @ [char_of (34 :: nat)] @ as_realm st @ [char_of (34 :: nat)]
      in \<lparr>rs_status = 401, rs_error_code = 401, rs_message = ''Unauthorized'',
          rs_www_authenticate = if as_basic st \<noteq> None \<and> as_header_value_ok st challenge then Some challenge else None\<rparr>)"

definition authenticated_forward :: "auth_state \<Rightarrow> http_request \<Rightarrow> bool" where
  "authenticated_forward st q = (case (hr_secret q, as_forward_secret st) of
      (Some actual, Some expected) \<Rightarrow> constant_time_eq expected actual
    | _ \<Rightarrow> False)"

text \<open>\<open>auth_layer\<close>: a response, or the request for the next layer; with the audit events.\<close>

definition auth_layer :: "auth_state \<Rightarrow> int \<Rightarrow> http_request \<Rightarrow> (http_response + http_request) \<times> audit_event list" where
  "auth_layer st now q =
     (if hr_forwarded q \<and> authenticated_forward st q
      then (Inr (q\<lparr>hr_principal := Some (unwrap_or (hr_principal q) anonymous), hr_trusted := True\<rparr>), [])
      else case resolve (hr_authorization q) (hr_mtls q) st now of
             Authn p \<Rightarrow> (Inr (q\<lparr>hr_principal := Some p\<rparr>), [])
           | Unauthorized \<Rightarrow>
               (let (mechanism, name) = attempted_identity st (hr_authorization q)
                in (Inl (unauthorized st),
                    [AuthenticationFailure mechanism \<lparr>ap_name = name, ap_method = mechanism\<rparr> (audit_source q)
                       (method_name (hr_method q) @ '' '' @ hr_path q @ '' authentication failed'') now])))"

subsection \<open>The comparison of secrets\<close>

lemma xor_zero: "a XOR b = 0 \<longleftrightarrow> a = b" for a b :: nat
proof
  assume "a XOR b = 0"
  then have "bit (a XOR b) n \<longleftrightarrow> False" for n by simp
  then show "a = b" by (intro bit_eqI) (auto simp: bit_xor_iff)
qed simp

lemma fold_or_zero: "fold (\<lambda>x d. d OR f x) xs d = 0 \<longleftrightarrow> d = 0 \<and> (\<forall>x\<in>set xs. f x = 0)" for d :: nat
  by (induction xs arbitrary: d) (auto simp: or_eq_0_iff)

lemma constant_time_eq_iff: "constant_time_eq a b \<longleftrightarrow> a = b"
proof
  assume "constant_time_eq a b"
  then have "length a XOR length b = 0" and
    all: "\<forall>(i, c)\<in>set (enumerate 0 a). (of_char c :: nat) XOR (if i < length b then of_char (b ! i) else 0) = 0"
    unfolding constant_time_eq_def case_prod_unfold fold_or_zero by auto
  then have len: "length a = length b" by (simp add: xor_zero)
  have "a ! i = b ! i" if "i < length a" for i
  proof -
    have "(i, a ! i) \<in> set (enumerate 0 a)" using that by (simp add: in_set_enumerate_eq)
    with all that len show ?thesis by (fastforce simp: xor_zero)
  qed
  with len show "a = b" by (simp add: nth_equalityI)
next
  assume "a = b"
  then show "constant_time_eq a b"
    unfolding constant_time_eq_def case_prod_unfold fold_or_zero by (auto simp: in_set_enumerate_eq xor_zero)
qed

text \<open>The comparison that looks at every byte of the expected secret, whatever the other one is,
  decides equality: a prefix, an extension or an empty value is never accepted for another secret.\<close>

theorem constant_time_eq_is_equality: "constant_time_eq a b \<longleftrightarrow> a = b"
  by (rule constant_time_eq_iff)

subsection \<open>Who is authenticated\<close>

text \<open>Why a principal may be attached to a request.\<close>

definition proven :: "auth_state \<Rightarrow> int \<Rightarrow> string option \<Rightarrow> principal option \<Rightarrow> principal \<Rightarrow> bool" where
  "proven st now auth mtls p \<longleftrightarrow>
     mtls = Some p \<or>
     mtls = None \<and> (\<exists>token validate. auth = Some (''Bearer '' @ token) \<and> as_bearer st = Some validate \<and> validate token now = Some p) \<or>
     mtls = None \<and> (\<exists>b64 raw pass store u. auth = Some (''Basic '' @ b64) \<and> as_basic st = Some store \<and>
       as_base64_decode st b64 = Some raw \<and> utf8_ok (map of_char raw) \<and> raw = pr_name p @ '':'' @ pass \<and> CHR '':'' \<notin> set (pr_name p) \<and>
       bs_users store (pr_name p) = Some u \<and> pr_method p = SaslPlain \<and> pr_groups p = bu_roles u \<and>
       (if prefix ''$2'' (bu_credential u) then as_bcrypt_verify st pass (bu_credential u) = Some True
        else pass = bu_credential u) \<and>
       role_matches (bs_required_roles store) (bu_roles u)) \<or>
     mtls = None \<and> (\<forall>s. auth \<noteq> Some (''Bearer '' @ s) \<and> auth \<noteq> Some (''Basic '' @ s)) \<and>
       \<not> as_require_auth st \<and> p = anonymous"

lemma strip_prefix_Some: "strip_prefix pre s = Some t \<longleftrightarrow> s = pre @ t"
  by (auto simp: strip_prefix_def) (metis append_take_drop_id)

lemma strip_prefix_None: "strip_prefix pre s = None \<longleftrightarrow> (\<forall>t. s \<noteq> pre @ t)"
  using strip_prefix_Some [of pre s] by (metis option.exhaust option.distinct(1))

lemma split_once_char: "split_once [c] s = Some (a, b) \<longleftrightarrow> s = a @ c # b \<and> c \<notin> set a"
proof (induction s arbitrary: a)
  case (Cons x s)
  show ?case
  proof (cases "x = c")
    case True
    then show ?thesis by (cases a) auto
  next
    case False
    have "split_once [c] (x # s) = Some (a, b) \<longleftrightarrow> (\<exists>a'. a = x # a' \<and> split_once [c] s = Some (a', b))"
      using False by (auto split: prod.splits)
    also have "\<dots> \<longleftrightarrow> x # s = a @ c # b \<and> c \<notin> set a"
      using False by (cases a) (auto simp: Cons.IH)
    finally show ?thesis .
  qed
qed simp

lemma resolve_basic_Authn:
  "resolve_basic st b64 = Authn p \<longleftrightarrow> (\<exists>raw pass store u. as_basic st = Some store \<and>
     as_base64_decode st b64 = Some raw \<and> utf8_ok (map of_char raw) \<and> raw = pr_name p @ '':'' @ pass \<and> CHR '':'' \<notin> set (pr_name p) \<and>
     bs_users store (pr_name p) = Some u \<and> pr_method p = SaslPlain \<and> pr_groups p = bu_roles u \<and>
     (if prefix ''$2'' (bu_credential u) then as_bcrypt_verify st pass (bu_credential u) = Some True
      else pass = bu_credential u) \<and>
     role_matches (bs_required_roles store) (bu_roles u))"
  (is "?l \<longleftrightarrow> ?r")
proof
  assume ?l
  then obtain store user pass roles where s: "as_basic st = Some store" "basic_credentials st b64 = Some (user, pass)"
      "authenticate (as_bcrypt_verify st) store user pass = Some roles"
      "p = \<lparr>pr_name = user, pr_method = SaslPlain, pr_groups = roles\<rparr>"
    by (auto simp: resolve_basic_def split: option.splits)
  then show ?r
    by (auto simp: basic_credentials_def from_utf8_def authenticate_def credential_matches_def constant_time_eq_iff
        split_once_char unwrap_or_def Option.bind_eq_Some_conv split: if_splits option.splits)
next
  assume ?r
  then obtain raw pass store u where r: "as_basic st = Some store" "as_base64_decode st b64 = Some raw"
      "utf8_ok (map of_char raw)" "raw = pr_name p @ '':'' @ pass" "CHR '':'' \<notin> set (pr_name p)"
      "bs_users store (pr_name p) = Some u" "pr_method p = SaslPlain" "pr_groups p = bu_roles u"
      "if prefix ''$2'' (bu_credential u) then as_bcrypt_verify st pass (bu_credential u) = Some True
       else pass = bu_credential u" "role_matches (bs_required_roles store) (bu_roles u)" by blast
  have "basic_credentials st b64 = Some (pr_name p, pass)"
    using r(2-5) by (simp add: basic_credentials_def from_utf8_def split_once_char)
  moreover have "authenticate (as_bcrypt_verify st) store (pr_name p) pass = Some (pr_groups p)"
    using r(6,8-10) by (simp add: authenticate_def credential_matches_def constant_time_eq_iff unwrap_or_def)
  ultimately show ?l using r(1,7) by (simp add: resolve_basic_def)
qed

lemma bind_strip: "Option.bind auth (strip_prefix pre) = Some t \<longleftrightarrow> auth = Some (pre @ t)"
  by (cases auth) (simp_all add: strip_prefix_Some)

lemma bind_strip_None: "Option.bind auth (strip_prefix pre) = None \<longleftrightarrow> (\<forall>t. auth \<noteq> Some (pre @ t))"
  by (cases auth) (simp_all add: strip_prefix_None)

lemma resolve_iff_proven: "resolve auth mtls st now = Authn p \<longleftrightarrow> proven st now auth mtls p"
proof (cases mtls)
  case None
  show ?thesis
  proof (cases "Option.bind auth (strip_prefix ''Bearer '')")
    case (Some token)
    then have a: "auth = Some (''Bearer '' @ token)" by (simp add: bind_strip)
    have "resolve auth mtls st now = resolve_bearer st now token" using None Some by (simp add: resolve_def)
    then show ?thesis using None a by (auto simp: proven_def resolve_bearer_def split: option.splits)
  next
    case nb: None
    show ?thesis
    proof (cases "Option.bind auth (strip_prefix ''Basic '')")
      case (Some b64)
      then have a: "auth = Some (''Basic '' @ b64)" by (simp add: bind_strip)
      have "resolve auth mtls st now = resolve_basic st b64" using None nb Some by (simp add: resolve_def)
      then show ?thesis using None a by (simp add: proven_def resolve_basic_Authn)
    next
      case nc: None
      have "resolve auth mtls st now = (if as_require_auth st then Unauthorized else Authn anonymous)"
        using None nb nc by (simp add: resolve_def)
      then show ?thesis using None nb [unfolded bind_strip_None] nc [unfolded bind_strip_None]
        by (auto simp: proven_def)
    qed
  qed
qed (auto simp: resolve_def proven_def)


end
