(* ===== verification/Access.thy ===== *)
theory Access
  imports Authn
begin

text \<open>
  The layers in front of the handlers: topic-ACL authorization (\<^verbatim>\<open>authz.rs\<close>), write forwarding
  (\<^verbatim>\<open>rest/forward.rs\<close>) and their composition with authentication and the route table
  (\<^verbatim>\<open>rest/mod.rs\<close>). The ACL evaluator, percent decoding and axum's matching of a path against a
  route pattern are parameters.
\<close>

subsection \<open>Authorization\<close>

datatype resource_type = Topic | Group | Cluster | TransactionalId | DelegationToken | User

datatype acl_operation = AclAll | AclRead | AclWrite | AclCreate | AclDelete | AclAlter | AclDescribe | AclClusterAction
  | AclDescribeConfigs | AclAlterConfigs | AclIdempotentWrite | AclTwoPhaseCommit | AclCreateTokens | AclDescribeTokens

datatype pattern_type = Literal | Prefixed | Match

datatype permission_type = Allow | Deny

record acl_entry =
  acl_resource_type :: resource_type
  acl_resource_name :: string
  acl_pattern_type :: pattern_type
  acl_principal :: string
  acl_host :: string
  acl_operation :: acl_operation
  acl_permission :: permission_type

definition KAFKA_CLUSTER :: string where
  "KAFKA_CLUSTER = ''kafka-cluster''"

type_synonym target = "resource_type \<times> string \<times> acl_operation"

definition segments :: "string \<Rightarrow> string list" where
  "segments path = filter (\<lambda>s. s \<noteq> []) (split_on (CHR ''/'') path)"

definition topic_target :: "(string \<Rightarrow> string) \<Rightarrow> string \<Rightarrow> acl_operation \<Rightarrow> target option" where
  "topic_target pdec seg op = Some (Topic, pdec seg, op)"

definition cluster_target :: "acl_operation \<Rightarrow> target option" where
  "cluster_target op = Some (Cluster, KAFKA_CLUSTER, op)"

text \<open>The arms of \<open>authz_target\<close>, in the order of the code.\<close>

definition subjects_target :: "(string \<Rightarrow> string) \<Rightarrow> http_method \<Rightarrow> string list \<Rightarrow> target option" where
  "subjects_target pdec m rest = (case rest of
      [] \<Rightarrow> if m = GET then cluster_target AclDescribe else None
    | [subject] \<Rightarrow>
        (if m = POST then topic_target pdec subject AclRead
         else if m = DELETE then topic_target pdec subject AclDelete else None)
    | [subject, versions] \<Rightarrow>
        (if versions \<noteq> ''versions'' then None
         else if m = GET then topic_target pdec subject AclRead
         else if m = POST then topic_target pdec subject AclWrite else None)
    | [subject, versions, v] \<Rightarrow>
        (if versions \<noteq> ''versions'' then None
         else if m = GET then topic_target pdec subject AclRead
         else if m = DELETE then topic_target pdec subject AclDelete else None)
    | [subject, versions, v, leaf] \<Rightarrow>
        (if versions = ''versions'' \<and> leaf \<in> {''schema'', ''referencedby''} \<and> m = GET
         then topic_target pdec subject AclRead else None)
    | _ \<Rightarrow> None)"

definition override_target :: "(string \<Rightarrow> string) \<Rightarrow> http_method \<Rightarrow> string list \<Rightarrow> target option" where
  "override_target pdec m rest = (case rest of
      [] \<Rightarrow> if m = PUT then cluster_target AclAlter else if m = GET then cluster_target AclDescribe else None
    | [subject] \<Rightarrow>
        (if m = PUT \<or> m = DELETE then topic_target pdec subject AclAlter
         else if m = GET then topic_target pdec subject AclDescribe else None)
    | _ \<Rightarrow> None)"

definition schemas_target :: "http_method \<Rightarrow> string list \<Rightarrow> target option" where
  "schemas_target m rest =
     (if rest = [''types''] then (if m = GET then cluster_target AclDescribe else None)
      else if rest = [''import''] then (if m = POST then cluster_target AclWrite else None)
      else if m = GET \<and> (case rest of
                [] \<Rightarrow> True
              | [ids, i] \<Rightarrow> ids = ''ids''
              | [ids, i, leaf] \<Rightarrow> ids = ''ids'' \<and> leaf \<in> {''versions'', ''schema'', ''subjects''}
              | _ \<Rightarrow> False)
      then cluster_target AclRead else None)"

definition compatibility_target :: "(string \<Rightarrow> string) \<Rightarrow> http_method \<Rightarrow> string list \<Rightarrow> target option" where
  "compatibility_target pdec m rest = (case rest of
      [subjects, subject, versions, v] \<Rightarrow>
        (if subjects = ''subjects'' \<and> versions = ''versions'' \<and> m = POST then topic_target pdec subject AclRead else None)
    | _ \<Rightarrow> None)"

definition authz_target :: "(string \<Rightarrow> string) \<Rightarrow> http_method \<Rightarrow> string \<Rightarrow> target option" where
  "authz_target pdec m path = (case segments path of
      [] \<Rightarrow> None
    | s # rest \<Rightarrow>
        (if s = ''subjects'' then subjects_target pdec m rest
         else if s = ''config'' \<or> s = ''mode'' then override_target pdec m rest
         else if s = ''compatibility'' then compatibility_target pdec m rest
         else if s = ''schemas'' then schemas_target m rest
         else None))"

text \<open>The authorizer of the ACL crate decides on the cached entries.\<close>

record registry_authz =
  az_authorizer :: "acl_entry list \<Rightarrow> principal \<Rightarrow> string \<times> int \<Rightarrow> target \<Rightarrow> bool"
  az_cache :: "acl_entry list"
  az_super_users :: "string list"
  az_enabled :: bool

definition acl_entry_from_admin :: "acl_entry \<Rightarrow> acl_entry option" where
  "acl_entry_from_admin e = (case acl_pattern_type e of Match \<Rightarrow> None | _ \<Rightarrow> Some e)"

definition acl_refresh :: "string + acl_entry list \<Rightarrow> registry_authz \<Rightarrow> registry_authz" where
  "acl_refresh r az = (case r of
      Inr entries \<Rightarrow> az\<lparr>az_cache := List.map_filter acl_entry_from_admin entries\<rparr>
    | Inl _ \<Rightarrow> az)"

definition authorize :: "registry_authz \<Rightarrow> principal \<Rightarrow> string \<times> int \<Rightarrow> target \<Rightarrow> bool" where
  "authorize az p host t =
     (if \<not> az_enabled az \<or> pr_name p \<in> set (az_super_users az) then True
      else az_authorizer az (az_cache az) p host t)"

fun resource_debug :: "resource_type \<Rightarrow> string" where
  "resource_debug Topic = ''Topic''"
| "resource_debug Group = ''Group''"
| "resource_debug Cluster = ''Cluster''"
| "resource_debug TransactionalId = ''TransactionalId''"
| "resource_debug DelegationToken = ''DelegationToken''"
| "resource_debug User = ''User''"

fun operation_debug :: "acl_operation \<Rightarrow> string" where
  "operation_debug AclAll = ''All''"
| "operation_debug AclRead = ''Read''"
| "operation_debug AclWrite = ''Write''"
| "operation_debug AclCreate = ''Create''"
| "operation_debug AclDelete = ''Delete''"
| "operation_debug AclAlter = ''Alter''"
| "operation_debug AclDescribe = ''Describe''"
| "operation_debug AclClusterAction = ''ClusterAction''"
| "operation_debug AclDescribeConfigs = ''DescribeConfigs''"
| "operation_debug AclAlterConfigs = ''AlterConfigs''"
| "operation_debug AclIdempotentWrite = ''IdempotentWrite''"
| "operation_debug AclTwoPhaseCommit = ''TwoPhaseCommit''"
| "operation_debug AclCreateTokens = ''CreateTokens''"
| "operation_debug AclDescribeTokens = ''DescribeTokens''"

definition authz_layer :: "(string \<Rightarrow> string) \<Rightarrow> registry_authz \<Rightarrow> int \<Rightarrow> http_request
    \<Rightarrow> (sr_error + http_request) \<times> audit_event list" where
  "authz_layer pdec az now q =
     (if hr_trusted q then (Inr q, [])
      else case authz_target pdec (hr_method q) (hr_path q) of
             None \<Rightarrow> (Inr q, [])
           | Some (rt, name, op) \<Rightarrow>
               (let p = unwrap_or (hr_principal q) anonymous;
                    allowed = (case hr_peer q of None \<Rightarrow> False | Some host \<Rightarrow> authorize az p host (rt, name, op));
                    ap = \<lparr>ap_name = pr_name p, ap_method = audit_auth_method (pr_method p)\<rparr>;
                    operation = method_name (hr_method q) @ '' '' @ hr_path q @ '' '' @ operation_debug op
                in if allowed
                   then (Inr q, [AdminOperation ap (audit_source q) operation (resource_debug rt, name) now])
                   else (Inl Forbidden, [AuthorizationDenied ap (audit_source q) (resource_debug rt) name operation now])))"

subsection \<open>Forwarding\<close>

datatype forward_decision = PassThrough | Forward string | Unavailable | Retriable

definition decide :: "http_method \<Rightarrow> bool \<Rightarrow> primary_state \<Rightarrow> forward_decision" where
  "decide m already_forwarded state =
     (let mutating = m \<in> {POST, PUT, DELETE, PATCH}
      in if \<not> mutating then PassThrough
         else if ps_is_primary state then PassThrough
         else if already_forwarded then Retriable
         else case ps_primary_url state of Some url \<Rightarrow> Forward url | None \<Rightarrow> Unavailable)"

record forward_state =
  fs_primary :: primary_state
  fs_max_body :: nat
  fs_secret :: "string option"

text \<open>The request the primary receives: method, path, query, body and content type are the caller's,
  the credentials are not.\<close>

definition forwarded_request :: "forward_state \<Rightarrow> http_request \<Rightarrow> http_request" where
  "forwarded_request fwd q = q\<lparr>hr_forwarded := True, hr_secret := fs_secret fwd, hr_authorization := None,
     hr_mtls := None, hr_principal := None, hr_trusted := False\<rparr>"

datatype stack_result =
    Refused http_response
  | Failed sr_error
  | Proxied string http_request
  | Handled http_request

text \<open>The target the request names, as it is appended to the primary's URL.\<close>

definition path_and_query :: "http_request \<Rightarrow> string" where
  "path_and_query q = hr_path q @ (if hr_query q = [] then [] else CHR ''?'' # hr_query q)"

definition proxy :: "forward_state \<Rightarrow> string \<Rightarrow> http_request \<Rightarrow> stack_result" where
  "proxy fwd primary_url q =
     (if fs_max_body fwd < length (hr_body q) then Failed (InvalidRequest ''body read failed'')
      else Proxied (primary_url @ path_and_query q) (forwarded_request fwd q))"

definition forward_layer :: "forward_state \<Rightarrow> http_request \<Rightarrow> stack_result" where
  "forward_layer fwd q = (case decide (hr_method q) (hr_forwarded q) (fs_primary fwd) of
      PassThrough \<Rightarrow> Handled q
    | Unavailable \<Rightarrow> Failed (UnknownLeader ''no primary elected'')
    | Retriable \<Rightarrow> Failed (UnknownLeader ''not primary; retry'')
    | Forward primary_url \<Rightarrow> proxy fwd primary_url q)"

subsection \<open>The stack\<close>

record security_layers =
  sl_auth :: auth_state
  sl_authz :: "registry_authz option"
  sl_forward :: forward_state

text \<open>\<open>router_with_security\<close>: authentication, authorization, forwarding, then the handler.\<close>

definition admit :: "(string \<Rightarrow> string) \<Rightarrow> security_layers \<Rightarrow> int \<Rightarrow> http_request \<Rightarrow> stack_result \<times> audit_event list" where
  "admit pdec sec now q =
     (case auth_layer (sl_auth sec) now q of
        (Inl resp, ev) \<Rightarrow> (Refused resp, ev)
      | (Inr q1, ev) \<Rightarrow>
          (case sl_authz sec of
             None \<Rightarrow> (forward_layer (sl_forward sec) q1, ev)
           | Some az \<Rightarrow>
               (case authz_layer pdec az now q1 of
                  (Inl e, ev') \<Rightarrow> (Failed e, ev @ ev')
                | (Inr q2, ev') \<Rightarrow> (forward_layer (sl_forward sec) q2, ev @ ev'))))"

subsection \<open>The routes\<close>

datatype handler = RootHandler | SchemaTypes | ListSchemas | ImportDescriptorSet | SchemaById | SchemaByIdVersions
  | SchemaByIdSchema | SchemaByIdSubjects | ListSubjects | LookupSchema | DeleteSubjectHandler | ListVersions
  | RegisterHandler | GetVersion | DeleteVersionHandler | GetVersionSchema | ReferencedBy
  | GetGlobalMode | PutGlobalMode | GetSubjectMode | PutSubjectMode | DeleteSubjectMode
  | GetGlobalConfig | PutGlobalConfig | GetSubjectConfig | PutSubjectConfig | DeleteSubjectConfig | CheckCompatibility

text \<open>A pattern is the list of its segments: a literal, or a capture.\<close>

datatype segment = Lit string | Capture

type_synonym route = "segment list \<times> (http_method \<times> handler) list"

definition routes :: "route list" where
  "routes =
    [([], [(GET, RootHandler)]),
     ([Lit ''schemas'', Lit ''types''], [(GET, SchemaTypes)]),
     ([Lit ''schemas''], [(GET, ListSchemas)]),
     ([Lit ''schemas'', Lit ''import''], [(POST, ImportDescriptorSet)]),
     ([Lit ''schemas'', Lit ''ids'', Capture], [(GET, SchemaById)]),
     ([Lit ''schemas'', Lit ''ids'', Capture, Lit ''versions''], [(GET, SchemaByIdVersions)]),
     ([Lit ''schemas'', Lit ''ids'', Capture, Lit ''schema''], [(GET, SchemaByIdSchema)]),
     ([Lit ''schemas'', Lit ''ids'', Capture, Lit ''subjects''], [(GET, SchemaByIdSubjects)]),
     ([Lit ''subjects''], [(GET, ListSubjects)]),
     ([Lit ''subjects'', Capture], [(POST, LookupSchema), (DELETE, DeleteSubjectHandler)]),
     ([Lit ''subjects'', Capture, Lit ''versions''], [(GET, ListVersions), (POST, RegisterHandler)]),
     ([Lit ''subjects'', Capture, Lit ''versions'', Capture], [(GET, GetVersion), (DELETE, DeleteVersionHandler)]),
     ([Lit ''subjects'', Capture, Lit ''versions'', Capture, Lit ''schema''], [(GET, GetVersionSchema)]),
     ([Lit ''subjects'', Capture, Lit ''versions'', Capture, Lit ''referencedby''], [(GET, ReferencedBy)]),
     ([Lit ''mode''], [(GET, GetGlobalMode), (PUT, PutGlobalMode)]),
     ([Lit ''mode'', Capture], [(GET, GetSubjectMode), (PUT, PutSubjectMode), (DELETE, DeleteSubjectMode)]),
     ([Lit ''config''], [(GET, GetGlobalConfig), (PUT, PutGlobalConfig)]),
     ([Lit ''config'', Capture], [(GET, GetSubjectConfig), (PUT, PutSubjectConfig), (DELETE, DeleteSubjectConfig)]),
     ([Lit ''compatibility'', Lit ''subjects'', Capture, Lit ''versions'', Capture], [(POST, CheckCompatibility)])]"

text \<open>Dispatch: the first pattern that matches, then its method; axum serves \<open>HEAD\<close> with the
  handler for \<open>GET\<close>.\<close>

fun dispatch :: "(segment list \<Rightarrow> string \<Rightarrow> string list option) \<Rightarrow> route list \<Rightarrow> http_method \<Rightarrow> string
    \<Rightarrow> sr_error + handler \<times> string list" where
  "dispatch matcher [] m path = Inl NotFound"
| "dispatch matcher ((pat, ms) # rs) m path = (case matcher pat path of
     Some caps \<Rightarrow> (case map_of ms (if m = HEAD then GET else m) of
         Some h \<Rightarrow> Inr (h, caps) | None \<Rightarrow> Inl MethodNotAllowed)
   | None \<Rightarrow> dispatch matcher rs m path)"

subsection \<open>Every route is gated\<close>

text \<open>What axum documents of its matcher: a literal matches that segment, a capture one non-empty
  segment, and the whole path is matched.\<close>

fun fill :: "segment list \<Rightarrow> string list \<Rightarrow> string list" where
  "fill [] caps = []"
| "fill (Lit s # pat) caps = s # fill pat caps"
| "fill (Capture # pat) caps = (case caps of [] \<Rightarrow> [] | c # cs \<Rightarrow> c # fill pat cs)"

fun captures :: "segment list \<Rightarrow> nat" where
  "captures [] = 0"
| "captures (Lit s # pat) = captures pat"
| "captures (Capture # pat) = Suc (captures pat)"

definition matcher_ok :: "(segment list \<Rightarrow> string \<Rightarrow> string list option) \<Rightarrow> bool" where
  "matcher_ok matcher \<longleftrightarrow> (\<forall>pat path caps. matcher pat path = Some caps \<longrightarrow>
     length caps = captures pat \<and> segments path = fill pat caps)"

text \<open>The policy: which access each handler needs, on the subject its path names.\<close>

fun policy :: "(string \<Rightarrow> string) \<Rightarrow> handler \<Rightarrow> string list \<Rightarrow> target option" where
  "policy pdec RootHandler caps = None"
| "policy pdec SchemaTypes caps = cluster_target AclDescribe"
| "policy pdec ListSubjects caps = cluster_target AclDescribe"
| "policy pdec GetGlobalMode caps = cluster_target AclDescribe"
| "policy pdec GetGlobalConfig caps = cluster_target AclDescribe"
| "policy pdec PutGlobalMode caps = cluster_target AclAlter"
| "policy pdec PutGlobalConfig caps = cluster_target AclAlter"
| "policy pdec ImportDescriptorSet caps = cluster_target AclWrite"
| "policy pdec ListSchemas caps = cluster_target AclRead"
| "policy pdec SchemaById caps = cluster_target AclRead"
| "policy pdec SchemaByIdVersions caps = cluster_target AclRead"
| "policy pdec SchemaByIdSchema caps = cluster_target AclRead"
| "policy pdec SchemaByIdSubjects caps = cluster_target AclRead"
| "policy pdec LookupSchema caps = topic_target pdec (hd caps) AclRead"
| "policy pdec ListVersions caps = topic_target pdec (hd caps) AclRead"
| "policy pdec GetVersion caps = topic_target pdec (hd caps) AclRead"
| "policy pdec GetVersionSchema caps = topic_target pdec (hd caps) AclRead"
| "policy pdec ReferencedBy caps = topic_target pdec (hd caps) AclRead"
| "policy pdec CheckCompatibility caps = topic_target pdec (hd caps) AclRead"
| "policy pdec RegisterHandler caps = topic_target pdec (hd caps) AclWrite"
| "policy pdec DeleteSubjectHandler caps = topic_target pdec (hd caps) AclDelete"
| "policy pdec DeleteVersionHandler caps = topic_target pdec (hd caps) AclDelete"
| "policy pdec GetSubjectMode caps = topic_target pdec (hd caps) AclDescribe"
| "policy pdec GetSubjectConfig caps = topic_target pdec (hd caps) AclDescribe"
| "policy pdec PutSubjectMode caps = topic_target pdec (hd caps) AclAlter"
| "policy pdec PutSubjectConfig caps = topic_target pdec (hd caps) AclAlter"
| "policy pdec DeleteSubjectMode caps = topic_target pdec (hd caps) AclAlter"
| "policy pdec DeleteSubjectConfig caps = topic_target pdec (hd caps) AclAlter"

lemma policy_None: "policy pdec h caps = None \<longleftrightarrow> h = RootHandler"
  by (cases h) (simp_all add: topic_target_def cluster_target_def)

lemma dispatch_in:
  "dispatch matcher rs m path = Inr (h, caps) \<Longrightarrow>
    \<exists>(pat, ms)\<in>set rs. matcher pat path = Some caps \<and> map_of ms (if m = HEAD then GET else m) = Some h"
  by (induction matcher rs m path rule: dispatch.induct) (auto split: option.splits)

text \<open>The target of a path that a route's pattern matches, for each of the route's methods.\<close>

definition route_gated :: "(string \<Rightarrow> string) \<Rightarrow> route \<Rightarrow> bool" where
  "route_gated pdec r \<longleftrightarrow> (\<forall>m h caps path. map_of (snd r) m = Some h \<longrightarrow> length caps = captures (fst r) \<longrightarrow>
     segments path = fill (fst r) caps \<longrightarrow> authz_target pdec m path = policy pdec h caps)"

lemma one_capture: "length caps = Suc 0 \<longleftrightarrow> (\<exists>a. caps = [a])"
  by (cases caps) auto

lemma two_captures: "length caps = Suc (Suc 0) \<longleftrightarrow> (\<exists>a b. caps = [a, b])"
  by (cases caps; cases "tl caps") auto

lemma routes_gated: "list_all (route_gated pdec) routes"
  unfolding routes_def list.pred_inject(2) list.pred_inject(1)
  by (intro conjI TrueI; unfold route_gated_def;
      auto simp: authz_target_def subjects_target_def override_target_def schemas_target_def compatibility_target_def
        one_capture two_captures split: if_splits)

lemma dispatch_policy:
  assumes "matcher_ok matcher" "dispatch matcher routes m path = Inr (h, caps)" "m \<noteq> HEAD"
  shows "authz_target pdec m path = policy pdec h caps"
proof -
  obtain r where r: "r \<in> set routes" "matcher (fst r) path = Some caps" "map_of (snd r) m = Some h"
    using dispatch_in [OF assms(2)] assms(3) by auto
  moreover have "length caps = captures (fst r)" "segments path = fill (fst r) caps"
    using assms(1) r(2) by (auto simp: matcher_ok_def)
  moreover have "route_gated pdec r" using routes_gated r(1) by (auto simp: list_all_iff)
  ultimately show ?thesis unfolding route_gated_def by blast
qed

text \<open>Every route is gated: whatever request is dispatched to a handler by its own method needs the
  access the policy names for that handler, on the subject the handler receives, and only the root
  needs none.\<close>

theorem every_route_is_gated:
  assumes "matcher_ok matcher" "dispatch matcher routes m path = Inr (h, caps)" "m \<noteq> HEAD"
  shows "authz_target pdec m path = policy pdec h caps \<and> (authz_target pdec m path = None \<longleftrightarrow> h = RootHandler)"
  using dispatch_policy [OF assms] by (simp add: policy_None)

text \<open>A \<open>HEAD\<close> request runs the handler of \<open>GET\<close> and needs no access at all.\<close>

theorem head_requests_ungated:
  "authz_target pdec HEAD path = None \<and> dispatch matcher routes HEAD path = dispatch matcher routes GET path"
proof
  show "authz_target pdec HEAD path = None"
    by (auto simp: authz_target_def subjects_target_def override_target_def schemas_target_def compatibility_target_def
        split: list.splits)
  have "dispatch matcher rs HEAD path = dispatch matcher rs GET path" for rs
    by (induction rs) (auto split: option.splits)
  then show "dispatch matcher routes HEAD path = dispatch matcher routes GET path" .
qed

subsection \<open>What reaches a handler\<close>

text \<open>The request carries the forward header and the secret this node is configured with.\<close>

definition trusted_forward :: "auth_state \<Rightarrow> http_request \<Rightarrow> bool" where
  "trusted_forward st q \<longleftrightarrow> hr_forwarded q \<and> (\<exists>secret. as_forward_secret st = Some secret \<and> hr_secret q = Some secret)"

lemma authenticated_forward_iff:
  "hr_forwarded q \<and> authenticated_forward st q \<longleftrightarrow> trusted_forward st q"
  by (auto simp: authenticated_forward_def trusted_forward_def constant_time_eq_iff split: option.splits)

lemma resolve_proven: "resolve auth mtls st now = Authn p \<Longrightarrow> proven st now auth mtls p"
  using resolve_iff_proven by blast

lemma forward_layer_past: "(\<exists>e. forward_layer fwd q = Failed e) \<or> forward_layer fwd q = Handled q \<or> (\<exists>url. forward_layer fwd q = Proxied url (forwarded_request fwd q))"
  by (auto simp: forward_layer_def proxy_def split: forward_decision.splits)

lemma auth_layer_passes:
  "auth_layer st now q = (Inr q1, ev) \<longleftrightarrow> ev = [] \<and>
    (trusted_forward st q \<and> q1 = q\<lparr>hr_principal := Some (unwrap_or (hr_principal q) anonymous), hr_trusted := True\<rparr> \<or>
     \<not> trusted_forward st q \<and> (\<exists>p. resolve (hr_authorization q) (hr_mtls q) st now = Authn p \<and> q1 = q\<lparr>hr_principal := Some p\<rparr>))"
  unfolding auth_layer_def authenticated_forward_iff by (auto split: auth_decision.splits prod.splits)

lemma authz_layer_passes:
  "authz_layer pdec az now q = (Inr q1, ev) \<Longrightarrow> q1 = q \<and>
    (hr_trusted q \<or> authz_target pdec (hr_method q) (hr_path q) = None \<or>
     (\<exists>t host. authz_target pdec (hr_method q) (hr_path q) = Some t \<and> hr_peer q = Some host \<and>
        authorize az (unwrap_or (hr_principal q) anonymous) host t))"
  by (auto simp: authz_layer_def Let_def split: if_splits option.splits prod.splits)

text \<open>A request that the stack lets through to a handler, here or on the primary.\<close>

definition let_through :: "stack_result \<Rightarrow> bool" where
  "let_through r = (case r of Handled _ \<Rightarrow> True | Proxied _ _ \<Rightarrow> True | _ \<Rightarrow> False)"

lemma admit_let_through:
  assumes "sl_authz sec = Some az" "let_through (fst (admit pdec sec now q))" "\<not> hr_trusted q"
    and "authz_target pdec (hr_method q) (hr_path q) = Some t"
  shows "trusted_forward (sl_auth sec) q \<or>
    (\<exists>p host. proven (sl_auth sec) now (hr_authorization q) (hr_mtls q) p \<and> hr_peer q = Some host \<and> authorize az p host t)"
proof -
  obtain r ev where a: "auth_layer (sl_auth sec) now q = (r, ev)" by fastforce
  obtain q1 where q1: "r = Inr q1" using assms(2) a by (cases r) (auto simp: admit_def let_through_def)
  obtain r2 ev2 where z: "authz_layer pdec az now q1 = (r2, ev2)" by fastforce
  obtain q2 where q2: "r2 = Inr q2"
    using assms(1,2) a q1 z by (cases r2) (auto simp: admit_def let_through_def)
  note pass = authz_layer_passes [OF z [unfolded q2]]
  show ?thesis
    using auth_layer_passes [of "sl_auth sec" now q q1 ev] a q1 pass assms(3,4) resolve_proven by fastforce
qed

text \<open>C7: with authorization on, a request by any method but HEAD whose path and method are dispatched to a handler
  other than the root gets past the layers, to the handler or to the primary, only when it is a forward that
  carries the shared secret, or its principal is proven and the authorizer (or the super-user list)
  allows that principal, from its peer address, the access the policy names for the handler. (The access rules do not
  name HEAD, which the router answers with the handlers of GET: such a request passes without an access decision.)\<close>

theorem handlers_are_protected:
  assumes "matcher_ok matcher" "dispatch matcher routes (hr_method q) (hr_path q) = Inr (h, caps)"
    and "h \<noteq> RootHandler" "hr_method q \<noteq> HEAD"
    and "sl_authz sec = Some az" "\<not> hr_trusted q" "let_through (fst (admit pdec sec now q))"
  shows "trusted_forward (sl_auth sec) q \<or>
    (\<exists>p host t. proven (sl_auth sec) now (hr_authorization q) (hr_mtls q) p \<and> hr_peer q = Some host \<and>
       policy pdec h caps = Some t \<and> authorize az p host t)"
proof -
  have t: "authz_target pdec (hr_method q) (hr_path q) = policy pdec h caps"
    by (rule dispatch_policy [OF assms(1,2,4)])
  obtain t' where "policy pdec h caps = Some t'" using policy_None [of pdec h caps] assms(3) by auto
  then show ?thesis using admit_let_through [OF assms(5,7,6)] t by auto
qed

lemma admit_cases:
  obtains resp where "fst (admit pdec sec now q) = Refused resp"
  | e where "fst (admit pdec sec now q) = Failed e"
  | q1 where "fst (admit pdec sec now q) = forward_layer (sl_forward sec) q1"
      "fst (auth_layer (sl_auth sec) now q) = Inr q1"
proof -
  obtain r ev where a: "auth_layer (sl_auth sec) now q = (r, ev)" by fastforce
  show thesis
  proof (cases r)
    case (Inl resp)
    then show thesis using a that(1) by (simp add: admit_def)
  next
    case (Inr q1)
    show thesis
    proof (cases "sl_authz sec")
      case None
      then show thesis using a Inr that(3) by (simp add: admit_def)
    next
      case (Some az)
      obtain r2 ev2 where z: "authz_layer pdec az now q1 = (r2, ev2)" by fastforce
      show thesis
      proof (cases r2)
        case (Inl e)
        then show thesis using a Inr Some z that(2) by (simp add: admit_def)
      next
        case Inr2: (Inr q2)
        then have "q2 = q1" using authz_layer_passes z by blast
        then show thesis using a Inr Some z Inr2 that(3) by (simp add: admit_def)
      qed
    qed
  qed
qed

text \<open>Authentication changes only the identity attached to a request.\<close>

definition same_request :: "http_request \<Rightarrow> http_request \<Rightarrow> bool" where
  "same_request q q' \<longleftrightarrow> hr_method q' = hr_method q \<and> hr_path q' = hr_path q \<and> hr_query q' = hr_query q \<and>
     hr_content_type q' = hr_content_type q \<and> hr_body q' = hr_body q"

lemma auth_layer_request:
  assumes "fst (auth_layer st now q) = Inr q1"
  shows "same_request q q1" "hr_forwarded q1 = hr_forwarded q"
proof -
  obtain ev where "auth_layer st now q = (Inr q1, ev)" using assms by (metis prod.collapse)
  then have "q1 = q\<lparr>hr_principal := Some (unwrap_or (hr_principal q) anonymous), hr_trusted := True\<rparr> \<or>
      (\<exists>p. q1 = q\<lparr>hr_principal := Some p\<rparr>)"
    unfolding auth_layer_passes by blast
  then show "same_request q q1" "hr_forwarded q1 = hr_forwarded q" by (auto simp: same_request_def)
qed

lemma forwarded_stays:
  assumes "hr_forwarded q"
  shows "fst (admit pdec sec now q) \<noteq> Proxied url q'"
proof (rule admit_cases [of pdec sec now q])
  fix q1 assume "fst (admit pdec sec now q) = forward_layer (sl_forward sec) q1" "fst (auth_layer (sl_auth sec) now q) = Inr q1"
  then show ?thesis using auth_layer_request(2) assms
    by (auto simp: forward_layer_def decide_def Let_def split: forward_decision.splits if_splits)
qed simp_all

lemma trusted_forward_handled:
  assumes "trusted_forward (sl_auth sec) q" "ps_is_primary (fs_primary (sl_forward sec))"
  shows "\<exists>q'. fst (admit pdec sec now q) = Handled q' \<and> same_request q q'"
proof -
  let ?q = "q\<lparr>hr_principal := Some (unwrap_or (hr_principal q) anonymous), hr_trusted := True\<rparr>"
  have "auth_layer (sl_auth sec) now q = (Inr ?q, [])" using assms(1) by (simp add: auth_layer_passes)
  then have "fst (admit pdec sec now q) = forward_layer (sl_forward sec) ?q"
    by (auto simp: admit_def authz_layer_def split: option.splits)
  then show ?thesis using assms(2) by (simp add: forward_layer_def decide_def Let_def same_request_def)
qed

text \<open>A write crosses at most one hop: the request that a node sends on carries no credentials of
  the caller, no node that receives it sends it on again, and a primary with the same secret hands it to
  its handler with the caller's method, path, query and body.\<close>

theorem forwarded_at_most_once:
  assumes "fst (admit pdec sec now q) = Proxied url q'"
  shows "hr_authorization q' = None \<and> hr_mtls q' = None \<and>
    (\<forall>sec' now' url' q''. fst (admit pdec sec' now' q') \<noteq> Proxied url' q'') \<and>
    (\<forall>sec' now' secret. ps_is_primary (fs_primary (sl_forward sec')) \<longrightarrow> fs_secret (sl_forward sec) = Some secret \<longrightarrow>
       as_forward_secret (sl_auth sec') = Some secret \<longrightarrow>
       (\<exists>q''. fst (admit pdec sec' now' q') = Handled q'' \<and> same_request q q''))"
proof -
  obtain q1 where q1: "forward_layer (sl_forward sec) q1 = Proxied url q'" "fst (auth_layer (sl_auth sec) now q) = Inr q1"
    using assms by (cases rule: admit_cases [of pdec sec now q]) auto
  then have q': "q' = forwarded_request (sl_forward sec) q1"
    by (auto simp: forward_layer_def proxy_def split: forward_decision.splits if_splits)
  then have same: "same_request q q'"
    using auth_layer_request(1) [OF q1(2)] by (simp add: same_request_def forwarded_request_def)
  have "\<exists>q''. fst (admit pdec sec' now' q') = Handled q'' \<and> same_request q q''"
    if "ps_is_primary (fs_primary (sl_forward sec'))" "fs_secret (sl_forward sec) = Some secret"
      "as_forward_secret (sl_auth sec') = Some secret" for sec' now' secret
  proof -
    have "trusted_forward (sl_auth sec') q'" using that(2,3) q' by (simp add: trusted_forward_def forwarded_request_def)
    from trusted_forward_handled [OF this that(1)] show ?thesis using same by (auto simp: same_request_def)
  qed
  then show ?thesis using q' forwarded_stays by (auto simp: forwarded_request_def)
qed

subsection \<open>The properties on concrete requests\<close>

text \<open>A matcher on the segments of the path, and a node with authorization on.\<close>

fun match_segments :: "segment list \<Rightarrow> string list \<Rightarrow> string list option" where
  "match_segments [] [] = Some []"
| "match_segments (Lit l # pat) (s # ss) = (if s = l then match_segments pat ss else None)"
| "match_segments (Capture # pat) (s # ss) = map_option (\<lambda>cs. s # cs) (match_segments pat ss)"
| "match_segments _ _ = None"

definition segment_matcher :: "segment list \<Rightarrow> string \<Rightarrow> string list option" where
  "segment_matcher pat path = match_segments pat (segments path)"

lemma match_segments_Some:
  "match_segments pat ss = Some caps \<Longrightarrow> length caps = captures pat \<and> ss = fill pat caps"
  by (induction pat ss arbitrary: caps rule: match_segments.induct) (auto split: if_splits)

lemma segment_matcher_ok: "matcher_ok segment_matcher"
  unfolding matcher_ok_def segment_matcher_def using match_segments_Some by blast

definition open_auth :: auth_state where
  "open_auth = \<lparr>as_base64_decode = (\<lambda>_. None), as_bcrypt_verify = (\<lambda>_ _. None), as_header_value_ok = (\<lambda>_. True),
     as_basic = None, as_bearer = None, as_require_auth = False, as_realm = ''r'', as_forward_secret = Some ''s''\<rparr>"

definition follower_layers :: security_layers where
  "follower_layers = \<lparr>sl_auth = open_auth,
     sl_authz = Some \<lparr>az_authorizer = (\<lambda>_ p _ t. pr_name p = ''ANONYMOUS'' \<and> t = (Topic, ''a'', AclWrite)), az_cache = [],
       az_super_users = [], az_enabled = True\<rparr>,
     sl_forward = \<lparr>fs_primary = \<lparr>ps_is_primary = False, ps_primary_url = Some ''http://p'', ps_generation_id = None, ps_member_id = None\<rparr>,
       fs_max_body = 10, fs_secret = Some ''s''\<rparr>\<rparr>"

definition post_request :: http_request where
  "post_request = \<lparr>hr_method = POST, hr_path = ''/subjects/a/versions'', hr_query = [], hr_content_type = None, hr_body = ''{}'',
     hr_forwarded = False, hr_secret = None, hr_authorization = None, hr_mtls = None, hr_peer = Some (''10.0.0.1'', 4),
     hr_principal = None, hr_trusted = False\<rparr>"

lemma register_segments: "segments ''/subjects/a/versions'' = [''subjects'', ''a'', ''versions'']"
  by (simp add: segments_def)

lemma register_dispatch: "dispatch segment_matcher routes POST ''/subjects/a/versions'' = Inr (RegisterHandler, [''a''])"
  by (simp add: routes_def segment_matcher_def register_segments)

lemma register_proxied:
  "fst (admit id follower_layers 7 post_request) = Proxied ''http://p/subjects/a/versions''
     (forwarded_request (sl_forward follower_layers) (post_request\<lparr>hr_principal := Some anonymous\<rparr>))"
  by (simp add: admit_def follower_layers_def open_auth_def post_request_def auth_layer_def authenticated_forward_def
      resolve_def authz_layer_def authz_target_def register_segments subjects_target_def topic_target_def Let_def
      authorize_def anonymous_def forward_layer_def decide_def proxy_def forwarded_request_def path_and_query_def)

theorem every_route_is_gated_witness:
  "authz_target id POST ''/subjects/a/versions'' = Some (Topic, ''a'', AclWrite)"
  using every_route_is_gated [OF segment_matcher_ok register_dispatch, of id] by (simp add: topic_target_def)

theorem handlers_are_protected_witness:
  "let_through (fst (admit id follower_layers 7 post_request)) \<and>
   (trusted_forward (sl_auth follower_layers) post_request \<or>
    (\<exists>p host t. proven (sl_auth follower_layers) 7 None None p \<and> hr_peer post_request = Some host \<and>
       policy id RegisterHandler [''a''] = Some t \<and> authorize (the (sl_authz follower_layers)) p host t))"
proof -
  have t: "let_through (fst (admit id follower_layers 7 post_request))" by (simp add: register_proxied let_through_def)
  have q: "hr_method post_request = POST" "hr_path post_request = ''/subjects/a/versions''" "\<not> hr_trusted post_request"
    "hr_authorization post_request = None" "hr_mtls post_request = None"
    by (simp_all add: post_request_def)
  have az: "sl_authz follower_layers = Some (the (sl_authz follower_layers))" by (simp add: follower_layers_def)
  show ?thesis
    using t handlers_are_protected [OF segment_matcher_ok, of post_request RegisterHandler "[''a'']" follower_layers, OF _ _ _ az _ t]
    by (simp add: q register_dispatch)
qed

theorem forwarded_at_most_once_witness:
  "\<forall>url q. fst (admit id follower_layers 9 (forwarded_request (sl_forward follower_layers)
      (post_request\<lparr>hr_principal := Some anonymous\<rparr>))) \<noteq> Proxied url q"
  using forwarded_at_most_once [OF register_proxied] by blast

end
