(* ===== verification/Import.thy ===== *)
theory Import
  imports Kafkastore_Props
begin

text \<open>
  The bulk import of a compiled descriptor set (\<^verbatim>\<open>rest/import.rs\<close>): the files of the set are put in an
  order in which every file follows the files of the set that it imports, and are registered in that order,
  each with references to the versions its imports got. The wire decoding of the set is the operation of
  \<open>prost\<close> and a parameter. An order is found exactly for the sets whose files are named, have distinct
  names and import each other without a cycle.
\<close>

subsection \<open>The order of the files\<close>

type_synonym file_map = "(string, file_descriptor) btree_map"

text \<open>The two sets of names and the order that \<open>visit\<close> updates.\<close>

type_synonym visit_state = "string set \<times> string set \<times> string list"

text \<open>How a walk stops early: with an error of the registry, or with the panic of an \<open>expect\<close>.\<close>

datatype import_stop = Stops sr_error | Panics string

definition cycle_at :: "string \<Rightarrow> sr_error" where
  "cycle_at name = InvalidSchema (''FileDescriptorSet import cycle at '' @ name)"

definition leave_file :: "string \<Rightarrow> visit_state \<Rightarrow> visit_state" where
  "leave_file name st = (case st of (visiting, finished, out) \<Rightarrow>
     (visiting - {name}, insert name finished, out @ [name]))"

function visit :: "file_map \<Rightarrow> string \<Rightarrow> visit_state \<Rightarrow> import_stop + visit_state"
  and visit_deps :: "file_map \<Rightarrow> string list \<Rightarrow> visit_state \<Rightarrow> import_stop + visit_state" where
  "visit files name (visiting, finished, out) =
     (if name \<in> finished then Inr (visiting, finished, out)
      else if name \<in> visiting then Inl (Stops (cycle_at name))
      else case btree_get files name of
             None \<Rightarrow> Inl (Panics ''visit is only called for known files'')
           | Some file \<Rightarrow>
               rbind (visit_deps files (fd_dependency file) (insert name visiting, finished, out)) (\<lambda>st.
                 Inr (leave_file name st)))"
| "visit_deps files [] st = Inr st"
| "visit_deps files (dep # deps) st =
     (if btree_get files dep \<noteq> None then rbind (visit files dep st) (visit_deps files deps)
      else visit_deps files deps st)"
  by pat_completeness auto

text \<open>A completed visit leaves the set of open files as it was.\<close>

lemma visit_visiting:
  "visit_visit_deps_dom (Inl (files, name, st)) \<Longrightarrow> visit files name st = Inr st' \<Longrightarrow> fst st' = fst st"
  "visit_visit_deps_dom (Inr (files, deps, st)) \<Longrightarrow> visit_deps files deps st = Inr st' \<Longrightarrow> fst st' = fst st"
proof (induction files name st and files deps st arbitrary: st' and st' rule: visit_visit_deps.pinduct)
  case (1 files name visiting finished out)
  then show ?case
    by (fastforce simp: visit.psimps leave_file_def rbind_Inr_iff split: if_splits option.splits prod.splits)
next
  case (2 files st)
  then show ?case by (simp add: visit_deps.psimps)
next
  case (3 files dep deps st)
  show ?case
  proof (cases "btree_get files dep = None")
    case True
    then show ?thesis using 3(4) [OF _ ] 3(5) by (simp add: visit_deps.psimps(2) [OF 3(1)])
  next
    case False
    then obtain st1 where "visit files dep st = Inr st1" "visit_deps files deps st1 = Inr st'"
      using 3(5) by (auto simp: visit_deps.psimps(2) [OF 3(1)] rbind_Inr_iff)
    then show ?thesis using 3(2) [OF False] 3(3) [OF False] by simp
  qed
qed

definition open_files :: "file_map \<Rightarrow> visit_state \<Rightarrow> nat" where
  "open_files files st = card (set (map fst files) - fst st)"

lemma open_files_enter:
  assumes "btree_get files name = Some file" "name \<notin> visiting"
  shows "open_files files (insert name visiting, rest) < open_files files (visiting, rest')"
proof -
  have "name \<in> set (map fst files)" using assms(1) by (force dest: map_of_SomeD)
  then have "set (map fst files) - insert name visiting \<subset> set (map fst files) - visiting" using assms(2) by blast
  then show ?thesis unfolding open_files_def fst_conv by (intro psubset_card_mono) simp_all
qed

definition visit_measure :: "file_map \<times> string \<times> visit_state + file_map \<times> string list \<times> visit_state \<Rightarrow> nat \<times> nat" where
  "visit_measure x = (case x of Inl (files, _, st) \<Rightarrow> (open_files files st, 0)
     | Inr (files, deps, st) \<Rightarrow> (open_files files st, Suc (length deps)))"

lemma visit_terminates: "All visit_visit_deps_dom"
proof (relation "inv_image (less_than <*lex*> less_than) visit_measure")
  show "Wellfounded.wf (inv_image (less_than <*lex*> less_than) visit_measure)" by auto
next
  fix files :: file_map and name visiting and finished :: "string set" and out :: "string list" and f
  assume "name \<notin> visiting" "btree_get files name = Some f"
  then show "(Inr (files, fd_dependency f, insert name visiting, finished, out), Inl (files, name, visiting, finished, out))
      \<in> inv_image (less_than <*lex*> less_than) visit_measure"
    using open_files_enter by (simp add: visit_measure_def)
next
  fix files :: file_map and dep deps and st st' :: visit_state
  assume "visit_visit_deps_dom (Inl (files, dep, st))" "visit files dep st = Inr st'"
  then show "(Inr (files, deps, st'), Inr (files, dep # deps, st)) \<in> inv_image (less_than <*lex*> less_than) visit_measure"
    using visit_visiting(1) by (simp add: visit_measure_def open_files_def)
qed (auto simp: visit_measure_def)

termination visit
  by (rule visit_terminates)

fun collect_files :: "file_descriptor list \<Rightarrow> file_map \<Rightarrow> sr_error + file_map" where
  "collect_files [] files = Inr files"
| "collect_files (file # rest) files =
     (case fd_name file of
        None \<Rightarrow> Inl (InvalidSchema ''FileDescriptorSet file missing name'')
      | Some name \<Rightarrow>
          (if name = [] then Inl (InvalidSchema ''FileDescriptorSet file missing name'')
           else if btree_get files name \<noteq> None
           then Inl (InvalidSchema (''FileDescriptorSet contains duplicate file '' @ name))
           else collect_files rest (btree_insert name file files)))"

fun visit_all :: "file_map \<Rightarrow> string list \<Rightarrow> visit_state \<Rightarrow> import_stop + visit_state" where
  "visit_all files [] st = Inr st"
| "visit_all files (name # names) st = rbind (visit files name st) (visit_all files names)"

record descriptor_set_import =
  di_files :: file_map
  di_order :: "string list"

definition descriptor_set_new :: "file_descriptor list \<Rightarrow> import_stop + descriptor_set_import" where
  "descriptor_set_new fs =
     rbind (map_err Stops (collect_files fs [])) (\<lambda>files.
     rbind (visit_all files (btree_keys files) ({}, {}, [])) (\<lambda>st.
       Inr \<lparr>di_files = files, di_order = snd (snd st)\<rparr>))"

subsection \<open>The handler\<close>

text \<open>\<open>references_for\<close>: the version an import was just given, or the latest live version of the subject
  with its name.\<close>

fun references_for :: "string list \<Rightarrow> (string, schema_version) btree_map \<Rightarrow> store_state \<Rightarrow> sr_error + schema_reference list" where
  "references_for [] registered s = Inr []"
| "references_for (dep # deps) registered s =
     rbind (case btree_get registered dep of
              Some v \<Rightarrow> Inr v
            | None \<Rightarrow> ok_or (map_option vs_version (version s dep None False)) (ReferenceNotFound dep)) (\<lambda>v.
     rbind (references_for deps registered s) (\<lambda>refs.
       Inr (\<lparr>ref_name = dep, ref_subject = dep, ref_version = v\<rparr> # refs)))"

definition file_request :: "string \<Rightarrow> file_descriptor \<Rightarrow> schema_reference list \<Rightarrow> register_request" where
  "file_request name file refs = \<lparr>rq_subject = name, rq_ty = Protobuf, rq_schema = normalize file, rq_references = refs,
     rq_message_type = None, rq_import_id = None, rq_import_version = None\<rparr>"

definition import_row :: "string \<Rightarrow> registered \<Rightarrow> json" where
  "import_row name reg = json_value (JObj [(''subject'', JStr name), (''id'', json_int (id_raw (reg_id reg))),
     (''version'', json_int (version_raw (reg_version reg)))])"

text \<open>The loop over the order. The outer \<open>option\<close> is the one of the facade.\<close>

fun import_files :: "('a, 'b) registry \<Rightarrow> file_map \<Rightarrow> string list \<Rightarrow> (string, schema_version) btree_map \<Rightarrow> 'b kafka_store
    \<Rightarrow> (import_stop + json list) option \<times> 'b kafka_store" where
  "import_files R files [] registered s = (Some (Inr []), s)"
| "import_files R files (name # names) registered s =
     (case btree_get files name of
        None \<Rightarrow> (Some (Inl (Panics ''topological order contains known file'')), s)
      | Some file \<Rightarrow>
          (case references_for (fd_dependency file) registered (ks_store s) of
             Inl e \<Rightarrow> (Some (Inl (Stops e)), s)
           | Inr refs \<Rightarrow>
               (case ks_register R (file_request name file refs) s of
                  (None, s') \<Rightarrow> (None, s')
                | (Some (Inl e), s') \<Rightarrow> (Some (Inl (Stops e)), s')
                | (Some (Inr reg), s') \<Rightarrow>
                    (let (r, s'') = import_files R files names (btree_insert name (reg_version reg) registered) s'
                     in (map_option (\<lambda>x. rbind x (\<lambda>rows. Inr (import_row name reg # rows))) r, s'')))))"

definition file_descriptor_set :: "('a, 'b) registry \<Rightarrow> (string \<Rightarrow> string + file_descriptor list) \<Rightarrow> string \<Rightarrow> 'b kafka_store
    \<Rightarrow> (import_stop + json) option \<times> 'b kafka_store" where
  "file_descriptor_set R prost_decode body s =
     (case rbind (map_err (\<lambda>e. Stops (InvalidSchema (''FileDescriptorSet: '' @ e))) (prost_decode body)) descriptor_set_new of
        Inl e \<Rightarrow> (Some (Inl e), s)
      | Inr imp \<Rightarrow>
          (let (r, s') = import_files R (di_files imp) (di_order imp) [] s
           in (map_option (\<lambda>x. rbind x (\<lambda>rows. Inr (JArr rows))) r, s')))"

subsection \<open>What an order is\<close>

text \<open>A file of the set imports another file of the set.\<close>

definition imports_in :: "file_map \<Rightarrow> (string \<times> string) set" where
  "imports_in files = {(a, b). \<exists>f. btree_get files a = Some f \<and> b \<in> set (fd_dependency f) \<and> btree_get files b \<noteq> None}"

definition ordered :: "file_map \<Rightarrow> string list \<Rightarrow> bool" where
  "ordered files out \<longleftrightarrow> (\<forall>i<length out. \<forall>b. (out ! i, b) \<in> imports_in files \<longrightarrow> b \<in> set (take i out))"

lemma ordered_snoc:
  "ordered files (xs @ [x]) \<longleftrightarrow> ordered files xs \<and> (\<forall>b. (x, b) \<in> imports_in files \<longrightarrow> b \<in> set xs)"
  by (auto simp: ordered_def less_Suc_eq nth_append)

lemma ordered_acyclic:
  assumes "ordered files out" "distinct out" "set out = fst ` set files"
  shows "acyclic (imports_in files)"
proof -
  let ?at = "\<lambda>a. THE i. i < length out \<and> out ! i = a"
  have at: "?at (out ! i) = i" if "i < length out" for i
    using assms(2) that by (auto simp: nth_eq_iff_index_eq intro!: the_equality)
  have "(a, b) \<in> (measure ?at)\<inverse>" if "(a, b) \<in> imports_in files" for a b
  proof -
    have "a \<in> set out" using that assms(3) by (force simp: imports_in_def dest: map_of_SomeD)
    then obtain i where i: "i < length out" "a = out ! i" by (auto simp: in_set_conv_nth)
    then have "b \<in> set (take i out)" using assms(1) that by (auto simp: ordered_def)
    then obtain j where "j < i" "b = out ! j" by (auto simp: in_set_conv_nth)
    then show ?thesis using i at by simp
  qed
  then have "imports_in files \<subseteq> (measure ?at)\<inverse>" by auto
  moreover have "acyclic ((measure ?at)\<inverse>)" by (simp add: wf_acyclic)
  ultimately show ?thesis using acyclic_subset by blast
qed

subsection \<open>The walk finds it\<close>

definition walk_ok :: "file_map \<Rightarrow> visit_state \<Rightarrow> bool" where
  "walk_ok files st \<longleftrightarrow> (case st of (visiting, finished, out) \<Rightarrow>
     finished = set out \<and> distinct out \<and> ordered files out \<and> visiting \<inter> finished = {} \<and> set out \<subseteq> fst ` set files)"

abbreviation finished_of :: "visit_state \<Rightarrow> string set" where
  "finished_of st \<equiv> fst (snd st)"

lemma visit_keeps_open:
  "visit files name st = Inr st' \<Longrightarrow> fst st' = fst st"
  "visit_deps files deps st = Inr st' \<Longrightarrow> fst st' = fst st"
  using visit_visiting [OF spec [OF visit_terminates]] by blast+

lemma leave_file_ok:
  assumes "walk_ok files st" "name \<in> fst st" "btree_get files name = Some f"
    and "\<forall>b. (name, b) \<in> imports_in files \<longrightarrow> b \<in> finished_of st"
  shows "walk_ok files (leave_file name st)"
proof -
  have "name \<in> fst ` set files" using assms(3) by (force dest: map_of_SomeD)
  then show ?thesis using assms by (cases st) (auto simp: walk_ok_def leave_file_def ordered_snoc)
qed

lemma visit_sound:
  "visit files name st = Inr st' \<Longrightarrow> walk_ok files st \<Longrightarrow>
     walk_ok files st' \<and> finished_of st \<subseteq> finished_of st' \<and> name \<in> finished_of st'"
  "visit_deps files deps st = Inr st' \<Longrightarrow> walk_ok files st \<Longrightarrow>
     walk_ok files st' \<and> finished_of st \<subseteq> finished_of st' \<and>
     (\<forall>dep\<in>set deps. btree_get files dep \<noteq> None \<longrightarrow> dep \<in> finished_of st')"
proof (induction files name st and files deps st arbitrary: st' and st' rule: visit_visit_deps.induct)
  case (1 files name visiting finished out)
  show ?case
  proof (cases "name \<in> finished")
    case True
    then show ?thesis using 1(2,3) by auto
  next
    case False
    then obtain f st1 where f: "name \<notin> visiting" "btree_get files name = Some f"
      and st1: "visit_deps files (fd_dependency f) (insert name visiting, finished, out) = Inr st1"
      and st': "st' = leave_file name st1"
      using 1(2) by (auto simp: rbind_Inr_iff split: if_splits option.splits)
    have "walk_ok files (insert name visiting, finished, out)" using 1(3) False by (auto simp: walk_ok_def)
    note deps = 1(1) [OF False f st1 this]
    have "name \<in> fst st1" using visit_keeps_open(2) [OF st1] by simp
    then have "walk_ok files st'"
      unfolding st' by (rule leave_file_ok [OF conjunct1 [OF deps] _ f(2)]) (use deps f(2) in \<open>auto simp: imports_in_def\<close>)
    then show ?thesis using deps st' by (cases st1) (auto simp: leave_file_def)
  qed
next
  case (2 files st)
  then show ?case by simp
next
  case (3 files dep deps st)
  show ?case
  proof (cases "btree_get files dep = None")
    case True
    then show ?thesis using 3(3) [OF _ _ 3(5)] 3(4) by auto
  next
    case False
    then obtain st1 where st1: "visit files dep st = Inr st1" "visit_deps files deps st1 = Inr st'"
      using 3(4) by (auto simp: rbind_Inr_iff)
    note one = 3(1) [OF False st1(1) 3(5)]
    note rest = 3(2) [OF False st1 conjunct1 [OF one]]
    show ?thesis using one rest by auto
  qed
qed

lemma visit_complete:
  "acyclic (imports_in files) \<Longrightarrow> btree_get files name \<noteq> None \<Longrightarrow> \<forall>x\<in>fst st. (x, name) \<in> (imports_in files)\<^sup>+ \<Longrightarrow>
     \<exists>st'. visit files name st = Inr st'"
  "acyclic (imports_in files) \<Longrightarrow>
     \<forall>dep\<in>set deps. btree_get files dep \<noteq> None \<longrightarrow> (\<forall>x\<in>fst st. (x, dep) \<in> (imports_in files)\<^sup>+) \<Longrightarrow>
     \<exists>st'. visit_deps files deps st = Inr st'"
proof (induction files name st and files deps st rule: visit_visit_deps.induct)
  case (1 files name visiting finished out)
  show ?case
  proof (cases "name \<in> finished")
    case False
    have new: "name \<notin> visiting" using 1(2,4) by (auto simp: acyclic_def)
    obtain f where f: "btree_get files name = Some f" using 1(3) by auto
    have "\<forall>dep\<in>set (fd_dependency f). btree_get files dep \<noteq> None \<longrightarrow>
        (\<forall>x\<in>insert name visiting. (x, dep) \<in> (imports_in files)\<^sup>+)"
    proof (intro ballI impI)
      fix dep x assume d: "dep \<in> set (fd_dependency f)" "btree_get files dep \<noteq> None" "x \<in> insert name visiting"
      then have "(name, dep) \<in> imports_in files" using f by (auto simp: imports_in_def)
      then show "(x, dep) \<in> (imports_in files)\<^sup>+" using d(3) 1(4) by (auto intro: trancl.trancl_into_trancl)
    qed
    then obtain st1 where "visit_deps files (fd_dependency f) (insert name visiting, finished, out) = Inr st1"
      using 1(1) [OF False new f 1(2)] by auto
    then show ?thesis using False new f by (cases "leave_file name st1") (simp add: rbind_def)
  qed simp
next
  case (2 files st)
  then show ?case by (cases st) simp
next
  case (3 files dep deps st)
  show ?case
  proof (cases "btree_get files dep = None")
    case True
    then show ?thesis using 3(3) [OF _ 3(4)] 3(5) by simp
  next
    case False
    then obtain st1 where st1: "visit files dep st = Inr st1" using 3(1) [OF False 3(4)] 3(5) by auto
    then obtain st2 where "visit_deps files deps st1 = Inr st2"
      using 3(2) [OF False st1 3(4)] 3(5) visit_keeps_open(1) [OF st1] by auto
    then show ?thesis using False st1 by (cases st2) (simp add: rbind_def)
  qed
qed

lemma visit_all_sound:
  "visit_all files names st = Inr st' \<Longrightarrow> walk_ok files st \<Longrightarrow>
     walk_ok files st' \<and> finished_of st \<subseteq> finished_of st' \<and> set names \<subseteq> finished_of st'"
proof (induction names arbitrary: st)
  case (Cons name names)
  then obtain st1 where st1: "visit files name st = Inr st1" "visit_all files names st1 = Inr st'"
    by (auto simp: rbind_Inr_iff)
  from visit_sound(1) [OF st1(1) Cons(3)] Cons(1) [OF st1(2)] show ?case by auto
qed simp

lemma visit_all_complete:
  assumes "acyclic (imports_in files)"
  shows "\<forall>name\<in>set names. btree_get files name \<noteq> None \<Longrightarrow> fst st = {} \<Longrightarrow> \<exists>st'. visit_all files names st = Inr st'"
proof (induction names arbitrary: st)
  case (Cons name names)
  obtain st1 where st1: "visit files name st = Inr st1" using visit_complete(1) [OF assms, of name st] Cons(2,3) by auto
  then have "fst st1 = {}" using visit_keeps_open(1) Cons(3) by simp
  then obtain st2 where "visit_all files names st1 = Inr st2" using Cons(1) [of st1] Cons(2) by auto
  then show ?case using st1 by (cases st2) (simp add: rbind_def)
qed (metis visit_all.simps(1))

subsection \<open>When an order exists\<close>

definition file_name :: "file_descriptor \<Rightarrow> string" where
  "file_name f = unwrap_or (fd_name f) []"

definition named :: "file_descriptor list \<Rightarrow> (string \<times> file_descriptor) list" where
  "named fs = map (\<lambda>f. (file_name f, f)) fs"

lemma collect_files_Inr:
  assumes "btree_ok files"
  shows "collect_files fs files = Inr files' \<longleftrightarrow>
    [] \<notin> set (map file_name fs) \<and> distinct (map file_name fs) \<and> set (map file_name fs) \<inter> fst ` set files = {} \<and>
    btree_ok files' \<and> map_of files' = map_of files ++ map_of (named fs)"
  using assms
proof (induction fs arbitrary: files)
  case Nil
  then show ?case by (auto simp: named_def intro: bt.ok_ext)
next
  case (Cons f fs)
  show ?case
  proof (cases "file_name f = [] \<or> file_name f \<in> fst ` set files")
    case True
    then show ?thesis
      by (auto simp: file_name_def unwrap_or_def map_of_eq_None_iff split: option.splits)
  next
    case False
    then have step: "collect_files (f # fs) files = collect_files fs (btree_insert (file_name f) f files)"
      by (auto simp: file_name_def unwrap_or_def map_of_eq_None_iff split: option.splits)
    have dom: "fst ` set (btree_insert (file_name f) f files) = insert (file_name f) (fst ` set files)"
      by (metis Cons.prems bt.get_insert dom_fun_upd dom_map_of_conv_image_fst option.distinct(1))
    have upd: "map_of (btree_insert (file_name f) f files) ++ map_of (named fs) = map_of files ++ map_of (named (f # fs))"
      if "file_name f \<notin> set (map file_name fs)"
      using that by (auto simp: fun_eq_iff map_add_def named_def split: option.splits dest!: map_of_SomeD)
    note ih = Cons.IH [OF btree_ok_insert [OF Cons.prems], of "file_name f" f]
    show ?thesis
    proof (cases "file_name f \<in> set (map file_name fs)")
      case True
      then show ?thesis unfolding step ih dom by auto
    next
      case new: False
      show ?thesis unfolding step ih dom upd [OF new] using False new by auto
    qed
  qed
qed

lemma descriptor_set_files:
  assumes "collect_files fs [] = Inr files"
  shows "fst ` set files = set (map file_name fs)" "map_of files = map_of (named fs)"
proof -
  show m: "map_of files = map_of (named fs)"
    using assms collect_files_Inr [of "[]" fs files] bt.ok_empty by simp
  have "dom (map_of files) = fst ` set (named fs)" unfolding m by (rule dom_map_of_conv_image_fst)
  then show "fst ` set files = set (map file_name fs)"
    by (simp add: dom_map_of_conv_image_fst named_def image_image)
qed

lemma descriptor_set_order:
  assumes "collect_files fs [] = Inr files" "visit_all files (btree_keys files) ({}, {}, []) = Inr (visiting, finished, out)"
  shows "distinct out \<and> set out = set (map file_name fs) \<and> ordered files out"
proof -
  have "walk_ok files ({}, {}, [])" by (simp add: walk_ok_def ordered_def)
  from visit_all_sound [OF assms(2) this] show ?thesis
    using descriptor_set_files(1) [OF assms(1)] by (auto simp: walk_ok_def btree_keys_def)
qed

lemma descriptor_set_order_iff:
  assumes "collect_files fs [] = Inr files"
  shows "(\<exists>st. visit_all files (btree_keys files) ({}, {}, []) = Inr st) \<longleftrightarrow> acyclic (imports_in files)"
proof
  assume "\<exists>st. visit_all files (btree_keys files) ({}, {}, []) = Inr st"
  then obtain visiting finished out where
    "visit_all files (btree_keys files) ({}, {}, []) = Inr (visiting, finished, out)" by auto
  from descriptor_set_order [OF assms this] show "acyclic (imports_in files)"
    using ordered_acyclic descriptor_set_files(1) [OF assms] by metis
next
  assume "acyclic (imports_in files)"
  moreover have "\<forall>name\<in>set (btree_keys files). btree_get files name \<noteq> None"
    by (simp add: btree_keys_def map_of_eq_None_iff)
  ultimately show "\<exists>st. visit_all files (btree_keys files) ({}, {}, []) = Inr st"
    using visit_all_complete by (metis fst_conv)
qed

lemma imports_in_cong: "map_of files = map_of files' \<Longrightarrow> imports_in files = imports_in files'"
  by (simp add: imports_in_def)

lemma visit_no_panic:
  "visit files name st = Inl (Panics m) \<Longrightarrow> btree_get files name = None"
  "visit_deps files deps st \<noteq> Inl (Panics m)"
proof (induction files name st and files deps st rule: visit_visit_deps.induct)
  case (1 files name visiting finished out)
  then show ?case by (auto simp: rbind_def split: if_splits option.splits sum.splits)
next
  case (3 files dep deps st)
  then show ?case by (cases "visit files dep st") (auto simp: rbind_def)
qed simp

lemma visit_all_no_panic:
  "\<forall>name\<in>set names. btree_get files name \<noteq> None \<Longrightarrow> visit_all files names st \<noteq> Inl (Panics m)"
proof (induction names arbitrary: st)
  case (Cons name names)
  then show ?case using visit_no_panic(1) [of files name st m] by (cases "visit files name st") (auto simp: rbind_def)
qed simp

lemma named_collected:
  assumes "collect_files fs [] = Inr files"
  shows "imports_in files = imports_in (named fs)" "ordered files out \<longleftrightarrow> ordered (named fs) out"
  using imports_in_cong [OF descriptor_set_files(2) [OF assms]] by (simp_all add: ordered_def)

lemma collect_files_ok:
  "(\<exists>files. collect_files fs [] = Inr files) \<longleftrightarrow> [] \<notin> set (map file_name fs) \<and> distinct (map file_name fs)"
proof
  assume ok: "[] \<notin> set (map file_name fs) \<and> distinct (map file_name fs)"
  then have "distinct (map fst (named fs))" by (simp add: named_def comp_def)
  then have "map_of (btree_of_list (named fs)) = map_of (named fs)" by (simp add: map_of_btree_of_list map_of_rev)
  then have "collect_files fs [] = Inr (btree_of_list (named fs))"
    using ok by (simp add: collect_files_Inr [of "[]", OF bt.ok_empty] btree_ok_of_list)
  then show "\<exists>files. collect_files fs [] = Inr files" by blast
qed (auto simp: collect_files_Inr [of "[]", OF bt.ok_empty])

lemma descriptor_set_new_Inr:
  assumes "descriptor_set_new fs = Inr imp"
  shows "distinct (di_order imp) \<and> set (di_order imp) = set (map file_name fs) \<and> ordered (named fs) (di_order imp)"
    and "map_of (di_files imp) = map_of (named fs)"
proof -
  obtain files visiting finished out where c: "collect_files fs [] = Inr files"
    and v: "visit_all files (btree_keys files) ({}, {}, []) = Inr (visiting, finished, out)"
    and imp: "imp = \<lparr>di_files = files, di_order = out\<rparr>"
    using assms by (auto simp: descriptor_set_new_def result_simps)
  show "distinct (di_order imp) \<and> set (di_order imp) = set (map file_name fs) \<and> ordered (named fs) (di_order imp)"
    using descriptor_set_order [OF c v] named_collected(2) [OF c] imp by simp
  show "map_of (di_files imp) = map_of (named fs)" using descriptor_set_files(2) [OF c] imp by simp
qed

text \<open>C15: a descriptor set is accepted exactly when its files have non-empty distinct names and import each
  other without a cycle, and a refusal is an error answer, never a panic. The order then lists every file of
  the set once, after all files of the set that it imports.\<close>

theorem import_order_correct:
  "((\<exists>imp. descriptor_set_new fs = Inr imp) \<longleftrightarrow>
      [] \<notin> set (map file_name fs) \<and> distinct (map file_name fs) \<and> acyclic (imports_in (named fs))) \<and>
   (\<forall>m. descriptor_set_new fs \<noteq> Inl (Panics m)) \<and>
   (\<forall>imp. descriptor_set_new fs = Inr imp \<longrightarrow>
      distinct (di_order imp) \<and> set (di_order imp) = set (map file_name fs) \<and> ordered (named fs) (di_order imp))"
proof (cases "collect_files fs []")
  case (Inl e)
  then have "\<not> (\<exists>files. collect_files fs [] = Inr files)" by simp
  then have "\<not> ([] \<notin> set (map file_name fs) \<and> distinct (map file_name fs))" unfolding collect_files_ok .
  then show ?thesis using Inl by (auto simp: descriptor_set_new_def result_simps)
next
  case (Inr files)
  then have names: "[] \<notin> set (map file_name fs)" "distinct (map file_name fs)" using collect_files_ok by blast+
  note iff = descriptor_set_order_iff [OF Inr, unfolded named_collected(1) [OF Inr]]
  have known: "\<forall>name\<in>set (btree_keys files). btree_get files name \<noteq> None"
    by (simp add: btree_keys_def map_of_eq_None_iff)
  show ?thesis
  proof (cases "visit_all files (btree_keys files) ({}, {}, [])")
    case stop: (Inl e)
    then have "\<not> acyclic (imports_in (named fs))" using iff by auto
    then show ?thesis
      using Inr stop visit_all_no_panic [OF known] by (auto simp: descriptor_set_new_def result_simps)
  next
    case found: (Inr st)
    then have "acyclic (imports_in (named fs))" using iff by blast
    moreover obtain imp where "descriptor_set_new fs = Inr imp"
      using Inr found by (simp add: descriptor_set_new_def)
    ultimately show ?thesis using names descriptor_set_new_Inr(1) [of fs] by auto
  qed
qed

subsection \<open>What an import registers\<close>

text \<open>A sequence of registrations that are all answered with an id and a version.\<close>

fun register_run :: "('a, 'b) registry \<Rightarrow> register_request list \<Rightarrow> 'b kafka_store \<Rightarrow> registered list option \<times> 'b kafka_store" where
  "register_run R [] s = (Some [], s)"
| "register_run R (q # qs) s = (case ks_register R q s of
     (Some (Inr reg), s') \<Rightarrow> (let (r, s'') = register_run R qs s' in (map_option (Cons reg) r, s''))
   | (_, s') \<Rightarrow> (None, s'))"

text \<open>The request for a file names its imports in order, and an import that has been registered before by the
  version it got.\<close>

definition requests_file :: "file_map \<Rightarrow> (string \<Rightarrow> schema_version option) \<Rightarrow> string \<Rightarrow> register_request \<Rightarrow> bool" where
  "requests_file files before name q \<longleftrightarrow> (\<exists>f refs. btree_get files name = Some f \<and> q = file_request name f refs \<and>
     map ref_subject refs = fd_dependency f \<and>
     (\<forall>r\<in>set refs. ref_name r = ref_subject r \<and> (\<forall>v. before (ref_subject r) = Some v \<longrightarrow> ref_version r = v)))"

lemma references_for_pinned:
  "references_for deps registered s = Inr refs \<Longrightarrow> map ref_subject refs = deps \<and>
     (\<forall>r\<in>set refs. ref_name r = ref_subject r \<and> (\<forall>v. btree_get registered (ref_subject r) = Some v \<longrightarrow> ref_version r = v))"
  by (induction deps arbitrary: refs) (auto simp: rbind_Inr_iff split: option.splits)

lemma import_files_run:
  assumes "import_files R files names registered s = (Some (Inr rows), s')"
  shows "\<exists>qs regs. register_run R qs s = (Some regs, s') \<and> length qs = length names \<and> length regs = length names \<and>
    rows = map2 import_row names regs \<and>
    (\<forall>i<length names. requests_file files
       (map_of registered ++ map_of (rev (take i (zip names (map reg_version regs))))) (names ! i) (qs ! i))"
  using assms
proof (induction names arbitrary: registered s rows)
  case Nil
  then show ?case by (intro exI [of _ "[]"]) simp
next
  case (Cons name names)
  obtain f refs reg s1 rows' where f: "btree_get files name = Some f"
    and refs: "references_for (fd_dependency f) registered (ks_store s) = Inr refs"
    and reg: "ks_register R (file_request name f refs) s = (Some (Inr reg), s1)"
    and rest: "import_files R files names (btree_insert name (reg_version reg) registered) s1 = (Some (Inr rows'), s')"
    and rows: "rows = import_row name reg # rows'"
    using Cons.prems by (auto simp: rbind_Inr_iff split: option.splits sum.splits prod.splits)
  from Cons.IH [OF rest] obtain qs regs where run: "register_run R qs s1 = (Some regs, s')"
    and len: "length qs = length names" "length regs = length names"
    and rows': "rows' = map2 import_row names regs"
    and qs: "\<forall>i<length names. requests_file files (map_of (btree_insert name (reg_version reg) registered) ++
        map_of (rev (take i (zip names (map reg_version regs))))) (names ! i) (qs ! i)"
    by blast
  let ?q = "file_request name f refs"
  have "requests_file files (map_of registered ++ map_of (rev (take i (zip (name # names) (map reg_version (reg # regs))))))
      ((name # names) ! i) ((?q # qs) ! i)" if i: "i < length (name # names)" for i
  proof (cases i)
    case 0
    then show ?thesis using f references_for_pinned [OF refs] by (auto simp: requests_file_def)
  next
    case (Suc k)
    have "map_of (btree_insert name (reg_version reg) registered) = (map_of registered)(name \<mapsto> reg_version reg)"
      by (rule btree_get_insert)
    then have "map_of (btree_insert name (reg_version reg) registered) ++ map_of (rev (take k (zip names (map reg_version regs))))
        = map_of registered ++ map_of (rev (take i (zip (name # names) (map reg_version (reg # regs)))))"
      using Suc by (simp only: list.map zip_Cons_Cons take_Suc_Cons rev.simps map_of_append map_add_assoc) (simp add: map_add_upd_left)
    then show ?thesis using qs i Suc by simp
  qed
  then show ?case
    using run reg len rows rows' by (intro exI [of _ "?q # qs"] exI [of _ "reg # regs"]) simp
qed

lemma earlier_version:
  assumes "distinct names" "length vs = length names" "j < i" "i \<le> length names"
  shows "map_of (rev (take i (zip names vs))) (names ! j) = Some (vs ! j)"
proof -
  have "distinct (map fst (rev (take i (zip names vs))))"
    using assms(1,2) by (simp add: rev_map [symmetric] take_map [symmetric] distinct_take)
  moreover have "(names ! j, vs ! j) \<in> set (rev (take i (zip names vs)))"
    using assms(2-4) by (force simp: in_set_conv_nth)
  ultimately show ?thesis by (rule map_of_is_SomeI)
qed

lemma import_request:
  assumes "requests_file files (map_of (rev (take i (zip order (map reg_version regs))))) (order ! i) q"
    and "map_of files = map_of (named fs)" "distinct order" "set order = set (map file_name fs)" "ordered (named fs) order"
    and "i < length order" "length regs = length order"
  shows "rq_subject q = order ! i \<and> rq_ty q = Protobuf \<and>
    (\<exists>f\<in>set fs. file_name f = order ! i \<and> map ref_subject (rq_references q) = fd_dependency f) \<and>
    (\<forall>r\<in>set (rq_references q). ref_subject r \<in> set order \<longrightarrow>
       (\<exists>j<i. ref_subject r = order ! j \<and> ref_version r = reg_version (regs ! j)))"
proof -
  obtain f refs where f: "map_of (named fs) (order ! i) = Some f" and q: "q = file_request (order ! i) f refs"
    and deps: "map ref_subject refs = fd_dependency f"
    and pinned: "\<And>r v. r \<in> set refs \<Longrightarrow> map_of (rev (take i (zip order (map reg_version regs)))) (ref_subject r) = Some v \<Longrightarrow>
      ref_version r = v"
    using assms(1,2) by (auto simp: requests_file_def)
  have "\<exists>j<i. ref_subject r = order ! j \<and> ref_version r = reg_version (regs ! j)"
    if r: "r \<in> set refs" "ref_subject r \<in> set order" for r
  proof -
    have "ref_subject r \<in> set (fd_dependency f)" using r(1) deps [symmetric] by simp
    moreover have "map_of (named fs) (ref_subject r) \<noteq> None"
      using r(2) assms(4) by (auto simp: map_of_eq_None_iff named_def image_image)
    ultimately have "(order ! i, ref_subject r) \<in> imports_in (named fs)" using f by (simp add: imports_in_def)
    then have "ref_subject r \<in> set (take i order)" using assms(5,6) by (simp add: ordered_def)
    then obtain j where j: "j < i" "ref_subject r = order ! j" using assms(6) by (auto simp: in_set_conv_nth)
    have "map_of (rev (take i (zip order (map reg_version regs)))) (order ! j) = Some (map reg_version regs ! j)"
      using assms(3,6,7) j(1) by (intro earlier_version) auto
    then show ?thesis using pinned [OF r(1)] j assms(6,7) by auto
  qed
  moreover have "f \<in> set fs" "file_name f = order ! i" using f by (auto simp: named_def dest!: map_of_SomeD)
  ultimately show ?thesis using q deps by (auto simp: file_request_def)
qed

text \<open>C16: a successful import is the sequence of registrations of the files of the set, in an order in which
  imports come first; the answer lists them, and the request for a file refers to each file of the set that
  it imports by the version which that file was given in this very import.\<close>

theorem import_pins_own_versions:
  assumes "file_descriptor_set R prost_decode body s = (Some (Inr answer), s')" "prost_decode body = Inr fs"
  shows "\<exists>order qs regs. distinct order \<and> set order = set (map file_name fs) \<and> ordered (named fs) order \<and>
    register_run R qs s = (Some regs, s') \<and> length qs = length order \<and> length regs = length order \<and>
    answer = JArr (map2 import_row order regs) \<and>
    (\<forall>i<length order. rq_subject (qs ! i) = order ! i \<and> rq_ty (qs ! i) = Protobuf \<and>
       (\<exists>f\<in>set fs. file_name f = order ! i \<and> map ref_subject (rq_references (qs ! i)) = fd_dependency f) \<and>
       (\<forall>r\<in>set (rq_references (qs ! i)). ref_subject r \<in> set order \<longrightarrow>
          (\<exists>j<i. ref_subject r = order ! j \<and> ref_version r = reg_version (regs ! j))))"
proof -
  obtain imp rows where imp: "descriptor_set_new fs = Inr imp"
    and loop: "import_files R (di_files imp) (di_order imp) [] s = (Some (Inr rows), s')" and answer: "answer = JArr rows"
    using assms by (auto simp: file_descriptor_set_def rbind_Inr_iff split: sum.splits prod.splits)
  note order = descriptor_set_new_Inr [OF imp]
  from import_files_run [OF loop] obtain qs regs where run: "register_run R qs s = (Some regs, s')"
    "length qs = length (di_order imp)" "length regs = length (di_order imp)" "rows = map2 import_row (di_order imp) regs"
    and qs: "\<forall>i<length (di_order imp). requests_file (di_files imp)
      (map_of (rev (take i (zip (di_order imp) (map reg_version regs))))) (di_order imp ! i) (qs ! i)"
    by (auto simp del: map_of_append)
  have "\<forall>i<length (di_order imp). rq_subject (qs ! i) = di_order imp ! i \<and> rq_ty (qs ! i) = Protobuf \<and>
     (\<exists>f\<in>set fs. file_name f = di_order imp ! i \<and> map ref_subject (rq_references (qs ! i)) = fd_dependency f) \<and>
     (\<forall>r\<in>set (rq_references (qs ! i)). ref_subject r \<in> set (di_order imp) \<longrightarrow>
        (\<exists>j<i. ref_subject r = di_order imp ! j \<and> ref_version r = reg_version (regs ! j)))"
    using import_request [OF _ order(2)] qs order(1) run(3) by blast
  then show ?thesis using order(1) run answer by blast
qed

subsection \<open>The properties on concrete sets\<close>

definition bare_file :: "string \<Rightarrow> string list \<Rightarrow> file_descriptor" where
  "bare_file name deps = \<lparr>fd_name = Some name, fd_package = None, fd_dependency = deps, fd_message = [], fd_enum = [],
     fd_service = [], fd_syntax = Some ''proto3'', fd_source_info = None, fd_other = []\<rparr>"

text \<open>The set of the unit test \<open>descriptor_set_is_sorted_by_internal_dependencies\<close>.\<close>

lemma sorted_set: "descriptor_set_new [bare_file ''b'' [''a''], bare_file ''a'' []] =
  Inr \<lparr>di_files = [(''a'', bare_file ''a'' []), (''b'', bare_file ''b'' [''a''])], di_order = [''a'', ''b'']\<rparr>"
  by (simp add: descriptor_set_new_def bare_file_def leave_file_def btree_keys_def less_char_def)

theorem import_order_correct_witness:
  "ordered (named [bare_file ''b'' [''a''], bare_file ''a'' []]) [''a'', ''b''] \<and>
   acyclic (imports_in (named [bare_file ''b'' [''a''], bare_file ''a'' []]))"
  using import_order_correct [of "[bare_file ''b'' [''a''], bare_file ''a'' []]"] by (simp add: sorted_set)

definition proto_registry :: "(string, json) registry" where
  "proto_registry = (registry_on empty_store)\<lparr>re_parsers := echo_parsers\<lparr>protox_parse := \<lambda>_ _. Inr (bare_file ''p'' [])\<rparr>\<rparr>"

lemma proto_register:
  "\<exists>s'. ks_register proto_registry (file_request ''p'' (bare_file ''p'' []) []) idle_store = (Some (Inr first_registered), s')"
proof -
  let ?X = "re_parsers proto_registry"
  have X: "protox_parse ?X a b = Inr (bare_file ''p'' [])" "descriptor_hex ?X d = []" for a b d
    by (simp_all add: proto_registry_def registry_on_def echo_parsers_def)
  have c: "parse_canonical ?X Protobuf t [] = Inr []" for t
    using X by (simp add: parse_canonical_def parse_def protobuf_parse_def bare_file_def canonical_form_def)
  have "\<exists>recs. register_decision proto_registry (file_request ''p'' (bare_file ''p'' []) []) empty_store =
      Some (Inr (first_registered, recs))"
    using X c
    by (simp add: register_decision_def file_request_def effective_mode_def subject_mode_def global_mode_def empty_store_def
        with_defaults_def resolve_closure_def normalized_storage_form_def protobuf_parse_def bare_file_def
        find_under_subject_def find_under_subject_canonical_def check_registration_def versions_schemas_def Let_def
        new_decision_def register_def dedup_key_def register_new_def assign_id_def next_version_def push_version_def
        observe_version_def bump_next_def default_schema_id_def i32_add_def i32_wrap_def i32_saturating_add_def)
  moreover have "re_codec proto_registry = value_codec" "re_defaults proto_registry = empty_store"
    "topic_store proto_registry idle_store = empty_store"
    by (simp_all add: proto_registry_def idle_replay)
  ultimately show ?thesis
    using healthy_write_through [of proto_registry idle_store "register_decision proto_registry (file_request ''p'' (bare_file ''p'' []) [])"]
    by (auto simp: value_codec_roundtrip idle_healthy ks_register_def prod_eq_iff idle_replay)
qed

theorem import_pins_own_versions_witness:
  "\<exists>s' qs regs. file_descriptor_set proto_registry (\<lambda>_. Inr [bare_file ''p'' []]) ''x'' idle_store =
      (Some (Inr (JArr [import_row ''p'' first_registered])), s') \<and>
     register_run proto_registry qs idle_store = (Some regs, s') \<and> length qs = 1"
proof -
  obtain s' where s': "ks_register proto_registry (file_request ''p'' (bare_file ''p'' []) []) idle_store =
      (Some (Inr first_registered), s')"
    using proto_register by blast
  then have h: "file_descriptor_set proto_registry (\<lambda>_. Inr [bare_file ''p'' []]) ''x'' idle_store =
      (Some (Inr (JArr [import_row ''p'' first_registered])), s')"
    by (simp add: file_descriptor_set_def descriptor_set_new_def bare_file_def leave_file_def btree_keys_def)
  from import_pins_own_versions [OF this refl] obtain order qs regs where w:
      "set order = {''p''}" "distinct order" "register_run proto_registry qs idle_store = (Some regs, s')" "length qs = length order"
    by (auto simp: bare_file_def file_name_def)
  have "length order = 1" using distinct_card [OF w(2)] w(1) by simp
  then show ?thesis using h w by auto
qed

end
