(* ===== verification/Rest.thy ===== *)
theory Rest
  imports Access Import
begin

text \<open>
  The REST handlers (\<^verbatim>\<open>rest/subjects.rs\<close>, \<^verbatim>\<open>rest/schemas.rs\<close>, \<^verbatim>\<open>rest/delete.rs\<close>,
  \<^verbatim>\<open>rest/config.rs\<close>, \<^verbatim>\<open>rest/mode.rs\<close>, \<^verbatim>\<open>rest/compatibility.rs\<close>, \<^verbatim>\<open>rest/response.rs\<close> and the
  extractors and parsers of \<^verbatim>\<open>rest/mod.rs\<close>). A handler reads the live store of the facade or runs a
  request of the facade, and answers with a response or an error. The query-string parser of axum, the
  texts of serde's errors, Avro's canonical form and the wire decoding of descriptor sets are parameters.
  The outer \<open>option\<close> is the one of the facade.
\<close>

subsection \<open>Requests and responses\<close>

record ('a, 'b) rest_env =
  rv_registry :: "('a, 'b) registry"
  rv_avro_canonical :: "'a \<Rightarrow> string"
  rv_body_error :: "string \<Rightarrow> string"
  rv_query :: "string \<Rightarrow> string + (string \<times> string) list"
  rv_query_error :: "string \<Rightarrow> string"
  rv_prost_decode :: "string \<Rightarrow> string + file_descriptor list"

abbreviation rv_parsers :: "('a, 'b) rest_env \<Rightarrow> 'a third_party" where
  "rv_parsers E \<equiv> re_parsers (rv_registry E)"

record response =
  rsp_status :: i32
  rsp_content_type :: string
  rsp_body :: string

definition CONTENT_TYPE :: string where
  "CONTENT_TYPE = ''application/vnd.schemaregistry.v1+json''"

definition ok_json :: "('a, 'b) rest_env \<Rightarrow> json \<Rightarrow> response" where
  "ok_json E v = \<lparr>rsp_status = 200, rsp_content_type = CONTENT_TYPE, rsp_body = serde_to_string (rv_parsers E) v\<rparr>"

definition ok_raw :: "string \<Rightarrow> response" where
  "ok_raw body = \<lparr>rsp_status = 200, rsp_content_type = CONTENT_TYPE, rsp_body = body\<rparr>"

definition error_response :: "('a, 'b) rest_env \<Rightarrow> i32 \<Rightarrow> i32 \<Rightarrow> string \<Rightarrow> response" where
  "error_response E status code message = \<lparr>rsp_status = status, rsp_content_type = CONTENT_TYPE,
     rsp_body = serde_to_string (rv_parsers E) (json_value (JObj [(''error_code'', json_int code), (''message'', JStr message)]))\<rparr>"

definition error_into_response :: "('a, 'b) rest_env \<Rightarrow> sr_error \<Rightarrow> response" where
  "error_into_response E e =
     error_response E (http_status e) (error_code e) (error_display (display_strings (rv_parsers E)) e)"

definition json_id :: "schema_id \<Rightarrow> json" where
  "json_id i = json_int (id_raw i)"

definition json_version :: "schema_version \<Rightarrow> json" where
  "json_version v = json_int (version_raw v)"

text \<open>\<open>m.insert\<close> of an optional member.\<close>

definition member_if :: "string \<Rightarrow> string option \<Rightarrow> (string \<times> json) list" where
  "member_if k x = (case x of None \<Rightarrow> [] | Some t \<Rightarrow> [(k, JStr t)])"

definition references_member :: "schema_reference list \<Rightarrow> (string \<times> json) list" where
  "references_member refs = (if refs = [] then [] else [(''references'', json_value (JArr (map ser_reference refs)))])"

subsection \<open>Extractors and parsers\<close>

definition ascii_lower :: "char \<Rightarrow> char" where
  "ascii_lower c = (let n = of_char c :: nat in if 65 \<le> n \<and> n \<le> 90 then char_of (n + 32) else c)"

definition eq_ignore_ascii_case :: "string \<Rightarrow> string \<Rightarrow> bool" where
  "eq_ignore_ascii_case a b \<longleftrightarrow> map ascii_lower a = map ascii_lower b"

definition deserialize_bool :: "string \<Rightarrow> bool" where
  "deserialize_bool v = eq_ignore_ascii_case v ''true''"

text \<open>The \<open>Query\<close> extractor on a struct with one flag: absent is \<open>false\<close>, repeated is an error.\<close>

definition query_flag :: "('a, 'b) rest_env \<Rightarrow> string \<Rightarrow> string \<Rightarrow> sr_error + bool" where
  "query_flag E name query =
     rbind (map_err InvalidRequest (rv_query E query)) (\<lambda>pairs.
       case map snd (filter (\<lambda>p. fst p = name) pairs) of
         [] \<Rightarrow> Inr False
       | [v] \<Rightarrow> Inr (deserialize_bool v)
       | _ \<Rightarrow> Inl (InvalidRequest (rv_query_error E query)))"

definition from_body :: "('a, 'b) rest_env \<Rightarrow> (json \<Rightarrow> 'v option) \<Rightarrow> string \<Rightarrow> string + 'v" where
  "from_body E de body = rbind (serde_from_str (rv_parsers E) body) (\<lambda>v. ok_or (de v) (rv_body_error E body))"

definition parse_concrete_version :: "string \<Rightarrow> sr_error + schema_version" where
  "parse_concrete_version v = (case parse_i32 v of
      Some n \<Rightarrow> if 1 \<le> n then Inr (SchemaVersion n) else Inl (InvalidVersion v)
    | None \<Rightarrow> Inl (InvalidVersion v))"

definition parse_optional_version :: "string \<Rightarrow> sr_error + schema_version option" where
  "parse_optional_version v =
     (if v = ''latest'' then Inr None else rbind (parse_concrete_version v) (\<lambda>n. Inr (Some n)))"

definition parse_schema_id :: "string \<Rightarrow> sr_error + schema_id" where
  "parse_schema_id i = ok_or (map_option SchemaId (parse_i32 i)) NotFound"

text \<open>The members of a struct whose fields after the first \<open>n\<close> have defaults; an array may leave them out.\<close>

definition default_members :: "string list \<Rightarrow> nat \<Rightarrow> json \<Rightarrow> (string \<times> json) list option" where
  "default_members names n v = (case v of
      JObj kvs \<Rightarrow> Some kvs
    | JArr vs \<Rightarrow> (if n \<le> length vs \<and> length vs \<le> length names then Some (zip names vs) else None)
    | _ \<Rightarrow> None)"

record register_body =
  rb_schema :: string
  rb_schema_type :: "string option"
  rb_references :: "schema_reference list"
  rb_message_type :: "string option"
  rb_id :: "i32 option"
  rb_version :: "i32 option"

definition de_register_body :: "json \<Rightarrow> register_body option" where
  "de_register_body v =
     Option.bind (default_members [''schema'', ''schemaType'', ''references'', ''messageType'', ''id'', ''version''] 1 v) (\<lambda>ms.
     Option.bind (de_field de_string None ms ''schema'') (\<lambda>schema.
     Option.bind (de_field (de_option de_string) (Some None) ms ''schemaType'') (\<lambda>ty.
     Option.bind (de_field (de_vec de_reference) (Some []) ms ''references'') (\<lambda>refs.
     Option.bind (de_field (de_option de_string) (Some None) ms ''messageType'') (\<lambda>mt.
     Option.bind (de_field (de_option de_i32) (Some None) ms ''id'') (\<lambda>i.
     Option.bind (de_field (de_option de_i32) (Some None) ms ''version'') (\<lambda>ver.
       Some \<lparr>rb_schema = schema, rb_schema_type = ty, rb_references = refs, rb_message_type = mt, rb_id = i, rb_version = ver\<rparr>)))))))"

definition normalize_schema :: "('a, 'b) rest_env \<Rightarrow> schema_type \<Rightarrow> string \<Rightarrow> sr_error + string" where
  "normalize_schema E ty schema = (case ty of
      Avro \<Rightarrow> rbind (map_err InvalidSchema (avro_parse_str (rv_parsers E) schema)) (\<lambda>s. Inr (rv_avro_canonical E s))
    | Json \<Rightarrow> rbind (map_err InvalidSchema (from_str_value (rv_parsers E) schema)) (\<lambda>v. Inr (serde_to_string (rv_parsers E) v))
    | Protobuf \<Rightarrow> Inr schema)"

subsection \<open>Subjects\<close>

type_synonym 'b rest_op = "'b kafka_store \<Rightarrow> (sr_error + response) option \<times> 'b kafka_store"

text \<open>A handler that only reads, and one that answers a request of the facade.\<close>

definition reads :: "(store_state \<Rightarrow> sr_error + response) \<Rightarrow> 'b rest_op" where
  "reads f s = (Some (f (ks_store s)), s)"

definition answers :: "(sr_error + 'v) option \<times> 'b kafka_store \<Rightarrow> ('v \<Rightarrow> sr_error + response)
    \<Rightarrow> (sr_error + response) option \<times> 'b kafka_store" where
  "answers r f = (map_option (\<lambda>x. rbind x f) (fst r), snd r)"

definition refuses :: "sr_error \<Rightarrow> 'b rest_op" where
  "refuses e s = (Some (Inl e), s)"

definition body_schema :: "('a, 'b) rest_env \<Rightarrow> bool \<Rightarrow> register_body \<Rightarrow> sr_error + string" where
  "body_schema E normalise req =
     (if normalise then normalize_schema E (from_wire (rb_schema_type req)) (rb_schema req) else Inr (rb_schema req))"

definition body_request :: "('a, 'b) rest_env \<Rightarrow> string \<Rightarrow> bool \<Rightarrow> string \<Rightarrow> sr_error + register_request" where
  "body_request E subject normalise body =
     rbind (map_err InvalidSchema (from_body E de_register_body body)) (\<lambda>req.
     rbind (body_schema E normalise req) (\<lambda>schema.
       Inr \<lparr>rq_subject = subject, rq_ty = from_wire (rb_schema_type req), rq_schema = schema,
         rq_references = rb_references req, rq_message_type = rb_message_type req,
         rq_import_id = map_option SchemaId (rb_id req), rq_import_version = map_option SchemaVersion (rb_version req)\<rparr>))"

definition rest_register :: "('a, 'b) rest_env \<Rightarrow> string \<Rightarrow> string \<Rightarrow> string \<Rightarrow> 'b rest_op" where
  "rest_register E subject query body s =
     (case rbind (query_flag E ''normalize'' query) (\<lambda>n. body_request E subject n body) of
        Inl e \<Rightarrow> refuses e s
      | Inr q \<Rightarrow> answers (ks_register (rv_registry E) q s) (\<lambda>reg. Inr (ok_json E (JObj [(''id'', json_id (reg_id reg))]))))"

definition rest_lookup :: "('a, 'b) rest_env \<Rightarrow> string \<Rightarrow> string \<Rightarrow> string \<Rightarrow> 'b rest_op" where
  "rest_lookup E subject query body = reads (\<lambda>s.
     rbind (query_flag E ''deleted'' query) (\<lambda>deleted.
     rbind (query_flag E ''normalize'' query) (\<lambda>n.
     rbind (map_err InvalidSchema (from_body E de_register_body body)) (\<lambda>req.
     rbind (body_schema E n req) (\<lambda>schema.
     if versions s subject deleted = None then Inl (SubjectNotFound subject)
     else rbind (ok_or (find_under_subject (rv_parsers E) s subject (from_wire (rb_schema_type req)) schema
                   (rb_references req) (rb_message_type req) deleted) SchemaNotFound) (\<lambda>found.
          rbind (ok_or (schema_by_id s (reg_id found) deleted) SchemaNotFound) (\<lambda>(sty, text, refs, mt).
            Inr (ok_json E (json_value (JObj ([(''subject'', JStr subject), (''id'', json_id (reg_id found)),
              (''version'', json_version (reg_version found))] @ member_if ''schemaType'' (wire_name sty)
              @ member_if ''messageType'' mt @ [(''schema'', JStr text)])))))))))))"

definition rest_list_subjects :: "('a, 'b) rest_env \<Rightarrow> string \<Rightarrow> 'b rest_op" where
  "rest_list_subjects E query = reads (\<lambda>s.
     rbind (query_flag E ''deleted'' query) (\<lambda>deleted. Inr (ok_json E (JArr (map JStr (subjects s deleted))))))"

definition rest_versions :: "('a, 'b) rest_env \<Rightarrow> string \<Rightarrow> string \<Rightarrow> 'b rest_op" where
  "rest_versions E subject query = reads (\<lambda>s.
     rbind (query_flag E ''deleted'' query) (\<lambda>deleted.
     rbind (ok_or (versions s subject deleted) (SubjectNotFound subject)) (\<lambda>vs.
       Inr (ok_json E (JArr (map json_version vs))))))"

text \<open>The common part of the three reads of one version.\<close>

definition find_version :: "store_state \<Rightarrow> string \<Rightarrow> string \<Rightarrow> bool \<Rightarrow> sr_error + versioned_schema" where
  "find_version s subject ver deleted =
     rbind (parse_optional_version ver) (\<lambda>want.
     if versions s subject deleted = None then Inl (SubjectNotFound subject)
     else ok_or (version s subject want deleted) VersionNotFound)"

definition version_json :: "string \<Rightarrow> versioned_schema \<Rightarrow> json" where
  "version_json subject found =
     json_value (JObj ([(''subject'', JStr subject), (''version'', json_version (vs_version found)), (''id'', json_id (vs_id found))]
       @ member_if ''schemaType'' (wire_name (vs_ty found)) @ member_if ''messageType'' (vs_message_type found)
       @ [(''schema'', JStr (vs_schema found))] @ references_member (vs_references found)))"

definition rest_get_version :: "('a, 'b) rest_env \<Rightarrow> string \<Rightarrow> string \<Rightarrow> string \<Rightarrow> 'b rest_op" where
  "rest_get_version E subject ver query = reads (\<lambda>s.
     rbind (query_flag E ''deleted'' query) (\<lambda>deleted.
     rbind (find_version s subject ver deleted) (\<lambda>found. Inr (ok_json E (version_json subject found)))))"

definition rest_get_version_schema :: "('a, 'b) rest_env \<Rightarrow> string \<Rightarrow> string \<Rightarrow> string \<Rightarrow> 'b rest_op" where
  "rest_get_version_schema E subject ver query = reads (\<lambda>s.
     rbind (query_flag E ''deleted'' query) (\<lambda>deleted.
     rbind (find_version s subject ver deleted) (\<lambda>found. Inr (ok_raw (vs_schema found)))))"

definition rest_referencedby :: "('a, 'b) rest_env \<Rightarrow> string \<Rightarrow> string \<Rightarrow> 'b rest_op" where
  "rest_referencedby E subject ver = reads (\<lambda>s.
     rbind (find_version s subject ver True) (\<lambda>found.
       Inr (ok_json E (JArr (map json_id (referenced_by s subject (vs_version found) False))))))"

subsection \<open>Schemas\<close>

definition rest_by_id :: "('a, 'b) rest_env \<Rightarrow> string \<Rightarrow> string \<Rightarrow> 'b rest_op" where
  "rest_by_id E i query = reads (\<lambda>s.
     rbind (query_flag E ''deleted'' query) (\<lambda>deleted.
     rbind (parse_schema_id i) (\<lambda>sid.
     rbind (ok_or (schema_by_id s sid deleted) SchemaNotFound) (\<lambda>(ty, text, refs, mt).
       Inr (ok_json E (json_value (JObj (member_if ''schemaType'' (wire_name ty) @ member_if ''messageType'' mt
         @ [(''schema'', JStr text)] @ references_member refs))))))))"

definition rest_types :: "('a, 'b) rest_env \<Rightarrow> 'b rest_op" where
  "rest_types E = reads (\<lambda>_. Inr (ok_json E (JArr [JStr ''AVRO'', JStr ''JSON'', JStr ''PROTOBUF''])))"

definition id_pairs :: "string \<Rightarrow> bool \<Rightarrow> store_state \<Rightarrow> sr_error + (string \<times> schema_version) list" where
  "id_pairs i deleted s =
     rbind (parse_schema_id i) (\<lambda>sid.
       let pairs = schema_id_subject_versions s sid deleted in if pairs = [] then Inl SchemaNotFound else Inr pairs)"

definition rest_by_id_versions :: "('a, 'b) rest_env \<Rightarrow> string \<Rightarrow> string \<Rightarrow> 'b rest_op" where
  "rest_by_id_versions E i query = reads (\<lambda>s.
     rbind (query_flag E ''deleted'' query) (\<lambda>deleted.
     rbind (id_pairs i deleted s) (\<lambda>pairs.
       Inr (ok_json E (JArr (map (\<lambda>(subject, v).
         json_value (JObj [(''subject'', JStr subject), (''version'', json_version v)])) pairs))))))"

definition rest_by_id_schema :: "('a, 'b) rest_env \<Rightarrow> string \<Rightarrow> 'b rest_op" where
  "rest_by_id_schema E i = reads (\<lambda>s.
     rbind (parse_schema_id i) (\<lambda>sid.
     rbind (ok_or (schema_by_id s sid False) SchemaNotFound) (\<lambda>(ty, text, refs, mt). Inr (ok_raw text))))"

definition rest_by_id_subjects :: "('a, 'b) rest_env \<Rightarrow> string \<Rightarrow> string \<Rightarrow> 'b rest_op" where
  "rest_by_id_subjects E i query = reads (\<lambda>s.
     rbind (query_flag E ''deleted'' query) (\<lambda>deleted.
     rbind (id_pairs i deleted s) (\<lambda>pairs. Inr (ok_json E (JArr (map JStr (sort (remdups (map fst pairs)))))))))"

definition listed_json :: "listed_schema \<Rightarrow> json" where
  "listed_json row =
     json_value (JObj ([(''subject'', JStr (ls_subject row)), (''version'', json_version (ls_version row)), (''id'', json_id (ls_id row))]
       @ member_if ''schemaType'' (wire_name (ls_ty row)) @ member_if ''messageType'' (ls_message_type row)
       @ [(''schema'', JStr (ls_schema row))]))"

definition rest_list_schemas :: "('a, 'b) rest_env \<Rightarrow> string \<Rightarrow> 'b rest_op" where
  "rest_list_schemas E query = reads (\<lambda>s.
     rbind (query_flag E ''deleted'' query) (\<lambda>deleted. Inr (ok_json E (JArr (map listed_json (all_schemas s deleted))))))"

text \<open>The import: a panic ends the request without an answer.\<close>

definition rest_import :: "('a, 'b) rest_env \<Rightarrow> string \<Rightarrow> 'b rest_op" where
  "rest_import E body s =
     (case file_descriptor_set (rv_registry E) (rv_prost_decode E) body s of
        (None, s') \<Rightarrow> (None, s')
      | (Some (Inl (Panics _)), s') \<Rightarrow> (None, s')
      | (Some (Inl (Stops e)), s') \<Rightarrow> (Some (Inl e), s')
      | (Some (Inr rows), s') \<Rightarrow> (Some (Inr (ok_json E rows)), s'))"

subsection \<open>Deletes\<close>

definition rest_delete_version :: "('a, 'b) rest_env \<Rightarrow> string \<Rightarrow> string \<Rightarrow> string \<Rightarrow> 'b rest_op" where
  "rest_delete_version E subject ver query s =
     (case rbind (query_flag E ''permanent'' query) (\<lambda>permanent.
           rbind (if ver = ''latest''
                  then ok_or (map_option vs_version (version (ks_store s) subject None False)) (SubjectNotFound subject)
                  else parse_concrete_version ver) (\<lambda>v. Inr (permanent, v))) of
        Inl e \<Rightarrow> refuses e s
      | Inr (permanent, v) \<Rightarrow>
          answers (if permanent then ks_permanent_delete_version (rv_registry E) subject v s
                   else ks_soft_delete_version (rv_registry E) subject v s) (\<lambda>deleted. Inr (ok_json E (json_version deleted))))"

definition rest_delete_subject :: "('a, 'b) rest_env \<Rightarrow> string \<Rightarrow> string \<Rightarrow> 'b rest_op" where
  "rest_delete_subject E subject query s =
     (case query_flag E ''permanent'' query of
        Inl e \<Rightarrow> refuses e s
      | Inr permanent \<Rightarrow>
          answers (if permanent then ks_permanent_delete_subject (rv_registry E) subject s
                   else ks_soft_delete_subject (rv_registry E) subject s) (\<lambda>vs. Inr (ok_json E (JArr (map json_version vs)))))"

subsection \<open>Compatibility levels and modes\<close>

definition LEVELS :: "string list" where
  "LEVELS = [''NONE'', ''BACKWARD'', ''BACKWARD_TRANSITIVE'', ''FORWARD'', ''FORWARD_TRANSITIVE'', ''FULL'', ''FULL_TRANSITIVE'']"

definition validate_level :: "string \<Rightarrow> sr_error + unit" where
  "validate_level level = (if level \<in> set LEVELS then Inr () else Inl (InvalidCompatibilityLevel level))"

definition de_put_config :: "json \<Rightarrow> string option" where
  "de_put_config v = Option.bind (struct_members [''compatibility''] v) (\<lambda>ms. de_field de_string None ms ''compatibility'')"

definition put_level :: "('a, 'b) rest_env \<Rightarrow> string \<Rightarrow> sr_error + string" where
  "put_level E body =
     rbind (map_err InvalidCompatibilityLevel (from_body E de_put_config body)) (\<lambda>level.
     rbind (validate_level level) (\<lambda>_. Inr level))"

definition level_json :: "string \<Rightarrow> json" where
  "level_json level = JObj [(''compatibility'', JStr level)]"

definition rest_get_global_config :: "('a, 'b) rest_env \<Rightarrow> 'b rest_op" where
  "rest_get_global_config E = reads (\<lambda>s. Inr (ok_json E (JObj [(''compatibilityLevel'', JStr (global_compat s))])))"

definition rest_put_global_config :: "('a, 'b) rest_env \<Rightarrow> string \<Rightarrow> 'b rest_op" where
  "rest_put_global_config E body s = (case put_level E body of
      Inl e \<Rightarrow> refuses e s
    | Inr level \<Rightarrow> answers (ks_set_compat (rv_registry E) None level s) (\<lambda>_. Inr (ok_json E (level_json level))))"

definition rest_get_subject_config :: "('a, 'b) rest_env \<Rightarrow> string \<Rightarrow> 'b rest_op" where
  "rest_get_subject_config E subject = reads (\<lambda>s.
     rbind (ok_or (subject_compat s subject) (SubjectNotFound subject)) (\<lambda>level.
       Inr (ok_json E (JObj [(''compatibilityLevel'', JStr level)]))))"

definition rest_put_subject_config :: "('a, 'b) rest_env \<Rightarrow> string \<Rightarrow> string \<Rightarrow> 'b rest_op" where
  "rest_put_subject_config E subject body s = (case put_level E body of
      Inl e \<Rightarrow> refuses e s
    | Inr level \<Rightarrow> answers (ks_set_compat (rv_registry E) (Some subject) level s) (\<lambda>_. Inr (ok_json E (level_json level))))"

definition rest_delete_subject_config :: "('a, 'b) rest_env \<Rightarrow> string \<Rightarrow> 'b rest_op" where
  "rest_delete_subject_config E subject s =
     answers (ks_delete_subject_compat (rv_registry E) subject s) (\<lambda>r. case r of
       Some level \<Rightarrow> Inr (ok_json E (level_json level)) | None \<Rightarrow> Inl (SubjectNotFound subject))"

definition de_put_mode :: "json \<Rightarrow> string option" where
  "de_put_mode v = Option.bind (struct_members [''mode''] v) (\<lambda>ms. de_field de_string None ms ''mode'')"

definition put_mode :: "('a, 'b) rest_env \<Rightarrow> string \<Rightarrow> sr_error + string" where
  "put_mode E body = map_err InvalidMode (from_body E de_put_mode body)"

definition mode_json :: "string \<Rightarrow> json" where
  "mode_json mode = JObj [(''mode'', JStr mode)]"

definition rest_get_global_mode :: "('a, 'b) rest_env \<Rightarrow> 'b rest_op" where
  "rest_get_global_mode E = reads (\<lambda>s. Inr (ok_json E (mode_json (global_mode s))))"

definition rest_put_global_mode :: "('a, 'b) rest_env \<Rightarrow> string \<Rightarrow> 'b rest_op" where
  "rest_put_global_mode E body s = (case put_mode E body of
      Inl e \<Rightarrow> refuses e s
    | Inr mode \<Rightarrow> answers (ks_set_global_mode (rv_registry E) mode s) (\<lambda>_. Inr (ok_json E (mode_json mode))))"

definition rest_get_subject_mode :: "('a, 'b) rest_env \<Rightarrow> string \<Rightarrow> 'b rest_op" where
  "rest_get_subject_mode E subject = reads (\<lambda>s.
     rbind (ok_or (subject_mode s subject) (SubjectModeNotConfigured subject)) (\<lambda>mode. Inr (ok_json E (mode_json mode))))"

definition rest_put_subject_mode :: "('a, 'b) rest_env \<Rightarrow> string \<Rightarrow> string \<Rightarrow> 'b rest_op" where
  "rest_put_subject_mode E subject body s = (case put_mode E body of
      Inl e \<Rightarrow> refuses e s
    | Inr mode \<Rightarrow> answers (ks_set_subject_mode (rv_registry E) subject mode s) (\<lambda>_. Inr (ok_json E (mode_json mode))))"

definition rest_delete_subject_mode :: "('a, 'b) rest_env \<Rightarrow> string \<Rightarrow> 'b rest_op" where
  "rest_delete_subject_mode E subject s = (case subject_mode (ks_store s) subject of
      None \<Rightarrow> refuses (SubjectModeNotConfigured subject) s
    | Some prior \<Rightarrow> answers (ks_clear_subject_mode (rv_registry E) subject s) (\<lambda>_. Inr (ok_json E (mode_json prior))))"

subsection \<open>Compatibility checks\<close>

record compatibility_body =
  cb_schema :: string
  cb_schema_type :: "string option"
  cb_references :: "schema_reference list"

definition de_compatibility_body :: "json \<Rightarrow> compatibility_body option" where
  "de_compatibility_body v =
     Option.bind (default_members [''schema'', ''schemaType'', ''references''] 1 v) (\<lambda>ms.
     Option.bind (de_field de_string None ms ''schema'') (\<lambda>schema.
     Option.bind (de_field (de_option de_string) (Some None) ms ''schemaType'') (\<lambda>ty.
     Option.bind (de_field (de_vec de_reference) (Some []) ms ''references'') (\<lambda>refs.
       Some \<lparr>cb_schema = schema, cb_schema_type = ty, cb_references = refs\<rparr>))))"

definition verdict_json :: "bool \<Rightarrow> verdict \<Rightarrow> json" where
  "verdict_json verbose v =
     JObj ((''is_compatible'', JBool (is_compatible v)) # (if verbose then [(''messages'', JArr (map JStr (verdict_messages v)))] else []))"

definition rest_check :: "('a, 'b) rest_env \<Rightarrow> string \<Rightarrow> string \<Rightarrow> string \<Rightarrow> string \<Rightarrow> 'b rest_op" where
  "rest_check E subject ver query body s =
     (let snap = ks_store s;
          prepared = rbind (query_flag E ''verbose'' query) (\<lambda>verbose.
            rbind (map_err InvalidSchema (from_body E de_compatibility_body body)) (\<lambda>req.
            rbind (parse_optional_version ver) (\<lambda>want.
            rbind (resolve_closure snap (cb_references req)) (\<lambda>resolved.
            rbind (parse (rv_parsers E) (from_wire (cb_schema_type req)) (cb_schema req) resolved) (\<lambda>_.
              Inr (verbose, req, want, resolved))))))
      in (case prepared of
            Inl e \<Rightarrow> Some (Inl e)
          | Inr (verbose, req, want, resolved) \<Rightarrow>
              map_option (\<lambda>r. rbind r (\<lambda>v. Inr (ok_json E (verdict_json verbose v))))
                (check_against_version (rv_parsers E) (re_depth (rv_registry E)) snap subject
                   (from_wire (cb_schema_type req)) (cb_schema req) resolved want), s))"

subsection \<open>The router\<close>

text \<open>A handler on the captured segments of its path, as axum's \<open>Path\<close> decodes them.\<close>

definition capture0 :: "string list \<Rightarrow> 'b rest_op \<Rightarrow> 'b rest_op" where
  "capture0 caps f = (case caps of [] \<Rightarrow> f | _ \<Rightarrow> refuses NotFound)"

definition capture1 :: "string list \<Rightarrow> (string \<Rightarrow> 'b rest_op) \<Rightarrow> 'b rest_op" where
  "capture1 caps f = (case caps of [a] \<Rightarrow> f a | _ \<Rightarrow> refuses NotFound)"

definition capture2 :: "string list \<Rightarrow> (string \<Rightarrow> string \<Rightarrow> 'b rest_op) \<Rightarrow> 'b rest_op" where
  "capture2 caps f = (case caps of [a, b] \<Rightarrow> f a b | _ \<Rightarrow> refuses NotFound)"

fun rest_handle :: "('a, 'b) rest_env \<Rightarrow> handler \<Rightarrow> string list \<Rightarrow> string \<Rightarrow> string \<Rightarrow> 'b rest_op" where
  "rest_handle E RootHandler caps query body = capture0 caps (reads (\<lambda>_. Inr (ok_json E (JObj []))))"
| "rest_handle E SchemaTypes caps query body = capture0 caps (rest_types E)"
| "rest_handle E ListSchemas caps query body = capture0 caps (rest_list_schemas E query)"
| "rest_handle E ImportDescriptorSet caps query body = capture0 caps (rest_import E body)"
| "rest_handle E SchemaById caps query body = capture1 caps (\<lambda>i. rest_by_id E i query)"
| "rest_handle E SchemaByIdVersions caps query body = capture1 caps (\<lambda>i. rest_by_id_versions E i query)"
| "rest_handle E SchemaByIdSchema caps query body = capture1 caps (\<lambda>i. rest_by_id_schema E i)"
| "rest_handle E SchemaByIdSubjects caps query body = capture1 caps (\<lambda>i. rest_by_id_subjects E i query)"
| "rest_handle E ListSubjects caps query body = capture0 caps (rest_list_subjects E query)"
| "rest_handle E LookupSchema caps query body = capture1 caps (\<lambda>subject. rest_lookup E subject query body)"
| "rest_handle E DeleteSubjectHandler caps query body = capture1 caps (\<lambda>subject. rest_delete_subject E subject query)"
| "rest_handle E ListVersions caps query body = capture1 caps (\<lambda>subject. rest_versions E subject query)"
| "rest_handle E RegisterHandler caps query body = capture1 caps (\<lambda>subject. rest_register E subject query body)"
| "rest_handle E GetVersion caps query body = capture2 caps (\<lambda>subject ver. rest_get_version E subject ver query)"
| "rest_handle E DeleteVersionHandler caps query body = capture2 caps (\<lambda>subject ver. rest_delete_version E subject ver query)"
| "rest_handle E GetVersionSchema caps query body = capture2 caps (\<lambda>subject ver. rest_get_version_schema E subject ver query)"
| "rest_handle E ReferencedBy caps query body = capture2 caps (\<lambda>subject ver. rest_referencedby E subject ver)"
| "rest_handle E GetGlobalMode caps query body = capture0 caps (rest_get_global_mode E)"
| "rest_handle E PutGlobalMode caps query body = capture0 caps (rest_put_global_mode E body)"
| "rest_handle E GetSubjectMode caps query body = capture1 caps (\<lambda>subject. rest_get_subject_mode E subject)"
| "rest_handle E PutSubjectMode caps query body = capture1 caps (\<lambda>subject. rest_put_subject_mode E subject body)"
| "rest_handle E DeleteSubjectMode caps query body = capture1 caps (\<lambda>subject. rest_delete_subject_mode E subject)"
| "rest_handle E GetGlobalConfig caps query body = capture0 caps (rest_get_global_config E)"
| "rest_handle E PutGlobalConfig caps query body = capture0 caps (rest_put_global_config E body)"
| "rest_handle E GetSubjectConfig caps query body = capture1 caps (\<lambda>subject. rest_get_subject_config E subject)"
| "rest_handle E PutSubjectConfig caps query body = capture1 caps (\<lambda>subject. rest_put_subject_config E subject body)"
| "rest_handle E DeleteSubjectConfig caps query body = capture1 caps (\<lambda>subject. rest_delete_subject_config E subject)"
| "rest_handle E CheckCompatibility caps query body = capture2 caps (\<lambda>subject ver. rest_check E subject ver query body)"

text \<open>A request on the router: the route, then its handler, errors turned into responses. A fallback
  answers for a path or a method without a route.\<close>

definition route_request :: "('a, 'b) rest_env \<Rightarrow> (segment list \<Rightarrow> string \<Rightarrow> string list option) \<Rightarrow> (string \<Rightarrow> string)
    \<Rightarrow> http_request \<Rightarrow> 'b kafka_store \<Rightarrow> response option \<times> 'b kafka_store" where
  "route_request E matcher pdec q s =
     (case dispatch matcher routes (hr_method q) (hr_path q) of
        Inl e \<Rightarrow> (Some (error_into_response E e), s)
      | Inr (h, caps) \<Rightarrow>
          (let (r, s') = rest_handle E h (map pdec caps) (hr_query q) (hr_body q) s
           in (map_option (\<lambda>x. case x of Inl e \<Rightarrow> error_into_response E e | Inr resp \<Rightarrow> resp) r, s')))"

subsection \<open>The handlers refine the facade\<close>

definition mutating_handlers :: "handler set" where
  "mutating_handlers = {ImportDescriptorSet, DeleteSubjectHandler, RegisterHandler, DeleteVersionHandler, PutGlobalMode,
     PutSubjectMode, DeleteSubjectMode, PutGlobalConfig, PutSubjectConfig, DeleteSubjectConfig}"

text \<open>The request of the facade that a REST request stands for, or the error it is refused with beforehand: the
  subject and the version are those of the path, a delete is permanent when the flag says so, the version \<open>latest\<close> is
  the last live one, the other versions are positive numbers, levels are those of the API, and only a mode that is
  configured can be removed.\<close>

definition delete_target :: "store_state \<Rightarrow> string \<Rightarrow> string \<Rightarrow> sr_error + schema_version" where
  "delete_target t subject ver =
     (if ver = ''latest'' then ok_or (map_option vs_version (version t subject None False)) (SubjectNotFound subject)
      else parse_concrete_version ver)"

fun intended :: "('a, 'b) rest_env \<Rightarrow> handler \<Rightarrow> string list \<Rightarrow> string \<Rightarrow> string \<Rightarrow> store_state \<Rightarrow> sr_error + ks_request" where
  "intended E RegisterHandler [subject] query body t =
     rbind (query_flag E ''normalize'' query) (\<lambda>n. rbind (body_request E subject n body) (\<lambda>q. Inr (Register q)))"
| "intended E DeleteSubjectHandler [subject] query body t =
     rbind (query_flag E ''permanent'' query) (\<lambda>permanent.
       Inr (if permanent then PermanentDeleteSubject subject else SoftDeleteSubject subject))"
| "intended E DeleteVersionHandler [subject, ver] query body t =
     rbind (query_flag E ''permanent'' query) (\<lambda>permanent. rbind (delete_target t subject ver) (\<lambda>v.
       Inr (if permanent then PermanentDeleteVersion subject v else SoftDeleteVersion subject v)))"
| "intended E PutGlobalConfig [] query body t = rbind (put_level E body) (\<lambda>level. Inr (SetCompat None level))"
| "intended E PutSubjectConfig [subject] query body t = rbind (put_level E body) (\<lambda>level. Inr (SetCompat (Some subject) level))"
| "intended E DeleteSubjectConfig [subject] query body t = Inr (DeleteSubjectCompat subject)"
| "intended E PutGlobalMode [] query body t = rbind (put_mode E body) (\<lambda>mode. Inr (SetGlobalMode mode))"
| "intended E PutSubjectMode [subject] query body t = rbind (put_mode E body) (\<lambda>mode. Inr (SetSubjectMode subject mode))"
| "intended E DeleteSubjectMode [subject] query body t =
     (if subject_mode t subject = None then Inl (SubjectModeNotConfigured subject) else Inr (ClearSubjectMode subject))"
| "intended E h caps query body t = Inl NotFound"

text \<open>A handler runs a request of the facade: it leaves the state that the request leaves, the request's error is
  the handler's, and a request that is accepted is answered with status 200. Only the removal of a level that was not
  configured is accepted by the facade, which then writes nothing, and not found by the handler.\<close>

definition runs :: "('a, 'b) rest_env \<Rightarrow> ks_request \<Rightarrow> 'b kafka_store \<Rightarrow> (sr_error + response) option \<times> 'b kafka_store \<Rightarrow> bool" where
  "runs E q s r \<longleftrightarrow> snd r = snd (ks_handle (rv_registry E) q s) \<and>
     (case fst (ks_handle (rv_registry E) q s) of
        None \<Rightarrow> fst r = None
      | Some (Inl e) \<Rightarrow> fst r = Some (Inl e)
      | Some (Inr _) \<Rightarrow> (\<exists>resp. fst r = Some (Inr resp) \<and> rsp_status resp = 200) \<or>
          (\<exists>subject. q = DeleteSubjectCompat subject \<and> fst r = Some (Inl (SubjectNotFound subject))))"

lemma reads_simps [simp]: "snd (reads f s) = s" "fst (reads f s) = Some (f (ks_store s))"
  by (simp_all add: reads_def)

lemma refuses_simps [simp]: "snd (refuses e s) = s" "fst (refuses e s) = Some (Inl e)"
  by (simp_all add: refuses_def)

lemma ok_json_status [simp]: "rsp_status (ok_json E v) = 200"
  by (simp add: ok_json_def)

lemma answers_runs:
  assumes "ks_handle (rv_registry E) q s = forget r" "\<And>v. \<exists>resp. f v = Inr resp \<and> rsp_status resp = 200"
  shows "runs E q s (answers r f)"
  using assms(1) assms(2) [of "projr (the (fst r))"]
  by (cases "fst r"; cases "the (fst r)") (auto simp: runs_def answers_def forget_def)

lemma answers_runs_unit:
  assumes "ks_handle (rv_registry E) q s = r" "\<exists>resp. f () = Inr resp \<and> rsp_status resp = 200"
  shows "runs E q s (answers r f)"
  using assms by (cases "fst r"; cases "the (fst r)") (auto simp: runs_def answers_def)

lemma delete_config_runs: "runs E (DeleteSubjectCompat subject) s (rest_delete_subject_config E subject s)"
proof -
  obtain r s' where "ks_delete_subject_compat (rv_registry E) subject s = (r, s')" by fastforce
  then show ?thesis
    by (cases r; cases "the r") (auto simp: rest_delete_subject_config_def runs_def answers_def forget_def split: option.splits)
qed

text \<open>A handler refuses the REST request, or runs the request it stands for.\<close>

definition carries_out :: "('a, 'b) rest_env \<Rightarrow> (sr_error + ks_request) \<Rightarrow> 'b kafka_store
    \<Rightarrow> (sr_error + response) option \<times> 'b kafka_store \<Rightarrow> bool" where
  "carries_out E i s r \<longleftrightarrow> (case i of Inl e \<Rightarrow> r = (Some (Inl e), s) | Inr q \<Rightarrow> runs E q s r)"

lemma carries_out_simps [simp]:
  "carries_out E (Inl e) s (refuses e s)" "carries_out E (Inr q) s r = runs E q s r"
  by (simp_all add: carries_out_def refuses_def)

lemma deletes_run:
  "runs E (PermanentDeleteSubject subject) s (answers (ks_permanent_delete_subject (rv_registry E) subject s) (\<lambda>vs. Inr (ok_json E (fl vs))))"
  "runs E (SoftDeleteSubject subject) s (answers (ks_soft_delete_subject (rv_registry E) subject s) (\<lambda>vs. Inr (ok_json E (fl vs))))"
  "runs E (PermanentDeleteVersion subject v) s (answers (ks_permanent_delete_version (rv_registry E) subject v s) (\<lambda>d. Inr (ok_json E (fv d))))"
  "runs E (SoftDeleteVersion subject v) s (answers (ks_soft_delete_version (rv_registry E) subject v s) (\<lambda>d. Inr (ok_json E (fv d))))"
  by (auto intro!: answers_runs)

lemma writers_carry_out:
  "carries_out E (intended E RegisterHandler [subject] query body (ks_store s)) s (rest_register E subject query body s)"
  "carries_out E (intended E DeleteSubjectHandler [subject] query body (ks_store s)) s (rest_delete_subject E subject query s)"
  "carries_out E (intended E DeleteVersionHandler [subject, ver] query body (ks_store s)) s (rest_delete_version E subject ver query s)"
  "carries_out E (intended E PutGlobalConfig [] query body (ks_store s)) s (rest_put_global_config E body s)"
  "carries_out E (intended E PutSubjectConfig [subject] query body (ks_store s)) s (rest_put_subject_config E subject body s)"
  "carries_out E (intended E DeleteSubjectConfig [subject] query body (ks_store s)) s (rest_delete_subject_config E subject s)"
  "carries_out E (intended E PutGlobalMode [] query body (ks_store s)) s (rest_put_global_mode E body s)"
  "carries_out E (intended E PutSubjectMode [subject] query body (ks_store s)) s (rest_put_subject_mode E subject body s)"
  "carries_out E (intended E DeleteSubjectMode [subject] query body (ks_store s)) s (rest_delete_subject_mode E subject s)"
proof -
  show "carries_out E (intended E RegisterHandler [subject] query body (ks_store s)) s (rest_register E subject query body s)"
    by (auto simp: rest_register_def rbind_def intro!: answers_runs split: sum.split)
  show "carries_out E (intended E DeleteSubjectHandler [subject] query body (ks_store s)) s (rest_delete_subject E subject query s)"
    by (auto simp: rest_delete_subject_def rbind_def deletes_run split: sum.split)
  show "carries_out E (intended E DeleteVersionHandler [subject, ver] query body (ks_store s)) s (rest_delete_version E subject ver query s)"
    by (auto simp: rest_delete_version_def delete_target_def rbind_def deletes_run split: sum.split)
  show "carries_out E (intended E PutGlobalConfig [] query body (ks_store s)) s (rest_put_global_config E body s)"
    "carries_out E (intended E PutSubjectConfig [subject] query body (ks_store s)) s (rest_put_subject_config E subject body s)"
    "carries_out E (intended E PutGlobalMode [] query body (ks_store s)) s (rest_put_global_mode E body s)"
    "carries_out E (intended E PutSubjectMode [subject] query body (ks_store s)) s (rest_put_subject_mode E subject body s)"
    by (auto simp: rest_put_global_config_def rest_put_subject_config_def rest_put_global_mode_def rest_put_subject_mode_def
        rbind_def intro!: answers_runs_unit split: sum.split)
  show "carries_out E (intended E DeleteSubjectConfig [subject] query body (ks_store s)) s (rest_delete_subject_config E subject s)"
    by (simp add: delete_config_runs)
  show "carries_out E (intended E DeleteSubjectMode [subject] query body (ks_store s)) s (rest_delete_subject_mode E subject s)"
    by (auto simp: rest_delete_subject_mode_def intro!: answers_runs_unit split: option.split)
qed

lemmas read_handler_defs = rest_lookup_def rest_list_subjects_def rest_versions_def rest_get_version_def
  rest_get_version_schema_def rest_referencedby_def rest_by_id_def rest_types_def rest_by_id_versions_def
  rest_by_id_schema_def rest_by_id_subjects_def rest_list_schemas_def rest_get_global_config_def
  rest_get_subject_config_def rest_get_global_mode_def rest_get_subject_mode_def rest_check_def Let_def

lemmas capture_defs = capture0_def capture1_def capture2_def

lemma reads_store: "ks_store s' = ks_store s \<Longrightarrow> fst (reads f s') = fst (reads f s)"
  by simp

lemma handlers_store:
  assumes "ks_store s' = ks_store s"
  shows "fst (rest_types E s') = fst (rest_types E s)"
    "fst (rest_list_schemas E query s') = fst (rest_list_schemas E query s)"
    "fst (rest_by_id E i query s') = fst (rest_by_id E i query s)"
    "fst (rest_by_id_versions E i query s') = fst (rest_by_id_versions E i query s)"
    "fst (rest_by_id_schema E i s') = fst (rest_by_id_schema E i s)"
    "fst (rest_by_id_subjects E i query s') = fst (rest_by_id_subjects E i query s)"
    "fst (rest_list_subjects E query s') = fst (rest_list_subjects E query s)"
    "fst (rest_lookup E subject query body s') = fst (rest_lookup E subject query body s)"
    "fst (rest_versions E subject query s') = fst (rest_versions E subject query s)"
    "fst (rest_get_version E subject ver query s') = fst (rest_get_version E subject ver query s)"
    "fst (rest_get_version_schema E subject ver query s') = fst (rest_get_version_schema E subject ver query s)"
    "fst (rest_referencedby E subject ver s') = fst (rest_referencedby E subject ver s)"
    "fst (rest_get_global_mode E s') = fst (rest_get_global_mode E s)"
    "fst (rest_get_subject_mode E subject s') = fst (rest_get_subject_mode E subject s)"
    "fst (rest_get_global_config E s') = fst (rest_get_global_config E s)"
    "fst (rest_get_subject_config E subject s') = fst (rest_get_subject_config E subject s)"
    "fst (rest_check E subject ver query body s') = fst (rest_check E subject ver query body s)"
  unfolding rest_types_def rest_list_schemas_def rest_by_id_def rest_by_id_versions_def rest_by_id_schema_def
    rest_by_id_subjects_def rest_list_subjects_def rest_lookup_def rest_versions_def rest_get_version_def
    rest_get_version_schema_def rest_referencedby_def rest_get_global_mode_def rest_get_subject_mode_def
    rest_get_global_config_def rest_get_subject_config_def
  by (rule reads_store [OF assms])+ (simp only: rest_check_def assms Let_def fst_conv)

lemma read_handler_state: "h \<notin> mutating_handlers \<Longrightarrow> snd (rest_handle E h caps query body s) = s"
  by (cases h) (simp_all add: mutating_handlers_def read_handler_defs capture_defs split: list.splits)

lemma read_handler_answer:
  assumes "h \<notin> mutating_handlers" "ks_store s' = ks_store s"
  shows "fst (rest_handle E h caps query body s') = fst (rest_handle E h caps query body s)"
  using assms(1)
  by (cases h) (simp_all add: mutating_handlers_def capture_defs handlers_store [OF assms(2)] split: list.split)

lemma mutating_carries_out:
  "h \<in> mutating_handlers \<Longrightarrow> h \<noteq> ImportDescriptorSet \<Longrightarrow>
    carries_out E (intended E h caps query body (ks_store s)) s (rest_handle E h caps query body s)"
  by (cases h) (simp_all add: mutating_handlers_def capture_defs writers_carry_out [simplified] split: list.split)


subsection \<open>Reading back over REST\<close>

lemma body_references_ok: "de_register_body v = Some req \<Longrightarrow> list_all reference_ok (rb_references req)"
  by (auto simp: de_register_body_def bind_eq_Some_conv dest!: de_field_cases [of "de_vec de_reference"] de_references_ok)

lemma body_request_ok:
  "body_request E subject n body = Inr q \<Longrightarrow> rq_subject q = subject \<and> list_all reference_ok (rq_references q)"
  by (auto simp: body_request_def from_body_def result_simps dest!: body_references_ok)

lemma version_found_visible:
  assumes "version t subject (Some v) False = Some found"
  shows "versions t subject False \<noteq> None" "vs_version found = v"
    and "schema_by_id t (vs_id found) False = Some (vs_ty found, vs_schema found, vs_references found, vs_message_type found)"
proof -
  obtain vs e reg where e: "map_of (st_subjects t) subject = Some vs" "e \<in> set vs" "ve_version e = v" "\<not> ve_deleted e"
      "map_of (st_by_id t) (ve_id e) = Some reg" "found = \<lparr>vs_id = ve_id e, vs_version = ve_version e, vs_ty = rs_ty reg,
        vs_schema = rs_schema reg, vs_references = rs_references reg, vs_message_type = rs_message_type reg, vs_extra = rs_extra reg\<rparr>"
    using assms by (auto simp: version_def bind_eq_Some_conv dest!: find_SomeD)
  then show "versions t subject False \<noteq> None" "vs_version found = v"
    by (auto simp: versions_def Let_def filter_empty_conv)
  have "(subject, vs) \<in> set (st_subjects t)" using e(1) by (rule map_of_SomeD)
  then have "e \<in> set (concat (btree_values (st_subjects t)))" using e(2) by (force simp: btree_values_def)
  then have "list_ex (\<lambda>x. ve_id x = ve_id e \<and> \<not> ve_deleted x) (concat (btree_values (st_subjects t)))"
    using e(4) by (auto simp: list_ex_iff)
  then show "schema_by_id t (vs_id found) False = Some (vs_ty found, vs_schema found, vs_references found, vs_message_type found)"
    using e(5,6) by (simp add: schema_by_id_def)
qed

lemma parse_shown_version:
  "i32_range n \<Longrightarrow> 1 \<le> n \<Longrightarrow> parse_optional_version (show_int n) = Inr (Some (SchemaVersion n))"
proof -
  assume n: "i32_range n" "1 \<le> n"
  have "parse_i32 (show_int n) = Some n" "parse_i32 ''latest'' = None"
    using n(1) by (simp_all add: parse_i32_show_int in_i32_def parse_digits_def is_digit_def)
  then show ?thesis using n(2) by (auto simp: parse_optional_version_def parse_concrete_version_def)
qed

lemma parse_shown_id: "i32_range n \<Longrightarrow> parse_schema_id (show_int n) = Inr (SchemaId n)"
  by (simp add: parse_schema_id_def parse_i32_show_int in_i32_def)


subsection \<open>The properties on concrete requests\<close>

definition demo_env :: "(string, json) rest_env" where
  "demo_env = \<lparr>rv_registry = (registry_on empty_store)\<lparr>re_parsers := echo_parsers\<lparr>serde_from_str :=
       (\<lambda>s. Inr (if s = ''body'' then JObj [(''schema'', JStr ''int'')] else JStr s))\<rparr>\<rparr>,
     rv_avro_canonical = (\<lambda>s. s), rv_body_error = (\<lambda>_. ''body''), rv_query = (\<lambda>_. Inr []), rv_query_error = (\<lambda>_. ''query''),
     rv_prost_decode = (\<lambda>_. Inr [])\<rparr>"

lemma demo_request: "body_request demo_env ''a'' False ''body'' = Inr int_request"
  by (simp add: body_request_def from_body_def demo_env_def de_register_body_def default_members_def de_field_def
      body_schema_def from_wire_def int_request_def)

lemma demo_parse: "parse_canonical (rv_parsers demo_env) Avro ''int'' [] = Inr ''int''"
  by (simp add: demo_env_def parse_canonical_def parse_def avro_parse_def from_str_value_def canonical_form_def
      echo_parsers_def Let_def)

lemma demo_decision:
  "\<exists>recs. register_decision (rv_registry demo_env) int_request empty_store = Some (Inr (first_registered, recs))"
proof -
  have mode: "effective_mode empty_store ''a'' = ''READWRITE''"
    by (simp add: effective_mode_def empty_store_def with_defaults_def subject_mode_def global_mode_def)
  have "normalized_storage_form (rv_parsers demo_env) Avro ''int'' [] = Inr ''int''"
    by (simp add: normalized_storage_form_def demo_env_def echo_parsers_def avro_parse_def parse_def from_str_value_def Let_def)
  then show ?thesis
    using mode demo_parse
    by (simp add: register_decision_def int_request_def resolve_closure_def find_under_subject_def dedup_key_def
        find_under_subject_canonical_def check_registration_def versions_schemas_def new_decision_def register_def
        register_new_def assign_id_def next_version_def push_version_def observe_version_def bump_next_def
        default_schema_id_def i32_add_def i32_wrap_def i32_saturating_add_def empty_store_def with_defaults_def Let_def)
qed

lemma demo_register: "\<exists>s'. ks_register (rv_registry demo_env) int_request idle_store = (Some (Inr first_registered), s')"
proof -
  let ?R = "rv_registry demo_env"
  have "re_codec ?R = value_codec" "re_defaults ?R = empty_store" "topic_store ?R idle_store = empty_store"
    by (simp_all add: demo_env_def idle_replay)
  then show ?thesis
    using healthy_write_through [of ?R idle_store "register_decision ?R int_request"] demo_decision
    by (auto simp: value_codec_roundtrip idle_healthy ks_register_def prod_eq_iff idle_replay)
qed



end
