(* ===== verification/Wire.thy ===== *)
theory Wire
  imports Prelude "HOL-Library.Word"
begin

text \<open>
  The Confluent wire format and subject naming (\<^verbatim>\<open>schema-serde/src/wire.rs\<close>,
  \<^verbatim>\<open>schema-serde/src/subject.rs\<close>): the frame \<open>magic | id | body\<close>, the zigzag varints of a Protobuf
  message index, and their decoders with every error. Bytes, the schema id and the varint values are
  words of their Rust width.
\<close>

unbundle bit_operations_syntax

type_synonym byte = "8 word"

text \<open>\<open>SchemaSerdeError::Wire\<close> with its message.\<close>

datatype wire_error = Wire string

definition MAGIC :: byte where
  "MAGIC = 0x00"

subsection \<open>Varints\<close>

definition zigzag :: "64 word \<Rightarrow> 64 word" where
  "zigzag value = push_bit 1 value XOR signed_drop_bit 63 value"

definition unzigzag :: "64 word \<Rightarrow> 64 word" where
  "unzigzag result = drop_bit 1 result XOR - (result AND 1)"

lemma small_iff: "z < 0x80 \<longleftrightarrow> drop_bit 7 z = 0" for z :: "64 word"
proof -
  have "unat (drop_bit 7 z) = unat z div 128" unfolding unat_drop_bit_eq by (simp add: drop_bit_eq_div)
  moreover have "z < 0x80 \<longleftrightarrow> unat z < 128" by (simp add: word_less_nat_alt)
  ultimately show ?thesis by (metis div_eq_0_iff unat_eq_zero zero_neq_numeral)
qed

text \<open>The loops of \<open>put_varint\<close> and \<open>encoded_varint_len\<close>.\<close>

lemma drop_decreases: "\<not> z < 0x80 \<Longrightarrow> unat (drop_bit 7 z) < unat z" for z :: "64 word"
  unfolding unat_drop_bit_eq by (simp add: drop_bit_eq_div word_less_nat_alt)

function put_zig :: "64 word \<Rightarrow> byte list" where
  "put_zig zig =
     (if zig < 0x80 then [ucast zig]
      else ((ucast zig AND 0x7f) OR 0x80) # put_zig (drop_bit 7 zig))"
  by auto
termination by (relation "measure unat") (simp_all add: drop_decreases)

function encoded_varint_len :: "64 word \<Rightarrow> nat" where
  "encoded_varint_len value = (if value < 0x80 then 1 else Suc (encoded_varint_len (drop_bit 7 value)))"
  by auto
termination by (relation "measure unat") (simp_all add: drop_decreases)

declare put_zig.simps [simp del] encoded_varint_len.simps [simp del]

definition put_varint :: "64 word \<Rightarrow> byte list" where
  "put_varint value = put_zig (zigzag value)"

text \<open>The body of the \<open>for\<close> loop over the first ten bytes; \<open>None\<close> when the loop runs to its end.\<close>

fun read_bytes :: "nat \<Rightarrow> 64 word \<Rightarrow> byte list \<Rightarrow> (wire_error + 64 word \<times> byte list) option" where
  "read_bytes index result [] = None"
| "read_bytes index result (byte # bytes) =
    (if 10 \<le> index then None
     else let payload = ucast (byte AND 0x7f) :: 64 word
          in if index = 9 \<and> 1 < payload then Some (Inl (Wire ''varint overflows 64 bits''))
             else let result = result OR push_bit (index * 7) payload
                  in if byte AND 0x80 = 0
                     then if encoded_varint_len result \<noteq> index + 1 then Some (Inl (Wire ''varint is overlong''))
                          else Some (Inr (unzigzag result, bytes))
                     else read_bytes (Suc index) result bytes)"

definition read_varint :: "byte list \<Rightarrow> wire_error + 64 word \<times> byte list" where
  "read_varint bytes = (case read_bytes 0 0 bytes of
      Some r \<Rightarrow> r
    | None \<Rightarrow> if 10 \<le> length bytes then Inl (Wire ''varint exceeds 10 bytes'') else Inl (Wire ''truncated varint''))"

subsection \<open>Frames\<close>

definition to_be_bytes :: "32 word \<Rightarrow> byte list" where
  "to_be_bytes i = [ucast (drop_bit 24 i), ucast (drop_bit 16 i), ucast (drop_bit 8 i), ucast i]"

definition from_be_bytes :: "byte \<Rightarrow> byte \<Rightarrow> byte \<Rightarrow> byte \<Rightarrow> 32 word" where
  "from_be_bytes a b c d = push_bit 24 (ucast a) OR push_bit 16 (ucast b) OR push_bit 8 (ucast c) OR ucast d"

definition encode_frame :: "32 word \<Rightarrow> byte list \<Rightarrow> byte list" where
  "encode_frame i body = MAGIC # to_be_bytes i @ body"

definition encode_protobuf :: "32 word \<Rightarrow> 32 word list \<Rightarrow> byte list \<Rightarrow> byte list" where
  "encode_protobuf i message_index body = MAGIC # to_be_bytes i @
     (if message_index = [0] then [0]
      else put_varint (word_of_nat (length message_index)) @ concat (map (\<lambda>ix. put_varint (scast ix)) message_index))
     @ body"

definition hex_digit :: "nat \<Rightarrow> char" where
  "hex_digit n = ''0123456789abcdef'' ! (n mod 16)"

definition show_hex2 :: "byte \<Rightarrow> string" where
  "show_hex2 b = [hex_digit (unat b div 16), hex_digit (unat b)]"

definition strip_header :: "byte list \<Rightarrow> wire_error + 32 word \<times> byte list" where
  "strip_header bytes =
     (if length bytes < 5 then Inl (Wire (''frame too short: '' @ show_nat (length bytes) @ '' bytes''))
      else if bytes ! 0 \<noteq> MAGIC then Inl (Wire (''bad magic byte 0x'' @ show_hex2 (bytes ! 0)))
      else Inr (from_be_bytes (bytes ! 1) (bytes ! 2) (bytes ! 3) (bytes ! 4), drop 5 bytes))"

definition decode_frame :: "byte list \<Rightarrow> wire_error + 32 word \<times> byte list" where
  "decode_frame bytes = strip_header bytes"

definition i32_try_from :: "64 word \<Rightarrow> wire_error + 32 word" where
  "i32_try_from ix =
     (if - (2 ^ 31) \<le> sint ix \<and> sint ix < 2 ^ 31 then Inr (word_of_int (sint ix))
      else Inl (Wire (''Protobuf message index '' @ show_int (sint ix) @ '' does not fit in i32'')))"

fun read_indices :: "nat \<Rightarrow> byte list \<Rightarrow> wire_error + 32 word list \<times> byte list" where
  "read_indices 0 rest = Inr ([], rest)"
| "read_indices (Suc n) rest =
    rbind (read_varint rest) (\<lambda>(ix, r).
    rbind (i32_try_from ix) (\<lambda>ix.
    rbind (read_indices n r) (\<lambda>(v, r'). Inr (ix # v, r'))))"

definition decode_protobuf :: "byte list \<Rightarrow> wire_error + 32 word \<times> 32 word list \<times> byte list" where
  "decode_protobuf bytes =
     rbind (strip_header bytes) (\<lambda>(i, after_id).
     rbind (read_varint after_id) (\<lambda>(len, rest).
       if len = 0 then Inr (i, [0], rest)
       else if sint len < 0
       then Inl (Wire (''negative Protobuf message-index count '' @ show_int (sint len)))
       else if length rest < unat len
       then Inl (Wire (''Protobuf message-index count '' @ show_nat (unat len)
              @ '' exceeds remaining frame bytes '' @ show_nat (length rest)))
       else rbind (read_indices (unat len) rest) (\<lambda>(v, rest'). Inr (i, v, rest'))))"

subsection \<open>Subjects\<close>

datatype role = KeyRole | ValueRole

datatype schema_kind = AvroKind | ProtobufKind | JsonKind

fun kind_wire_name :: "schema_kind \<Rightarrow> string option" where
  "kind_wire_name AvroKind = None"
| "kind_wire_name ProtobufKind = Some ''PROTOBUF''"
| "kind_wire_name JsonKind = Some ''JSON''"

definition from_wire_name :: "string option \<Rightarrow> schema_kind" where
  "from_wire_name n =
     (if n = Some ''PROTOBUF'' then ProtobufKind else if n = Some ''JSON'' then JsonKind else AvroKind)"

fun topic_name_subject :: "string \<Rightarrow> role \<Rightarrow> string" where
  "topic_name_subject topic KeyRole = topic @ ''-key''"
| "topic_name_subject topic ValueRole = topic @ ''-value''"

subsection \<open>Zigzag\<close>

lemma bit_zigzag: "bit (zigzag v) n \<longleftrightarrow> n < 64 \<and> (if n = 0 then bit v 63 else bit v (n - 1) \<noteq> bit v 63)"
  unfolding zigzag_def bit_xor_iff bit_push_bit_iff bit_signed_drop_bit_iff
  by (auto simp: min_def dest: bit_imp_le_length)

lemma sign_mask: "- (r AND 1) = (if odd r then - 1 else 0)" for r :: "64 word"
  by (simp add: and_one_eq mod_2_eq_odd)

lemma bit_unzigzag: "bit (unzigzag r) n \<longleftrightarrow> n < 64 \<and> bit r (Suc n) \<noteq> bit r 0"
  unfolding unzigzag_def bit_xor_iff bit_drop_bit_eq sign_mask
  by (auto simp: bit_0 dest: bit_imp_le_length)

lemma unzigzag_zigzag [simp]: "unzigzag (zigzag v) = v"
  by (rule bit_word_eqI) (auto simp: bit_unzigzag bit_zigzag less_Suc_eq eval_nat_numeral)

lemma zigzag_unzigzag [simp]: "zigzag (unzigzag r) = r"
proof -
  have "\<not> bit r 64" by (auto dest: bit_imp_le_length)
  then show ?thesis by (intro bit_word_eqI) (auto simp: bit_unzigzag bit_zigzag)
qed

subsection \<open>Varint round trips\<close>

text \<open>\<open>fits m z\<close>: no bit of \<open>z\<close> at or above position \<open>m\<close>.\<close>

abbreviation fits :: "nat \<Rightarrow> 64 word \<Rightarrow> bool" where
  "fits m z \<equiv> drop_bit m z = 0"

lemma fits_bit: "fits m z \<longleftrightarrow> (\<forall>n\<ge>m. \<not> bit z n)"
proof
  assume z: "fits m z"
  show "\<forall>n\<ge>m. \<not> bit z n"
  proof (intro allI impI)
    fix n assume n: "m \<le> n"
    have "bit (drop_bit m z) (n - m) = bit z n" using n by (simp add: bit_drop_bit_eq)
    with z show "\<not> bit z n" by simp
  qed
next
  assume "\<forall>n\<ge>m. \<not> bit z n"
  then show "fits m z" by (intro bit_word_eqI) (simp add: bit_drop_bit_eq)
qed

lemma small_bit: "z < 0x80 \<longleftrightarrow> (\<forall>n\<ge>7. \<not> bit z n)" for z :: "64 word"
  by (simp only: small_iff fits_bit)

lemma fits_mono: "fits m z \<Longrightarrow> m \<le> n \<Longrightarrow> fits n z"
  unfolding fits_bit by (meson order_trans)

lemma fits_64 [simp]: "fits 64 z"
  by (auto simp: fits_bit dest: bit_imp_le_length)

lemma low_seven: "x AND 0x7f = take_bit 7 x" for x :: "'a::len word"
  by (simp add: take_bit_eq_mask mask_eq_exp_minus_1)

lemma high_bit: "b AND 0x80 = 0 \<longleftrightarrow> \<not> bit b 7" for b :: byte
  using and_exp_eq_0_iff_not_bit [of b 7] by simp

text \<open>A word with the bits of \<open>r\<close> below position \<open>7 * i\<close> and those of \<open>z\<close> above.\<close>

definition stack :: "nat \<Rightarrow> 64 word \<Rightarrow> 64 word \<Rightarrow> 64 word" where
  "stack i r z = r OR push_bit (i * 7) z"

lemma bit_stack: "bit (stack i r z) n \<longleftrightarrow> bit r n \<or> i * 7 \<le> n \<and> n < 64 \<and> bit z (n - i * 7)"
  unfolding stack_def bit_or_iff bit_push_bit_iff by (auto dest: bit_imp_le_length)

lemma stack_step:
  "stack (Suc i) (r OR push_bit (i * 7) (take_bit 7 z)) (drop_bit 7 z) = stack i r z"
proof (rule bit_word_eqI)
  fix n
  show "bit (stack (Suc i) (r OR push_bit (i * 7) (take_bit 7 z)) (drop_bit 7 z)) n = bit (stack i r z) n"
    unfolding bit_stack bit_or_iff bit_push_bit_iff bit_take_bit_iff bit_drop_bit_eq
    by (cases "i * 7 + 7 \<le> n") (auto simp: not_less dest: bit_imp_le_length)
qed

lemma len_stack:
  assumes "fits (i * 7) r" "fits (64 - i * 7) z" "z \<noteq> 0 \<or> i = 0"
  shows "encoded_varint_len (stack i r z) = i + encoded_varint_len z"
  using assms
proof (induction i arbitrary: r)
  case 0
  then have "r = 0" by simp
  then show ?case by (simp add: stack_def)
next
  case (Suc i)
  obtain n where n: "bit z n" using Suc.prems(3) by (metis bit_eqI bit_0_eq bot_apply bot_bool_def nat.distinct(1))
  have lt: "n < 64 - Suc i * 7" using Suc.prems(2) n unfolding fits_bit by (metis not_le)
  have big: "\<not> stack (Suc i) r z < 0x80"
  proof -
    have "n + Suc i * 7 < 64" using lt by linarith
    then have "bit (stack (Suc i) r z) (n + Suc i * 7)" using n by (simp add: bit_stack)
    then show ?thesis unfolding small_bit not_all by (intro exI [of _ "n + Suc i * 7"]) simp
  qed
  have drop: "drop_bit 7 (stack (Suc i) r z) = stack i (drop_bit 7 r) z"
  proof (rule bit_word_eqI)
    fix m
    have "7 + m < 64" if "bit z (m - i * 7)" "i * 7 \<le> m"
    proof -
      have "m - i * 7 < 64 - Suc i * 7" using Suc.prems(2) that(1) unfolding fits_bit by (meson not_le)
      with that(2) show ?thesis by presburger
    qed
    then show "bit (drop_bit 7 (stack (Suc i) r z)) m = bit (stack i (drop_bit 7 r) z) m"
      unfolding bit_stack bit_drop_bit_eq by auto
  qed
  have "fits (i * 7) (drop_bit 7 r)" using Suc.prems(1) by (simp add: drop_bit_drop_bit add.commute)
  moreover have "fits (64 - i * 7) z" using Suc.prems(2) unfolding fits_bit by auto
  ultimately have "encoded_varint_len (stack i (drop_bit 7 r) z) = i + encoded_varint_len z"
    using Suc.IH Suc.prems(3) by simp
  then show ?case by (subst encoded_varint_len.simps) (simp add: big drop)
qed

lemma len_bound: "fits (i * 7) r \<Longrightarrow> 0 < i \<Longrightarrow> encoded_varint_len r \<le> i"
proof (induction i arbitrary: r)
  case (Suc i)
  show ?case
  proof (cases "r < 0x80")
    case False
    then have "0 < i" using Suc.prems(1) by (cases i) (simp_all add: small_iff)
    moreover have "fits (i * 7) (drop_bit 7 r)" using Suc.prems(1) by (simp add: drop_bit_drop_bit add.commute)
    ultimately show ?thesis using Suc.IH False by (subst encoded_varint_len.simps) simp
  qed (subst encoded_varint_len.simps, simp)
qed simp

text \<open>The bytes of \<open>put_zig\<close>: a last byte below \<open>0x80\<close>, the others with the continuation bit.\<close>

lemma last_byte:
  fixes z :: "64 word"
  assumes "z < 0x80"
  shows "ucast (ucast z AND 0x7f :: byte) = z" "(ucast z :: byte) AND 0x80 = 0"
proof -
  have "\<not> bit z n" if "7 \<le> n" for n using assms that unfolding small_bit by blast
  then have b: "bit z n \<Longrightarrow> n < 7" for n by (meson not_le)
  show "ucast (ucast z AND 0x7f :: byte) = z"
    unfolding low_seven by (rule bit_word_eqI) (auto simp: bit_simps dest: b)
  show "(ucast z :: byte) AND 0x80 = 0"
    unfolding high_bit using b [of 7] by (auto simp: bit_simps)
qed

lemma more_byte:
  fixes z :: "64 word"
  shows "ucast (((ucast z AND 0x7f) OR 0x80 :: byte) AND 0x7f) = take_bit 7 z"
    "((ucast z AND 0x7f) OR 0x80 :: byte) AND 0x80 \<noteq> 0"
proof -
  have h: "bit (0x80 :: byte) n \<longleftrightarrow> n = 7" for n
    using bit_exp_iff [where 'a = byte, of 7 n] by (auto dest: bit_imp_le_length)
  show "ucast (((ucast z AND 0x7f) OR 0x80 :: byte) AND 0x7f) = take_bit 7 z"
    unfolding low_seven by (rule bit_word_eqI) (auto simp: bit_simps h)
  show "((ucast z AND 0x7f) OR 0x80 :: byte) AND 0x80 \<noteq> 0"
    unfolding high_bit by (simp add: bit_or_iff h)
qed

lemma payload_one: "fits 1 z \<Longrightarrow> \<not> 1 < z" for z :: "64 word"
proof -
  assume "fits 1 z"
  then have "unat (drop_bit 1 z) = 0" by simp
  then have "unat z div 2 = 0" unfolding unat_drop_bit_eq by (simp add: drop_bit_eq_div)
  then show ?thesis by (simp add: word_less_nat_alt)
qed

lemma read_put_zig:
  assumes "fits (i * 7) r" "fits (64 - i * 7) z" "z \<noteq> 0 \<or> i = 0" "i < 10"
  shows "read_bytes i r (put_zig z @ rest) = Some (Inr (unzigzag (stack i r z), rest))"
  using assms
proof (induction z arbitrary: i r rule: put_zig.induct)
  case (1 z)
  show ?case
  proof (cases "z < 0x80")
    case True
    have "i = 9 \<Longrightarrow> \<not> 1 < z" using payload_one "1.prems"(2) by simp
    moreover have "encoded_varint_len (r OR push_bit (i * 7) z) = i + 1"
      using len_stack [OF "1.prems"(1-3)] True by (simp add: stack_def encoded_varint_len.simps [of z])
    ultimately show ?thesis
      using True "1.prems"(4) last_byte [OF True] by (subst put_zig.simps) (simp add: stack_def)
  next
    case False
    obtain n where "7 \<le> n" "bit z n" using False unfolding small_bit by blast
    then have "n < 64 - i * 7" using "1.prems"(2) unfolding fits_bit by (meson not_le)
    with \<open>7 \<le> n\<close> have i: "i < 9" by linarith
    have "fits (Suc i * 7) (r OR push_bit (i * 7) (take_bit 7 z))"
      using "1.prems"(1) unfolding fits_bit bit_or_iff bit_push_bit_iff bit_take_bit_iff by auto
    moreover have "fits (64 - Suc i * 7) (drop_bit 7 z)"
      using "1.prems"(2) unfolding fits_bit bit_drop_bit_eq by auto
    moreover have "drop_bit 7 z \<noteq> 0" using False by (simp add: small_iff)
    ultimately have "read_bytes (Suc i) (r OR push_bit (i * 7) (take_bit 7 z)) (put_zig (drop_bit 7 z) @ rest) =
        Some (Inr (unzigzag (stack i r z), rest))"
      using "1.IH" [OF False] i stack_step [of i r z] by simp
    then show ?thesis
      using False i more_byte [of z] by (subst put_zig.simps) simp
  qed
qed

lemma split_word:
  assumes "fits 7 p" "fits 57 z"
  shows "take_bit 7 (p OR push_bit 7 z) = p" "drop_bit 7 (p OR push_bit 7 z) = z"
proof -
  show "take_bit 7 (p OR push_bit 7 z) = p"
    using assms(1) unfolding fits_bit
    by (intro bit_word_eqI) (auto simp only: bit_take_bit_iff bit_or_iff bit_push_bit_iff not_le)
  have "\<And>n. bit z n \<Longrightarrow> n < 57" using assms(2) unfolding fits_bit by (meson not_le)
  moreover have "\<And>n. \<not> bit p (7 + n)" using assms(1) unfolding fits_bit by simp
  ultimately show "drop_bit 7 (p OR push_bit 7 z) = z"
    by (intro bit_word_eqI) (auto simp add: bit_drop_bit_eq bit_or_iff bit_push_bit_iff simp del: push_bit_eq_0_iff)
qed

lemma payload_fits: "fits 7 (ucast (b AND 0x7f :: byte))"
  unfolding fits_bit low_seven by (simp add: bit_simps)

lemma byte_bits:
  fixes b :: byte
  shows "\<not> bit b 7 \<Longrightarrow> ucast (ucast (b AND 0x7f) :: 64 word) = b"
    "bit b 7 \<Longrightarrow> take_bit 7 z = (ucast (b AND 0x7f) :: 64 word) \<Longrightarrow> (ucast z AND 0x7f) OR 0x80 = b"
proof -
  have h: "bit (0x80 :: byte) n \<longleftrightarrow> n = 7" for n
    using bit_exp_iff [where 'a = byte, of 7 n] by (auto dest: bit_imp_le_length)
  have n7: "n < 8 \<Longrightarrow> n < 7 \<or> n = 7" for n :: nat by auto
  show "ucast (ucast (b AND 0x7f) :: 64 word) = b" if "\<not> bit b 7"
    unfolding low_seven using that by (intro bit_word_eqI) (auto simp: bit_simps dest: n7)
  assume a: "bit b 7" "take_bit 7 z = (ucast (b AND 0x7f) :: 64 word)"
  have "bit z n \<longleftrightarrow> bit b n" if "n < 7" for n
  proof -
    have "bit (take_bit 7 z) n = bit (ucast (b AND 0x7f) :: 64 word) n" using a(2) by simp
    then show ?thesis using that unfolding low_seven by (simp add: bit_simps)
  qed
  then have "bit ((ucast z AND 0x7f) OR 0x80 :: byte) n = bit b n" if "n < 8" for n
    unfolding low_seven bit_or_iff bit_take_bit_iff h using a(1) n7 [OF that]
    by (elim disjE) (simp_all add: bit_ucast_iff)
  then show "(ucast z AND 0x7f) OR 0x80 = b" by (intro bit_word_eqI) simp
qed

lemma fits_one: "\<not> 1 < p \<Longrightarrow> fits 1 p" for p :: "64 word"
proof -
  assume "\<not> 1 < p"
  then have "unat p \<le> 1" by (simp add: word_less_nat_alt)
  then have "unat (drop_bit 1 p) = 0" unfolding unat_drop_bit_eq by (simp add: drop_bit_eq_div)
  then show ?thesis by (simp only: unat_eq_zero)
qed

lemma read_last:
  assumes "fits (i * 7) r" "i < 10" "i = 9 \<longrightarrow> \<not> 1 < p" "fits 7 p"
    and "encoded_varint_len (stack i r p) = Suc i"
  shows "fits (64 - i * 7) p" "p \<noteq> 0 \<or> i = 0"
proof -
  show "fits (64 - i * 7) p"
  proof (cases "i = 9")
    case True
    then show ?thesis using fits_one assms(3) by simp
  next
    case False
    then have "7 \<le> 64 - i * 7" using assms(2) by simp
    then show ?thesis by (rule fits_mono [OF assms(4)])
  qed
  show "p \<noteq> 0 \<or> i = 0" using len_bound [OF assms(1)] assms(5) by (cases "i = 0") (auto simp: stack_def)
qed

lemma read_bytes_put:
  "read_bytes i r bs = Some (Inr (v, rest)) \<Longrightarrow> fits (i * 7) r \<Longrightarrow>
    \<exists>z. bs = put_zig z @ rest \<and> v = unzigzag (stack i r z) \<and> fits (64 - i * 7) z \<and> (z \<noteq> 0 \<or> i = 0)"
proof (induction bs arbitrary: i r)
  case (Cons b bs)
  let ?p = "ucast (b AND 0x7f) :: 64 word"
  let ?r = "r OR push_bit (i * 7) ?p"
  have i: "i < 10" "i = 9 \<longrightarrow> \<not> 1 < ?p" using Cons.prems(1) by (auto simp: Let_def split: if_splits)
  show ?case
  proof (cases "b AND 0x80 = 0")
    case True
    with Cons.prems(1) i have l: "encoded_varint_len (stack i r ?p) = Suc i" "v = unzigzag (stack i r ?p)" "bs = rest"
      by (auto simp: Let_def stack_def split: if_splits)
    have "put_zig ?p = [b]"
      using payload_fits [of b] byte_bits(1) [of b] True by (subst put_zig.simps) (simp add: small_iff high_bit)
    then show ?thesis
      using l read_last [OF Cons.prems(2) i payload_fits l(1)] by (intro exI [of _ ?p]) simp
  next
    case False
    then have c: "read_bytes (Suc i) ?r bs = Some (Inr (v, rest))"
      using Cons.prems(1) i by (auto simp: Let_def split: if_splits)
    then have "i \<noteq> 9" by (cases bs) auto
    then have i8: "i \<le> 8" using i(1) by simp
    note c
    moreover have "fits (Suc i * 7) ?r"
      using Cons.prems(2) payload_fits [of b] unfolding fits_bit bit_or_iff bit_push_bit_iff by auto
    ultimately obtain z' where z': "bs = put_zig z' @ rest" "v = unzigzag (stack (Suc i) ?r z')"
        "fits (64 - Suc i * 7) z'" "z' \<noteq> 0" using Cons.IH by blast
    define z where "z = ?p OR push_bit 7 z'"
    have "fits 57 z'" by (rule fits_mono [OF z'(3)]) simp
    note z = split_word [OF payload_fits this, of b, folded z_def]
    have "put_zig z = b # put_zig z'"
      using z(2) z'(4) byte_bits(2) [OF _ z(1)] False by (subst put_zig.simps) (simp add: small_iff high_bit)
    moreover have "v = unzigzag (stack i r z)" using z'(2) stack_step [of i r z] unfolding z by simp
    moreover have "z \<noteq> 0" using z(2) z'(4) by auto
    moreover have "fits (64 - i * 7) z"
      using z'(3) i8 drop_bit_drop_bit [of "64 - Suc i * 7" 7 z] unfolding z(2) by simp
    ultimately show ?thesis using z'(1) by (intro exI [of _ z]) simp
  qed
qed simp

lemma stack_zero [simp]: "stack 0 0 z = z"
  by (simp add: stack_def)

lemma read_put_varint [simp]: "read_varint (put_varint v @ rest) = Inr (v, rest)"
  by (simp add: read_varint_def put_varint_def read_put_zig)

lemma read_varint_put:
  assumes "read_varint bs = Inr (v, rest)"
  shows "bs = put_varint v @ rest"
proof -
  have "read_bytes 0 0 bs = Some (Inr (v, rest))"
    using assms by (auto simp: read_varint_def split: option.splits if_splits)
  from read_bytes_put [OF this] obtain z where "bs = put_zig z @ rest" "v = unzigzag z" by auto
  then show ?thesis by (simp add: put_varint_def)
qed

text \<open>C10: varints have one encoding: a byte string reads as a value and a rest exactly when it is the
  value's encoding followed by the rest, so every encoded value is read back and truncated, overlong and
  overflowing encodings are refused.\<close>

theorem varint_unique_encoding: "read_varint bs = Inr (v, rest) \<longleftrightarrow> bs = put_varint v @ rest"
  using read_varint_put by auto

subsection \<open>Frames\<close>

lemma be_bytes [simp]:
  "to_be_bytes i = [a, b, c, d] \<Longrightarrow> from_be_bytes a b c d = i"
  "to_be_bytes (from_be_bytes a b c d) = [a, b, c, d]"
proof -
  show "to_be_bytes i = [a, b, c, d] \<Longrightarrow> from_be_bytes a b c d = i"
  proof (rule bit_word_eqI)
    fix n assume "to_be_bytes i = [a, b, c, d]" "n < LENGTH(32)"
    then show "bit (from_be_bytes a b c d) n = bit i n"
      by (cases "n < 8"; cases "n < 16"; cases "n < 24") (auto simp: to_be_bytes_def from_be_bytes_def bit_simps)
  qed
  show "to_be_bytes (from_be_bytes a b c d) = [a, b, c, d]"
    unfolding to_be_bytes_def from_be_bytes_def
    by (simp; intro conjI bit_word_eqI) (auto simp: bit_simps dest: bit_imp_le_length)
qed

lemma strip_header_encode [simp]: "strip_header (MAGIC # to_be_bytes i @ body) = Inr (i, body)"
proof -
  obtain a b c d where t: "to_be_bytes i = [a, b, c, d]" by (simp add: to_be_bytes_def)
  then show ?thesis using be_bytes(1) [OF t] by (simp add: strip_header_def eval_nat_numeral)
qed

lemma strip_header_Inr:
  assumes "strip_header bytes = Inr (i, body)"
  shows "bytes = MAGIC # to_be_bytes i @ body"
proof -
  have l: "5 \<le> length bytes" using assms by (auto simp: strip_header_def split: if_splits)
  then obtain m a b c d r where "bytes = m # a # b # c # d # r"
    by (auto simp: Suc_le_length_iff eval_nat_numeral)
  with assms show ?thesis by (auto simp: strip_header_def split: if_splits)
qed

text \<open>A byte string is decoded into an id and a body exactly when it is the frame of that id and
  body.\<close>

theorem frame_roundtrip: "decode_frame bytes = Inr (i, body) \<longleftrightarrow> bytes = encode_frame i body"
  using strip_header_Inr by (auto simp: decode_frame_def encode_frame_def)

lemma put_zig_nonempty: "put_zig z \<noteq> []"
  by (subst put_zig.simps) simp

lemma read_indices_put:
  "read_indices (length ixs) (concat (map (\<lambda>ix. put_varint (scast ix)) ixs) @ body) = Inr (ixs, body)"
proof (induction ixs)
  case (Cons ix ixs)
  have "sint (scast ix :: 64 word) = sint ix" 
    using sint_greater_eq [of ix] sint_less [of ix] by (simp add: signed_scast_eq signed_take_bit_int_eq_self)
  moreover have "- (2 ^ 31) \<le> sint ix" "sint ix < 2 ^ 31"
    using sint_greater_eq [of ix] sint_less [of ix] by simp_all
  ultimately have "i32_try_from (scast ix) = Inr ix" by (simp add: i32_try_from_def)
  then show ?case using Cons by simp
qed simp

lemma indices_length: "length ixs \<le> length (concat (map (\<lambda>ix. put_varint (scast ix)) ixs))"
proof (induction ixs)
  case (Cons ix ixs)
  then show ?case using put_zig_nonempty [of "zigzag (scast ix)"]
    by (cases "put_zig (zigzag (scast ix))") (simp_all add: put_varint_def)
qed simp

lemma decode_encode_protobuf:
  assumes "length message_index < 2 ^ 63"
  shows "decode_protobuf (encode_protobuf i message_index body) =
    Inr (i, if message_index = [] then [0] else message_index, body)"
proof (cases "message_index = [0] \<or> message_index = []")
  case True
  have zero: "put_varint 0 = [0]" by (simp add: put_varint_def zigzag_def put_zig.simps)
  have "read_varint (0 # body) = Inr (0, body)" using read_put_varint [of 0 body] by (simp add: zero)
  then show ?thesis using True strip_header_encode [of i "0 # body"]
    by (auto simp: decode_protobuf_def encode_protobuf_def zero)
next
  case False
  let ?n = "length message_index"
  have n: "unat (word_of_nat ?n :: 64 word) = ?n" using assms by (simp add: unat_of_nat)
  have s: "sint (word_of_nat ?n :: 64 word) = int ?n"
    using assms by (simp add: signed_take_bit_int_eq_self signed_of_nat)
  have nz: "(word_of_nat ?n :: 64 word) \<noteq> 0" using n False by auto
  show ?thesis
    using False n s nz indices_length [of message_index] read_indices_put [of message_index body]
    by (simp add: decode_protobuf_def encode_protobuf_def)
qed

text \<open>A Protobuf frame is decoded into the id, the message index and the body it was made from; an
  empty message index is the only one that does not come back, it is read as the index of the first
  message.\<close>

theorem protobuf_frame_roundtrip:
  assumes "length message_index < 2 ^ 63"
  shows "decode_protobuf (encode_protobuf i message_index body) =
    Inr (i, if message_index = [] then [0] else message_index, body)"
  by (rule decode_encode_protobuf [OF assms])

theorem protobuf_frame_roundtrip_witness:
  "decode_protobuf (encode_protobuf 7 [1, - 1] [42]) = Inr (7, [1, - 1], [42])"
  using protobuf_frame_roundtrip [of "[1, - 1]" 7 "[42]"] by simp

lemma put_varint_length: "0 < length (put_varint v)"
  using put_zig_nonempty by (simp add: put_varint_def)

lemma read_indices_bounds:
  "read_indices n rest = Inr (v, r) \<Longrightarrow> length v = n \<and> (\<exists>pre. rest = pre @ r \<and> n \<le> length pre)"
proof (induction n arbitrary: rest v)
  case (Suc n)
  from Suc.prems obtain ix r1 v' where r1: "read_varint rest = Inr (ix, r1)" "read_indices n r1 = Inr (v', r)" "length v = Suc (length v')"
    by (auto simp: rbind_Inr_iff)
  from Suc.IH [OF r1(2)] obtain pre where "length v' = n" "r1 = pre @ r" "n \<le> length pre" by blast
  then have "length v = Suc n" "rest = (put_varint ix @ pre) @ r" "Suc n \<le> length (put_varint ix @ pre)"
    using read_varint_put [OF r1(1)] put_varint_length [of ix] r1(3) unfolding length_append by (simp, simp, linarith)
  then show ?case by blast
qed simp

text \<open>Whatever bytes arrive, an accepted Protobuf frame has a message index of at least one entry,
  which takes no more bytes than the frame has before its body, and the body is the frame's tail.\<close>

theorem protobuf_frame_bounds:
  assumes "decode_protobuf bytes = Inr (i, message_index, body)"
  shows "message_index \<noteq> [] \<and> (\<exists>pre. bytes = pre @ body \<and> 5 + length message_index \<le> length pre)"
proof -
  obtain after_id len rest where h: "strip_header bytes = Inr (i, after_id)" "read_varint after_id = Inr (len, rest)"
      "len = 0 \<and> message_index = [0] \<and> rest = body \<or>
       len \<noteq> 0 \<and> read_indices (unat len) rest = Inr (message_index, body)"
    using assms by (auto simp: decode_protobuf_def rbind_Inr_iff split: if_splits)
  have b: "bytes = (MAGIC # to_be_bytes i @ put_varint len) @ rest" "length (to_be_bytes i) = 4"
    using strip_header_Inr [OF h(1)] read_varint_put [OF h(2)] by (simp_all add: to_be_bytes_def)
  show ?thesis
  proof (cases "len = 0")
    case True
    then have "message_index = [0]" "bytes = (MAGIC # to_be_bytes i @ put_varint len) @ body" using h(3) b(1) by simp_all
    moreover have "6 \<le> length (MAGIC # to_be_bytes i @ put_varint len)"
      using b(2) put_varint_length [of len] unfolding length_append list.size by linarith
    ultimately show ?thesis by auto
  next
    case False
    with h(3) have r: "read_indices (unat len) rest = Inr (message_index, body)" by blast
    from read_indices_bounds [OF this] obtain pre where "length message_index = unat len" "rest = pre @ body"
      "unat len \<le> length pre" by blast
    then have "bytes = (MAGIC # to_be_bytes i @ put_varint len @ pre) @ body"
      "5 + length message_index \<le> length (MAGIC # to_be_bytes i @ put_varint len @ pre)" "message_index \<noteq> []"
      using b False put_varint_length [of len] unfolding length_append list.size by (simp, linarith, metis list.size(3) unat_eq_zero)
    then show ?thesis by blast
  qed
qed

theorem protobuf_frame_bounds_witness:
  "\<exists>pre. encode_protobuf 7 [1, - 1] [42] = pre @ [42] \<and> 5 + length [1, - 1 :: 32 word] \<le> length pre"
  using protobuf_frame_bounds [of "encode_protobuf 7 [1, - 1] [42]" 7 "[1, - 1]" "[42]"]
    decode_encode_protobuf [of "[1, - 1]" 7 "[42]"]
  by simp

end
