(* ===== verification/Client.thy ===== *)
theory Client
  imports Rest Wire "HOL-Library.Countable"
begin

text \<open>
  The REST client of the serializers (\<^verbatim>\<open>schema-serde/src/registry\<close>, \<^verbatim>\<open>schema-serde/src/error.rs\<close>):
  the requests it makes, how it reads an answer, and the resolution of a schema's references into named
  sources in dependency order. Sending a request over HTTP is the operation \<open>rc_send\<close>, which may change the
  outside world, a value of type \<open>'e\<close>; reading and printing JSON text are parameters too.
\<close>

subsection \<open>Errors\<close>

datatype serde_error =
    RegistryTransport string
  | RegistryStatus nat i32 string
  | RegistryDecode string
  | WireFailed string
  | SerializeFailed string
  | DeserializeFailed string
  | SchemaFailed string
  | WriterSchemaPending "32 word"
  | WriterSchemaUnavailable "32 word" string

definition has_error_code :: "i32 \<Rightarrow> serde_error \<Rightarrow> bool" where
  "has_error_code code e = (case e of RegistryStatus _ c _ \<Rightarrow> c = code | _ \<Rightarrow> False)"

definition is_subject_not_found :: "serde_error \<Rightarrow> bool" where
  "is_subject_not_found = has_error_code 40401"

definition is_schema_not_found :: "serde_error \<Rightarrow> bool" where
  "is_schema_not_found = has_error_code 40403"

definition is_incompatible_error :: "serde_error \<Rightarrow> bool" where
  "is_incompatible_error = has_error_code 409"

definition is_transient_registry_failure :: "serde_error \<Rightarrow> bool" where
  "is_transient_registry_failure e = (case e of
      RegistryTransport _ \<Rightarrow> True
    | RegistryStatus status _ _ \<Rightarrow> status = 429 \<or> 500 \<le> status
    | _ \<Rightarrow> False)"

subsection \<open>Requests and answers\<close>

record http_call =
  hc_method :: http_method
  hc_url :: string
  hc_body :: "json option"

text \<open>The answer to a call: the transport fails, or there is a status and a text that can be read or not.\<close>

type_synonym http_answer = "string + nat \<times> (string + string)"

record 'e registry_client =
  rc_base_url :: string
  rc_send :: "http_call \<Rightarrow> 'e \<Rightarrow> http_answer \<times> 'e"
  rc_from_str :: "string \<Rightarrow> string + json"
  rc_decode_error :: "string \<Rightarrow> string"

definition trim_end_slashes :: "string \<Rightarrow> string" where
  "trim_end_slashes url = rev (dropWhile (\<lambda>c. c = CHR ''/'') (rev url))"

definition with_http_client :: "string \<Rightarrow> (http_call \<Rightarrow> 'e \<Rightarrow> http_answer \<times> 'e) \<Rightarrow> (string \<Rightarrow> string + json) \<Rightarrow> (string \<Rightarrow> string)
    \<Rightarrow> 'e registry_client" where
  "with_http_client base_url send from_str decode_error =
     \<lparr>rc_base_url = trim_end_slashes base_url, rc_send = send, rc_from_str = from_str, rc_decode_error = decode_error\<rparr>"

definition from_text :: "'e registry_client \<Rightarrow> (json \<Rightarrow> 'v option) \<Rightarrow> string \<Rightarrow> string + 'v" where
  "from_text C de t = rbind (rc_from_str C t) (\<lambda>v. ok_or (de v) (rc_decode_error C t))"

definition de_error_body :: "json \<Rightarrow> (i32 \<times> string) option" where
  "de_error_body v =
     Option.bind (struct_members [''error_code'', ''message''] v) (\<lambda>ms.
     Option.bind (de_field de_i32 None ms ''error_code'') (\<lambda>code.
     Option.bind (de_field de_string None ms ''message'') (\<lambda>message. Some (code, message))))"

definition parse_answer :: "'e registry_client \<Rightarrow> (json \<Rightarrow> 'v option) \<Rightarrow> nat \<times> (string + string) \<Rightarrow> serde_error + 'v" where
  "parse_answer C de resp =
     (let status = fst resp
      in rbind (map_err RegistryTransport (snd resp)) (\<lambda>t.
         if \<not> (200 \<le> status \<and> status \<le> 299)
         then Inl (case result_ok (from_text C de_error_body t) of
                Some (code, message) \<Rightarrow> RegistryStatus status code message
              | None \<Rightarrow> RegistryStatus status (int status) t)
         else map_err RegistryDecode (from_text C de t)))"

type_synonym ('e, 'v) client_op = "'e \<Rightarrow> (serde_error + 'v) \<times> 'e"

definition send_json :: "'e registry_client \<Rightarrow> (json \<Rightarrow> 'v option) \<Rightarrow> http_call \<Rightarrow> ('e, 'v) client_op" where
  "send_json C de call e =
     (let (answer, e') = rc_send C call e
      in (rbind (map_err RegistryTransport answer) (parse_answer C de), e'))"

definition post_json :: "'e registry_client \<Rightarrow> (json \<Rightarrow> 'v option) \<Rightarrow> string \<Rightarrow> json \<Rightarrow> ('e, 'v) client_op" where
  "post_json C de url body = send_json C de \<lparr>hc_method = POST, hc_url = url, hc_body = Some body\<rparr>"

definition get_json :: "'e registry_client \<Rightarrow> (json \<Rightarrow> 'v option) \<Rightarrow> string \<Rightarrow> ('e, 'v) client_op" where
  "get_json C de url = send_json C de \<lparr>hc_method = GET, hc_url = url, hc_body = None\<rparr>"

definition client_bind :: "('e, 'v) client_op \<Rightarrow> ('v \<Rightarrow> ('e, 'w) client_op) \<Rightarrow> ('e, 'w) client_op" where
  "client_bind f g e = (case f e of (Inl err, e') \<Rightarrow> (Inl err, e') | (Inr v, e') \<Rightarrow> g v e')"

definition client_map :: "('v \<Rightarrow> 'w) \<Rightarrow> ('e, 'v) client_op \<Rightarrow> ('e, 'w) client_op" where
  "client_map h f e = (let (r, e') = f e in (rbind r (\<lambda>v. Inr (h v)), e'))"

subsection \<open>Payloads\<close>

definition ser_payload :: "string \<Rightarrow> schema_kind \<Rightarrow> schema_reference list \<Rightarrow> string option \<Rightarrow> json" where
  "ser_payload schema kind references message_type =
     JObj ([(''schema'', JStr schema)] @ member_if ''schemaType'' (kind_wire_name kind) @ member_if ''messageType'' message_type
       @ (if references = [] then [] else [(''references'', JArr (map ser_reference references))]))"

definition de_u32 :: "json \<Rightarrow> 32 word option" where
  "de_u32 v = map_option word_of_int (de_ranged 0 4294967295 v)"

definition de_register_response :: "json \<Rightarrow> 32 word option" where
  "de_register_response v = Option.bind (struct_members [''id''] v) (\<lambda>ms. de_field de_u32 None ms ''id'')"

record subject_version_response =
  sr_id :: "32 word"
  sr_version :: i32
  sr_schema :: string
  sr_schema_type :: "string option"
  sr_message_type :: "string option"
  sr_references :: "schema_reference list"

definition de_subject_version_response :: "json \<Rightarrow> subject_version_response option" where
  "de_subject_version_response v =
     Option.bind (default_members [''id'', ''version'', ''schema'', ''schemaType'', ''messageType'', ''references''] 1 v) (\<lambda>ms.
     Option.bind (de_field de_u32 None ms ''id'') (\<lambda>i.
     Option.bind (de_field de_i32 (Some 0) ms ''version'') (\<lambda>ver.
     Option.bind (de_field de_string (Some []) ms ''schema'') (\<lambda>schema.
     Option.bind (de_field (de_option de_string) (Some None) ms ''schemaType'') (\<lambda>ty.
     Option.bind (de_field (de_option de_string) (Some None) ms ''messageType'') (\<lambda>mt.
     Option.bind (de_field (de_vec de_reference) (Some []) ms ''references'') (\<lambda>refs.
       Some \<lparr>sr_id = i, sr_version = ver, sr_schema = schema, sr_schema_type = ty, sr_message_type = mt, sr_references = refs\<rparr>)))))))"

record fetched_schema =
  fs_schema :: string
  fs_kind :: schema_kind
  fs_message_type :: "string option"
  fs_references :: "schema_reference list"

definition de_schema_by_id_response :: "json \<Rightarrow> fetched_schema option" where
  "de_schema_by_id_response v =
     Option.bind (default_members [''schema'', ''schemaType'', ''messageType'', ''references''] 1 v) (\<lambda>ms.
     Option.bind (de_field de_string None ms ''schema'') (\<lambda>schema.
     Option.bind (de_field (de_option de_string) (Some None) ms ''schemaType'') (\<lambda>ty.
     Option.bind (de_field (de_option de_string) (Some None) ms ''messageType'') (\<lambda>mt.
     Option.bind (de_field (de_vec de_reference) (Some []) ms ''references'') (\<lambda>refs.
       Some \<lparr>fs_schema = schema, fs_kind = from_wire_name ty, fs_message_type = mt, fs_references = refs\<rparr>)))))"

record subject_version =
  sv_subject :: string
  sv_version :: i32

definition de_subject_version :: "json \<Rightarrow> subject_version option" where
  "de_subject_version v =
     Option.bind (struct_members [''subject'', ''version''] v) (\<lambda>ms.
     Option.bind (de_field de_string None ms ''subject'') (\<lambda>s.
     Option.bind (de_field de_i32 None ms ''version'') (\<lambda>n. Some \<lparr>sv_subject = s, sv_version = n\<rparr>)))"

subsection \<open>The operations\<close>

definition show_id :: "32 word \<Rightarrow> string" where
  "show_id i = show_nat (unat i)"

definition client_register :: "'e registry_client \<Rightarrow> string \<Rightarrow> schema_kind \<Rightarrow> string \<Rightarrow> schema_reference list \<Rightarrow> string option
    \<Rightarrow> ('e, 32 word) client_op" where
  "client_register C subject kind schema references message_type =
     post_json C de_register_response (rc_base_url C @ ''/subjects/'' @ subject @ ''/versions'')
       (ser_payload schema kind references message_type)"

definition client_lookup :: "'e registry_client \<Rightarrow> string \<Rightarrow> schema_kind \<Rightarrow> string \<Rightarrow> schema_reference list \<Rightarrow> string option
    \<Rightarrow> ('e, 32 word) client_op" where
  "client_lookup C subject kind schema references message_type =
     client_map sr_id (post_json C de_subject_version_response (rc_base_url C @ ''/subjects/'' @ subject)
       (ser_payload schema kind references message_type))"

definition client_latest :: "'e registry_client \<Rightarrow> string \<Rightarrow> ('e, subject_version_response) client_op" where
  "client_latest C subject =
     get_json C de_subject_version_response (rc_base_url C @ ''/subjects/'' @ subject @ ''/versions/latest'')"

definition client_latest_id :: "'e registry_client \<Rightarrow> string \<Rightarrow> ('e, 32 word) client_op" where
  "client_latest_id C subject = client_map sr_id (client_latest C subject)"

definition subject_versions_for_id :: "'e registry_client \<Rightarrow> 32 word \<Rightarrow> ('e, subject_version list) client_op" where
  "subject_versions_for_id C i =
     get_json C (de_vec de_subject_version) (rc_base_url C @ ''/schemas/ids/'' @ show_id i @ ''/versions'')"

definition client_schema_by_id :: "'e registry_client \<Rightarrow> 32 word \<Rightarrow> ('e, fetched_schema) client_op" where
  "client_schema_by_id C i = get_json C de_schema_by_id_response (rc_base_url C @ ''/schemas/ids/'' @ show_id i)"

definition fetched_of :: "subject_version_response \<Rightarrow> fetched_schema" where
  "fetched_of r = \<lparr>fs_schema = sr_schema r, fs_kind = from_wire_name (sr_schema_type r), fs_message_type = sr_message_type r,
     fs_references = sr_references r\<rparr>"

definition schema_by_subject_version :: "'e registry_client \<Rightarrow> string \<Rightarrow> schema_version \<Rightarrow> ('e, fetched_schema) client_op" where
  "schema_by_subject_version C subject v =
     client_map fetched_of (get_json C de_subject_version_response
       (rc_base_url C @ ''/subjects/'' @ subject @ ''/versions/'' @ show_int (version_raw v) @ ''?deleted=true''))"

subsection \<open>Reference sources\<close>

definition MAX_REFERENCE_DEPTH :: nat where
  "MAX_REFERENCE_DEPTH = 64"

record source_state =
  ss_sources :: "string \<Rightarrow> string option"
  ss_order :: "string list"
  ss_resolving :: "(string \<times> schema_version) set"

definition add_source :: "schema_reference \<Rightarrow> string \<Rightarrow> source_state \<Rightarrow> source_state" where
  "add_source r schema st =
     st\<lparr>ss_sources := (ss_sources st)(ref_name r \<mapsto> schema), ss_order := ss_order st @ [ref_name r],
        ss_resolving := ss_resolving st - {ref_key r}\<rparr>"

function resolve_sources :: "'e registry_client \<Rightarrow> nat \<Rightarrow> schema_reference list \<Rightarrow> source_state \<Rightarrow> ('e, source_state) client_op" where
  "resolve_sources C depth refs st e =
     (if MAX_REFERENCE_DEPTH \<le> depth then (Inl (SchemaFailed ''schema reference depth exceeds 64''), e)
      else case refs of
             [] \<Rightarrow> (Inr st, e)
           | r # rs \<Rightarrow>
               (if ss_sources st (ref_name r) \<noteq> None then resolve_sources C depth rs st e
                else if ref_key r \<in> ss_resolving st
                then (Inl (SchemaFailed (''cyclic schema reference at '' @ ref_subject r @ '' version '' @ show_int (version_raw (ref_version r)))), e)
                else case schema_by_subject_version C (ref_subject r) (ref_version r) e of
                       (Inl err, e1) \<Rightarrow> (Inl err, e1)
                     | (Inr fetched, e1) \<Rightarrow>
                         (case resolve_sources C (Suc depth) (fs_references fetched)
                                 (st\<lparr>ss_resolving := insert (ref_key r) (ss_resolving st)\<rparr>) e1 of
                            (Inl err, e2) \<Rightarrow> (Inl err, e2)
                          | (Inr st', e2) \<Rightarrow> resolve_sources C depth rs (add_source r (fs_schema fetched) st') e2)))"
  by pat_completeness auto

termination resolve_sources
  by (relation "measures [\<lambda>(C, depth, refs, st, e). MAX_REFERENCE_DEPTH - depth, \<lambda>(C, depth, refs, st, e). length refs]") auto

declare resolve_sources.simps [simp del]

definition reference_sources_ordered :: "'e registry_client \<Rightarrow> schema_reference list
    \<Rightarrow> ('e, (string \<Rightarrow> string option) \<times> string list) client_op" where
  "reference_sources_ordered C refs =
     client_map (\<lambda>st. (ss_sources st, ss_order st))
       (resolve_sources C 0 refs \<lparr>ss_sources = Map.empty, ss_order = [], ss_resolving = {}\<rparr>)"

definition reference_sources :: "'e registry_client \<Rightarrow> schema_reference list \<Rightarrow> ('e, string \<Rightarrow> string option) client_op" where
  "reference_sources C refs = client_map fst (reference_sources_ordered C refs)"

subsection \<open>The sources come in dependency order\<close>

text \<open>A name of a reference stands for one version, in a list of references and in every schema that the
  registry serves.\<close>

definition refs_named :: "(string \<Rightarrow> string \<times> schema_version) \<Rightarrow> schema_reference list \<Rightarrow> bool" where
  "refs_named key refs \<longleftrightarrow> (\<forall>r\<in>set refs. key (ref_name r) = ref_key r)"

definition names_identify :: "'e registry_client \<Rightarrow> (string \<Rightarrow> string \<times> schema_version) \<Rightarrow> bool" where
  "names_identify C key \<longleftrightarrow> (\<forall>subject v e f e'. schema_by_subject_version C subject v e = (Inr f, e') \<longrightarrow>
     refs_named key (fs_references f))"

text \<open>The text under a name is that of a schema the registry served, and the names of its references come
  before it.\<close>

definition served_after :: "'e registry_client \<Rightarrow> (string \<Rightarrow> string \<times> schema_version) \<Rightarrow> (string \<Rightarrow> string option) \<Rightarrow> string
    \<Rightarrow> string list \<Rightarrow> bool" where
  "served_after C key sources name before \<longleftrightarrow> (\<exists>e f e'.
     schema_by_subject_version C (fst (key name)) (snd (key name)) e = (Inr f, e') \<and>
     sources name = Some (fs_schema f) \<and> ref_name ` set (fs_references f) \<subseteq> set before)"

definition sources_ok :: "'e registry_client \<Rightarrow> (string \<Rightarrow> string \<times> schema_version) \<Rightarrow> (string \<Rightarrow> string option) \<Rightarrow> string list \<Rightarrow> bool" where
  "sources_ok C key sources order \<longleftrightarrow> distinct order \<and> dom sources = set order \<and>
     (\<forall>i<length order. served_after C key sources (order ! i) (take i order))"

lemma sources_ok_add:
  assumes "sources_ok C key sources order" "name \<notin> set order"
    and "schema_by_subject_version C (fst (key name)) (snd (key name)) e = (Inr f, e')"
    and "ref_name ` set (fs_references f) \<subseteq> set order"
  shows "sources_ok C key (sources(name \<mapsto> fs_schema f)) (order @ [name])"
proof -
  have "served_after C key (sources(name \<mapsto> fs_schema f)) ((order @ [name]) ! i) (take i (order @ [name]))"
    if i: "i < Suc (length order)" for i
  proof (cases "i = length order")
    case True
    then show ?thesis using assms(3,4) by (auto simp: served_after_def)
  next
    case False
    then have "order ! i \<noteq> name" "served_after C key sources (order ! i) (take i order)"
      using i assms(1,2) by (auto simp: sources_ok_def)
    then show ?thesis using False i by (simp add: nth_append served_after_def)
  qed
  then show ?thesis using assms(1,2) by (auto simp: sources_ok_def)
qed

text \<open>What a call of the walk adds: names whose versions were not being resolved, and those of all references
  it was given.\<close>

definition walk_adds :: "(string \<Rightarrow> string \<times> schema_version) \<Rightarrow> schema_reference list \<Rightarrow> source_state \<Rightarrow> source_state \<Rightarrow> bool" where
  "walk_adds key refs st st' \<longleftrightarrow> ss_resolving st' = ss_resolving st \<and> set (ss_order st) \<subseteq> set (ss_order st') \<and>
     (\<forall>n\<in>set (ss_order st') - set (ss_order st). key n \<notin> ss_resolving st) \<and> ref_name ` set refs \<subseteq> set (ss_order st')"

lemma resolve_sources_Cons:
  assumes "resolve_sources C depth (r # rs) st e = (Inr st', e')"
  obtains "ss_sources st (ref_name r) \<noteq> None" "resolve_sources C depth rs st e = (Inr st', e')"
  | f e1 st1 e2 where "ss_sources st (ref_name r) = None" "ref_key r \<notin> ss_resolving st"
      "schema_by_subject_version C (ref_subject r) (ref_version r) e = (Inr f, e1)"
      "resolve_sources C (Suc depth) (fs_references f) (st\<lparr>ss_resolving := insert (ref_key r) (ss_resolving st)\<rparr>) e1 = (Inr st1, e2)"
      "resolve_sources C depth rs (add_source r (fs_schema f) st1) e2 = (Inr st', e')"
  using assms by (subst (asm) resolve_sources.simps) (auto split: if_splits prod.splits sum.splits)

lemma resolve_sources_Nil: "resolve_sources C depth [] st e = (Inr st', e') \<Longrightarrow> st' = st"
  by (subst (asm) resolve_sources.simps) (auto split: if_splits)

lemma resolve_sources_depth: "resolve_sources C depth refs st e = (Inr st', e') \<Longrightarrow> depth < MAX_REFERENCE_DEPTH"
  by (subst (asm) resolve_sources.simps) (auto split: if_splits)

lemma walk_adds_step:
  assumes "walk_adds key (fs_references f) (st\<lparr>ss_resolving := insert (ref_key r) (ss_resolving st)\<rparr>) st1"
    and "walk_adds key rs (add_source r schema st1) st'"
    and "ref_key r \<notin> ss_resolving st" "key (ref_name r) = ref_key r"
  shows "walk_adds key (r # rs) st st'"
  using assms by (auto simp: walk_adds_def add_source_def)

lemma resolve_sources_ok:
  "resolve_sources C depth refs st e = (Inr st', e') \<Longrightarrow> names_identify C key \<Longrightarrow> refs_named key refs \<Longrightarrow>
    sources_ok C key (ss_sources st) (ss_order st) \<Longrightarrow>
    sources_ok C key (ss_sources st') (ss_order st') \<and> walk_adds key refs st st'"
proof (induction "(MAX_REFERENCE_DEPTH - depth, length refs)" arbitrary: depth refs st e st' e' rule: less_induct)
  case less
  show ?case
  proof (cases refs)
    case Nil
    then show ?thesis using resolve_sources_Nil less.prems by (fastforce simp: walk_adds_def)
  next
    case (Cons r rs)
    have r: "key (ref_name r) = ref_key r" "refs_named key rs" using less.prems(3) Cons by (auto simp: refs_named_def)
    from less.prems(1) [unfolded Cons] show ?thesis
    proof (cases rule: resolve_sources_Cons)
      case 1
      then show ?thesis
        using less.hyps [OF _ 1(2) less.prems(2) r(2) less.prems(4)] Cons less.prems(4)
        by (auto simp: walk_adds_def sources_ok_def)
    next
      case (2 f e1 st1 e2)
      have names: "refs_named key (fs_references f)" using less.prems(2) 2(3) unfolding names_identify_def by blast
      have "sources_ok C key (ss_sources st1) (ss_order st1) \<and>
          walk_adds key (fs_references f) (st\<lparr>ss_resolving := insert (ref_key r) (ss_resolving st)\<rparr>) st1"
        using resolve_sources_depth [OF less.prems(1)] less.prems(4)
        by (intro less.hyps [OF _ 2(4) less.prems(2) names]) auto
      note inner = this
      have "ref_name r \<notin> set (ss_order st)" using 2(1) less.prems(4) by (auto simp: sources_ok_def)
      then have new: "ref_name r \<notin> set (ss_order st1)" using inner r(1) by (auto simp: walk_adds_def)
      have "sources_ok C key (ss_sources (add_source r (fs_schema f) st1)) (ss_order (add_source r (fs_schema f) st1))"
        using sources_ok_add [OF conjunct1 [OF inner] new, of e f e1] inner r(1) 2(3)
        by (simp add: add_source_def ref_key_def walk_adds_def)
      then have rest: "sources_ok C key (ss_sources st') (ss_order st') \<and> walk_adds key rs (add_source r (fs_schema f) st1) st'"
        using Cons by (intro less.hyps [OF _ 2(5) less.prems(2) r(2)]) auto
      show ?thesis using walk_adds_step [OF conjunct2 [OF inner] conjunct2 [OF rest] 2(2) r(1)] rest Cons by blast
    qed
  qed
qed

text \<open>C18: where a name stands for one version, in the given references and in those of every schema that the
  registry serves, the sources that the client hands to a parser are complete and in dependency order: when the walk
  succeeds, every reference is among them, each under one name and once, each with the text that the registry served
  for the version of that name, and after all the references of that text.\<close>

theorem sources_in_dependency_order:
  assumes "names_identify C key" "refs_named key refs"
    and "reference_sources_ordered C refs e = (Inr (sources, order), e')"
  shows "distinct order \<and> dom sources = set order \<and> ref_name ` set refs \<subseteq> set order \<and>
    (\<forall>i<length order. served_after C key sources (order ! i) (take i order))"
proof -
  obtain st where "resolve_sources C 0 refs \<lparr>ss_sources = Map.empty, ss_order = [], ss_resolving = {}\<rparr> e = (Inr st, e')"
    "sources = ss_sources st" "order = ss_order st"
    using assms(3) by (auto simp: reference_sources_ordered_def client_map_def rbind_Inr_iff split: prod.splits)
  moreover from resolve_sources_ok [OF this(1) assms(1,2)]
  have "sources_ok C key (ss_sources st) (ss_order st) \<and> ref_name ` set refs \<subseteq> set (ss_order st)"
    by (simp add: sources_ok_def walk_adds_def)
  ultimately show ?thesis by (simp add: sources_ok_def)
qed

subsection \<open>A client of a registry\<close>

text \<open>The transport to a registry at an origin: the URL is split into origin, path and query, the body is
  sent as its JSON text, and a request that is not answered is a failure of the transport.\<close>

definition split_query :: "string \<Rightarrow> string \<times> string" where
  "split_query url = (takeWhile (\<lambda>c. c \<noteq> CHR ''?'') url, drop 1 (dropWhile (\<lambda>c. c \<noteq> CHR ''?'') url))"

definition served_request :: "('a, 'b) rest_env \<Rightarrow> http_call \<Rightarrow> string \<Rightarrow> http_request" where
  "served_request E call target = \<lparr>hr_method = hc_method call, hr_path = fst (split_query target), hr_query = snd (split_query target),
     hr_content_type = Some CONTENT_TYPE,
     hr_body = (case hc_body call of Some v \<Rightarrow> serde_to_string (rv_parsers E) v | None \<Rightarrow> []),
     hr_forwarded = False, hr_secret = None, hr_authorization = None, hr_mtls = None, hr_peer = None, hr_principal = None,
     hr_trusted = False\<rparr>"

definition over_http :: "('a, 'b) rest_env \<Rightarrow> (segment list \<Rightarrow> string \<Rightarrow> string list option) \<Rightarrow> (string \<Rightarrow> string) \<Rightarrow> string
    \<Rightarrow> http_call \<Rightarrow> 'b kafka_store \<Rightarrow> http_answer \<times> 'b kafka_store" where
  "over_http E matcher pdec origin call s = (case strip_prefix origin (hc_url call) of
      None \<Rightarrow> (Inl ''unknown host'', s)
    | Some target \<Rightarrow>
        (case route_request E matcher pdec (served_request E call target) s of
           (None, s') \<Rightarrow> (Inl ''connection closed'', s')
         | (Some resp, s') \<Rightarrow> (Inr (nat (rsp_status resp), Inr (rsp_body resp)), s')))"

definition registry_at :: "('a, 'b) rest_env \<Rightarrow> (segment list \<Rightarrow> string \<Rightarrow> string list option) \<Rightarrow> (string \<Rightarrow> string) \<Rightarrow> string
    \<Rightarrow> 'b kafka_store registry_client" where
  "registry_at E matcher pdec origin = with_http_client origin (over_http E matcher pdec (trim_end_slashes origin))
     (serde_from_str (rv_parsers E)) (rv_body_error E)"

text \<open>What the client relies on of the JSON printer: a printed document reads back.\<close>

definition text_roundtrip :: "'a third_party \<Rightarrow> bool" where
  "text_roundtrip X \<longleftrightarrow> (\<forall>v. json_integral v \<longrightarrow> serde_from_str X (serde_to_string X v) = Inr v)"

lemma de_payload:
  assumes "list_all reference_ok references"
  shows "de_register_body (ser_payload schema kind references message_type) =
    Some \<lparr>rb_schema = schema, rb_schema_type = kind_wire_name kind, rb_references = references,
      rb_message_type = message_type, rb_id = None, rb_version = None\<rparr>"
proof -
  have refs: "de_vec de_reference (JArr (map ser_reference references)) = Some references"
    using assms by (simp add: de_vec_def de_list_map list_all_iff)
  show ?thesis
    by (cases kind; cases message_type; cases "references = []")
      (simp_all add: de_register_body_def ser_payload_def default_members_def de_field_def member_if_def refs)
qed

lemma payload_integral [simp]: "json_integral (ser_payload schema kind references message_type)"
  by (auto simp: ser_payload_def member_if_def list_all_iff split: option.splits)

lemma split_plain: "CHR ''?'' \<notin> set path \<Longrightarrow> split_query path = (path, [])"
proof -
  assume "CHR ''?'' \<notin> set path"
  then have split: "takeWhile (\<lambda>c. c \<noteq> CHR ''?'') path = path" "dropWhile (\<lambda>c. c \<noteq> CHR ''?'') path = []"
    by (auto simp: takeWhile_eq_all_conv)
  show ?thesis unfolding split_query_def split by simp
qed

lemma strip_own_prefix: "strip_prefix p (p @ x) = Some x"
  by (simp add: strip_prefix_def)

lemma de_error_payload:
  "i32_range code \<Longrightarrow> de_error_body (json_value (JObj [(''error_code'', json_int code), (''message'', JStr m)])) = Some (code, m)"
  by (simp add: de_error_body_def struct_members_def de_field_def btree_of_list_def less_char_def json_int_def
      de_i32_json_int [unfolded json_int_def])

lemma http_status_range: "400 \<le> http_status e \<and> http_status e \<le> 599" "i32_range (error_code e)"
  by (cases e; simp add: i32_range_def)+

text \<open>How the client sees an answer of the registry.\<close>

definition seen_error :: "('a, 'b) rest_env \<Rightarrow> sr_error \<Rightarrow> serde_error" where
  "seen_error E e = RegistryStatus (nat (http_status e)) (error_code e) (error_display (display_strings (rv_parsers E)) e)"

definition seen_answer :: "('a, 'b) rest_env \<Rightarrow> ('v \<Rightarrow> serde_error + 'w) \<Rightarrow> (sr_error + 'v) option \<Rightarrow> serde_error + 'w" where
  "seen_answer E f r = (case r of
      None \<Rightarrow> Inl (RegistryTransport ''connection closed'')
    | Some (Inl e) \<Rightarrow> Inl (seen_error E e)
    | Some (Inr v) \<Rightarrow> f v)"

lemma parse_error_answer:
  assumes "text_roundtrip (rv_parsers E)"
  shows "parse_answer (registry_at E matcher pdec origin) de (nat (rsp_status (error_into_response E e)), Inr (rsp_body (error_into_response E e)))
    = Inl (seen_error E e)"
proof -
  have "\<not> (200 \<le> nat (http_status e) \<and> nat (http_status e) \<le> 299)" using http_status_range(1) [of e] by linarith
  moreover have "json_integral (json_value (JObj [(''error_code'', json_int code), (''message'', JStr m)]))" for code m
    by (simp add: btree_of_list_def less_char_def json_int_def)
  ultimately show ?thesis
    using assms de_error_payload [OF http_status_range(2)]
    by (simp add: parse_answer_def from_text_def registry_at_def with_http_client_def error_into_response_def error_response_def
        seen_error_def text_roundtrip_def Let_def)
qed

text \<open>A call whose path is dispatched to a handler is answered as the handler answers.\<close>

lemma send_to_registry:
  assumes "text_roundtrip (rv_parsers E)" "CHR ''?'' \<notin> set path"
    and "dispatch matcher routes (hc_method call) path = Inr (h, caps)" "hc_url call = rc_base_url (registry_at E matcher pdec origin) @ path"
    and "rest_handle E h (map pdec caps) [] (case hc_body call of Some v \<Rightarrow> serde_to_string (rv_parsers E) v | None \<Rightarrow> []) s = (r, s')"
  shows "send_json (registry_at E matcher pdec origin) de call s =
    (seen_answer E (\<lambda>resp. parse_answer (registry_at E matcher pdec origin) de (nat (rsp_status resp), Inr (rsp_body resp))) r, s')"
proof -
  let ?C = "registry_at E matcher pdec origin"
  have "rc_send ?C call s = (case r of None \<Rightarrow> (Inl ''connection closed'', s')
      | Some (Inl e) \<Rightarrow> (Inr (nat (rsp_status (error_into_response E e)), Inr (rsp_body (error_into_response E e))), s')
      | Some (Inr resp) \<Rightarrow> (Inr (nat (rsp_status resp), Inr (rsp_body resp)), s'))"
    using assms(2-5)
    by (simp add: registry_at_def with_http_client_def over_http_def strip_own_prefix served_request_def split_plain
        route_request_def split: option.splits sum.splits)
  then show ?thesis
    using parse_error_answer [OF assms(1), of matcher pdec origin de]
    by (auto simp: send_json_def seen_answer_def split: option.splits sum.splits)
qed

text \<open>The request that a client's payload stands for.\<close>

definition payload_request :: "string \<Rightarrow> schema_kind \<Rightarrow> string \<Rightarrow> schema_reference list \<Rightarrow> string option \<Rightarrow> register_request" where
  "payload_request subject kind schema references message_type =
     \<lparr>rq_subject = subject, rq_ty = from_wire (kind_wire_name kind), rq_schema = schema, rq_references = references,
      rq_message_type = message_type, rq_import_id = None, rq_import_version = None\<rparr>"

lemma payload_body_request:
  assumes "text_roundtrip (rv_parsers E)" "list_all reference_ok references"
  shows "body_request E subject False (serde_to_string (rv_parsers E) (ser_payload schema kind references message_type)) =
    Inr (payload_request subject kind schema references message_type)"
  using assms by (simp add: body_request_def from_body_def text_roundtrip_def de_payload body_schema_def payload_request_def)

lemma client_register_eq:
  assumes "text_roundtrip (rv_parsers E)" "rv_query E [] = Inr []" "list_all reference_ok references"
    and "CHR ''?'' \<notin> set subject" "pdec subject = subject"
    and "dispatch matcher routes POST (''/subjects/'' @ subject @ ''/versions'') = Inr (RegisterHandler, [subject])"
    and "ks_register (rv_registry E) (payload_request subject kind schema references message_type) s = (r, s')"
    and "\<And>reg. r = Some (Inr reg) \<Longrightarrow> 0 \<le> id_raw (reg_id reg) \<and> i32_range (id_raw (reg_id reg))"
  shows "client_register (registry_at E matcher pdec origin) subject kind schema references message_type s =
    (seen_answer E (\<lambda>reg. Inr (word_of_int (id_raw (reg_id reg)))) r, s')"
proof -
  let ?C = "registry_at E matcher pdec origin" and ?v = "ser_payload schema kind references message_type"
  have flag: "query_flag E ''normalize'' [] = Inr False" by (simp add: query_flag_def assms(2))
  have h: "rest_handle E RegisterHandler (map pdec [subject]) [] (serde_to_string (rv_parsers E) ?v) s =
      (map_option (\<lambda>x. rbind x (\<lambda>reg. Inr (ok_json E (JObj [(''id'', json_id (reg_id reg))])))) r, s')"
    using assms(5,7) payload_body_request [OF assms(1,3)] flag
    by (simp add: capture1_def rest_register_def answers_def)
  have id: "parse_answer ?C de_register_response (nat (rsp_status (ok_json E (JObj [(''id'', json_id i)]))),
      Inr (rsp_body (ok_json E (JObj [(''id'', json_id i)])))) = Inr (word_of_int (id_raw i))"
    if "0 \<le> id_raw i" "i32_range (id_raw i)" for i
    using assms(1) that
    by (simp add: parse_answer_def from_text_def registry_at_def with_http_client_def ok_json_def text_roundtrip_def json_id_def
        de_register_response_def struct_members_def de_field_def de_u32_def de_ranged_def json_int_def number_int_def i32_range_def)
  have "client_register ?C subject kind schema references message_type s =
      (seen_answer E (\<lambda>resp. parse_answer ?C de_register_response (nat (rsp_status resp), Inr (rsp_body resp)))
        (map_option (\<lambda>x. rbind x (\<lambda>reg. Inr (ok_json E (JObj [(''id'', json_id (reg_id reg))])))) r), s')"
    unfolding client_register_def post_json_def
  proof (rule send_to_registry [OF assms(1), where path = "''/subjects/'' @ subject @ ''/versions''" and caps = "[subject]"])
    show "CHR ''?'' \<notin> set (''/subjects/'' @ subject @ ''/versions'')" using assms(4) by simp
  qed (use assms(6) h in \<open>simp_all only: http_call.simps option.case\<close>)
  then show ?thesis
    using assms(8) id by (auto simp: seen_answer_def rbind_def split: option.splits sum.splits)
qed

text \<open>The answer to a read of a schema by its id.\<close>

lemma reference_value [simp]: "json_value \<circ> ser_reference = ser_reference"
  by (rule ext) (simp add: ser_reference_def ser_version_def btree_of_list_def less_char_def json_int_def)

lemma de_schema_by_id:
  assumes "list_all reference_ok refs"
  shows "de_schema_by_id_response (json_value (JObj (member_if ''schemaType'' (wire_name ty) @ member_if ''messageType'' mt
      @ [(''schema'', JStr schema)] @ references_member refs))) =
    Some \<lparr>fs_schema = schema, fs_kind = from_wire_name (wire_name ty), fs_message_type = mt, fs_references = refs\<rparr>"
proof -
  have refs: "de_vec de_reference (JArr (map ser_reference refs)) = Some refs"
    using assms by (simp add: de_vec_def de_list_map list_all_iff)
  show ?thesis
    by (cases "wire_name ty"; cases mt; cases "refs = []")
      (simp_all add: de_schema_by_id_response_def default_members_def de_field_def member_if_def references_member_def
        refs btree_of_list_def less_char_def)
qed

lemma shown_id: "0 \<le> n \<Longrightarrow> i32_range n \<Longrightarrow> show_id (word_of_int n) = show_int n"
  by (simp add: show_id_def show_int_def unsigned_of_int take_bit_int_eq_self i32_range_def)

lemma client_fetch_eq:
  assumes "text_roundtrip (rv_parsers E)" "rv_query E [] = Inr []" "0 \<le> n" "i32_range n" "pdec (show_int n) = show_int n"
    and "dispatch matcher routes GET (''/schemas/ids/'' @ show_int n) = Inr (SchemaById, [show_int n])" "CHR ''?'' \<notin> set (show_int n)"
    and "schema_by_id (ks_store s) (SchemaId n) False = Some (ty, schema, refs, mt)" "list_all reference_ok refs"
  shows "client_schema_by_id (registry_at E matcher pdec origin) (word_of_int n) s =
    (Inr \<lparr>fs_schema = schema, fs_kind = from_wire_name (wire_name ty), fs_message_type = mt, fs_references = refs\<rparr>, s)"
proof -
  let ?C = "registry_at E matcher pdec origin" and ?v = "json_value (JObj (member_if ''schemaType'' (wire_name ty)
      @ member_if ''messageType'' mt @ [(''schema'', JStr schema)] @ references_member refs))"
  have h: "rest_handle E SchemaById (map pdec [show_int n]) [] [] s = (Some (Inr (ok_json E ?v)), s)"
    using assms(2,5,8) by (simp add: capture1_def rest_by_id_def reads_def query_flag_def parse_shown_id [OF assms(4)])
  have "client_schema_by_id ?C (word_of_int n) s =
      (seen_answer E (\<lambda>resp. parse_answer ?C de_schema_by_id_response (nat (rsp_status resp), Inr (rsp_body resp)))
        (Some (Inr (ok_json E ?v))), s)"
    unfolding client_schema_by_id_def get_json_def shown_id [OF assms(3,4)]
  proof (rule send_to_registry [OF assms(1), where path = "''/schemas/ids/'' @ show_int n" and caps = "[show_int n]"])
    show "CHR ''?'' \<notin> set (''/schemas/ids/'' @ show_int n)" using assms(7) by simp
  qed (use assms(6) h in \<open>simp_all only: http_call.simps option.case\<close>)
  moreover have "json_integral ?v"
    by (auto simp: member_if_def references_member_def list_all_iff btree_of_list_def less_char_def split: option.split)
  ultimately show ?thesis
    using assms(1) de_schema_by_id [OF assms(9)]
    by (simp add: seen_answer_def parse_answer_def from_text_def registry_at_def with_http_client_def ok_json_def text_roundtrip_def)
qed

text \<open>C17: the client and the registry agree on the wire, for a subject that needs no escaping (it has no question
  mark, its path segment decodes to itself and its path is routed to the registration): where a printed JSON document
  reads back, what the client's registration returns is what the facade answers to the request with the client's
  subject, schema, type, references and message type, a non-negative \<open>i32\<close> id as that id and a refusal as its status, its
  error code and its message, and the registry's state is the one the facade leaves.\<close>

theorem client_register_end_to_end:
  assumes "text_roundtrip (rv_parsers E)" "rv_query E [] = Inr []" "list_all reference_ok references"
    and "CHR ''?'' \<notin> set subject" "pdec subject = subject"
    and "dispatch matcher routes POST (''/subjects/'' @ subject @ ''/versions'') = Inr (RegisterHandler, [subject])"
    and "ks_register (rv_registry E) (payload_request subject kind schema references message_type) s = (r, s')"
    and "\<And>reg. r = Some (Inr reg) \<Longrightarrow> 0 \<le> id_raw (reg_id reg) \<and> i32_range (id_raw (reg_id reg))"
  shows "client_register (registry_at E matcher pdec origin) subject kind schema references message_type s =
    (seen_answer E (\<lambda>reg. Inr (word_of_int (id_raw (reg_id reg)))) r, s')"
  by (rule client_register_eq) (use assms in blast)+

subsection \<open>The properties on concrete calls\<close>

text \<open>A registry that serves one text without references under every path.\<close>

definition plain_client :: "unit registry_client" where
  "plain_client = with_http_client ''http://r/'' (\<lambda>_ e. (Inr (200, Inr ''x''), e))
     (\<lambda>_. Inr (JObj [(''id'', json_int 7), (''schema'', JStr ''S'')])) (\<lambda>_. [])"

definition plain_reference :: schema_reference where
  "plain_reference = \<lparr>ref_name = ''n'', ref_subject = ''a'', ref_version = SchemaVersion 1\<rparr>"

lemma plain_fetch: "schema_by_subject_version plain_client subject v e =
    (Inr \<lparr>fs_schema = ''S'', fs_kind = AvroKind, fs_message_type = None, fs_references = []\<rparr>, e)"
  by (simp add: schema_by_subject_version_def client_map_def get_json_def send_json_def plain_client_def with_http_client_def
      parse_answer_def from_text_def de_subject_version_response_def default_members_def de_field_def de_u32_def de_ranged_def
      json_int_def number_int_def fetched_of_def from_wire_name_def)

lemma plain_sources:
  "reference_sources_ordered plain_client [plain_reference] () = (Inr ([''n'' \<mapsto> ''S''], [''n'']), ())"
  by (simp add: reference_sources_ordered_def client_map_def resolve_sources.simps MAX_REFERENCE_DEPTH_def plain_fetch
      add_source_def plain_reference_def)

theorem sources_in_dependency_order_witness:
  "distinct [''n''] \<and> served_after plain_client (\<lambda>_. (''a'', SchemaVersion 1)) [''n'' \<mapsto> ''S''] ''n'' []"
proof -
  have "names_identify plain_client (\<lambda>_. (''a'', SchemaVersion 1))" "refs_named (\<lambda>_. (''a'', SchemaVersion 1)) [plain_reference]"
    by (auto simp: names_identify_def refs_named_def plain_fetch plain_reference_def ref_key_def)
  from sources_in_dependency_order [OF this plain_sources] show ?thesis by simp
qed

text \<open>A printer of JSON documents as decimal codes, with its reader.\<close>

instance json_number :: countable
  by countable_datatype

instance json :: countable
  by countable_datatype

definition coded_parsers :: "string third_party" where
  "coded_parsers = echo_parsers\<lparr>serde_to_string := (\<lambda>v. show_nat (to_nat v)),
     serde_from_str := (\<lambda>s. case parse_digits s of Some n \<Rightarrow> Inr (from_nat n) | None \<Rightarrow> Inl ''no code'')\<rparr>"

lemma coded_roundtrip: "serde_from_str coded_parsers (serde_to_string coded_parsers v) = Inr v"
  by (simp add: coded_parsers_def parse_digits_show_nat)

definition coded_env :: "(string, json) rest_env" where
  "coded_env = demo_env\<lparr>rv_registry := (registry_on empty_store)\<lparr>re_parsers := coded_parsers\<rparr>\<rparr>"

abbreviation int_text :: string where
  "int_text \<equiv> serde_to_string coded_parsers (JStr ''int'')"

lemma coded_register:
  "\<exists>s'. ks_register (rv_registry coded_env) (payload_request ''a'' AvroKind int_text [] None) idle_store = (Some (Inr first_registered), s')"
proof -
  let ?R = "rv_registry coded_env"
  have R: "re_parsers ?R = coded_parsers" "re_codec ?R = value_codec" "re_defaults ?R = empty_store" "topic_store ?R idle_store = empty_store"
    by (simp_all add: coded_env_def idle_replay)
  have parse: "avro_parse coded_parsers int_text [] = Inr (int_text, int_text)"
    using coded_roundtrip [of "JStr ''int''"]
    by (simp add: avro_parse_def from_str_value_def Let_def) (simp add: coded_parsers_def echo_parsers_def)
  have mode: "effective_mode empty_store ''a'' = ''READWRITE''"
    by (simp add: effective_mode_def empty_store_def with_defaults_def subject_mode_def global_mode_def)
  have "\<exists>recs. register_decision ?R (payload_request ''a'' AvroKind int_text [] None) empty_store = Some (Inr (first_registered, recs))"
    using mode
    by (simp add: register_decision_def payload_request_def from_wire_def R parse normalized_storage_form_def parse_def resolve_closure_def
        find_under_subject_def dedup_key_def parse_canonical_def canonical_form_def
        find_under_subject_canonical_def check_registration_def versions_schemas_def new_decision_def register_def
        register_new_def assign_id_def next_version_def push_version_def observe_version_def bump_next_def
        default_schema_id_def i32_add_def i32_wrap_def i32_saturating_add_def empty_store_def with_defaults_def Let_def)
  then show ?thesis
    using healthy_write_through [of ?R idle_store "register_decision ?R (payload_request ''a'' AvroKind int_text [] None)"] R
    by (auto simp: value_codec_roundtrip idle_healthy ks_register_def prod_eq_iff idle_replay)
qed

theorem client_register_end_to_end_witness:
  "\<exists>s'. client_register (registry_at coded_env segment_matcher id ''http://r/'') ''a'' AvroKind int_text [] None idle_store = (Inr 1, s')"
proof -
  obtain s' where s': "ks_register (rv_registry coded_env) (payload_request ''a'' AvroKind int_text [] None) idle_store =
      (Some (Inr first_registered), s')"
    using coded_register by blast
  have "text_roundtrip (rv_parsers coded_env)" "rv_query coded_env [] = Inr []"
    by (simp_all add: text_roundtrip_def coded_env_def coded_roundtrip demo_env_def)
  moreover have "dispatch segment_matcher routes POST (''/subjects/'' @ ''a'' @ ''/versions'') = Inr (RegisterHandler, [''a''])"
    using register_dispatch by simp
  ultimately have "client_register (registry_at coded_env segment_matcher id ''http://r/'') ''a'' AvroKind int_text [] None idle_store =
      (seen_answer coded_env (\<lambda>reg. Inr (word_of_int (id_raw (reg_id reg)))) (Some (Inr first_registered)), s')"
    by (intro client_register_end_to_end [OF _ _ _ _ _ _ s']) (auto simp: i32_range_def)
  then show ?thesis by (simp add: seen_answer_def)
qed

end
