(* ===== verification/Cache.thy ===== *)
theory Cache
  imports Client F64
begin

text \<open>
  The serializers' schema cache (\<^verbatim>\<open>schema-serde/src/cache.rs\<close>): the local schemas that wait for the
  pre-warm, the ids and writer schemas it serves, and the background fetches with their retry times. The
  cache is a record behind a mutex, so each locked section is one step; a fetch runs between the step that
  starts it and the step that takes its result. Time is counted in nanoseconds. The units crate's durations,
  the multiplication of a duration by a float and the last instant of the platform's clock are parameters. A panic
  under the lock poisons it, so every later use panics too: in the model it ends the run.
\<close>

subsection \<open>The retry policy\<close>

text \<open>\<open>Duration\<close> counts up to the largest number of seconds of a \<open>u64\<close>.\<close>

definition max_duration :: nat where
  "max_duration = (2 ^ 64 - 1) * 1000000000 + 999999999"

definition duration_checked_mul :: "nat \<Rightarrow> nat \<Rightarrow> nat option" where
  "duration_checked_mul d k = (if d * k \<le> max_duration then Some (d * k) else None)"

definition duration_checked_add :: "nat \<Rightarrow> nat \<Rightarrow> nat option" where
  "duration_checked_add d k = (if d + k \<le> max_duration then Some (d + k) else None)"

record 't time_units =
  tu_duration :: "'t \<Rightarrow> string + nat"
  tu_human :: "'t \<Rightarrow> string"
  tu_percent_of :: "nat \<Rightarrow> nat \<Rightarrow> nat"
  tu_latest :: nat

record 't retry_policy =
  rp_initial :: 't
  rp_max :: 't

definition validated_duration :: "'t time_units \<Rightarrow> string \<Rightarrow> 't \<Rightarrow> string + nat" where
  "validated_duration U label t =
     rbind (map_err (\<lambda>e. label @ '': '' @ e) (tu_duration U t)) (\<lambda>d.
       if d = 0 then Inl (label @ '' must be greater than zero'') else Inr d)"

definition retry_policy_new :: "'t time_units \<Rightarrow> 't \<Rightarrow> 't \<Rightarrow> string + 't retry_policy" where
  "retry_policy_new U initial maximum =
     rbind (validated_duration U ''initial schema fetch retry backoff'' initial) (\<lambda>i.
     rbind (validated_duration U ''maximum schema fetch retry backoff'' maximum) (\<lambda>m.
       if m < i then Inl (''initial schema fetch retry backoff ('' @ tu_human U initial
         @ '') must not exceed the maximum ('' @ tu_human U maximum @ '')'')
       else Inr \<lparr>rp_initial = initial, rp_max = maximum\<rparr>))"

text \<open>\<open>None\<close> is the panic of an \<open>expect\<close> on a policy that was not validated.\<close>

definition retry_delay :: "'t time_units \<Rightarrow> 't retry_policy \<Rightarrow> 32 word \<Rightarrow> nat \<Rightarrow> nat option" where
  "retry_delay U pol i attempt =
     (case (tu_duration U (rp_initial pol), tu_duration U (rp_max pol)) of
        (Inr initial_backoff, Inr max_backoff) \<Rightarrow>
          (let exponent = min (attempt - 1) 7;
               multiplier = 2 ^ exponent;
               exponential_delay = min (unwrap_or (duration_checked_mul initial_backoff multiplier) max_backoff) max_backoff;
               jitter_percent = unat (i * 1103515245) mod 26;
               jitter = tu_percent_of U exponential_delay jitter_percent
           in Some (min (unwrap_or (duration_checked_add exponential_delay jitter) max_backoff) max_backoff))
      | _ \<Rightarrow> None)"

text \<open>The default policy, from ten milliseconds to one second; the constructors of durations are parameters.\<close>

definition default_retry_policy :: "(nat \<Rightarrow> 't) \<Rightarrow> (nat \<Rightarrow> 't) \<Rightarrow> 't retry_policy" where
  "default_retry_policy millis secs = \<lparr>rp_initial = millis 10, rp_max = secs 1\<rparr>"

subsection \<open>The state\<close>

record writer_schema =
  ws_schema :: string
  ws_references :: "string \<Rightarrow> string option"
  ws_reference_order :: "string list"

datatype register_mode = AutoRegister | LookupOnly | UseLatest

record interned =
  in_subject :: string
  in_kind :: schema_kind
  in_schema :: string
  in_references :: "schema_reference list"
  in_message_type :: "string option"

record inner =
  subject_id :: "string \<Rightarrow> 32 word option"
  id_writer_schema :: "32 word \<Rightarrow> writer_schema option"
  id_message_type :: "32 word \<Rightarrow> string option"
  interned_schemas :: "interned list"
  fetching :: "32 word set"
  unavailable_schemas :: "32 word \<Rightarrow> string option"
  retry_after :: "32 word \<Rightarrow> nat option"
  retry_attempts :: "32 word \<Rightarrow> nat option"

definition empty_cache :: inner where
  "empty_cache = \<lparr>subject_id = Map.empty, id_writer_schema = Map.empty, id_message_type = Map.empty, interned_schemas = [],
     fetching = {}, unavailable_schemas = Map.empty, retry_after = Map.empty, retry_attempts = Map.empty\<rparr>"

definition intern :: "interned \<Rightarrow> inner \<Rightarrow> inner" where
  "intern i g = (if i \<in> set (interned_schemas g) then g else g\<lparr>interned_schemas := interned_schemas g @ [i]\<rparr>)"

definition id_for_subject :: "inner \<Rightarrow> string \<Rightarrow> 32 word option" where
  "id_for_subject g subject = subject_id g subject"

definition writer_message_type :: "inner \<Rightarrow> 32 word \<Rightarrow> string option" where
  "writer_message_type g i = id_message_type g i"

definition settle :: "32 word \<Rightarrow> inner \<Rightarrow> inner" where
  "settle i g = g\<lparr>retry_after := (retry_after g)(i := None), retry_attempts := (retry_attempts g)(i := None)\<rparr>"

definition seed_ordered :: "32 word \<Rightarrow> string \<Rightarrow> (string \<times> string) list \<Rightarrow> inner \<Rightarrow> inner" where
  "seed_ordered i schema references g =
     settle i (g\<lparr>id_writer_schema := (id_writer_schema g)(i \<mapsto> \<lparr>ws_schema = schema, ws_references = map_of (rev references),
         ws_reference_order = map fst references\<rparr>),
       unavailable_schemas := (unavailable_schemas g)(i := None)\<rparr>)"

definition seed_with_references :: "32 word \<Rightarrow> string \<Rightarrow> (string, string) btree_map \<Rightarrow> inner \<Rightarrow> inner" where
  "seed_with_references i schema references g = seed_ordered i schema references g"

definition seed_writer_schema :: "32 word \<Rightarrow> string \<Rightarrow> inner \<Rightarrow> inner" where
  "seed_writer_schema i schema g = seed_with_references i schema [] g"

definition seed_writer_message_type :: "32 word \<Rightarrow> string \<Rightarrow> inner \<Rightarrow> inner" where
  "seed_writer_message_type i mt g = g\<lparr>id_message_type := (id_message_type g)(i \<mapsto> mt)\<rparr>"

definition seed_subject_id :: "string \<Rightarrow> 32 word \<Rightarrow> inner \<Rightarrow> inner" where
  "seed_subject_id subject i g = g\<lparr>subject_id := (subject_id g)(subject \<mapsto> i)\<rparr>"

text \<open>The cache with its client and configuration, and the process-wide cell, which keeps the first cache that is
  set.\<close>

record 't cache_config =
  cc_mode :: register_mode
  cc_fetch_retry_policy :: "'t retry_policy"

definition default_cache_config :: "(nat \<Rightarrow> 't) \<Rightarrow> (nat \<Rightarrow> 't) \<Rightarrow> 't cache_config" where
  "default_cache_config millis secs = \<lparr>cc_mode = AutoRegister, cc_fetch_retry_policy = default_retry_policy millis secs\<rparr>"

record ('e, 't) schema_cache =
  ca_client :: "'e registry_client"
  ca_config :: "'t cache_config"
  ca_strategy :: "string \<Rightarrow> role \<Rightarrow> string"
  ca_inner :: inner

definition schema_cache_new :: "'e registry_client \<Rightarrow> 't cache_config \<Rightarrow> ('e, 't) schema_cache" where
  "schema_cache_new client config = \<lparr>ca_client = client, ca_config = config, ca_strategy = topic_name_subject, ca_inner = empty_cache\<rparr>"

definition set_default_registry :: "'x \<Rightarrow> 'x option \<Rightarrow> 'x option" where
  "set_default_registry cache cell = (case cell of None \<Rightarrow> Some cache | Some first \<Rightarrow> Some first)"

subsection \<open>The pre-warm\<close>

definition schemas_equivalent :: "'a third_party \<Rightarrow> schema_kind \<Rightarrow> string \<Rightarrow> string \<Rightarrow> bool" where
  "schemas_equivalent X kind left right =
     (left = right \<or> (case kind of
        ProtobufKind \<Rightarrow>
          (case rbind (protox_parse X ''left.proto'' left) (\<lambda>l. rbind (protox_parse X ''left.proto'' right) (\<lambda>r. Inr (l, r))) of
             Inr (l, r) \<Rightarrow> l\<lparr>fd_source_info := None\<rparr> = r\<lparr>fd_source_info := None\<rparr>
           | Inl _ \<Rightarrow> False)
      | _ \<Rightarrow>
          (case rbind (from_str_value X left) (\<lambda>l. rbind (from_str_value X right) (\<lambda>r. Inr (l, r))) of
             Inr (l, r) \<Rightarrow> json_eq l r
           | Inl _ \<Rightarrow> False)))"

definition reference_triple :: "schema_reference \<Rightarrow> string \<times> string \<times> schema_version" where
  "reference_triple r = (ref_name r, ref_subject r, ref_version r)"

definition references_equivalent :: "schema_reference list \<Rightarrow> schema_reference list \<Rightarrow> bool" where
  "references_equivalent left right \<longleftrightarrow>
     sort (map reference_triple left) = sort (map reference_triple right)"

fun schema_kind_debug :: "schema_kind \<Rightarrow> string" where
  "schema_kind_debug AvroKind = ''Avro''"
| "schema_kind_debug ProtobufKind = ''Protobuf''"
| "schema_kind_debug JsonKind = ''Json''"

type_synonym resolved_schema = "32 word \<times> writer_schema \<times> string option"

definition with_sources :: "'e registry_client \<Rightarrow> 32 word \<Rightarrow> string \<Rightarrow> schema_reference list \<Rightarrow> string option
    \<Rightarrow> ('e, resolved_schema) client_op" where
  "with_sources C i schema references mt =
     client_map (\<lambda>(sources, order). (i, \<lparr>ws_schema = schema, ws_references = sources, ws_reference_order = order\<rparr>, mt))
       (reference_sources_ordered C references)"

definition latest_matches :: "'a third_party \<Rightarrow> subject_version_response \<Rightarrow> interned \<Rightarrow> bool" where
  "latest_matches X latest i \<longleftrightarrow>
     schemas_equivalent X (in_kind i) (sr_schema latest) (in_schema i) \<and>
     from_wire_name (sr_schema_type latest) = in_kind i \<and>
     references_equivalent (sr_references latest) (in_references i) \<and>
     (case sr_message_type latest of None \<Rightarrow> True | Some mt \<Rightarrow> in_message_type i = Some mt)"

definition resolve_interned :: "'a third_party \<Rightarrow> 'e registry_client \<Rightarrow> register_mode \<Rightarrow> interned \<Rightarrow> ('e, resolved_schema) client_op" where
  "resolve_interned X C mode i = (case mode of
      AutoRegister \<Rightarrow>
        client_bind (client_register C (in_subject i) (in_kind i) (in_schema i) (in_references i) (in_message_type i))
          (\<lambda>n. with_sources C n (in_schema i) (in_references i) (in_message_type i))
    | LookupOnly \<Rightarrow>
        client_bind (client_lookup C (in_subject i) (in_kind i) (in_schema i) (in_references i) (in_message_type i))
          (\<lambda>n. with_sources C n (in_schema i) (in_references i) (in_message_type i))
    | UseLatest \<Rightarrow>
        client_bind (client_latest C (in_subject i)) (\<lambda>latest e.
          if latest_matches X latest i
          then with_sources C (sr_id latest) (sr_schema latest) (sr_references latest) (sr_message_type latest) e
          else (Inl (SchemaFailed (''latest schema for '' @ in_subject i @ '' differs from the local '' @ schema_kind_debug (in_kind i) @ '' schema'')), e)))"

definition install_resolved :: "string \<Rightarrow> resolved_schema \<Rightarrow> inner \<Rightarrow> inner" where
  "install_resolved subject r g = (case r of (i, ws, mt) \<Rightarrow>
     g\<lparr>subject_id := (subject_id g)(subject \<mapsto> i), id_writer_schema := (id_writer_schema g)(i \<mapsto> ws),
       id_message_type := (case mt of Some t \<Rightarrow> (id_message_type g)(i \<mapsto> t) | None \<Rightarrow> id_message_type g)\<rparr>)"

text \<open>The loop of \<open>prewarm\<close> over the schemas that were interned when it started.\<close>

fun prewarm_all :: "'a third_party \<Rightarrow> 'e registry_client \<Rightarrow> register_mode \<Rightarrow> interned list \<Rightarrow> inner \<Rightarrow> 'e \<Rightarrow> (serde_error + unit) \<times> inner \<times> 'e" where
  "prewarm_all X C mode [] g e = (Inr (), g, e)"
| "prewarm_all X C mode (i # pending) g e = (case resolve_interned X C mode i e of
     (Inl err, e') \<Rightarrow> (Inl err, g, e')
   | (Inr r, e') \<Rightarrow> prewarm_all X C mode pending (install_resolved (in_subject i) r g) e')"

definition prewarm :: "'a third_party \<Rightarrow> 'e registry_client \<Rightarrow> register_mode \<Rightarrow> inner \<Rightarrow> 'e \<Rightarrow> (serde_error + unit) \<times> inner \<times> 'e" where
  "prewarm X C mode g e = prewarm_all X C mode (interned_schemas g) g e"

subsection \<open>Reads and fetches\<close>

text \<open>A read of a writer schema; the flag tells whether it starts a fetch.\<close>

definition writer_schema_with_references :: "32 word \<Rightarrow> nat \<Rightarrow> inner \<Rightarrow> (serde_error + writer_schema) \<times> inner \<times> bool" where
  "writer_schema_with_references i now g = (case id_writer_schema g i of
      Some schema \<Rightarrow> (Inr schema, g, False)
    | None \<Rightarrow>
        (case unavailable_schemas g i of
           Some reason \<Rightarrow> (Inl (WriterSchemaUnavailable i reason), g, False)
         | None \<Rightarrow>
             (if (case retry_after g i of Some t \<Rightarrow> now < t | None \<Rightarrow> False)
              then (Inl (WriterSchemaPending i), g, False)
              else (Inl (WriterSchemaPending i), g\<lparr>fetching := insert i (fetching g)\<rparr>, i \<notin> fetching g))))"

definition read_schema :: "32 word \<Rightarrow> nat \<Rightarrow> inner \<Rightarrow> (serde_error + string) \<times> inner \<times> bool" where
  "read_schema i now g = (let (r, g', started) = writer_schema_with_references i now g
     in (rbind r (\<lambda>ws. Inr (ws_schema ws)), g', started))"

definition resolve_writer_schema :: "'e registry_client \<Rightarrow> 32 word \<Rightarrow> ('e, writer_schema \<times> string option) client_op" where
  "resolve_writer_schema C i =
     client_bind (client_schema_by_id C i) (\<lambda>found.
     client_map (\<lambda>(sources, order).
         (\<lparr>ws_schema = fs_schema found, ws_references = sources, ws_reference_order = order\<rparr>, fs_message_type found))
       (reference_sources_ordered C (fs_references found)))"

fun serde_error_display :: "serde_error \<Rightarrow> string" where
  "serde_error_display (RegistryTransport m) = ''registry transport failed: '' @ m"
| "serde_error_display (RegistryStatus status code m) =
     ''registry error '' @ show_nat status @ '' ('' @ show_int code @ ''): '' @ m"
| "serde_error_display (RegistryDecode m) = ''registry response decode failed: '' @ m"
| "serde_error_display (WireFailed m) = ''malformed wire frame: '' @ m"
| "serde_error_display (SerializeFailed m) = ''serialize error: '' @ m"
| "serde_error_display (DeserializeFailed m) = ''deserialize error: '' @ m"
| "serde_error_display (SchemaFailed m) = ''schema error: '' @ m"
| "serde_error_display (WriterSchemaPending i) = ''writer schema for id '' @ show_id i @ '' pending fetch''"
| "serde_error_display (WriterSchemaUnavailable i m) = ''writer schema for id '' @ show_id i @ '' unavailable: '' @ m"

definition u32_max :: nat where
  "u32_max = 4294967295"

definition next_attempt :: "32 word \<Rightarrow> inner \<Rightarrow> nat" where
  "next_attempt i g = (case retry_attempts g i of Some n \<Rightarrow> min (Suc n) u32_max | None \<Rightarrow> 1)"

text \<open>\<open>Instant + Duration\<close>, which panics past the last instant of the clock.\<close>

definition instant_add :: "'t time_units \<Rightarrow> nat \<Rightarrow> nat \<Rightarrow> nat option" where
  "instant_add U now d = (if now + d \<le> tu_latest U then Some (now + d) else None)"

text \<open>The end of a fetch: what its task does under the lock with the result.\<close>

definition finish_fetch :: "'t time_units \<Rightarrow> 't retry_policy \<Rightarrow> 32 word \<Rightarrow> serde_error + (writer_schema \<times> string option) \<Rightarrow> nat
    \<Rightarrow> inner \<Rightarrow> inner option" where
  "finish_fetch U pol i fetched now g0 =
     (let g = g0\<lparr>fetching := fetching g0 - {i}\<rparr>
      in case fetched of
           Inr (schema, mt) \<Rightarrow>
             Some (settle i (g\<lparr>id_message_type := (case mt of Some t \<Rightarrow> (id_message_type g)(i \<mapsto> t) | None \<Rightarrow> id_message_type g),
               id_writer_schema := (id_writer_schema g)(i \<mapsto> schema),
               unavailable_schemas := (unavailable_schemas g)(i := None)\<rparr>))
         | Inl e \<Rightarrow>
             (if is_transient_registry_failure e
              then map_option (\<lambda>t. g\<lparr>retry_attempts := (retry_attempts g)(i \<mapsto> next_attempt i g),
                       retry_after := (retry_after g)(i \<mapsto> t)\<rparr>)
                     (Option.bind (retry_delay U pol i (next_attempt i g)) (instant_add U now))
              else Some (settle i (g\<lparr>unavailable_schemas := (unavailable_schemas g)(i \<mapsto> serde_error_display e)\<rparr>))))"

subsection \<open>Backoff\<close>

text \<open>What the retry delay relies on of \<open>mul_f64\<close>: a longer delay has no shorter jitter.\<close>

definition percent_monotone :: "'t time_units \<Rightarrow> bool" where
  "percent_monotone U \<longleftrightarrow> (\<forall>a b p. a \<le> b \<longrightarrow> tu_percent_of U a p \<le> tu_percent_of U b p)"

definition backoff_base :: "nat \<Rightarrow> nat \<Rightarrow> nat \<Rightarrow> nat" where
  "backoff_base initial maximum attempt =
     min (unwrap_or (duration_checked_mul initial (2 ^ min (attempt - 1) 7)) maximum) maximum"

definition with_jitter :: "nat \<Rightarrow> nat \<Rightarrow> nat \<Rightarrow> nat" where
  "with_jitter maximum d jitter = min (unwrap_or (duration_checked_add d jitter) maximum) maximum"

lemma backoff_base_bounds: "i \<le> m \<Longrightarrow> i \<le> backoff_base i m k \<and> backoff_base i m k \<le> m"
  by (auto simp: backoff_base_def duration_checked_mul_def)

lemma capped_mono:
  "a \<le> b \<Longrightarrow> min (unwrap_or (if a \<le> max_duration then Some a else None) m) m
     \<le> min (unwrap_or (if b \<le> max_duration then Some b else None) m) m"
  by auto

lemma backoff_base_mono:
  assumes "k \<le> k'"
  shows "backoff_base i m k \<le> backoff_base i m k'"
proof -
  have "(2::nat) ^ min (k - 1) 7 \<le> 2 ^ min (k' - 1) 7" using assms by (intro power_increasing) auto
  then have "i * 2 ^ min (k - 1) 7 \<le> i * 2 ^ min (k' - 1) 7" by (rule mult_le_mono2)
  then show ?thesis unfolding backoff_base_def duration_checked_mul_def by (rule capped_mono)
qed

lemma with_jitter_mono: "d \<le> d' \<Longrightarrow> j \<le> j' \<Longrightarrow> with_jitter m d j \<le> with_jitter m d' j'"
  by (auto simp: with_jitter_def duration_checked_add_def)

lemma with_jitter_bounds: "d \<le> m \<Longrightarrow> d \<le> with_jitter m d j \<and> with_jitter m d j \<le> m"
  by (auto simp: with_jitter_def duration_checked_add_def)

lemma retry_delay_eq:
  assumes "tu_duration U (rp_initial pol) = Inr i" "tu_duration U (rp_max pol) = Inr m"
  shows "retry_delay U pol n k = Some (with_jitter m (backoff_base i m k)
    (tu_percent_of U (backoff_base i m k) (unat (n * 1103515245) mod 26)))"
  using assms by (simp add: retry_delay_def backoff_base_def with_jitter_def Let_def)

lemma retry_policy_durations:
  assumes "retry_policy_new U initial maximum = Inr pol"
  obtains i m where "tu_duration U (rp_initial pol) = Inr i" "tu_duration U (rp_max pol) = Inr m" "0 < i" "i \<le> m"
    "rp_initial pol = initial" "rp_max pol = maximum"
  using assms by (auto simp: retry_policy_new_def validated_duration_def rbind_Inr_iff split: if_splits)

text \<open>C30: a validated retry policy never makes the delay panic, and the delay before a retry is at least the
  initial backoff, at most the maximum, and never shorter than the delay before an earlier retry of the
  same id.\<close>

theorem retry_delay_backoff:
  assumes "retry_policy_new U initial maximum = Inr pol" "percent_monotone U" "k \<le> k'"
  shows "\<exists>i m d d'. tu_duration U initial = Inr i \<and> tu_duration U maximum = Inr m \<and>
    retry_delay U pol n k = Some d \<and> retry_delay U pol n k' = Some d' \<and> 0 < i \<and> i \<le> d \<and> d \<le> d' \<and> d' \<le> m"
proof -
  obtain i m where p: "tu_duration U (rp_initial pol) = Inr i" "tu_duration U (rp_max pol) = Inr m" "0 < i" "i \<le> m"
    "rp_initial pol = initial" "rp_max pol = maximum"
    using retry_policy_durations [OF assms(1)] .
  note eq = retry_delay_eq [OF p(1,2)]
  note le = backoff_base_mono [OF assms(3), of i m]
  have "tu_percent_of U (backoff_base i m k) q \<le> tu_percent_of U (backoff_base i m k') q" for q
    using assms(2) le by (simp add: percent_monotone_def)
  then have "with_jitter m (backoff_base i m k) (tu_percent_of U (backoff_base i m k) q) \<le>
      with_jitter m (backoff_base i m k') (tu_percent_of U (backoff_base i m k') q)" for q
    by (intro with_jitter_mono le)
  moreover have "i \<le> with_jitter m (backoff_base i m k) q" "with_jitter m (backoff_base i m k') q \<le> m" for q
    using backoff_base_bounds [OF p(4), of k] backoff_base_bounds [OF p(4), of k']
      with_jitter_bounds [of "backoff_base i m k" m q] with_jitter_bounds [of "backoff_base i m k'" m q] by linarith+
  ultimately show ?thesis using p eq by auto
qed

text \<open>The default policy is one that the validation accepts.\<close>

lemma default_policy_valid:
  assumes "tu_duration U (millis 10) = Inr (10 * 1000000)" "tu_duration U (secs 1) = Inr 1000000000"
  shows "retry_policy_new U (millis 10) (secs 1) = Inr (default_retry_policy millis secs)"
  using assms by (simp add: retry_policy_new_def validated_duration_def default_retry_policy_def)

lemma first_default_stays: "set_default_registry b (set_default_registry a cell) = set_default_registry a cell"
  by (simp add: set_default_registry_def split: option.split)

subsection \<open>The cache as a state machine\<close>

text \<open>The locked sections of the cache, interleaved in any order; the second component lists the fetches that
  are running. A fetch ends with what the registry answers, whatever state the world is in then.\<close>

type_synonym cache_state = "inner \<times> 32 word list"

inductive cache_step :: "'t time_units \<Rightarrow> 't retry_policy \<Rightarrow> 'a third_party \<Rightarrow> 'e registry_client \<Rightarrow> register_mode
    \<Rightarrow> cache_state \<Rightarrow> cache_state \<Rightarrow> bool"
  for U :: "'t time_units" and pol :: "'t retry_policy" and X :: "'a third_party" and C :: "'e registry_client" and mode :: register_mode
where
  Intern: "cache_step U pol X C mode (g, ts) (intern i g, ts)"
| Install: "resolve_interned X C mode i e = (Inr r, e') \<Longrightarrow> cache_step U pol X C mode (g, ts) (install_resolved (in_subject i) r g, ts)"
| Read: "writer_schema_with_references n now g = (r, g', started) \<Longrightarrow>
    cache_step U pol X C mode (g, ts) (g', if started then n # ts else ts)"
| Finish: "resolve_writer_schema C n e = (fetched, e') \<Longrightarrow> finish_fetch U pol n fetched now g = Some g' \<Longrightarrow>
    cache_step U pol X C mode (g, us @ n # vs) (g', us @ vs)"

definition cache_reachable :: "'t time_units \<Rightarrow> 't retry_policy \<Rightarrow> 'a third_party \<Rightarrow> 'e registry_client \<Rightarrow> register_mode \<Rightarrow> cache_state \<Rightarrow> bool" where
  "cache_reachable U pol X C mode = (cache_step U pol X C mode)\<^sup>*\<^sup>* (empty_cache, [])"

definition single_flight :: "cache_state \<Rightarrow> bool" where
  "single_flight st \<longleftrightarrow> distinct (snd st) \<and> set (snd st) = fetching (fst st)"

lemma finish_fetch_fetching: "finish_fetch U pol n fetched now g = Some g' \<Longrightarrow> fetching g' = fetching g - {n}"
  by (auto simp: finish_fetch_def settle_def Let_def split: sum.splits if_splits option.splits)

lemma read_cases:
  assumes "writer_schema_with_references n now g = (r, g', started)"
  shows "g' = g \<and> \<not> started \<and> (r = Inl (WriterSchemaPending m) \<longrightarrow> (\<exists>t. retry_after g n = Some t \<and> now < t)) \<or>
    g' = g\<lparr>fetching := insert n (fetching g)\<rparr> \<and> (started \<longleftrightarrow> n \<notin> fetching g)"
  using assms by (auto simp: writer_schema_with_references_def split: option.splits if_splits)

lemma single_flight_step: "cache_step U pol X C mode st st' \<Longrightarrow> single_flight st \<Longrightarrow> single_flight st'"
proof (induction rule: cache_step.induct)
  case (Read n now g r g' started ts)
  from read_cases [OF Read(1), of 0] show ?case
  proof (elim disjE conjE)
    assume "g' = g" "\<not> started"
    then show ?thesis using Read(2) by (simp add: single_flight_def)
  next
    assume "g' = g\<lparr>fetching := insert n (fetching g)\<rparr>" "started = (n \<notin> fetching g)"
    then show ?thesis using Read(2) by (auto simp: single_flight_def)
  qed
next
  case (Finish n e fetched e' now g g' us vs)
  then show ?case using finish_fetch_fetching [OF Finish(2)] by (auto simp: single_flight_def)
qed (auto simp: single_flight_def intern_def install_resolved_def split: prod.splits)

lemma reachable_single_flight: "cache_reachable U pol X C mode st \<Longrightarrow> single_flight st"
  unfolding cache_reachable_def
proof (induction rule: rtranclp_induct)
  case base
  show ?case by (simp add: single_flight_def empty_cache_def)
next
  case (step st st')
  show ?case by (rule single_flight_step [OF step(2,3)])
qed

text \<open>C20: in every state that the cache reaches, whatever the order of pre-warms, reads and fetches, each id has at
  most one fetch running, and exactly the ids marked as being fetched have one. So whenever a read answers
  \<open>WriterSchemaPending\<close> it is not in vain: when it returns, a fetch of that id is running, or the time to retry after
  a failed fetch has not come.\<close>

theorem pending_reads_are_pursued:
  assumes "cache_reachable U pol X C mode (g, ts)"
  shows "distinct ts \<and> set ts = fetching g \<and>
    (\<forall>n now m g' started. writer_schema_with_references n now g = (Inl (WriterSchemaPending m), g', started) \<longrightarrow>
      n \<in> set (if started then n # ts else ts) \<or> (\<exists>t. retry_after g n = Some t \<and> now < t))"
proof -
  have s: "single_flight (g, ts)" by (rule reachable_single_flight [OF assms])
  have "n \<in> set (if started then n # ts else ts) \<or> (\<exists>t. retry_after g n = Some t \<and> now < t)"
    if "writer_schema_with_references n now g = (Inl (WriterSchemaPending m), g', started)" for n now m g' started
    using s read_cases [OF that, of m] by (auto simp: single_flight_def)
  then show ?thesis using s by (auto simp: single_flight_def)
qed

subsection \<open>What the cache serves\<close>

definition genuine_writer :: "'a third_party \<Rightarrow> 'e registry_client \<Rightarrow> register_mode \<Rightarrow> 32 word \<Rightarrow> writer_schema \<Rightarrow> bool" where
  "genuine_writer X C mode n ws \<longleftrightarrow> (\<exists>e mt e'. resolve_writer_schema C n e = (Inr (ws, mt), e')) \<or>
     (\<exists>i e mt e'. resolve_interned X C mode i e = (Inr (n, ws, mt), e'))"

definition refused_for_good :: "'e registry_client \<Rightarrow> 32 word \<Rightarrow> string \<Rightarrow> bool" where
  "refused_for_good C n reason \<longleftrightarrow> (\<exists>e err e'. resolve_writer_schema C n e = (Inl err, e') \<and>
     \<not> is_transient_registry_failure err \<and> reason = serde_error_display err)"

definition bound_by_prewarm :: "'a third_party \<Rightarrow> 'e registry_client \<Rightarrow> register_mode \<Rightarrow> string \<Rightarrow> 32 word \<Rightarrow> bool" where
  "bound_by_prewarm X C mode subject n \<longleftrightarrow> (\<exists>i e ws mt e'. in_subject i = subject \<and> resolve_interned X C mode i e = (Inr (n, ws, mt), e'))"

definition cache_genuine :: "'a third_party \<Rightarrow> 'e registry_client \<Rightarrow> register_mode \<Rightarrow> inner \<Rightarrow> bool" where
  "cache_genuine X C mode g \<longleftrightarrow> (\<forall>n ws. id_writer_schema g n = Some ws \<longrightarrow> genuine_writer X C mode n ws) \<and>
     (\<forall>n reason. unavailable_schemas g n = Some reason \<longrightarrow> refused_for_good C n reason) \<and>
     (\<forall>subject n. subject_id g subject = Some n \<longrightarrow> bound_by_prewarm X C mode subject n)"

lemma genuine_finish:
  assumes "resolve_writer_schema C n e = (fetched, e')" "finish_fetch U pol n fetched now g = Some g'" "cache_genuine X C mode g"
  shows "cache_genuine X C mode g'"
proof (cases fetched)
  case (Inl err)
  then have "\<not> is_transient_registry_failure err \<Longrightarrow> refused_for_good C n (serde_error_display err)"
    using assms(1) unfolding refused_for_good_def by blast
  then show ?thesis
    using assms(2,3) Inl by (auto simp: finish_fetch_def Let_def settle_def cache_genuine_def split: if_splits option.splits)
next
  case (Inr a)
  then obtain ws mt where a: "fetched = Inr (ws, mt)" by (cases a) auto
  have "genuine_writer X C mode n ws" using assms(1) a unfolding genuine_writer_def by blast
  then show ?thesis
    using assms(2,3) a by (auto simp: finish_fetch_def Let_def settle_def cache_genuine_def split: option.splits if_splits)
qed

lemma genuine_install:
  assumes "resolve_interned X C mode i e = (Inr r, e')" "cache_genuine X C mode g"
  shows "cache_genuine X C mode (install_resolved (in_subject i) r g)"
proof -
  obtain n ws mt where r: "r = (n, ws, mt)" by (cases r)
  have "genuine_writer X C mode n ws" "bound_by_prewarm X C mode (in_subject i) n"
    using assms(1) r unfolding genuine_writer_def bound_by_prewarm_def by blast+
  then show ?thesis using assms(2) r by (auto simp: install_resolved_def cache_genuine_def)
qed

lemma cache_genuine_step: "cache_step U pol X C mode st st' \<Longrightarrow> cache_genuine X C mode (fst st) \<Longrightarrow> cache_genuine X C mode (fst st')"
proof (induction rule: cache_step.induct)
  case (Read n now g r g' started ts)
  then show ?case using read_cases [OF Read(1), of 0] by (auto simp: cache_genuine_def)
next
  case (Finish n e fetched e' now g g' us vs)
  then show ?case using genuine_finish [OF Finish(1,2)] by simp
next
  case (Install i e r e' g ts)
  then show ?case using genuine_install [OF Install(1)] by simp
qed (simp add: intern_def cache_genuine_def)

lemma reachable_genuine: "cache_reachable U pol X C mode st \<Longrightarrow> cache_genuine X C mode (fst st)"
  unfolding cache_reachable_def
proof (induction rule: rtranclp_induct)
  case base
  show ?case by (simp add: cache_genuine_def empty_cache_def)
next
  case (step st st')
  show ?case by (rule cache_genuine_step [OF step(2,3)])
qed

text \<open>C19: whatever the order of pre-warms, reads and fetches, the cache answers only with what the registry
  said: a schema served for an id was resolved by the registry for that id or by the pre-warm, an id is
  called unavailable only after the registry refused it for a reason that is not transient, and a subject
  is bound only to an id that the pre-warm of a schema of that subject got.\<close>

theorem cache_answers_from_registry:
  assumes "cache_reachable U pol X C mode (g, ts)"
  shows "(\<forall>n now ws g' started. writer_schema_with_references n now g = (Inr ws, g', started) \<longrightarrow> genuine_writer X C mode n ws) \<and>
    (\<forall>n now reason g' started. writer_schema_with_references n now g = (Inl (WriterSchemaUnavailable n reason), g', started) \<longrightarrow>
       refused_for_good C n reason) \<and>
    (\<forall>subject n. id_for_subject g subject = Some n \<longrightarrow> bound_by_prewarm X C mode subject n)"
  using reachable_genuine [OF assms]
  by (auto simp: writer_schema_with_references_def id_for_subject_def cache_genuine_def split: option.splits if_splits)

subsection \<open>The properties on concrete caches\<close>

definition nano_units :: "nat time_units" where
  "nano_units = \<lparr>tu_duration = Inr, tu_human = show_nat, tu_percent_of = (\<lambda>d p. d * p div 100), tu_latest = 2 ^ 64\<rparr>"

definition nano_policy :: "nat retry_policy" where
  "nano_policy = \<lparr>rp_initial = 10, rp_max = 1000\<rparr>"

lemma nano_policy_new: "retry_policy_new nano_units 10 1000 = Inr nano_policy"
  by (simp add: retry_policy_new_def validated_duration_def nano_units_def nano_policy_def)

lemma nano_monotone: "percent_monotone nano_units"
  by (simp add: percent_monotone_def nano_units_def div_le_mono)

theorem retry_delay_backoff_witness:
  "\<exists>d d'. retry_delay nano_units nano_policy 7 1 = Some d \<and> retry_delay nano_units nano_policy 7 3 = Some d' \<and> 10 \<le> d \<and> d \<le> d' \<and> d' \<le> 1000"
proof -
  have "(1::nat) \<le> 3" by simp
  from retry_delay_backoff [OF nano_policy_new nano_monotone this, of 7] show ?thesis by (auto simp: nano_units_def)
qed

text \<open>A cache whose first fetch is under way.\<close>

definition fetching_cache :: inner where
  "fetching_cache = empty_cache\<lparr>fetching := {7}\<rparr>"

lemma fetching_reachable: "cache_reachable nano_units nano_policy echo_parsers plain_client AutoRegister (fetching_cache, [7])"
proof -
  have "writer_schema_with_references 7 5 empty_cache = (Inl (WriterSchemaPending 7), fetching_cache, True)"
    by (simp add: writer_schema_with_references_def empty_cache_def fetching_cache_def)
  from cache_step.Read [OF this, of nano_units nano_policy echo_parsers plain_client AutoRegister "[]"]
  show ?thesis unfolding cache_reachable_def by simp
qed

theorem pending_reads_are_pursued_witness:
  "cache_reachable nano_units nano_policy echo_parsers plain_client AutoRegister (fetching_cache, [7]) \<and>
   writer_schema_with_references 7 6 fetching_cache = (Inl (WriterSchemaPending 7), fetching_cache, False) \<and>
   retry_after fetching_cache 7 = None \<and> 7 \<in> fetching fetching_cache"
proof -
  have "writer_schema_with_references 7 6 fetching_cache = (Inl (WriterSchemaPending 7), fetching_cache, False)"
    by (simp add: writer_schema_with_references_def empty_cache_def fetching_cache_def)
  moreover have "retry_after fetching_cache 7 = None" by (simp add: empty_cache_def fetching_cache_def)
  ultimately show ?thesis using pending_reads_are_pursued [OF fetching_reachable] fetching_reachable by fastforce
qed

definition plain_writer :: writer_schema where
  "plain_writer = \<lparr>ws_schema = ''S'', ws_references = Map.empty, ws_reference_order = []\<rparr>"

lemma plain_resolve: "resolve_writer_schema plain_client 7 () = (Inr (plain_writer, None), ())"
  by (simp add: resolve_writer_schema_def client_bind_def client_map_def client_schema_by_id_def get_json_def send_json_def
      plain_client_def with_http_client_def parse_answer_def from_text_def de_schema_by_id_response_def default_members_def
      de_field_def reference_sources_ordered_def resolve_sources.simps MAX_REFERENCE_DEPTH_def plain_writer_def)

definition warm_cache :: inner where
  "warm_cache = settle 7 (empty_cache\<lparr>id_writer_schema := [7 \<mapsto> plain_writer]\<rparr>)"

lemma warm_reachable: "cache_reachable nano_units nano_policy echo_parsers plain_client AutoRegister (warm_cache, [])"
proof -
  have "finish_fetch nano_units nano_policy 7 (Inr (plain_writer, None)) 6 fetching_cache = Some warm_cache"
    by (simp add: finish_fetch_def warm_cache_def settle_def empty_cache_def fetching_cache_def Let_def fun_eq_iff)
  from cache_step.Finish [OF plain_resolve this, of echo_parsers AutoRegister "[]" "[]"] fetching_reachable
  show ?thesis unfolding cache_reachable_def by (simp add: rtranclp.rtrancl_into_rtrancl)
qed

theorem cache_answers_from_registry_witness:
  "writer_schema_with_references 7 9 warm_cache = (Inr plain_writer, warm_cache, False) \<and>
   genuine_writer echo_parsers plain_client AutoRegister 7 plain_writer"
proof -
  have "writer_schema_with_references 7 9 warm_cache = (Inr plain_writer, warm_cache, False)"
    by (simp add: writer_schema_with_references_def warm_cache_def settle_def)
  then show ?thesis using cache_answers_from_registry [OF warm_reachable] by blast
qed

end
