(* ===== verification/Serdes.thy ===== *)
theory Serdes
  imports Cache
begin

text \<open>
  The serializers and deserializers (\<^verbatim>\<open>schema-serde/src/format\<close>): the binding of a serde to its cache and
  role, the three formats' framing of a value and decoding of a frame, the untyped validation of a body and
  the Protobuf message index. The libraries that encode and decode bodies (\<open>apache_avro\<close>, \<open>prost\<close>,
  \<open>jsonschema\<close>, \<open>serde_json\<close> on a user's type) are parameters. The type \<open>'v\<close> is the user's, \<open>'d\<close> the
  datum of Avro.
\<close>

subsection \<open>Message indices\<close>

text \<open>\<open>message_index_in_proto_messages\<close>: the path to the first message with a full name, in depth-first
  order; \<open>k\<close> is the position in the list.\<close>

function message_index_in :: "descriptor list \<Rightarrow> nat \<Rightarrow> string \<Rightarrow> string \<Rightarrow> i32 list option" where
  "message_index_in [] k parent target = None"
| "message_index_in (message # messages) k parent target =
     (if i32_max < int k then None
      else case dp_name message of
             None \<Rightarrow> None
           | Some name \<Rightarrow>
               (let full_name = qualify_name parent name
                in if target = full_name then Some [int k]
                   else case message_index_in (dp_nested message) 0 full_name target of
                          Some child \<Rightarrow> Some (int k # child)
                        | None \<Rightarrow> message_index_in messages (Suc k) parent target))"
  by pat_completeness auto

lemma size_nested: "size_list size (dp_nested m) < size m"
  by (cases m) simp

termination message_index_in
  by (relation "measure (\<lambda>(ms, _). size_list size ms)") (auto intro: less_le_trans [OF size_nested])

definition message_index_in_proto :: "file_descriptor \<Rightarrow> string \<Rightarrow> i32 list option" where
  "message_index_in_proto file target =
     message_index_in (fd_message file) 0 (unwrap_or (fd_package file) []) target"

text \<open>\<open>message_index\<close> runs the same search over the descriptors of a linked pool: \<open>prost_reflect\<close> shows a message
  as its full name and its child messages.\<close>

datatype message_view = MessageView (mv_full_name: string) (mv_children: "message_view list")

function message_index_views :: "message_view list \<Rightarrow> nat \<Rightarrow> string \<Rightarrow> i32 list option" where
  "message_index_views [] k target = None"
| "message_index_views (message # messages) k target =
     (if i32_max < int k then None
      else if mv_full_name message = target then Some [int k]
      else case message_index_views (mv_children message) 0 target of
             Some child \<Rightarrow> Some (int k # child)
           | None \<Rightarrow> message_index_views messages (Suc k) target)"
  by pat_completeness auto

lemma size_children: "size_list size (mv_children m) < size m"
  by (cases m) simp

termination message_index_views
  by (relation "measure (\<lambda>(ms, _). size_list size ms)") (auto intro: less_le_trans [OF size_children])

definition pool_message_index :: "message_view list \<Rightarrow> string \<Rightarrow> serde_error + i32 list" where
  "pool_message_index messages full_name = ok_or (message_index_views messages 0 full_name)
     (SchemaFailed (''protobuf message '' @ full_name @ '' is not reachable from its parent file''))"

definition nth_message :: "descriptor list \<Rightarrow> i32 \<Rightarrow> descriptor option" where
  "nth_message ms i = (if 0 \<le> i \<and> nat i < length ms then Some (ms ! nat i) else None)"

fun walk_children :: "descriptor \<Rightarrow> i32 list \<Rightarrow> descriptor option" where
  "walk_children d [] = Some d"
| "walk_children d (i # path) = Option.bind (nth_message (dp_nested d) i) (\<lambda>c. walk_children c path)"

definition debug_path :: "i32 list \<Rightarrow> string" where
  "debug_path path = ''['' @ join_with '', '' (map show_int path) @ '']''"

text \<open>\<open>message_at\<close>: an empty path is the implicit \<open>[0]\<close>.\<close>

definition message_at :: "file_descriptor \<Rightarrow> i32 list \<Rightarrow> serde_error + descriptor" where
  "message_at file message_index =
     (let path = (if message_index = [] then [0] else message_index)
      in ok_or (Option.bind (nth_message (fd_message file) (hd path)) (\<lambda>d. walk_children d (tl path)))
           (SchemaFailed (''protobuf message-index '' @ debug_path path @ '' names no message'')))"

subsection \<open>Bindings\<close>

record binding =
  bn_role :: role
  bn_kind :: schema_kind
  bn_schema :: string
  bn_references :: "schema_reference list"
  bn_message_type :: "string option"

definition binding_subject :: "binding \<Rightarrow> string \<Rightarrow> string" where
  "binding_subject b topic = topic_name_subject topic (bn_role b)"

definition binding_id :: "inner \<Rightarrow> binding \<Rightarrow> string \<Rightarrow> serde_error + 32 word" where
  "binding_id g b topic = ok_or (id_for_subject g (binding_subject b topic))
     (SchemaFailed (''id for '' @ binding_subject b topic @ '' not resolved (run prewarm)''))"

definition binding_interned :: "binding \<Rightarrow> string \<Rightarrow> interned" where
  "binding_interned b topic = \<lparr>in_subject = binding_subject b topic, in_kind = bn_kind b, in_schema = bn_schema b,
     in_references = bn_references b, in_message_type = bn_message_type b\<rparr>"

definition binding_register :: "binding \<Rightarrow> string \<Rightarrow> inner \<Rightarrow> inner" where
  "binding_register b topic g = intern (binding_interned b topic) g"

definition with_references :: "schema_reference list \<Rightarrow> binding \<Rightarrow> binding" where
  "with_references references b = b\<lparr>bn_references := references\<rparr>"

definition lift_wire :: "wire_error + 'v \<Rightarrow> serde_error + 'v" where
  "lift_wire r = map_err (\<lambda>e. case e of Wire m \<Rightarrow> WireFailed m) r"

text \<open>A read of the cache on the way of a deserializer.\<close>

type_synonym 'v cache_op = "nat \<Rightarrow> inner \<Rightarrow> (serde_error + 'v) \<times> inner \<times> bool"

definition with_writer :: "32 word \<Rightarrow> (writer_schema \<Rightarrow> serde_error + 'v) \<Rightarrow> 'v cache_op" where
  "with_writer i f now g = (let (r, g', started) = writer_schema_with_references i now g in (rbind r f, g', started))"

subsection \<open>Avro\<close>

record ('a, 'd, 'v) avro_library =
  av_to_value :: "'v \<Rightarrow> string + 'd"
  av_from_value :: "'d \<Rightarrow> string + 'v"
  av_write :: "'a \<Rightarrow> 'd \<Rightarrow> string + byte list"
  av_read :: "'a \<Rightarrow> 'a list \<Rightarrow> 'a option \<Rightarrow> byte list \<Rightarrow> string + 'd \<times> byte list"

definition avro_binding :: "role \<Rightarrow> string \<Rightarrow> binding" where
  "avro_binding role canonical = \<lparr>bn_role = role, bn_kind = AvroKind, bn_schema = canonical, bn_references = [], bn_message_type = None\<rparr>"

definition avro_serialize :: "('a, 'd, 'v) avro_library \<Rightarrow> 'a \<Rightarrow> binding \<Rightarrow> inner \<Rightarrow> string \<Rightarrow> 'v \<Rightarrow> serde_error + byte list" where
  "avro_serialize A reader_schema b g topic v =
     rbind (binding_id g b topic) (\<lambda>i.
     rbind (map_err SerializeFailed (av_to_value A v)) (\<lambda>d.
     rbind (map_err SerializeFailed (av_write A reader_schema d)) (\<lambda>body. Inr (encode_frame i body))))"

definition writer_sources :: "writer_schema \<Rightarrow> string list" where
  "writer_sources w = List.map_filter (ws_references w) (ws_reference_order w) @ [ws_schema w]"

definition avro_decode :: "'a third_party \<Rightarrow> ('a, 'd, 'v) avro_library \<Rightarrow> 'a \<Rightarrow> byte list \<Rightarrow> writer_schema \<Rightarrow> serde_error + 'v" where
  "avro_decode X A reader_schema body w =
     rbind (map_err SchemaFailed (avro_parse_list X (writer_sources w))) (\<lambda>schemas.
     if schemas = [] then Inl (SchemaFailed ''empty Avro schema set'')
     else rbind (map_err DeserializeFailed (av_read A (last schemas) schemas (Some reader_schema) body)) (\<lambda>(d, rest).
          map_err DeserializeFailed (av_from_value A d)))"

definition avro_deserialize :: "'a third_party \<Rightarrow> ('a, 'd, 'v) avro_library \<Rightarrow> 'a \<Rightarrow> byte list \<Rightarrow> 'v cache_op" where
  "avro_deserialize X A reader_schema bytes now g = (case lift_wire (decode_frame bytes) of
      Inl e \<Rightarrow> (Inl e, g, False)
    | Inr (i, body) \<Rightarrow> with_writer i (avro_decode X A reader_schema body) now g)"

subsection \<open>JSON Schema\<close>

record 'v json_library =
  js_to_vec :: "'v \<Rightarrow> string + byte list"
  js_from_slice :: "byte list \<Rightarrow> string + 'v"
  js_slice_value :: "byte list \<Rightarrow> string + json"
  js_build :: "(string \<Rightarrow> string + json) \<Rightarrow> json \<Rightarrow> string + (json \<Rightarrow> string + unit)"

definition json_binding :: "role \<Rightarrow> string \<Rightarrow> binding" where
  "json_binding role schema = \<lparr>bn_role = role, bn_kind = JsonKind, bn_schema = schema, bn_references = [], bn_message_type = None\<rparr>"

definition json_serialize :: "'v json_library \<Rightarrow> binding \<Rightarrow> inner \<Rightarrow> string \<Rightarrow> 'v \<Rightarrow> serde_error + byte list" where
  "json_serialize J b g topic v =
     rbind (binding_id g b topic) (\<lambda>i.
     rbind (map_err SerializeFailed (js_to_vec J v)) (\<lambda>body. Inr (encode_frame i body)))"

fun parse_sources :: "'a third_party \<Rightarrow> (string \<times> string) list \<Rightarrow> serde_error + (string \<times> json) list" where
  "parse_sources X [] = Inr []"
| "parse_sources X ((name, source) # rest) =
     rbind (map_err SchemaFailed (from_str_value X source)) (\<lambda>schema.
     rbind (parse_sources X rest) (\<lambda>schemas. Inr ((name, schema) # schemas)))"

text \<open>\<open>CachedRetriever\<close>: what a reference of the writer schema resolves to.\<close>

definition retrieve :: "(string \<times> json) list \<Rightarrow> string \<Rightarrow> string + json" where
  "retrieve references uri =
     ok_or (map_of references uri) (''JSON Schema reference '' @ uri @ '' is not present in the registry cache'')"

text \<open>The references of the writer schema in the order in which its map yields them; the model takes the
  order of resolution.\<close>

definition writer_references :: "writer_schema \<Rightarrow> (string \<times> string) list" where
  "writer_references w = List.map_filter (\<lambda>n. map_option (Pair n) (ws_references w n)) (remdups (ws_reference_order w))"

definition json_validate :: "'a third_party \<Rightarrow> 'v json_library \<Rightarrow> byte list \<Rightarrow> writer_schema \<Rightarrow> serde_error + unit" where
  "json_validate X J body w =
     rbind (map_err SchemaFailed (from_str_value X (ws_schema w))) (\<lambda>writer.
     rbind (map_err DeserializeFailed (js_slice_value J body)) (\<lambda>inst.
     rbind (parse_sources X (writer_references w)) (\<lambda>references.
     rbind (map_err SchemaFailed (js_build J (retrieve references) writer)) (\<lambda>validator.
       map_err (\<lambda>e. DeserializeFailed (''json schema validation: '' @ e)) (validator inst)))))"

definition json_deserialize :: "'a third_party \<Rightarrow> 'v json_library \<Rightarrow> bool \<Rightarrow> byte list \<Rightarrow> 'v cache_op" where
  "json_deserialize X J validate bytes now g = (case lift_wire (decode_frame bytes) of
      Inl e \<Rightarrow> (Inl e, g, False)
    | Inr (i, body) \<Rightarrow>
        (let read = map_err DeserializeFailed (js_from_slice J body)
         in if validate then with_writer i (\<lambda>w. rbind (json_validate X J body w) (\<lambda>_. read)) now g
            else (read, g, False)))"

subsection \<open>Protobuf\<close>

record 'v prost_library =
  pl_encode :: "'v \<Rightarrow> byte list"
  pl_decode :: "byte list \<Rightarrow> string + 'v"
  pl_full_name :: string
  pl_parent_file :: file_descriptor

text \<open>\<open>make\<close>; \<open>None\<close> is the panic of an \<open>expect\<close>.\<close>

definition protobuf_make :: "'a third_party \<Rightarrow> 'v prost_library \<Rightarrow> role \<Rightarrow> (binding \<times> i32 list) option" where
  "protobuf_make X P role =
     (let proto_text = normalize (pl_parent_file P)
      in Option.bind (result_ok (protox_parse X ''schema.proto'' proto_text)) (\<lambda>normalized.
         map_option (\<lambda>index. (\<lparr>bn_role = role, bn_kind = ProtobufKind, bn_schema = proto_text, bn_references = [],
             bn_message_type = Some (pl_full_name P)\<rparr>, index))
           (message_index_in_proto normalized (pl_full_name P))))"

definition protobuf_serialize :: "'v prost_library \<Rightarrow> binding \<Rightarrow> i32 list \<Rightarrow> inner \<Rightarrow> string \<Rightarrow> 'v \<Rightarrow> serde_error + byte list" where
  "protobuf_serialize P b index g topic v =
     rbind (binding_id g b topic) (\<lambda>i. Inr (encode_protobuf i (map word_of_int index) (pl_encode P v)))"

definition protobuf_deserialize :: "'v prost_library \<Rightarrow> inner \<Rightarrow> byte list \<Rightarrow> serde_error + 'v" where
  "protobuf_deserialize P g bytes =
     rbind (lift_wire (decode_protobuf bytes)) (\<lambda>(i, index, body).
     rbind (case writer_message_type g i of
              Some t \<Rightarrow> if t \<noteq> pl_full_name P
                then Inl (DeserializeFailed (''protobuf messageType mismatch: writer '' @ t @ '', local '' @ pl_full_name P))
                else Inr ()
            | None \<Rightarrow> Inr ()) (\<lambda>_.
       map_err DeserializeFailed (pl_decode P body)))"

subsection \<open>Validation of a body\<close>

record validators =
  vl_dynamic_decode :: "file_descriptor list \<Rightarrow> descriptor \<Rightarrow> byte list \<Rightarrow> string + unit"
  vl_slice_value :: "byte list \<Rightarrow> string + json"
  vl_validator_for :: "json \<Rightarrow> string + (json \<Rightarrow> string + unit)"

definition validate_avro :: "'a third_party \<Rightarrow> ('a, 'd, 'v) avro_library \<Rightarrow> string \<Rightarrow> byte list \<Rightarrow> serde_error + unit" where
  "validate_avro X A schema body =
     rbind (map_err SchemaFailed (avro_parse_str X schema)) (\<lambda>parsed.
     rbind (map_err (\<lambda>e. DeserializeFailed (''avro body: '' @ e)) (av_read A parsed [] None body)) (\<lambda>(d, cursor).
       if cursor = [] then Inr ()
       else Inl (DeserializeFailed (''avro body: '' @ show_nat (length cursor) @ '' trailing byte(s) after the datum''))))"

definition validate_linked :: "'a third_party \<Rightarrow> validators \<Rightarrow> file_descriptor list \<Rightarrow> file_descriptor \<Rightarrow> i32 list \<Rightarrow> byte list
    \<Rightarrow> serde_error + unit" where
  "validate_linked X L files file message_index body =
     rbind (map_err (\<lambda>e. SchemaFailed (''protobuf link: '' @ e)) (pool_link X files)) (\<lambda>_.
     rbind (message_at file message_index) (\<lambda>d.
       map_err (\<lambda>e. DeserializeFailed (''protobuf body: '' @ e)) (vl_dynamic_decode L files d body)))"

definition protobuf_schema_error :: "string \<Rightarrow> serde_error" where
  "protobuf_schema_error e = SchemaFailed (''protobuf schema: '' @ e)"

definition validate_protobuf :: "'a third_party \<Rightarrow> validators \<Rightarrow> string \<Rightarrow> i32 list \<Rightarrow> byte list \<Rightarrow> serde_error + unit" where
  "validate_protobuf X L schema message_index body =
     rbind (map_err protobuf_schema_error (protox_parse X ''schema.proto'' schema)) (\<lambda>file.
       validate_linked X L [file] file message_index body)"

fun parse_protos :: "'a third_party \<Rightarrow> (string \<times> string) list \<Rightarrow> serde_error + file_descriptor list" where
  "parse_protos X [] = Inr []"
| "parse_protos X ((name, source) # rest) =
     rbind (map_err protobuf_schema_error (protox_parse X name source)) (\<lambda>file.
     rbind (parse_protos X rest) (\<lambda>files. Inr (file # files)))"

definition validate_protobuf_with_references :: "'a third_party \<Rightarrow> validators \<Rightarrow> string \<Rightarrow> (string \<times> string) list \<Rightarrow> i32 list
    \<Rightarrow> byte list \<Rightarrow> serde_error + unit" where
  "validate_protobuf_with_references X L schema references message_index body =
     rbind (parse_protos X references) (\<lambda>deps.
     rbind (map_err protobuf_schema_error (protox_parse X ''schema.proto'' schema)) (\<lambda>file.
       validate_linked X L (deps @ [file]) file message_index body))"

definition validate_json :: "'a third_party \<Rightarrow> validators \<Rightarrow> string \<Rightarrow> byte list \<Rightarrow> serde_error + unit" where
  "validate_json X L schema body =
     rbind (map_err (\<lambda>e. SchemaFailed (''json schema: '' @ e)) (from_str_value X schema)) (\<lambda>schema_value.
     rbind (map_err (\<lambda>e. SchemaFailed (''json schema: '' @ e)) (vl_validator_for L schema_value)) (\<lambda>validator.
     rbind (map_err (\<lambda>e. DeserializeFailed (''json body: '' @ e)) (vl_slice_value L body)) (\<lambda>inst.
       map_err (\<lambda>e. DeserializeFailed (''json body: '' @ e)) (validator inst))))"

text \<open>The Cargo features a build has; a format that is not compiled in is refused.\<close>

record features =
  ft_avro :: bool
  ft_protobuf :: bool
  ft_json :: bool

definition not_compiled :: "schema_kind \<Rightarrow> serde_error" where
  "not_compiled kind = SchemaFailed (schema_kind_debug kind @ '' body validation is not compiled into this build'')"

definition validate_body :: "features \<Rightarrow> 'a third_party \<Rightarrow> ('a, 'd, 'v) avro_library \<Rightarrow> validators \<Rightarrow> schema_kind \<Rightarrow> string \<Rightarrow> i32 list
    \<Rightarrow> byte list \<Rightarrow> serde_error + unit" where
  "validate_body F X A L kind schema message_index body = (case kind of
      AvroKind \<Rightarrow> if ft_avro F then validate_avro X A schema body else Inl (not_compiled AvroKind)
    | ProtobufKind \<Rightarrow> if ft_protobuf F then validate_protobuf X L schema message_index body else Inl (not_compiled ProtobufKind)
    | JsonKind \<Rightarrow> if ft_json F then validate_json X L schema body else Inl (not_compiled JsonKind))"

subsection \<open>The index leads to the message\<close>

text \<open>The full name of the message at a path.\<close>

fun full_name_at :: "descriptor list \<Rightarrow> string \<Rightarrow> i32 list \<Rightarrow> string option" where
  "full_name_at ms parent [] = None"
| "full_name_at ms parent (i # path) =
     Option.bind (nth_message ms i) (\<lambda>d. Option.bind (dp_name d) (\<lambda>name.
       let full_name = qualify_name parent name
       in if path = [] then Some full_name else full_name_at (dp_nested d) full_name path))"

lemma nth_message_Cons:
  "nth_message (m # ms) i = (if i = 0 then Some m else if 0 < i then nth_message ms (i - 1) else None)"
proof (cases "0 < i")
  case True
  then have "nat i = Suc (nat (i - 1))" by simp
  then show ?thesis using True by (auto simp: nth_message_def)
qed (auto simp: nth_message_def)

lemma message_index_sound:
  "message_index_in ms k parent target = Some path \<Longrightarrow>
     \<exists>i rest. path = (int k + i) # rest \<and> 0 \<le> i \<and> full_name_at ms parent (i # rest) = Some target"
proof (induction ms k parent target arbitrary: path rule: message_index_in.induct)
  case (2 message messages k parent target)
  obtain name where name: "\<not> i32_max < int k" "dp_name message = Some name"
    using "2.prems" by (auto split: if_splits option.splits)
  let ?full = "qualify_name parent name"
  consider (here) "target = ?full" "path = [int k]"
    | (below) child where "target \<noteq> ?full" "message_index_in (dp_nested message) 0 ?full target = Some child" "path = int k # child"
    | (later) "target \<noteq> ?full" "message_index_in (dp_nested message) 0 ?full target = None"
        "message_index_in messages (Suc k) parent target = Some path"
    using "2.prems" name by (auto simp: Let_def split: if_splits option.splits)
  then show ?case
  proof cases
    case here
    then show ?thesis using name by (intro exI [of _ 0] exI [of _ "[]"]) (simp add: nth_message_Cons)
  next
    case below
    from "2.IH"(1) [OF name refl below(1,2)] obtain i rest where
      "child = i # rest" "full_name_at (dp_nested message) ?full child = Some target" by auto
    then show ?thesis using below name by (intro exI [of _ 0] exI [of _ child]) (simp add: nth_message_Cons)
  next
    case later
    from "2.IH"(2) [OF name refl later] obtain i rest where
      p: "path = (int (Suc k) + i) # rest" "0 \<le> i" "full_name_at messages parent (i # rest) = Some target" by blast
    then show ?thesis by (intro exI [of _ "i + 1"] exI [of _ rest]) (simp add: nth_message_Cons)
  qed
qed simp

fun named_tree :: "descriptor \<Rightarrow> bool" where
  "named_tree (Descriptor name fs nested es os rr rn me) \<longleftrightarrow>
     name \<noteq> None \<and> length nested \<le> 2147483648 \<and> list_all named_tree nested"

lemma named_tree_iff:
  "named_tree d \<longleftrightarrow> dp_name d \<noteq> None \<and> length (dp_nested d) \<le> 2147483648 \<and> list_all named_tree (dp_nested d)"
  by (cases d) simp

lemma message_index_complete:
  "full_name_at ms parent path = Some target \<Longrightarrow> list_all named_tree ms \<Longrightarrow> k + length ms \<le> 2147483648 \<Longrightarrow>
     \<exists>found. message_index_in ms k parent target = Some found"
proof (induction ms k parent target arbitrary: path rule: message_index_in.induct)
  case (1 k parent target)
  then show ?case by (cases path) (auto simp: nth_message_def)
next
  case (2 message messages k parent target)
  have k: "\<not> i32_max < int k" using "2.prems"(3) by simp
  have tree: "named_tree message" "list_all named_tree messages" using "2.prems"(2) by auto
  then obtain name where name: "dp_name message = Some name" by (auto simp: named_tree_iff)
  obtain i rest where path: "path = i # rest" using "2.prems"(1) by (cases path) auto
  let ?full = "qualify_name parent name"
  show ?case
  proof (cases "target = ?full \<or> message_index_in (dp_nested message) 0 ?full target \<noteq> None")
    case True
    then show ?thesis using k name by (auto simp: Let_def)
  next
    case False
    then have no: "target \<noteq> ?full" "message_index_in (dp_nested message) 0 ?full target = None" by auto
    have "i \<noteq> 0"
    proof
      assume "i = 0"
      then have "rest \<noteq> []" "full_name_at (dp_nested message) ?full rest = Some target"
        using "2.prems"(1) path name no(1) by (auto simp: nth_message_Cons Let_def split: if_splits)
      moreover have "list_all named_tree (dp_nested message)" "0 + length (dp_nested message) \<le> 2147483648"
        using tree(1) named_tree_iff [of message] by simp_all
      ultimately have "\<exists>found. message_index_in (dp_nested message) 0 ?full target = Some found"
        using "2.IH"(1) [OF k name refl no(1)] by blast
      then show False using no(2) by simp
    qed
    then have "full_name_at messages parent ((i - 1) # rest) = Some target"
      using "2.prems"(1) path by (auto simp: nth_message_Cons Let_def split: if_splits)
    then obtain found where "message_index_in messages (Suc k) parent target = Some found"
      using "2.IH"(2) [OF k name refl no] tree(2) "2.prems"(3) by fastforce
    then show ?thesis using k name no by (auto simp: Let_def)
  qed
qed

lemma full_name_walk:
  "full_name_at ms parent (i # path) = Some target \<Longrightarrow> \<exists>d. Option.bind (nth_message ms i) (\<lambda>d. walk_children d path) = Some d"
proof (induction path arbitrary: ms parent i)
  case Nil
  then show ?case by (auto simp: Option.bind_eq_Some_conv Let_def)
next
  case (Cons j path)
  then obtain m name where m: "nth_message ms i = Some m" "full_name_at (dp_nested m) (qualify_name parent name) (j # path) = Some target"
    unfolding full_name_at.simps(2) [of ms parent i "j # path"] by (auto simp: Option.bind_eq_Some_conv Let_def simp del: full_name_at.simps)
  from Cons.IH [OF m(2)] show ?case using m(1) by simp
qed

lemma message_index_bounds:
  "message_index_in ms k parent target = Some path \<Longrightarrow> list_all (\<lambda>i. 0 \<le> i \<and> i \<le> i32_max) path"
proof (induction ms k parent target arbitrary: path rule: message_index_in.induct)
  case (2 message messages k parent target)
  then show ?case by (fastforce simp: Let_def split: if_splits option.splits)
qed simp

lemma message_index_message_at:
  assumes "message_index_in_proto f target = Some path"
  shows "path \<noteq> []" and "full_name_at (fd_message f) (unwrap_or (fd_package f) []) path = Some target"
    and "\<exists>d. message_at f path = Inr d"
proof -
  obtain i rest where p: "path = i # rest"
      "full_name_at (fd_message f) (unwrap_or (fd_package f) []) (i # rest) = Some target"
    using message_index_sound assms unfolding message_index_in_proto_def by fastforce
  then show "path \<noteq> []" "full_name_at (fd_message f) (unwrap_or (fd_package f) []) path = Some target" by simp_all
  from full_name_walk [OF p(2)] show "\<exists>d. message_at f path = Inr d"
    by (auto simp: message_at_def p(1) ok_or_def Let_def)
qed

text \<open>A path of \<open>i32\<close> indices survives its passage through machine words.\<close>

lemma sint_index:
  "0 \<le> i \<Longrightarrow> i \<le> i32_max \<Longrightarrow> sint (word_of_int i :: 32 word) = i"
  by (simp add: sint_uint uint_word_of_int take_bit_eq_mod signed_take_bit_int_eq_self)

lemma path_words: "list_all (\<lambda>i. 0 \<le> i \<and> i \<le> i32_max) path \<Longrightarrow> map (\<lambda>i. sint (word_of_int i :: 32 word)) path = path"
  by (induction path) (simp_all add: sint_index)

subsection \<open>What a serializer writes, a deserializer reads\<close>

text \<open>A framing of a payload under a schema id. What a deserializer gets back is decided by its body decoder
  alone: the frame neither changes the id nor the payload.\<close>

locale framing =
  fixes frame :: "32 word \<Rightarrow> 'x \<Rightarrow> byte list" and unframe :: "byte list \<Rightarrow> wire_error + 32 word \<times> 'x"
    and framable :: "'x \<Rightarrow> bool"
  assumes unframe_frame: "framable x \<Longrightarrow> unframe (frame i x) = Inr (i, x)"
begin

lemma lift_unframe: "framable x \<Longrightarrow> lift_wire (unframe (frame i x)) = Inr (i, x)"
  by (simp add: unframe_frame lift_wire_def map_err_def)

lemma frame_injective: "framable x \<Longrightarrow> framable y \<Longrightarrow> frame i x = frame j y \<longleftrightarrow> i = j \<and> x = y"
  by (metis unframe_frame sum.inject(2) Pair_inject)

end

interpretation plain: framing encode_frame decode_frame "\<lambda>_. True"
  by unfold_locales (simp add: encode_frame_def decode_frame_def)

interpretation proto: framing "\<lambda>i (index, body). encode_protobuf i index body" decode_protobuf
  "\<lambda>(index, body). index \<noteq> [] \<and> length index < 2 ^ 63"
  by unfold_locales (auto simp: decode_encode_protobuf)

text \<open>A cache that can be asked: the id of the topic's subject is bound and the writer schema is there.\<close>

definition primed :: "inner \<Rightarrow> 32 word \<Rightarrow> writer_schema \<Rightarrow> bool" where
  "primed g i w \<longleftrightarrow> id_writer_schema g i = Some w"

lemma with_writer_primed: "primed g i w \<Longrightarrow> with_writer i f now g = (f w, g, False)"
  by (simp add: primed_def with_writer_def writer_schema_with_references_def)

lemma protobuf_read_back:
  assumes "index \<noteq> []" and "length index < 2 ^ 63" and "writer_message_type h i \<in> {None, Some (pl_full_name P)}"
  shows "protobuf_deserialize P h (encode_protobuf i (map word_of_int index) body) = map_err DeserializeFailed (pl_decode P body)"
  using assms proto.lift_unframe [of "(map word_of_int index, body)" i] by (auto simp: protobuf_deserialize_def rbind_def)

text \<open>Avro and JSON: once the id is bound and the writer schema cached, a frame decodes to whatever the body
  library makes of the body that was written.\<close>

lemma avro_read_back:
  assumes "binding_id g b topic = Inr i" and "av_to_value A v = Inr d" and "av_write A schema d = Inr body"
    and "primed h i w" and "avro_parse_list X (writer_sources w) = Inr schemas" and "schemas \<noteq> []"
    and "av_read A (last schemas) schemas (Some reader_schema) body = Inr (d', rest)" and "av_from_value A d' = Inr v'"
  shows "\<exists>bytes. avro_serialize A schema b g topic v = Inr bytes \<and> avro_deserialize X A reader_schema bytes now h = (Inr v', h, False)"
  using assms plain.lift_unframe [of i body]
  by (simp add: avro_serialize_def avro_deserialize_def with_writer_primed avro_decode_def rbind_def map_err_def)

lemma json_read_back:
  assumes "binding_id g b topic = Inr i" and "js_to_vec J v = Inr body" and "js_from_slice J body = Inr v'"
    and "validate \<longrightarrow> primed h i w \<and> json_validate X J body w = Inr ()"
  shows "\<exists>bytes. json_serialize J b g topic v = Inr bytes \<and> json_deserialize X J validate bytes now h = (Inr v', h, False)"
  using assms plain.lift_unframe [of i body]
  by (auto simp: json_serialize_def json_deserialize_def with_writer_primed rbind_def map_err_def Let_def)

text \<open>A deserializer whose writer schema is not cached reports it pending and keeps its frame unread; one whose
  validator refuses the body never hands the value out.\<close>

lemma json_refused:
  assumes "primed h i w" and "json_validate X J body w = Inl e"
  shows "json_deserialize X J True (encode_frame i body) now h = (Inl e, h, False)"
  using assms plain.lift_unframe [of i body]
  by (simp add: json_deserialize_def with_writer_primed rbind_def Let_def)

text \<open>C21: A serializer of Protobuf messages is made with the index of its message in the schema that it
  registers. What it writes for a topic whose id the cache has is a frame that carries this id, this index and
  the encoded body; in the registered schema the index leads to a message with the full name of the
  serializer's type; and a deserializer of the type whose cache knows no other message type for the id decodes
  the value that was serialized (given that \<open>prost\<close> decodes what it encodes).\<close>

theorem protobuf_serde_roundtrip:
  assumes made: "protobuf_make X P role = Some (b, index)" and bound: "binding_id g b topic = Inr i"
    and len: "length index < 2 ^ 63" and same: "writer_message_type h i \<in> {None, Some (pl_full_name P)}"
    and prost: "pl_decode P (pl_encode P v) = Inr v"
  shows "\<exists>bytes f d. protobuf_serialize P b index g topic v = Inr bytes \<and> protobuf_deserialize P h bytes = Inr v \<and>
    decode_protobuf bytes = Inr (i, map word_of_int index, pl_encode P v) \<and>
    map (\<lambda>k. sint (word_of_int k :: 32 word)) index = index \<and>
    protox_parse X ''schema.proto'' (bn_schema b) = Inr f \<and> message_at f index = Inr d \<and>
    full_name_at (fd_message f) (unwrap_or (fd_package f) []) index = Some (pl_full_name P)"
proof -
  obtain f where f: "protox_parse X ''schema.proto'' (bn_schema b) = Inr f" "message_index_in_proto f (pl_full_name P) = Some index"
    using made by (auto simp: protobuf_make_def Let_def Option.bind_eq_Some_conv result_ok_def split: sum.splits)
  note at = message_index_message_at [OF f(2)]
  have words: "map (\<lambda>k. sint (word_of_int k :: 32 word)) index = index"
    using message_index_bounds path_words f(2) unfolding message_index_in_proto_def by blast
  have "protobuf_deserialize P h (encode_protobuf i (map word_of_int index) (pl_encode P v)) = Inr v"
    using protobuf_read_back [OF at(1) len same] prost by (simp add: map_err_def)
  moreover have "decode_protobuf (encode_protobuf i (map word_of_int index) (pl_encode P v)) = Inr (i, map word_of_int index, pl_encode P v)"
    using decode_encode_protobuf [of "map word_of_int index"] at(1) len by simp
  moreover have "protobuf_serialize P b index g topic v = Inr (encode_protobuf i (map word_of_int index) (pl_encode P v))"
    by (simp add: protobuf_serialize_def bound rbind_def)
  ultimately show ?thesis using at f words by blast
qed

text \<open>The view of a message that the pool shows, with the names of nested messages qualified.\<close>

function view_of :: "string \<Rightarrow> descriptor \<Rightarrow> message_view" where
  "view_of parent d = (let full_name = qualify_name parent (unwrap_or (dp_name d) [])
     in MessageView full_name (map (view_of full_name) (dp_nested d)))"
  by pat_completeness auto
termination view_of
proof (relation "measure (\<lambda>(_, d). size d)")
  fix parent full_name and d n :: descriptor
  assume "n \<in> set (dp_nested d)"
  then have "size n \<le> size_list size (dp_nested d)" by (rule size_list_estimation') simp
  then show "((full_name, n), (parent, d)) \<in> measure (\<lambda>(_, d). size d)" using size_nested [of d] by simp
qed simp

declare view_of.simps [simp del]

lemma message_index_views_of:
  "list_all named_tree ms \<Longrightarrow> message_index_views (map (view_of parent) ms) k target = message_index_in ms k parent target"
proof (induction ms k parent target rule: message_index_in.induct)
  case (2 message messages k parent target)
  show ?case
  proof (cases "i32_max < int k")
    case False
    obtain name where name: "dp_name message = Some name" and nested: "list_all named_tree (dp_nested message)"
      and later: "list_all named_tree messages"
      using "2.prems" named_tree_iff [of message] by auto
    let ?full = "qualify_name parent name"
    have view: "mv_full_name (view_of parent message) = ?full"
        "mv_children (view_of parent message) = map (view_of ?full) (dp_nested message)"
      by (simp_all add: view_of.simps [of parent message] name unwrap_or_def Let_def)
    show ?thesis
    proof (cases "target = ?full")
      case False
      note IH = "2.IH"(1) [OF \<open>\<not> i32_max < int k\<close> name refl False nested]
      then show ?thesis using "2.IH"(2) [OF \<open>\<not> i32_max < int k\<close> name refl False _ later] False name view
        by (auto simp: Let_def split: option.splits)
    qed (simp add: view name Let_def)
  qed simp
qed simp

text \<open>The search for the index of a message finds one exactly when a message of the file has the full name,
  given that every message has a name and no level of the file has more than two to the thirty-first messages.
  The index it finds leads \<open>message_at\<close> to a message with this full name, and \<open>message_index\<close>, the search over
  the descriptors of the linked pool, finds the same index or reports the message unreachable.\<close>

theorem message_index_exact:
  assumes "list_all named_tree (fd_message f)" and "length (fd_message f) \<le> 2147483648"
  shows "((\<exists>path. full_name_at (fd_message f) (unwrap_or (fd_package f) []) path = Some target) \<longleftrightarrow>
     (\<exists>index d. message_index_in_proto f target = Some index \<and> message_at f index = Inr d \<and>
        full_name_at (fd_message f) (unwrap_or (fd_package f) []) index = Some target)) \<and>
    result_ok (pool_message_index (map (view_of (unwrap_or (fd_package f) [])) (fd_message f)) target) = message_index_in_proto f target"
proof -
  have "message_index_in_proto f target \<noteq> None" if "full_name_at (fd_message f) (unwrap_or (fd_package f) []) path = Some target" for path
    using message_index_complete [OF that, of 0] assms by (auto simp: message_index_in_proto_def)
  moreover have "result_ok (pool_message_index (map (view_of (unwrap_or (fd_package f) [])) (fd_message f)) target) = message_index_in_proto f target"
    using message_index_views_of [OF assms(1)]
    by (simp add: pool_message_index_def message_index_in_proto_def result_ok_def ok_or_def split: option.splits)
  ultimately show ?thesis using message_index_message_at by blast
qed

subsection \<open>The properties on a concrete message\<close>

definition message_of :: "string \<Rightarrow> descriptor list \<Rightarrow> descriptor" where
  "message_of name nested = Descriptor (Some name) [] nested [] [] [] [] None"

definition shop_file :: file_descriptor where
  "shop_file = \<lparr>fd_name = None, fd_package = Some ''shop'', fd_dependency = [],
     fd_message = [message_of ''Order'' [], message_of ''Basket'' [message_of ''Line'' []]], fd_enum = [], fd_service = [],
     fd_syntax = None, fd_source_info = None, fd_other = []\<rparr>"

definition line_library :: "byte list prost_library" where
  "line_library = \<lparr>pl_encode = (\<lambda>v. v), pl_decode = Inr, pl_full_name = ''shop.Basket.Line'', pl_parent_file = shop_file\<rparr>"

definition shop_parsers :: "string third_party" where
  "shop_parsers = echo_parsers\<lparr>protox_parse := \<lambda>_ _. Inr shop_file\<rparr>"

lemma line_index: "message_index_in_proto shop_file ''shop.Basket.Line'' = Some [1, 0]"
  by (simp add: message_index_in_proto_def shop_file_def message_of_def qualify_name_def unwrap_or_def)

theorem message_index_exact_witness:
  "\<exists>index d. message_index_in_proto shop_file ''shop.Basket.Line'' = Some index \<and> message_at shop_file index = Inr d"
proof -
  have "list_all named_tree (fd_message shop_file)" "length (fd_message shop_file) \<le> 2147483648"
    by (simp_all add: shop_file_def message_of_def)
  moreover have "full_name_at (fd_message shop_file) (unwrap_or (fd_package shop_file) []) [1, 0] = Some ''shop.Basket.Line''"
    using message_index_message_at(2) [OF line_index] .
  ultimately show ?thesis using message_index_exact by blast
qed

theorem protobuf_serde_roundtrip_witness:
  "\<exists>b bytes. protobuf_make shop_parsers line_library ValueRole = Some (b, [1, 0]) \<and>
     protobuf_serialize line_library b [1, 0] (warm_cache\<lparr>subject_id := [''t-value'' \<mapsto> 7]\<rparr>) ''t'' [42] = Inr bytes \<and>
     protobuf_deserialize line_library warm_cache bytes = Inr [42]"
proof -
  let ?g = "warm_cache\<lparr>subject_id := [''t-value'' \<mapsto> 7]\<rparr>"
  obtain b where b: "protobuf_make shop_parsers line_library ValueRole = Some (b, [1, 0])" "bn_role b = ValueRole"
    using line_index by (simp add: protobuf_make_def line_library_def shop_parsers_def result_ok_def Let_def)
  have bound: "binding_id ?g b ''t'' = Inr 7" using b(2)
    by (simp add: binding_id_def id_for_subject_def binding_subject_def ok_or_def)
  have same: "writer_message_type warm_cache 7 \<in> {None, Some (pl_full_name line_library)}"
    by (simp add: writer_message_type_def warm_cache_def settle_def empty_cache_def)
  have prost: "pl_decode line_library (pl_encode line_library [42]) = Inr [42]" by (simp add: line_library_def)
  have len: "length [1, 0 :: i32] < 2 ^ 63" by simp
  from protobuf_serde_roundtrip [OF b(1) bound len same prost] show ?thesis using b(1) by blast
qed

end
