(* ===== verification/Startup.thy ===== *)
theory Startup
  imports Access Compat "HOL-Library.AList"
begin

text \<open>
  The configuration of a node and its start: the runtime policy and its validation (\<^verbatim>\<open>config.rs\<close>), the
  assembly of the security configuration from the command line (\<^verbatim>\<open>cli.rs\<close>), and what the binary makes of both
  (\<^verbatim>\<open>bin/schema-registry.rs\<close>): the layers in front of the handlers and the refresh of the JWKS keys. Reading
  flags and the environment is clap's; the quantities of the units crate, the file system, the header check
  of the HTTP library and the token validators are parameters. An error is the text of the message.
\<close>

subsection \<open>Quantities\<close>

record ('t, 's) unit_library =
  ul_millis_i64 :: "'t \<Rightarrow> int"
  ul_from_millis :: "int \<Rightarrow> 't"
  ul_secs :: "nat \<Rightarrow> 't"
  ul_finite :: "'t \<Rightarrow> bool"
  ul_less :: "'t \<Rightarrow> 't \<Rightarrow> bool"
  ul_less_eq :: "'t \<Rightarrow> 't \<Rightarrow> bool"
  ul_positive_time :: "string \<Rightarrow> string + 't"
  ul_bytes_u64 :: "'s \<Rightarrow> int"
  ul_from_bytes :: "int \<Rightarrow> 's"
  ul_mebibytes :: "nat \<Rightarrow> 's"
  ul_bytes_finite :: "'s \<Rightarrow> bool"
  ul_positive_byte_size :: "string \<Rightarrow> string + 's"

definition protocol_millis_i32 :: "('t, 's) unit_library \<Rightarrow> string \<Rightarrow> 't \<Rightarrow> string + i32" where
  "protocol_millis_i32 U name value =
     (let millis = ul_millis_i64 U value;
          bad = name @ '' must be a positive whole number of milliseconds within 1..=i32::MAX''
      in if \<not> ul_finite U value \<or> ul_from_millis U millis \<noteq> value then Inl bad
         else if \<not> i32_range millis then Inl bad
         else if 0 < millis then Inr millis else Inl bad)"

definition protocol_bytes_i32 :: "('t, 's) unit_library \<Rightarrow> string \<Rightarrow> 's \<Rightarrow> string + i32" where
  "protocol_bytes_i32 U name value =
     (let bytes = ul_bytes_u64 U value;
          bad = name @ '' must be a positive whole number of bytes within 1..=i32::MAX''
      in if \<not> ul_bytes_finite U value \<or> ul_from_bytes U bytes \<noteq> value then Inl bad
         else if \<not> i32_range bytes then Inl bad
         else if 0 < bytes then Inr bytes else Inl bad)"

subsection \<open>The runtime policy\<close>

record ('t, 's) runtime_config =
  rc_queue_capacity :: nat
  rc_frame_max :: 's
  rc_session_timeout :: 't
  rc_rebalance_timeout :: 't
  rc_heartbeat_interval :: 't
  rc_reconnect_backoff :: 't
  rc_retry_backoff :: 't
  rc_fetch_max_wait :: 't
  rc_fetch_max :: 's
  rc_store_timeout :: 't
  rc_create_timeout :: 't
  rc_forward_max_body :: 's
  rc_default_level :: string
  rc_default_mode :: string

definition runtime_modes :: "string list" where
  "runtime_modes = [''READWRITE'', ''READONLY'', ''IMPORT'']"

definition runtime_validate :: "('t, 's) unit_library \<Rightarrow> ('t, 's) runtime_config \<Rightarrow> string + unit" where
  "runtime_validate U c =
     rbind (protocol_millis_i32 U ''store reader fetch max wait'' (rc_fetch_max_wait c)) (\<lambda>_.
     rbind (protocol_bytes_i32 U ''store reader fetch max'' (rc_fetch_max c)) (\<lambda>_.
     rbind (protocol_millis_i32 U ''schemas topic create timeout'' (rc_create_timeout c)) (\<lambda>_.
       if ul_less_eq U (rc_session_timeout c) (rc_heartbeat_interval c)
       then Inl ''election heartbeat interval must be below session timeout''
       else if ul_less U (rc_rebalance_timeout c) (rc_session_timeout c)
       then Inl ''election session timeout exceeds rebalance timeout''
       else if try_parse_level (rc_default_level c) = None then Inl ''invalid default compatibility level''
       else if rc_default_mode c \<notin> set runtime_modes then Inl ''invalid default mode''
       else Inr ())))"

text \<open>The defaults of the client crate's capacities are arguments.\<close>

definition runtime_default :: "('t, 's) unit_library \<Rightarrow> nat \<Rightarrow> 's \<Rightarrow> ('t, 's) runtime_config" where
  "runtime_default U capacity frame_max = \<lparr>rc_queue_capacity = capacity, rc_frame_max = frame_max,
     rc_session_timeout = ul_secs U 10, rc_rebalance_timeout = ul_secs U 30, rc_heartbeat_interval = ul_secs U 3,
     rc_reconnect_backoff = ul_from_millis U 500, rc_retry_backoff = ul_from_millis U 250,
     rc_fetch_max_wait = ul_from_millis U 500, rc_fetch_max = ul_mebibytes U 1, rc_store_timeout = ul_secs U 60,
     rc_create_timeout = ul_secs U 15, rc_forward_max_body = ul_mebibytes U 16,
     rc_default_level = ''BACKWARD'', rc_default_mode = ''READWRITE''\<rparr>"

subsection \<open>The flags of the runtime policy\<close>

record ('t, 's) runtime_args =
  ra_queue_capacity :: nat
  ra_frame_max :: 's
  ra_session_timeout :: "'t option"
  ra_rebalance_timeout :: "'t option"
  ra_heartbeat_interval :: "'t option"
  ra_reconnect_backoff :: "'t option"
  ra_retry_backoff :: "'t option"
  ra_fetch_max_wait :: "'t option"
  ra_fetch_max :: "'s option"
  ra_store_timeout :: "'t option"
  ra_create_timeout :: "'t option"
  ra_forward_max_body :: "'s option"
  ra_default_level :: "string option"
  ra_default_mode :: "string option"

definition runtime_config_of :: "('t, 's) unit_library \<Rightarrow> ('t, 's) runtime_args \<Rightarrow> string + ('t, 's) runtime_config" where
  "runtime_config_of U a =
     (let defaults = runtime_default U (ra_queue_capacity a) (ra_frame_max a);
          c = \<lparr>rc_queue_capacity = ra_queue_capacity a, rc_frame_max = ra_frame_max a,
            rc_session_timeout = unwrap_or (ra_session_timeout a) (rc_session_timeout defaults),
            rc_rebalance_timeout = unwrap_or (ra_rebalance_timeout a) (rc_rebalance_timeout defaults),
            rc_heartbeat_interval = unwrap_or (ra_heartbeat_interval a) (rc_heartbeat_interval defaults),
            rc_reconnect_backoff = unwrap_or (ra_reconnect_backoff a) (rc_reconnect_backoff defaults),
            rc_retry_backoff = unwrap_or (ra_retry_backoff a) (rc_retry_backoff defaults),
            rc_fetch_max_wait = unwrap_or (ra_fetch_max_wait a) (rc_fetch_max_wait defaults),
            rc_fetch_max = unwrap_or (ra_fetch_max a) (rc_fetch_max defaults),
            rc_store_timeout = unwrap_or (ra_store_timeout a) (rc_store_timeout defaults),
            rc_create_timeout = unwrap_or (ra_create_timeout a) (rc_create_timeout defaults),
            rc_forward_max_body = unwrap_or (ra_forward_max_body a) (rc_forward_max_body defaults),
            rc_default_level = unwrap_or (ra_default_level a) (rc_default_level defaults),
            rc_default_mode = unwrap_or (ra_default_mode a) (rc_default_mode defaults)\<rparr>
      in rbind (runtime_validate U c) (\<lambda>_. Inr c))"

definition positive_millis_time :: "('t, 's) unit_library \<Rightarrow> string \<Rightarrow> string + 't" where
  "positive_millis_time U value =
     (if list_all is_digit value then ul_positive_time U (value @ ''ms'') else ul_positive_time U value)"

definition to_ascii_uppercase :: "string \<Rightarrow> string" where
  "to_ascii_uppercase = map (\<lambda>c. let n = of_char c :: nat in if 97 \<le> n \<and> n \<le> 122 then char_of (n - 32) else c)"

definition admin_listen_addr :: "(string \<Rightarrow> string + 'addr) \<Rightarrow> string \<Rightarrow> string + 'addr option" where
  "admin_listen_addr parse_addr value =
     (if to_ascii_uppercase value = ''OFF'' then Inr None
      else rbind (parse_addr value) (\<lambda>address. Inr (Some address)))"

definition parse_compatibility_level :: "string \<Rightarrow> string + string" where
  "parse_compatibility_level value =
     (case try_parse_level value of Some _ \<Rightarrow> Inr value | None \<Rightarrow> Inl ''invalid compatibility level'')"

definition parse_mode :: "string \<Rightarrow> string + string" where
  "parse_mode value = (if value \<in> set runtime_modes then Inr value else Inl ''invalid mode'')"

definition parse_client_dispatch_queue_capacity :: "(string \<Rightarrow> string + nat) \<Rightarrow> (nat \<Rightarrow> string + nat) \<Rightarrow> string \<Rightarrow> string + nat" where
  "parse_client_dispatch_queue_capacity parse_usize capacity_new value = rbind (parse_usize value) capacity_new"

definition parse_client_frame_max :: "('t, 's) unit_library \<Rightarrow> ('s \<Rightarrow> string + 's) \<Rightarrow> string \<Rightarrow> string + 's" where
  "parse_client_frame_max U frame_max_of value = rbind (ul_positive_byte_size U value) frame_max_of"

definition split_bootstrap :: "string \<Rightarrow> string list" where
  "split_bootstrap bootstrap = filter (\<lambda>s. s \<noteq> []) (map trim (split_on (CHR '','') bootstrap))"

subsection \<open>The security configuration\<close>

record basic_auth_config =
  ba_users :: "(string \<times> string) list"
  ba_file :: "string option"
  ba_required_roles :: "string list"

datatype bearer_validator =
    UnsecuredJws (bv_claim: string)
  | SignedJws (bv_claim: string) (bv_issuer: "string option") (bv_audience: "string option")

datatype client_auth_mode = ClientAuthDisabled | ClientAuthOptional | ClientAuthRequired

record tls_config =
  tc_cert_chain :: string
  tc_private_key :: string
  tc_trust_roots :: "string option"
  tc_client_ca :: "string option"
  tc_client_auth :: client_auth_mode

record 't authz_config =
  ac_enabled :: bool
  ac_super_users :: "string list"
  ac_refresh :: 't

datatype listener_protocol = ProtoSsl | ProtoSaslPlaintext | ProtoSaslSsl

datatype sasl_mechanism = ScramSha256 | ScramSha512

datatype sasl_credentials =
    SaslPlainText (sc_username: string) (sc_password: string)
  | SaslScram sasl_mechanism (sc_username: string) (sc_password: string) bool
  | SaslGssapiKeys (sg_keytab: string) (sg_principal: string) (sg_service: string) (sg_kdc: string)

record tls_connector =
  tn_pem_file :: "string option"
  tn_server_name :: string

record client_security =
  cs_protocol :: listener_protocol
  cs_tls :: "tls_connector option"
  cs_sasl :: "sasl_credentials option"
  cs_sasl_host :: "string option"

record 't security_config =
  sc_require_auth :: bool
  sc_realm :: string
  sc_basic :: "basic_auth_config option"
  sc_bearer :: "bearer_validator option"
  sc_tls :: "tls_config option"
  sc_authz :: "'t authz_config option"
  sc_forward_secret :: "string option"
  sc_client :: "client_security option"

record 't jwks_refresh =
  jr_endpoint :: string
  jr_ca :: "string option"
  jr_interval :: 't

record 't security_cli_input =
  ci_require_auth :: bool
  ci_realm :: string
  ci_basic_file :: "string option"
  ci_basic_users :: "string list"
  ci_auth_roles :: "string list"
  ci_bearer :: string
  ci_bearer_claim :: string
  ci_jwks_endpoint :: "string option"
  ci_jwks_issuer :: "string option"
  ci_jwks_audience :: "string option"
  ci_jwks_ca :: "string option"
  ci_jwks_claim :: "string option"
  ci_jwks_refresh :: "'t option"
  ci_authz :: bool
  ci_super_users :: "string list"
  ci_acl_refresh :: "'t option"
  ci_forward_secret :: "string option"
  ti_cert :: "string option"
  ti_key :: "string option"
  ti_client_ca :: "string option"
  ti_client_auth :: string
  ki_protocol :: string
  ki_mechanism :: string
  ki_username :: "string option"
  ki_password :: "string option"
  ki_password_file :: "string option"
  ki_keytab :: "string option"
  ki_principal :: "string option"
  ki_service :: "string option"
  ki_host :: "string option"
  ki_kdc :: "string option"
  ki_tls_ca :: "string option"
  ki_tls_server_name :: "string option"

text \<open>What the assembly asks of its environment.\<close>

record ('t, 's) startup_env =
  se_units :: "('t, 's) unit_library"
  se_header_value_ok :: "string \<Rightarrow> bool"
  se_read_to_string :: "string \<Rightarrow> string + string"
  se_requires_tls :: "listener_protocol \<Rightarrow> bool"
  se_requires_sasl :: "listener_protocol \<Rightarrow> bool"

definition basic_entry :: "string \<Rightarrow> (string \<times> string) list \<Rightarrow> (string \<times> string) list" where
  "basic_entry entry users = (case split_once '':'' entry of Some (u, c) \<Rightarrow> AList.update u c users | None \<Rightarrow> users)"

definition build_basic :: "'t security_cli_input \<Rightarrow> basic_auth_config option" where
  "build_basic i =
     (if ci_basic_file i = None \<and> ci_basic_users i = [] then None
      else Some \<lparr>ba_users = fold basic_entry (ci_basic_users i) [], ba_file = ci_basic_file i, ba_required_roles = ci_auth_roles i\<rparr>)"

definition build_bearer_jwks :: "('t, 's) startup_env \<Rightarrow> 't security_cli_input \<Rightarrow> string + bearer_validator \<times> 't jwks_refresh" where
  "build_bearer_jwks E i =
     rbind (ok_or (ci_jwks_endpoint i) ''--bearer-jwks-endpoint-uri is required when --bearer=jwks'') (\<lambda>endpoint.
       Inr (SignedJws (unwrap_or (ci_jwks_claim i) (ci_bearer_claim i)) (ci_jwks_issuer i) (ci_jwks_audience i),
         \<lparr>jr_endpoint = endpoint, jr_ca = ci_jwks_ca i, jr_interval = unwrap_or (ci_jwks_refresh i) (ul_secs (se_units E) 60)\<rparr>))"

definition build_bearer :: "('t, 's) startup_env \<Rightarrow> 't security_cli_input \<Rightarrow> string + bearer_validator option \<times> 't jwks_refresh option" where
  "build_bearer E i =
     (if ci_bearer i = ''off'' then Inr (None, None)
      else if ci_bearer i = ''unsecured'' then Inr (Some (UnsecuredJws (ci_bearer_claim i)), None)
      else if ci_bearer i = ''jwks'' then rbind (build_bearer_jwks E i) (\<lambda>(v, r). Inr (Some v, Some r))
      else Inl (''invalid --bearer: '' @ ci_bearer i @ '' (want off|unsecured|jwks)''))"

definition client_auth_of :: "string \<Rightarrow> string + client_auth_mode" where
  "client_auth_of s =
     (if s = ''disabled'' then Inr ClientAuthDisabled
      else if s = ''optional'' then Inr ClientAuthOptional
      else if s = ''required'' then Inr ClientAuthRequired
      else Inl (''invalid --tls-client-auth: '' @ s))"

definition build_tls :: "'t security_cli_input \<Rightarrow> string + tls_config option" where
  "build_tls i = (case (ti_cert i, ti_key i) of
      (Some cert, Some key) \<Rightarrow>
        rbind (client_auth_of (ti_client_auth i)) (\<lambda>mode.
          Inr (Some \<lparr>tc_cert_chain = cert, tc_private_key = key, tc_trust_roots = ti_client_ca i,
            tc_client_ca = ti_client_ca i, tc_client_auth = mode\<rparr>))
    | (None, None) \<Rightarrow> Inr None
    | _ \<Rightarrow> Inl ''--tls-cert and --tls-key must be set together'')"

definition build_authz :: "('t, 's) startup_env \<Rightarrow> 't security_cli_input \<Rightarrow> 't authz_config option" where
  "build_authz E i =
     (if \<not> ci_authz i then None
      else Some \<lparr>ac_enabled = True, ac_super_users = ci_super_users i,
        ac_refresh = unwrap_or (ci_acl_refresh i) (ul_secs (se_units E) 30)\<rparr>)"

definition trim_end_newlines :: "string \<Rightarrow> string" where
  "trim_end_newlines s = rev (dropWhile (\<lambda>c. c \<in> {CHR 0x0D, CHR 0x0A}) (rev s))"

definition sasl_password :: "('t, 's) startup_env \<Rightarrow> 't security_cli_input \<Rightarrow> string + string" where
  "sasl_password E i = (case (ki_password i, ki_password_file i) of
      (Some _, Some _) \<Rightarrow> Inl ''--kafka-sasl-password and --kafka-sasl-password-file are mutually exclusive''
    | (Some password, None) \<Rightarrow> Inr password
    | (None, Some path) \<Rightarrow>
        rbind (map_err (\<lambda>e. ''read Kafka SASL password '' @ path @ '': '' @ e) (se_read_to_string E path))
          (\<lambda>s. Inr (trim_end_newlines s))
    | (None, None) \<Rightarrow> Inl ''--kafka-sasl-password or --kafka-sasl-password-file required for SASL_* protocols'')"

definition build_sasl :: "('t, 's) startup_env \<Rightarrow> 't security_cli_input \<Rightarrow> string + sasl_credentials" where
  "build_sasl E i =
     (let mechanism = to_ascii_uppercase (ki_mechanism i)
      in if mechanism = ''GSSAPI''
         then rbind (ok_or (ki_keytab i) ''--kafka-sasl-keytab-path required for GSSAPI'') (\<lambda>keytab.
              rbind (ok_or (ki_principal i) ''--kafka-sasl-client-principal required for GSSAPI'') (\<lambda>p.
              rbind (ok_or (ki_kdc i) ''--kafka-sasl-kdc-url required for GSSAPI'') (\<lambda>kdc.
                Inr (SaslGssapiKeys keytab p (unwrap_or (ki_service i) ''kafka'') kdc))))
         else rbind (ok_or (ki_username i) ''--kafka-sasl-username required for SASL_* protocols'') (\<lambda>username.
              rbind (sasl_password E i) (\<lambda>password.
                if mechanism = ''PLAIN'' then Inr (SaslPlainText username password)
                else if mechanism = ''SCRAM-SHA-256'' then Inr (SaslScram ScramSha256 username password False)
                else if mechanism = ''SCRAM-SHA-512'' then Inr (SaslScram ScramSha512 username password False)
                else Inl (''invalid --kafka-sasl-mechanism: '' @ mechanism @ '' (want PLAIN|SCRAM-SHA-256|SCRAM-SHA-512|GSSAPI)''))))"

definition protocol_of :: "string \<Rightarrow> string + listener_protocol option" where
  "protocol_of s =
     (let p = to_ascii_uppercase s
      in if p = ''PLAINTEXT'' then Inr None
         else if p = ''SSL'' then Inr (Some ProtoSsl)
         else if p = ''SASL_PLAINTEXT'' then Inr (Some ProtoSaslPlaintext)
         else if p = ''SASL_SSL'' then Inr (Some ProtoSaslSsl)
         else Inl (''invalid --kafka-security-protocol: '' @ p @ '' (want PLAINTEXT|SSL|SASL_PLAINTEXT|SASL_SSL)''))"

definition build_client_security :: "('t, 's) startup_env \<Rightarrow> 't security_cli_input \<Rightarrow> string + client_security option" where
  "build_client_security E i =
     rbind (protocol_of (ki_protocol i)) (\<lambda>p. case p of
         None \<Rightarrow> Inr None
       | Some protocol \<Rightarrow>
           (let tls = (if se_requires_tls E protocol
                       then Some \<lparr>tn_pem_file = ki_tls_ca i, tn_server_name = unwrap_or (ki_tls_server_name i) ''localhost''\<rparr>
                       else None)
            in rbind (if se_requires_sasl E protocol then rbind (build_sasl E i) (\<lambda>c. Inr (Some c)) else Inr None) (\<lambda>sasl.
                 Inr (Some \<lparr>cs_protocol = protocol, cs_tls = tls, cs_sasl = sasl, cs_sasl_host = ki_host i\<rparr>))))"

definition build_security :: "('t, 's) startup_env \<Rightarrow> 't security_cli_input \<Rightarrow> string + 't security_config \<times> 't jwks_refresh option" where
  "build_security E i =
     (if (ci_require_auth i \<or> ci_authz i) \<and> (case ci_forward_secret i of None \<Rightarrow> True | Some s \<Rightarrow> s = [])
         then Inl ''--forward-secret is required when authentication or authorization is enabled''
         else if (case ci_forward_secret i of None \<Rightarrow> False | Some s \<Rightarrow> \<not> se_header_value_ok E s)
         then Inl ''--forward-secret is not a valid HTTP header value''
         else rbind (build_bearer E i) (\<lambda>(bearer, jwks).
              rbind (build_tls i) (\<lambda>tls.
              rbind (build_client_security E i) (\<lambda>client.
                Inr (\<lparr>sc_require_auth = ci_require_auth i, sc_realm = ci_realm i, sc_basic = build_basic i, sc_bearer = bearer,
                  sc_tls = tls, sc_authz = build_authz E i, sc_forward_secret = ci_forward_secret i, sc_client = client\<rparr>, jwks)))))"

subsection \<open>The flags of the binary\<close>

text \<open>The parsed flags that concern security; those of the runtime policy are \<open>runtime_args\<close>, the rest is in
  \<open>node_args\<close>.\<close>

record 't security_args =
  sa_require_auth :: bool
  sa_forward_secret :: "string option"
  sa_realm :: string
  sa_basic_auth_file :: "string option"
  sa_basic_users :: "string list"
  sa_auth_roles :: "string list"
  sa_bearer :: string
  sa_bearer_principal_claim :: string
  sa_jwks_endpoint_uri :: "string option"
  sa_jwks_valid_issuer :: "string option"
  sa_jwks_expected_audience :: "string option"
  sa_jwks_ca :: "string option"
  sa_jwks_principal_claim :: "string option"
  sa_jwks_refresh :: "'t option"
  sa_tls_cert :: "string option"
  sa_tls_key :: "string option"
  sa_tls_client_ca :: "string option"
  sa_tls_client_auth :: string
  sa_authz :: bool
  sa_super_users :: "string list"
  sa_acl_refresh :: 't
  sa_kafka_security_protocol :: string
  sa_kafka_sasl_mechanism :: string
  sa_kafka_sasl_username :: "string option"
  sa_kafka_sasl_password :: "string option"
  sa_kafka_sasl_password_file :: "string option"
  sa_kafka_sasl_keytab_path :: "string option"
  sa_kafka_sasl_client_principal :: "string option"
  sa_kafka_sasl_service_name :: string
  sa_kafka_sasl_host :: "string option"
  sa_kafka_sasl_kdc_url :: "string option"
  sa_kafka_tls_ca :: "string option"
  sa_kafka_tls_server_name :: "string option"

definition security_input :: "'t security_args \<Rightarrow> 't security_cli_input" where
  "security_input a = \<lparr>
     ci_require_auth = sa_require_auth a, ci_realm = sa_realm a, ci_basic_file = sa_basic_auth_file a,
     ci_basic_users = sa_basic_users a, ci_auth_roles = sa_auth_roles a, ci_bearer = sa_bearer a,
     ci_bearer_claim = sa_bearer_principal_claim a, ci_jwks_endpoint = sa_jwks_endpoint_uri a,
     ci_jwks_issuer = sa_jwks_valid_issuer a, ci_jwks_audience = sa_jwks_expected_audience a,
     ci_jwks_ca = sa_jwks_ca a, ci_jwks_claim = sa_jwks_principal_claim a, ci_jwks_refresh = sa_jwks_refresh a,
     ci_authz = sa_authz a, ci_super_users = sa_super_users a, ci_acl_refresh = Some (sa_acl_refresh a),
     ci_forward_secret = sa_forward_secret a,
     ti_cert = sa_tls_cert a, ti_key = sa_tls_key a, ti_client_ca = sa_tls_client_ca a, ti_client_auth = sa_tls_client_auth a,
     ki_protocol = sa_kafka_security_protocol a, ki_mechanism = sa_kafka_sasl_mechanism a,
     ki_username = sa_kafka_sasl_username a, ki_password = sa_kafka_sasl_password a,
     ki_password_file = sa_kafka_sasl_password_file a, ki_keytab = sa_kafka_sasl_keytab_path a,
     ki_principal = sa_kafka_sasl_client_principal a, ki_service = Some (sa_kafka_sasl_service_name a),
     ki_host = sa_kafka_sasl_host a, ki_kdc = sa_kafka_sasl_kdc_url a, ki_tls_ca = sa_kafka_tls_ca a,
     ki_tls_server_name = sa_kafka_tls_server_name a\<rparr>"

record ('t, 's) node_args =
  na_bootstrap_servers :: string
  na_listen_addr :: string
  na_schemas_topic :: string
  na_schemas_topic_rf :: i32
  na_client_id :: string
  na_advertised_url :: "string option"
  na_group_id :: string
  na_leader_eligibility :: bool
  na_runtime :: "('t, 's) runtime_args"
  na_security :: "'t security_args"

record ('t, 's) registry_config =
  rg_bootstrap :: string
  rg_schemas_topic :: string
  rg_schemas_topic_rf :: i32
  rg_client_id :: string
  rg_advertised_url :: string
  rg_group_id :: string
  rg_leader_eligibility :: bool
  rg_runtime :: "('t, 's) runtime_config"
  rg_security :: "'t security_config"

definition assemble_config :: "('t, 's) startup_env \<Rightarrow> ('t, 's) node_args \<Rightarrow> string + ('t, 's) registry_config \<times> 't jwks_refresh option" where
  "assemble_config E a =
     rbind (runtime_config_of (se_units E) (na_runtime a)) (\<lambda>runtime.
     rbind (build_security E (security_input (na_security a))) (\<lambda>(security, jwks).
       Inr (\<lparr>rg_bootstrap = na_bootstrap_servers a, rg_schemas_topic = na_schemas_topic a,
         rg_schemas_topic_rf = na_schemas_topic_rf a, rg_client_id = na_client_id a,
         rg_advertised_url = unwrap_or (na_advertised_url a) (''http://'' @ na_listen_addr a),
         rg_group_id = na_group_id a, rg_leader_eligibility = na_leader_eligibility a,
         rg_runtime = runtime, rg_security = security\<rparr>, jwks)))"

subsection \<open>The layers of a started node\<close>

text \<open>The libraries the layers call, the validator with the keys it holds at the time, the connection of the
  ACL client, and the primary the election has published.\<close>

record layer_libraries =
  ll_base64_decode :: "string \<Rightarrow> string option"
  ll_bcrypt_verify :: "string \<Rightarrow> string \<Rightarrow> bool option"
  ll_header_value_ok :: "string \<Rightarrow> bool"
  ll_validate :: "bearer_validator \<Rightarrow> string \<Rightarrow> int \<Rightarrow> principal option"
  ll_authorizer :: "acl_entry list \<Rightarrow> principal \<Rightarrow> string \<times> int \<Rightarrow> target \<Rightarrow> bool"
  ll_admin_connect :: "string list \<Rightarrow> string + unit"
  ll_primary :: primary_state

definition basic_store :: "('t, 's) startup_env \<Rightarrow> basic_auth_config option \<Rightarrow> string + basic_auth_store option" where
  "basic_store E b = (case b of
      None \<Rightarrow> Inr None
    | Some c \<Rightarrow>
        rbind (map_err (\<lambda>e. ''load basic-auth credentials: '' @ e)
            (load (map_option (se_read_to_string E) (ba_file c)) (ba_users c) (ba_required_roles c)))
          (\<lambda>store. Inr (Some store)))"

definition auth_state_of :: "layer_libraries \<Rightarrow> 't security_config \<Rightarrow> basic_auth_store option \<Rightarrow> auth_state" where
  "auth_state_of L security basic = \<lparr>as_base64_decode = ll_base64_decode L, as_bcrypt_verify = ll_bcrypt_verify L,
     as_header_value_ok = ll_header_value_ok L, as_basic = basic, as_bearer = map_option (ll_validate L) (sc_bearer security),
     as_require_auth = sc_require_auth security, as_realm = sc_realm security, as_forward_secret = sc_forward_secret security\<rparr>"

definition authz_of :: "layer_libraries \<Rightarrow> ('t, 's) registry_config \<Rightarrow> string + registry_authz option" where
  "authz_of L cfg = (case sc_authz (rg_security cfg) of
      Some a \<Rightarrow>
        (if ac_enabled a
         then rbind (ll_admin_connect L (split_bootstrap (rg_bootstrap cfg))) (\<lambda>_.
                Inr (Some \<lparr>az_authorizer = ll_authorizer L, az_cache = [], az_super_users = ac_super_users a, az_enabled = True\<rparr>))
         else Inr None)
    | None \<Rightarrow> Inr None)"

definition layers_of :: "('t, 's) startup_env \<Rightarrow> layer_libraries \<Rightarrow> ('t, 's) registry_config \<Rightarrow> string + security_layers" where
  "layers_of E L cfg =
     rbind (basic_store E (sc_basic (rg_security cfg))) (\<lambda>basic.
     rbind (authz_of L cfg) (\<lambda>authz.
       Inr \<lparr>sl_auth = auth_state_of L (rg_security cfg) basic, sl_authz = authz,
         sl_forward = \<lparr>fs_primary = ll_primary L,
           fs_max_body = nat (ul_bytes_u64 (se_units E) (rc_forward_max_body (rg_runtime cfg))),
           fs_secret = sc_forward_secret (rg_security cfg)\<rparr>\<rparr>))"

text \<open>The start of a node, less the connections to the broker that \<open>Kafkastore\<close> and \<open>Election\<close> model.\<close>

definition start_node :: "('t, 's) startup_env \<Rightarrow> layer_libraries \<Rightarrow> ('t, 's) node_args
    \<Rightarrow> string + ('t, 's) registry_config \<times> 't jwks_refresh option \<times> security_layers" where
  "start_node E L a =
     rbind (assemble_config E a) (\<lambda>(cfg, jwks). rbind (layers_of E L cfg) (\<lambda>layers. Inr (cfg, jwks, layers)))"

subsection \<open>What a connection adds to a request\<close>

text \<open>Over TLS the first certificate of the peer gives the principal (\<^verbatim>\<open>rest/serve.rs\<close>); the peer address is
  attached on both paths.\<close>

definition peer_principal :: "('c \<Rightarrow> string option) \<Rightarrow> 'c list option \<Rightarrow> principal option" where
  "peer_principal extract_principal certificates =
     Option.bind certificates (\<lambda>cs. case cs of
         [] \<Rightarrow> None
       | cert # _ \<Rightarrow> map_option (\<lambda>name. \<lparr>pr_name = name, pr_method = MTls, pr_groups = []\<rparr>) (extract_principal cert))"

definition serve_http_request :: "string \<times> int \<Rightarrow> http_request \<Rightarrow> http_request" where
  "serve_http_request peer q = q\<lparr>hr_peer := Some peer\<rparr>"

definition serve_tls_request :: "string \<times> int \<Rightarrow> principal option \<Rightarrow> http_request \<Rightarrow> http_request" where
  "serve_tls_request peer p q =
     (let q = q\<lparr>hr_peer := Some peer\<rparr> in case p of Some m \<Rightarrow> q\<lparr>hr_mtls := Some m\<rparr> | None \<Rightarrow> q)"

text \<open>The accept loop of the TLS listener: what happens at the socket, in order, and the connections that are
  served, each with its peer and the principal of its certificate. The loop ends at the shutdown; a failed
  \<open>accept\<close> or handshake ends nothing else.\<close>

datatype 'c accept_event =
    ShutdownRequested
  | AcceptFailed string
  | Accepted "string \<times> int" "string + 'c list option"

fun serve_tls :: "('c \<Rightarrow> string option) \<Rightarrow> 'c accept_event list \<Rightarrow> ((string \<times> int) \<times> principal option) list" where
  "serve_tls extract_principal [] = []"
| "serve_tls extract_principal (ShutdownRequested # events) = []"
| "serve_tls extract_principal (AcceptFailed e # events) = serve_tls extract_principal events"
| "serve_tls extract_principal (Accepted peer handshake # events) = (case handshake of
     Inl e \<Rightarrow> serve_tls extract_principal events
   | Inr certificates \<Rightarrow> (peer, peer_principal extract_principal certificates) # serve_tls extract_principal events)"

definition serve_https :: "('k \<Rightarrow> string + unit) \<Rightarrow> 'k \<Rightarrow> ('c \<Rightarrow> string option) \<Rightarrow> 'c accept_event list
    \<Rightarrow> string + ((string \<times> int) \<times> principal option) list" where
  "serve_https build_server_config tls extract_principal events =
     rbind (build_server_config tls) (\<lambda>_. Inr (serve_tls extract_principal events))"

subsection \<open>The refresh of the JWKS keys\<close>

datatype jwks_answer = JwksFailed | JwksStatus int | JwksUnreadable | JwksBody string

definition jwks_round :: "(string \<Rightarrow> string + 'k) \<Rightarrow> jwks_answer \<Rightarrow> 'k \<Rightarrow> 'k" where
  "jwks_round from_json answer keys = (case answer of
      JwksBody body \<Rightarrow> (case from_json body of Inr new_keys \<Rightarrow> new_keys | Inl _ \<Rightarrow> keys)
    | _ \<Rightarrow> keys)"

text \<open>One answer for each turn of the loop, until the node is cancelled.\<close>

definition run_jwks_refresher :: "(string \<Rightarrow> string + 'k) \<Rightarrow> jwks_answer list \<Rightarrow> 'k \<Rightarrow> 'k" where
  "run_jwks_refresher from_json answers keys = fold (jwks_round from_json) answers keys"

definition build_jwks_client :: "(string \<Rightarrow> string + string) \<Rightarrow> (string \<Rightarrow> string + 'c) \<Rightarrow> ('c \<Rightarrow> string + 'h) \<Rightarrow> 'h \<Rightarrow> string option \<Rightarrow> string + 'h" where
  "build_jwks_client read_pem from_pem with_root plain ca = (case ca of
      None \<Rightarrow> Inr plain
    | Some path \<Rightarrow>
        rbind (map_err (\<lambda>e. ''read JWKS CA '' @ path @ '': '' @ e) (read_pem path)) (\<lambda>pem.
        rbind (map_err (\<lambda>e. ''parse JWKS CA PEM: '' @ e) (from_pem pem)) (\<lambda>cert.
          map_err (\<lambda>e. ''build JWKS reqwest client: '' @ e) (with_root cert))))"

subsection \<open>The served connections\<close>

text \<open>A connection speaks for a name only after a handshake in which its peer showed a certificate with that
  name, and after the shutdown no connection is served.\<close>

lemma served_connection:
  "(peer, p) \<in> set (serve_tls extract_principal events) \<Longrightarrow>
    \<exists>certificates. Accepted peer (Inr certificates) \<in> set (takeWhile (\<lambda>e. e \<noteq> ShutdownRequested) events) \<and>
      p = peer_principal extract_principal certificates"
  by (induction extract_principal events rule: serve_tls.induct) (auto split: sum.splits)

subsection \<open>What a validated policy guarantees\<close>

lemmas result_iffs = rbind_Inr_iff map_err_Inr_iff ok_or_Inr_iff

text \<open>A quantity a protocol field can carry: a whole number of units from one to the largest \<open>i32\<close>.\<close>

definition protocol_time :: "('t, 's) unit_library \<Rightarrow> 't \<Rightarrow> bool" where
  "protocol_time U v \<longleftrightarrow> ul_finite U v \<and> ul_from_millis U (ul_millis_i64 U v) = v \<and> 1 \<le> ul_millis_i64 U v \<and> ul_millis_i64 U v \<le> i32_max"

definition protocol_size :: "('t, 's) unit_library \<Rightarrow> 's \<Rightarrow> bool" where
  "protocol_size U v \<longleftrightarrow> ul_bytes_finite U v \<and> ul_from_bytes U (ul_bytes_u64 U v) = v \<and> 1 \<le> ul_bytes_u64 U v \<and> ul_bytes_u64 U v \<le> i32_max"

lemma protocol_millis_iff: "protocol_millis_i32 U name v = Inr n \<longleftrightarrow> protocol_time U v \<and> n = ul_millis_i64 U v"
  by (auto simp: protocol_millis_i32_def protocol_time_def i32_range_def Let_def)

lemma protocol_bytes_iff: "protocol_bytes_i32 U name v = Inr n \<longleftrightarrow> protocol_size U v \<and> n = ul_bytes_u64 U v"
  by (auto simp: protocol_bytes_i32_def protocol_size_def i32_range_def Let_def)

lemma runtime_validate_iff:
  "runtime_validate U c = Inr () \<longleftrightarrow>
     protocol_time U (rc_fetch_max_wait c) \<and> protocol_size U (rc_fetch_max c) \<and> protocol_time U (rc_create_timeout c) \<and>
     \<not> ul_less_eq U (rc_session_timeout c) (rc_heartbeat_interval c) \<and> \<not> ul_less U (rc_rebalance_timeout c) (rc_session_timeout c) \<and>
     try_parse_level (rc_default_level c) \<noteq> None \<and> rc_default_mode c \<in> set runtime_modes"
  by (auto simp: runtime_validate_def result_iffs protocol_millis_iff protocol_bytes_iff)

text \<open>The flags given take effect, the others keep their defaults.\<close>

definition merged :: "('t, 's) unit_library \<Rightarrow> ('t, 's) runtime_args \<Rightarrow> ('t, 's) runtime_config \<Rightarrow> bool" where
  "merged U a c \<longleftrightarrow>
     rc_queue_capacity c = ra_queue_capacity a \<and> rc_frame_max c = ra_frame_max a \<and>
     rc_session_timeout c = unwrap_or (ra_session_timeout a) (ul_secs U 10) \<and>
     rc_rebalance_timeout c = unwrap_or (ra_rebalance_timeout a) (ul_secs U 30) \<and>
     rc_heartbeat_interval c = unwrap_or (ra_heartbeat_interval a) (ul_secs U 3) \<and>
     rc_fetch_max_wait c = unwrap_or (ra_fetch_max_wait a) (ul_from_millis U 500) \<and>
     rc_fetch_max c = unwrap_or (ra_fetch_max a) (ul_mebibytes U 1) \<and>
     rc_create_timeout c = unwrap_or (ra_create_timeout a) (ul_secs U 15) \<and>
     rc_default_level c = unwrap_or (ra_default_level a) ''BACKWARD'' \<and>
     rc_default_mode c = unwrap_or (ra_default_mode a) ''READWRITE''"

text \<open>A node starts only with a runtime policy whose fetch wait, fetch size and topic-creation timeout are whole
  numbers of milliseconds or bytes that fit the protocol's positive \<open>i32\<close> fields, whose heartbeat interval is
  not at or above the session timeout and whose session timeout does not exceed the rebalance timeout, whose
  default level is a compatibility level and whose default mode is one of the three the store accepts; each
  setting is the flag's value when the flag is given and its default otherwise.\<close>

theorem runtime_config_bounds:
  assumes "runtime_config_of U a = Inr c"
  shows "protocol_time U (rc_fetch_max_wait c) \<and> protocol_size U (rc_fetch_max c) \<and> protocol_time U (rc_create_timeout c) \<and>
    \<not> ul_less_eq U (rc_session_timeout c) (rc_heartbeat_interval c) \<and> \<not> ul_less U (rc_rebalance_timeout c) (rc_session_timeout c) \<and>
    (\<exists>l. try_parse_level (rc_default_level c) = Some l) \<and> rc_default_mode c \<in> {''READWRITE'', ''READONLY'', ''IMPORT''} \<and>
    merged U a c"
proof -
  have "runtime_validate U c = Inr ()" "merged U a c"
    using assms by (auto simp: runtime_config_of_def Let_def result_iffs merged_def runtime_default_def)
  then show ?thesis by (auto simp: runtime_validate_iff runtime_modes_def)
qed

subsection \<open>What a started node guarantees\<close>

lemma build_security_secret:
  assumes "build_security E i = Inr (security, jwks)" and "ci_require_auth i \<or> ci_authz i"
  shows "\<exists>s. ci_forward_secret i = Some s \<and> s \<noteq> []"
  using assms by (auto simp: build_security_def split: if_splits option.splits)

lemma build_security_fields:
  assumes "build_security E i = Inr (security, jwks)"
  shows "sc_require_auth security = ci_require_auth i" "sc_forward_secret security = ci_forward_secret i"
    "sc_authz security = build_authz E i" "sc_basic security = build_basic i"
  using assms by (auto simp: build_security_def result_iffs split: if_splits)

lemma start_node_parts:
  assumes "start_node E L a = Inr (cfg, jwks, sec)"
  shows "build_security E (security_input (na_security a)) = Inr (rg_security cfg, jwks)"
    "layers_of E L cfg = Inr sec"
  using assms by (auto simp: start_node_def assemble_config_def result_iffs)

lemma layers_of_fields:
  assumes "layers_of E L cfg = Inr sec"
  shows "as_require_auth (sl_auth sec) = sc_require_auth (rg_security cfg)"
    "as_forward_secret (sl_auth sec) = sc_forward_secret (rg_security cfg)" "authz_of L cfg = Inr (sl_authz sec)"
  using assms by (auto simp: layers_of_def result_iffs auth_state_of_def)

lemma let_through_auth:
  assumes "let_through (fst (admit pdec sec now q))"
  shows "trusted_forward (sl_auth sec) q \<or> (\<exists>p. proven (sl_auth sec) now (hr_authorization q) (hr_mtls q) p)"
proof -
  obtain r ev where a: "auth_layer (sl_auth sec) now q = (r, ev)" by fastforce
  then obtain q1 where "r = Inr q1" using assms by (cases r) (auto simp: admit_def let_through_def)
  then show ?thesis using a auth_layer_passes [of "sl_auth sec" now q q1 ev] resolve_proven by blast
qed

lemma proven_credential:
  "proven st now auth mtls p \<Longrightarrow> as_require_auth st \<Longrightarrow> mtls = Some p \<or> auth \<noteq> None"
  by (auto simp: proven_def)

text \<open>The node after a number of turns of the ACL refresh.\<close>

definition refreshed_layers :: "(string + acl_entry list) list \<Rightarrow> security_layers \<Rightarrow> security_layers" where
  "refreshed_layers answers sec = sec\<lparr>sl_authz := map_option (fold acl_refresh answers) (sl_authz sec)\<rparr>"

fun acls_after :: "(string + acl_entry list) list \<Rightarrow> acl_entry list \<Rightarrow> acl_entry list" where
  "acls_after [] cache = cache"
| "acls_after (Inl e # answers) cache = acls_after answers cache"
| "acls_after (Inr entries # answers) cache = acls_after answers (List.map_filter acl_entry_from_admin entries)"

lemma fold_acl_refresh: "fold acl_refresh answers az = az\<lparr>az_cache := acls_after answers (az_cache az)\<rparr>"
  by (induction answers "az_cache az" arbitrary: az rule: acls_after.induct) (simp_all add: acl_refresh_def)

text \<open>A forward from a peer that knows the secret of the command line.\<close>

definition peer_forward :: "'t security_args \<Rightarrow> http_request \<Rightarrow> bool" where
  "peer_forward a q \<longleftrightarrow> hr_forwarded q \<and> (\<exists>s. s \<noteq> [] \<and> sa_forward_secret a = Some s \<and> hr_secret q = Some s)"

text \<open>C22: A node that starts is guarded as its command line asks. With authentication required, a request passes the
  layers, to a handler or to the primary, only as a forward from a peer that has the node's secret, which is
  never empty, or with a client certificate or an authorization header that proves its principal. With
  authorization on, a request by any method but HEAD for a handler other than the root passes only as such a forward,
  or when its principal is proven and is a super user of the command line or allowed, from its peer address, by the
  ACLs of the last refresh that succeeded. (A HEAD request of a GET route is subject to the first part only: the access
  rules do not name the method.)\<close>

theorem started_node_is_guarded:
  assumes "start_node E L a = Inr (cfg, jwks, sec)" and "\<not> hr_trusted q" and "let_through (fst (admit pdec (refreshed_layers answers sec) now q))"
  shows "(sa_require_auth (na_security a) \<longrightarrow> peer_forward (na_security a) q \<or>
      (\<exists>p. proven (sl_auth sec) now (hr_authorization q) (hr_mtls q) p \<and> (hr_mtls q = Some p \<or> hr_authorization q \<noteq> None))) \<and>
    (sa_authz (na_security a) \<and> matcher_ok matcher \<and> dispatch matcher routes (hr_method q) (hr_path q) = Inr (h, caps) \<and>
       h \<noteq> RootHandler \<and> hr_method q \<noteq> HEAD \<longrightarrow>
       peer_forward (na_security a) q \<or>
       (\<exists>p host t. proven (sl_auth sec) now (hr_authorization q) (hr_mtls q) p \<and> hr_peer q = Some host \<and> policy pdec h caps = Some t \<and>
          (pr_name p \<in> set (sa_super_users (na_security a)) \<or> ll_authorizer L (acls_after answers []) p host t)))"
proof -
  let ?i = "security_input (na_security a)"
  let ?sec = "refreshed_layers answers sec"
  note parts = start_node_parts [OF assms(1)]
  note sec = build_security_fields [OF parts(1)] and lay = layers_of_fields [OF parts(2)]
  have same: "sl_auth ?sec = sl_auth sec" by (simp add: refreshed_layers_def)
  have forward: "peer_forward (na_security a) q"
    if "ci_require_auth ?i \<or> ci_authz ?i" "trusted_forward (sl_auth sec) q"
    using that build_security_secret [OF parts(1) that(1)] lay(2) sec(2)
    by (auto simp: trusted_forward_def peer_forward_def security_input_def)
  have "peer_forward (na_security a) q \<or>
      (\<exists>p. proven (sl_auth sec) now (hr_authorization q) (hr_mtls q) p \<and> (hr_mtls q = Some p \<or> hr_authorization q \<noteq> None))"
    if "sa_require_auth (na_security a)"
  proof -
    have "ci_require_auth ?i" "as_require_auth (sl_auth sec)" using that lay(1) sec(1) by (simp_all add: security_input_def)
    then show ?thesis using let_through_auth [OF assms(3)] forward proven_credential unfolding same by blast
  qed
  moreover have "peer_forward (na_security a) q \<or>
       (\<exists>p host t. proven (sl_auth sec) now (hr_authorization q) (hr_mtls q) p \<and> hr_peer q = Some host \<and> policy pdec h caps = Some t \<and>
          (pr_name p \<in> set (sa_super_users (na_security a)) \<or> ll_authorizer L (acls_after answers []) p host t))"
    if on: "sa_authz (na_security a)" and m: "matcher_ok matcher" "dispatch matcher routes (hr_method q) (hr_path q) = Inr (h, caps)"
      "h \<noteq> RootHandler" "hr_method q \<noteq> HEAD"
  proof -
    have "sl_authz sec = Some \<lparr>az_authorizer = ll_authorizer L, az_cache = [], az_super_users = sa_super_users (na_security a), az_enabled = True\<rparr>"
      using lay(3) sec(3) on by (auto simp: authz_of_def build_authz_def security_input_def result_iffs)
    then have az: "sl_authz ?sec = Some \<lparr>az_authorizer = ll_authorizer L, az_cache = acls_after answers [],
        az_super_users = sa_super_users (na_security a), az_enabled = True\<rparr>"
      by (simp add: refreshed_layers_def fold_acl_refresh)
    obtain t where t: "policy pdec h caps = Some t" using policy_None [of pdec h caps] m(3) by auto
    then have "authz_target pdec (hr_method q) (hr_path q) = Some t" using dispatch_policy [OF m(1,2,4)] by simp
    from admit_let_through [OF az assms(3,2) this] have
      "trusted_forward (sl_auth sec) q \<or> (\<exists>p host. proven (sl_auth sec) now (hr_authorization q) (hr_mtls q) p \<and> hr_peer q = Some host \<and>
         (pr_name p \<in> set (sa_super_users (na_security a)) \<or> ll_authorizer L (acls_after answers []) p host t))"
      unfolding same authorize_def by auto
    moreover have "ci_authz ?i" using on by (simp add: security_input_def)
    ultimately show ?thesis using forward t by blast
  qed
  ultimately show ?thesis by blast
qed

text \<open>A request that comes without extensions gets a certificate principal only over TLS, and then the name in the
  peer's own certificate.\<close>

lemma mtls_principal_is_the_peers:
  assumes "hr_mtls q = None" and "hr_mtls (serve_tls_request peer (peer_principal extract_principal certificates) q) = Some p"
  shows "\<exists>cert rest. certificates = Some (cert # rest) \<and> extract_principal cert = Some (pr_name p) \<and> pr_method p = MTls"
proof -
  have "peer_principal extract_principal certificates = Some p"
    using assms by (simp add: serve_tls_request_def Let_def split: option.splits)
  then obtain cs where "certificates = Some cs" "(case cs of [] \<Rightarrow> None | cert # _ \<Rightarrow>
      map_option (\<lambda>name. \<lparr>pr_name = name, pr_method = MTls, pr_groups = []\<rparr>) (extract_principal cert)) = Some p"
    by (auto simp: peer_principal_def Option.bind_eq_Some_conv)
  then show ?thesis by (cases cs) auto
qed

lemma plain_http_has_no_certificate: "hr_mtls (serve_http_request peer q) = hr_mtls q"
  by (simp add: serve_http_request_def)

text \<open>The keys a signed token is checked against are those of the last answer that parsed, whatever failed
  since.\<close>

lemma refresher_keeps_keys:
  assumes "from_json body = Inr keys" and "\<forall>b. JwksBody b \<in> set later \<longrightarrow> (\<exists>e. from_json b = Inl e)"
  shows "run_jwks_refresher from_json (earlier @ JwksBody body # later) start = keys"
proof -
  have "fold (jwks_round from_json) later keys = keys"
    using assms(2) by (induction later) (auto simp: jwks_round_def split: jwks_answer.splits)
  then show ?thesis using assms(1) by (simp add: run_jwks_refresher_def jwks_round_def)
qed

subsection \<open>The properties on a concrete command line\<close>

text \<open>Milliseconds and bytes as integers.\<close>

definition whole_units :: "(int, int) unit_library" where
  "whole_units = \<lparr>ul_millis_i64 = id, ul_from_millis = id, ul_secs = (\<lambda>n. 1000 * int n), ul_finite = (\<lambda>_. True),
     ul_less = (<), ul_less_eq = (\<le>), ul_positive_time = (\<lambda>_. Inl ''no time''), ul_bytes_u64 = id, ul_from_bytes = id,
     ul_mebibytes = (\<lambda>n. 1048576 * int n), ul_bytes_finite = (\<lambda>_. True), ul_positive_byte_size = (\<lambda>_. Inl ''no size'')\<rparr>"

definition default_flags :: "(int, int) runtime_args" where
  "default_flags = \<lparr>ra_queue_capacity = 64, ra_frame_max = 1000, ra_session_timeout = None, ra_rebalance_timeout = None,
     ra_heartbeat_interval = None, ra_reconnect_backoff = None, ra_retry_backoff = None, ra_fetch_max_wait = None,
     ra_fetch_max = None, ra_store_timeout = None, ra_create_timeout = None, ra_forward_max_body = None,
     ra_default_level = None, ra_default_mode = None\<rparr>"

lemma default_flags_accepted: "runtime_config_of whole_units default_flags = Inr (runtime_default whole_units 64 1000)"
  by (simp add: runtime_config_of_def default_flags_def runtime_default_def runtime_validate_def protocol_millis_i32_def
      protocol_bytes_i32_def whole_units_def i32_range_def try_parse_level_def level_names_def runtime_modes_def unwrap_or_def rbind_def)

theorem runtime_config_bounds_witness:
  "protocol_time whole_units (rc_fetch_max_wait (runtime_default whole_units 64 1000)) \<and>
   rc_default_mode (runtime_default whole_units 64 1000) \<in> {''READWRITE'', ''READONLY'', ''IMPORT''}"
  using runtime_config_bounds [OF default_flags_accepted] by blast

definition guarded_flags :: "int security_args" where
  "guarded_flags = \<lparr>sa_require_auth = True, sa_forward_secret = Some ''s'', sa_realm = ''r'', sa_basic_auth_file = None,
     sa_basic_users = [], sa_auth_roles = [], sa_bearer = ''off'', sa_bearer_principal_claim = ''sub'',
     sa_jwks_endpoint_uri = None, sa_jwks_valid_issuer = None, sa_jwks_expected_audience = None, sa_jwks_ca = None,
     sa_jwks_principal_claim = None, sa_jwks_refresh = None, sa_tls_cert = None, sa_tls_key = None, sa_tls_client_ca = None,
     sa_tls_client_auth = ''disabled'', sa_authz = True, sa_super_users = [''root''], sa_acl_refresh = 30000,
     sa_kafka_security_protocol = ''PLAINTEXT'', sa_kafka_sasl_mechanism = ''PLAIN'', sa_kafka_sasl_username = None,
     sa_kafka_sasl_password = None, sa_kafka_sasl_password_file = None, sa_kafka_sasl_keytab_path = None,
     sa_kafka_sasl_client_principal = None, sa_kafka_sasl_service_name = ''kafka'', sa_kafka_sasl_host = None,
     sa_kafka_sasl_kdc_url = None, sa_kafka_tls_ca = None, sa_kafka_tls_server_name = None\<rparr>"

definition guarded_args :: "(int, int) node_args" where
  "guarded_args = \<lparr>na_bootstrap_servers = ''b:9092'', na_listen_addr = ''0.0.0.0:8081'', na_schemas_topic = ''_schemas'',
     na_schemas_topic_rf = 3, na_client_id = ''c'', na_advertised_url = None, na_group_id = ''g'', na_leader_eligibility = True,
     na_runtime = default_flags, na_security = guarded_flags\<rparr>"

definition plain_env :: "(int, int) startup_env" where
  "plain_env = \<lparr>se_units = whole_units, se_header_value_ok = (\<lambda>_. True), se_read_to_string = (\<lambda>_. Inl ''no file''),
     se_requires_tls = (\<lambda>_. False), se_requires_sasl = (\<lambda>_. False)\<rparr>"

definition plain_libraries :: layer_libraries where
  "plain_libraries = \<lparr>ll_base64_decode = (\<lambda>_. None), ll_bcrypt_verify = (\<lambda>_ _. None), ll_header_value_ok = (\<lambda>_. True),
     ll_validate = (\<lambda>_ _ _. None), ll_authorizer = (\<lambda>_ _ _ _. False), ll_admin_connect = (\<lambda>_. Inr ()),
     ll_primary = no_primary\<lparr>ps_is_primary := True\<rparr>\<rparr>"

definition super_request :: http_request where
  "super_request = post_request\<lparr>hr_mtls := Some \<lparr>pr_name = ''root'', pr_method = MTls, pr_groups = []\<rparr>\<rparr>"

lemma plaintext_upper: "to_ascii_uppercase ''PLAINTEXT'' = ''PLAINTEXT''"
  by (simp add: to_ascii_uppercase_def)

lemma guarded_starts: "\<exists>cfg jwks sec. start_node plain_env plain_libraries guarded_args = Inr (cfg, jwks, sec)"
  using default_flags_accepted
  by (simp add: start_node_def assemble_config_def guarded_args_def guarded_flags_def plain_env_def security_input_def build_security_def
      build_bearer_def build_tls_def build_client_security_def protocol_of_def plaintext_upper layers_of_def build_basic_def basic_store_def
      authz_of_def build_authz_def plain_libraries_def rbind_def)

lemma guarded_admits:
  assumes "start_node plain_env plain_libraries guarded_args = Inr (cfg, jwks, sec)"
  shows "let_through (fst (admit id (refreshed_layers [] sec) 7 super_request))"
  using assms default_flags_accepted
  by (auto simp: start_node_def assemble_config_def guarded_args_def guarded_flags_def plain_env_def security_input_def build_security_def
      build_bearer_def build_tls_def build_client_security_def protocol_of_def plaintext_upper layers_of_def build_basic_def basic_store_def
      authz_of_def build_authz_def plain_libraries_def rbind_def refreshed_layers_def admit_def super_request_def post_request_def
      auth_layer_def authenticated_forward_def resolve_def authz_layer_def authz_target_def register_segments subjects_target_def
      topic_target_def Let_def authorize_def forward_layer_def decide_def let_through_def unwrap_or_def auth_state_of_def)

theorem started_node_is_guarded_witness:
  "\<exists>cfg jwks sec. start_node plain_env plain_libraries guarded_args = Inr (cfg, jwks, sec) \<and>
     let_through (fst (admit id (refreshed_layers [] sec) 7 super_request)) \<and>
     (peer_forward guarded_flags super_request \<or>
      (\<exists>p. proven (sl_auth sec) 7 None (hr_mtls super_request) p \<and> hr_mtls super_request = Some p))"
proof -
  obtain cfg jwks sec where started: "start_node plain_env plain_libraries guarded_args = Inr (cfg, jwks, sec)"
    using guarded_starts by blast
  note through = guarded_admits [OF started]
  have "\<not> hr_trusted super_request" "sa_require_auth (na_security guarded_args)" "na_security guarded_args = guarded_flags"
    "hr_authorization super_request = None"
    by (simp_all add: super_request_def post_request_def guarded_args_def guarded_flags_def)
  then show ?thesis using started_node_is_guarded [OF started _ through] started through by auto
qed

end
