(* ===== verification/Topic_Setup.thy ===== *)
theory Topic_Setup
  imports Startup Reader
begin

text \<open>
  The topic a node starts from (\<^verbatim>\<open>kafkastore/topic.rs\<close>): it is created when absent, and the node waits until the
  broker shows it with one partition and the policy \<open>compact\<close>. The answers of the admin client, and the dynamic
  overrides it reads from a described config, are arguments: each turn of the waiting loop has its own, with the time at which the turn looks at the clock (a turn looks
  at most once).
\<close>

subsection \<open>Errors and answers\<close>

datatype admin_error =
    AdminConnect
  | AdminTransport client_error
  | AdminBroker (ae_code: int) (ae_name: string) (ae_message: "string option")
  | AdminOther string

datatype topic_error = AdminFailed admin_error | TopicRefused string

record topic_entry =
  te_name :: string
  te_error :: "(int \<times> string) option"
  te_partition_count :: int
  te_topic_id :: "uuid option"

type_synonym topic_configs = "string \<rightharpoonup> string"

record resource_error =
  xe_code :: int
  xe_name :: string
  xe_message :: "string option"

record 'c turn =
  tu_metadata :: "admin_error + topic_entry list"
  tu_described :: "admin_error + (resource_error + 'c) option"
  tu_now :: nat

subsection \<open>The checks\<close>

definition TOPIC_ALREADY_EXISTS :: int where
  "TOPIC_ALREADY_EXISTS = 36"

definition transient_topic_error :: "int \<Rightarrow> bool" where
  "transient_topic_error code \<longleftrightarrow> code \<in> {3, 5, 6, 100}"

fun retryable_admin_error :: "admin_error \<Rightarrow> bool" where
  "retryable_admin_error AdminConnect = True"
| "retryable_admin_error (AdminTransport e) = (e \<in> {Connect, Disconnected, Timeout, Io})"
| "retryable_admin_error (AdminBroker code _ _) = transient_topic_error code"
| "retryable_admin_error (AdminOther _) = False"

definition compact_only :: "string \<Rightarrow> bool" where
  "compact_only value = (case filter (\<lambda>v. v \<noteq> []) (map trim (split_on (CHR '','') value)) of
      first # rest \<Rightarrow> first = ''compact'' \<and> rest = []
    | [] \<Rightarrow> False)"

text \<open>A resource without a result reads as having no configs: \<open>Inr None\<close> is the default config.\<close>

definition topic_config :: "(resource_error + 'c) option \<Rightarrow> admin_error + 'c option" where
  "topic_config result = (case result of
      Some (Inr config) \<Rightarrow> Inr (Some config)
    | Some (Inl e) \<Rightarrow> Inl (AdminBroker (xe_code e) (xe_name e) (xe_message e))
    | None \<Rightarrow> Inr None)"

definition dynamic_overrides :: "('c \<Rightarrow> topic_configs) \<Rightarrow> 'c option \<Rightarrow> topic_configs" where
  "dynamic_overrides overrides config = (case config of Some c \<Rightarrow> overrides c | None \<Rightarrow> Map.empty)"

record create_topic_spec =
  ct_name :: string
  ct_partitions :: i32
  ct_replicas :: i32
  ct_configs :: topic_configs

definition schemas_topic_spec :: "('t, 's) registry_config \<Rightarrow> create_topic_spec \<times> 't" where
  "schemas_topic_spec cfg = (\<lparr>ct_name = rg_schemas_topic cfg, ct_partitions = 1, ct_replicas = rg_schemas_topic_rf cfg,
     ct_configs = [''cleanup.policy'' \<mapsto> ''compact'']\<rparr>, rc_create_timeout (rg_runtime cfg))"

definition to_wire_uuid :: "uuid \<Rightarrow> uuid" where
  "to_wire_uuid i = i"

subsection \<open>The wait\<close>

text \<open>One turn: \<open>None\<close> is the sleep before the next.\<close>

definition await_turn :: "('c \<Rightarrow> topic_configs) \<Rightarrow> string \<Rightarrow> nat \<Rightarrow> 'c turn \<Rightarrow> (topic_error + uuid) option" where
  "await_turn overrides topic deadline r =
     (let early = tu_now r < deadline
      in case tu_metadata r of
           Inl e \<Rightarrow> if retryable_admin_error e \<and> early then None else Some (Inl (AdminFailed e))
         | Inr topics \<Rightarrow>
             (case find (\<lambda>entry. te_name entry = topic) topics of
                None \<Rightarrow> if early then None else Some (Inl (TopicRefused (topic @ '' not found after create'')))
              | Some entry \<Rightarrow>
                  (case te_error entry of
                     Some (code, name) \<Rightarrow>
                       if transient_topic_error code \<and> early then None
                       else Some (Inl (TopicRefused (topic @ '' metadata failed: '' @ name @ '' ('' @ show_int code @ '')'')))
                   | None \<Rightarrow>
                       if te_partition_count entry \<noteq> 1
                       then Some (Inl (TopicRefused (topic @ '' must have exactly 1 partition; observed '' @ show_int (te_partition_count entry))))
                       else case rbind (tu_described r) topic_config of
                              Inl e \<Rightarrow> if retryable_admin_error e \<and> early then None else Some (Inl (AdminFailed e))
                            | Inr config \<Rightarrow>
                                (case dynamic_overrides overrides config ''cleanup.policy'' of
                                   Some v \<Rightarrow>
                                     if compact_only v then Some (Inr (case te_topic_id entry of Some i \<Rightarrow> to_wire_uuid i | None \<Rightarrow> 0))
                                     else Some (Inl (TopicRefused (topic @ '' cleanup.policy must be compact only; observed '' @ v)))
                                 | None \<Rightarrow> Some (Inl (TopicRefused (topic @ '' cleanup.policy must be compact only; observed <unset>'')))))))"

fun await_topic :: "('c \<Rightarrow> topic_configs) \<Rightarrow> string \<Rightarrow> nat \<Rightarrow> 'c turn list \<Rightarrow> (topic_error + uuid) option" where
  "await_topic overrides topic deadline [] = None"
| "await_topic overrides topic deadline (r # rs) = (case await_turn overrides topic deadline r of
      None \<Rightarrow> await_topic overrides topic deadline rs
    | Some result \<Rightarrow> Some result)"

text \<open>The whole routine: connect, create, then wait until the deadline, which is the creation timeout after the
  time \<open>now\<close>. The error of the creation is its code and name.\<close>

definition ensure_schemas_topic :: "('c \<Rightarrow> topic_configs) \<Rightarrow> ('t \<Rightarrow> nat) \<Rightarrow> (string list \<Rightarrow> admin_error + unit) \<Rightarrow> (create_topic_spec \<Rightarrow> 't \<Rightarrow> admin_error + (int \<times> string) option list)
    \<Rightarrow> ('t, 's) registry_config \<Rightarrow> nat \<Rightarrow> 'c turn list \<Rightarrow> (topic_error + uuid) option" where
  "ensure_schemas_topic overrides to_std connect create_topics cfg now turns =
     (case connect (map trim (split_on (CHR '','') (rg_bootstrap cfg))) of
        Inl e \<Rightarrow> Some (Inl (AdminFailed e))
      | Inr _ \<Rightarrow>
          (let (spec, timeout) = schemas_topic_spec cfg
           in case create_topics spec timeout of
                Inl e \<Rightarrow> Some (Inl (AdminFailed e))
              | Inr outcomes \<Rightarrow>
                  (case outcomes of
                     Some (code, name) # _ \<Rightarrow>
                       if code = TOPIC_ALREADY_EXISTS then await_topic overrides (rg_schemas_topic cfg) (now + to_std timeout) turns
                       else Some (Inl (TopicRefused (''create _schemas failed: '' @ name @ '' ('' @ show_int code @ '')'')))
                   | _ \<Rightarrow> await_topic overrides (rg_schemas_topic cfg) (now + to_std timeout) turns)))"

subsection \<open>What a successful wait has seen\<close>

text \<open>The broker showed the topic as the store needs it.\<close>

definition topic_ready :: "('c \<Rightarrow> topic_configs) \<Rightarrow> string \<Rightarrow> 'c turn \<Rightarrow> uuid \<Rightarrow> bool" where
  "topic_ready overrides topic r uuid \<longleftrightarrow> (\<exists>topics entry config v. tu_metadata r = Inr topics \<and> entry \<in> set topics \<and> te_name entry = topic \<and>
     te_error entry = None \<and> te_partition_count entry = 1 \<and> tu_described r = Inr (Some (Inr config)) \<and>
     overrides config ''cleanup.policy'' = Some v \<and> filter (\<lambda>w. w \<noteq> []) (map trim (split_on (CHR '','') v)) = [''compact''] \<and>
     uuid = (case te_topic_id entry of Some i \<Rightarrow> i | None \<Rightarrow> 0))"

lemma compact_only_iff: "compact_only v \<longleftrightarrow> filter (\<lambda>w. w \<noteq> []) (map trim (split_on (CHR '','') v)) = [''compact'']"
  by (auto simp: compact_only_def split: list.splits)

lemma topic_config_described:
  assumes "rbind d topic_config = Inr config" and "dynamic_overrides overrides config key = Some v"
  shows "\<exists>c. config = Some c \<and> d = Inr (Some (Inr c)) \<and> overrides c key = Some v"
proof -
  obtain result where "d = Inr result" "topic_config result = Inr config" using assms(1) by (auto simp: rbind_Inr_iff)
  then show ?thesis using assms(2) by (auto simp: topic_config_def dynamic_overrides_def split: option.splits sum.splits)
qed

lemma await_turn_ready:
  assumes "await_turn overrides topic deadline r = Some (Inr uuid)"
  shows "topic_ready overrides topic r uuid"
proof -
  obtain topics entry where m: "tu_metadata r = Inr topics" "find (\<lambda>entry. te_name entry = topic) topics = Some entry"
      "te_error entry = None" "te_partition_count entry = 1"
    using assms by (auto simp: await_turn_def Let_def split: sum.splits option.splits if_splits prod.splits)
  then obtain config v where d: "rbind (tu_described r) topic_config = Inr config" "dynamic_overrides overrides config ''cleanup.policy'' = Some v" "compact_only v"
      "uuid = (case te_topic_id entry of Some i \<Rightarrow> to_wire_uuid i | None \<Rightarrow> 0)"
    using assms by (auto simp: await_turn_def Let_def split: sum.splits option.splits if_splits)
  obtain c where described: "tu_described r = Inr (Some (Inr c))" "overrides c ''cleanup.policy'' = Some v"
    using topic_config_described [OF d(1,2)] by blast
  have "entry \<in> set topics" "te_name entry = topic" using m(2) by (auto simp: find_Some_iff in_set_conv_nth)
  then show ?thesis using m d described
    by (auto simp: topic_ready_def compact_only_iff to_wire_uuid_def split: option.splits)
qed

lemma await_topic_ready:
  "await_topic overrides topic deadline turns = Some (Inr uuid) \<Longrightarrow> \<exists>r\<in>set turns. topic_ready overrides topic r uuid"
  by (induction turns) (auto split: option.splits dest: await_turn_ready)

lemma await_turn_late: "deadline \<le> tu_now r \<Longrightarrow> await_turn overrides topic deadline r \<noteq> None"
  by (auto simp: await_turn_def Let_def split: sum.splits option.splits)

lemma await_topic_late:
  "r \<in> set turns \<Longrightarrow> deadline \<le> tu_now r \<Longrightarrow> await_topic overrides topic deadline turns \<noteq> None"
  by (induction turns) (auto split: option.splits dest: await_turn_late)

text \<open>A turn that is ready ends the wait with success when every earlier turn slept.\<close>

lemma await_turn_success:
  assumes "tu_metadata r = Inr [entry]" "te_name entry = topic" "te_error entry = None" "te_partition_count entry = 1"
    and "tu_described r = Inr (Some (Inr config))" "overrides config ''cleanup.policy'' = Some v" "compact_only v"
  shows "\<exists>uuid. await_turn overrides topic deadline r = Some (Inr uuid)"
  using assms by (simp add: await_turn_def topic_config_def dynamic_overrides_def)

lemma await_topic_append:
  "(\<forall>r\<in>set earlier. await_turn overrides topic deadline r = None) \<Longrightarrow> await_topic overrides topic deadline (earlier @ later) = await_topic overrides topic deadline later"
  by (induction earlier) simp_all

lemma ensure_schemas_topic_result:
  assumes "ensure_schemas_topic overrides to_std connect create_topics cfg now turns = res"
  shows "(\<exists>e. res = Some (Inl e)) \<or>
    res = await_topic overrides (rg_schemas_topic cfg) (now + to_std (rc_create_timeout (rg_runtime cfg))) turns"
  using assms by (auto simp: ensure_schemas_topic_def schemas_topic_spec_def Let_def split: sum.splits list.splits option.splits prod.splits if_splits)

text \<open>C23: A node starts on its topic only when the broker has shown, in one turn of the wait, a topic of the configured
  name without an error, with exactly one partition and with a cleanup policy that is \<open>compact\<close> and nothing else;
  the id it goes on with is the topic's. And the wait ends: it has an answer as soon as one turn looks at the
  clock at or after the deadline, which is the creation timeout after the creation.\<close>

theorem topic_setup_safe_and_bounded:
  shows "(ensure_schemas_topic overrides to_std connect create_topics cfg now turns = Some (Inr uuid) \<longrightarrow>
      (\<exists>r\<in>set turns. topic_ready overrides (rg_schemas_topic cfg) r uuid)) \<and>
    ((\<exists>r\<in>set turns. now + to_std (rc_create_timeout (rg_runtime cfg)) \<le> tu_now r) \<longrightarrow>
      (\<exists>res. ensure_schemas_topic overrides to_std connect create_topics cfg now turns = Some res))"
proof -
  let ?res = "ensure_schemas_topic overrides to_std connect create_topics cfg now turns"
  let ?deadline = "now + to_std (rc_create_timeout (rg_runtime cfg))"
  have c: "(\<exists>e. ?res = Some (Inl e)) \<or> ?res = await_topic overrides (rg_schemas_topic cfg) ?deadline turns"
    by (rule ensure_schemas_topic_result [OF refl])
  have "\<exists>r\<in>set turns. topic_ready overrides (rg_schemas_topic cfg) r uuid" if "?res = Some (Inr uuid)"
    using c that by (auto intro: await_topic_ready)
  moreover have "?res \<noteq> None" if "r \<in> set turns" "?deadline \<le> tu_now r" for r
    using c await_topic_late [OF that, of overrides "rg_schemas_topic cfg"] by auto
  ultimately show ?thesis by auto
qed

subsection \<open>The property on a concrete broker\<close>

definition ready_turn :: "topic_configs turn" where
  "ready_turn = \<lparr>tu_metadata = Inr [\<lparr>te_name = ''_schemas'', te_error = None, te_partition_count = 1, te_topic_id = Some 7\<rparr>],
     tu_described = Inr (Some (Inr [''cleanup.policy'' \<mapsto> ''compact''])), tu_now = 20000\<rparr>"

definition slow_turn :: "topic_configs turn" where
  "slow_turn = \<lparr>tu_metadata = Inl AdminConnect, tu_described = Inl AdminConnect, tu_now = 100\<rparr>"

definition topic_node :: "(int, int) registry_config" where
  "topic_node = \<lparr>rg_bootstrap = ''b:9092'', rg_schemas_topic = ''_schemas'', rg_schemas_topic_rf = 3, rg_client_id = [], rg_advertised_url = [],
     rg_group_id = [], rg_leader_eligibility = True, rg_runtime = runtime_default whole_units 64 1000,
     rg_security = \<lparr>sc_require_auth = False, sc_realm = [], sc_basic = None, sc_bearer = None, sc_tls = None, sc_authz = None,
       sc_forward_secret = None, sc_client = None\<rparr>\<rparr>"

theorem topic_setup_safe_and_bounded_witness:
  "\<exists>res. ensure_schemas_topic (\<lambda>c. c) nat (\<lambda>_. Inr ()) (\<lambda>_ _. Inr [None]) topic_node 0 [slow_turn, ready_turn] = Some res"
proof -
  have "\<exists>r\<in>set [slow_turn, ready_turn]. 0 + nat (rc_create_timeout (rg_runtime topic_node)) \<le> tu_now r"
    by (simp add: ready_turn_def topic_node_def runtime_default_def whole_units_def)
  then show ?thesis
    using topic_setup_safe_and_bounded [of "\<lambda>c. c" nat "\<lambda>_. Inr ()" "\<lambda>_ _. Inr [None]" topic_node 0 "[slow_turn, ready_turn]"] by blast
qed

end
