(* ===== verification/Compat_Check.thy ===== *)
theory Compat_Check
  imports Compat Samples
begin

text \<open>
  The checker of descriptor sets (\<^verbatim>\<open>bin/schema-compat-check.rs\<close>): every file of the old set must be in the new
  one, and the new text must be able to read what the old text wrote, each with the files it imports, directly
  or through others. Reading a file and the wire decoding of a set are parameters.
\<close>

record descriptor_set =
  ds_files :: "(string, file_descriptor) btree_map"
  ds_schemas :: "(string, string) btree_map"

subsection \<open>Reading a set\<close>

fun read_files :: "string \<Rightarrow> file_descriptor list \<Rightarrow> descriptor_set \<Rightarrow> string + descriptor_set" where
  "read_files path [] ds = Inr ds"
| "read_files path (f # fs) ds = (case fd_name f of
      None \<Rightarrow> Inl (''descriptor set '' @ path @ '' contains file without name'')
    | Some name \<Rightarrow>
        if name = [] then Inl (''descriptor set '' @ path @ '' contains file without name'')
        else if btree_get (ds_files ds) name \<noteq> None
        then Inl (''descriptor set '' @ path @ '' contains duplicate file '' @ name)
        else read_files path fs \<lparr>ds_files = btree_insert name f (ds_files ds), ds_schemas = btree_insert name (normalize f) (ds_schemas ds)\<rparr>)"

definition read_set :: "(string \<Rightarrow> string + 'b) \<Rightarrow> ('b \<Rightarrow> string + file_descriptor list) \<Rightarrow> string \<Rightarrow> string + descriptor_set" where
  "read_set read_bytes decode_set path =
     rbind (map_err (\<lambda>e. ''read descriptor set '' @ path @ '': '' @ e) (read_bytes path)) (\<lambda>bytes.
     rbind (map_err (\<lambda>e. ''decode descriptor set '' @ path @ '': '' @ e) (decode_set bytes)) (\<lambda>fs.
       read_files path fs \<lparr>ds_files = [], ds_schemas = []\<rparr>))"

subsection \<open>The references of a file\<close>

type_synonym walk_state = "string set \<times> resolved_reference list"

text \<open>The loop of \<open>collect_refs\<close> over the imports of a file.\<close>

function collect_imports :: "descriptor_set \<Rightarrow> string list \<Rightarrow> walk_state \<Rightarrow> string + walk_state" where
  "collect_imports ds [] st = Inr st"
| "collect_imports ds (dep # deps) (seen, refs) =
     (if dep \<in> seen then collect_imports ds deps (seen, refs)
      else case btree_get (ds_files ds) dep of
             None \<Rightarrow> Inl (''missing file '' @ dep)
           | Some f \<Rightarrow>
               rbind (collect_imports ds (fd_dependency f) (insert dep seen, refs)) (\<lambda>st.
               rbind (ok_or (btree_get (ds_schemas ds) dep) (''missing dependency '' @ dep)) (\<lambda>schema.
                 collect_imports ds deps (fst st, snd st @ [\<lparr>rr_name = dep, rr_ty = Protobuf, rr_schema = schema\<rparr>]))))"
  by pat_completeness auto

lemma collect_imports_seen:
  "collect_imports_dom (ds, deps, st) \<Longrightarrow> collect_imports ds deps st = Inr st' \<Longrightarrow> fst st \<subseteq> fst st'"
proof (induction ds deps st arbitrary: st' rule: collect_imports.pinduct)
  case (1 ds st)
  then show ?case by (simp add: collect_imports.psimps)
next
  case (2 ds dep deps seen refs)
  show ?case
  proof (cases "dep \<in> seen")
    case True
    then show ?thesis using 2(2) 2(5) by (simp add: collect_imports.psimps(2) [OF 2(1)])
  next
    case False
    then obtain f st1 schema where f: "btree_get (ds_files ds) dep = Some f"
        "collect_imports ds (fd_dependency f) (insert dep seen, refs) = Inr st1" "btree_get (ds_schemas ds) dep = Some schema"
        "collect_imports ds deps (fst st1, snd st1 @ [\<lparr>rr_name = dep, rr_ty = Protobuf, rr_schema = schema\<rparr>]) = Inr st'"
      using 2(5) by (auto simp: collect_imports.psimps(2) [OF 2(1)] result_simps split: option.splits)
    have "insert dep seen \<subseteq> fst st1" using 2(3) [OF False f(1,2)] by simp
    moreover have "fst st1 \<subseteq> fst st'" using 2(4) [OF False f(1) f(2) _ f(4)] f(3) by simp
    ultimately show ?thesis by auto
  qed
qed

definition unseen :: "descriptor_set \<Rightarrow> walk_state \<Rightarrow> nat" where
  "unseen ds st = card (set (map fst (ds_files ds)) - fst st)"

lemma unseen_enter:
  assumes "btree_get (ds_files ds) dep = Some f" "dep \<notin> seen" "insert dep seen \<subseteq> fst st"
  shows "unseen ds st < unseen ds (seen, refs)"
proof -
  have "dep \<in> set (map fst (ds_files ds))" using assms(1) by (force dest: map_of_SomeD)
  then have "set (map fst (ds_files ds)) - fst st \<subset> set (map fst (ds_files ds)) - seen" using assms(2,3) by blast
  then show ?thesis unfolding unseen_def fst_conv by (intro psubset_card_mono) simp_all
qed

termination collect_imports
proof (relation "measures [\<lambda>(ds, deps, st). unseen ds st, \<lambda>(ds, deps, st). length deps]")
  fix ds :: descriptor_set and dep deps seen refs f
  assume "dep \<notin> seen" "btree_get (ds_files ds) dep = Some f"
  then show "((ds, fd_dependency f, insert dep seen, refs), ds, dep # deps, seen, refs)
      \<in> measures [\<lambda>(ds, deps, st). unseen ds st, \<lambda>(ds, deps, st). length deps]"
    using unseen_enter [of ds dep f seen "(insert dep seen, refs)" refs] by simp
next
  fix ds :: descriptor_set and dep deps seen refs f st and schema :: string
  let ?ref = "\<lparr>rr_name = dep, rr_ty = Protobuf, rr_schema = schema\<rparr>"
  assume a: "dep \<notin> seen" "btree_get (ds_files ds) dep = Some f"
    "collect_imports_dom (ds, fd_dependency f, insert dep seen, refs)" "collect_imports ds (fd_dependency f) (insert dep seen, refs) = Inr st"
  then have "insert dep seen \<subseteq> fst st" using collect_imports_seen by fastforce
  then show "((ds, deps, fst st, snd st @ [?ref]), ds, dep # deps, seen, refs)
      \<in> measures [\<lambda>(ds, deps, st). unseen ds st, \<lambda>(ds, deps, st). length deps]"
    using unseen_enter [of ds dep f seen "(fst st, snd st @ [?ref])" refs] a by simp
qed simp_all

declare collect_imports.simps [simp del]

definition collect_refs :: "descriptor_set \<Rightarrow> string \<Rightarrow> walk_state \<Rightarrow> string + walk_state" where
  "collect_refs ds name st = (case btree_get (ds_files ds) name of
      None \<Rightarrow> Inl (''missing file '' @ name)
    | Some f \<Rightarrow> collect_imports ds (fd_dependency f) st)"

definition resolved_closure :: "descriptor_set \<Rightarrow> string \<Rightarrow> string + resolved_reference list" where
  "resolved_closure ds name = rbind (collect_refs ds name ({}, [])) (\<lambda>st. Inr (snd st))"

subsection \<open>The check\<close>

text \<open>What one file of the old set adds to the errors; \<open>None\<close> is the panic of the \<open>expect\<close>.\<close>

definition check_file :: "'a third_party \<Rightarrow> nat \<Rightarrow> descriptor_set \<Rightarrow> descriptor_set \<Rightarrow> string \<Rightarrow> string list option" where
  "check_file X n old new name = (case btree_get (ds_schemas new) name of
      None \<Rightarrow> Some [name @ '': file removed'']
    | Some new_schema \<Rightarrow>
        Option.bind (btree_get (ds_schemas old) name) (\<lambda>old_schema.
          case resolved_closure old name of
            Inl e \<Rightarrow> Some [name @ '': old descriptor references: '' @ e]
          | Inr old_refs \<Rightarrow>
              (case resolved_closure new name of
                 Inl e \<Rightarrow> Some [name @ '': new descriptor references: '' @ e]
               | Inr new_refs \<Rightarrow>
                   map_option (\<lambda>r. case r of
                       Inl reasons \<Rightarrow> [name @ '': '' @ join_with ''; '' reasons]
                     | Inr _ \<Rightarrow> [])
                     (format_check X n Protobuf new_schema old_schema new_refs old_refs))))"

fun check_files :: "'a third_party \<Rightarrow> nat \<Rightarrow> descriptor_set \<Rightarrow> descriptor_set \<Rightarrow> string list \<Rightarrow> string list option" where
  "check_files X n old new [] = Some []"
| "check_files X n old new (name # names) =
     Option.bind (check_file X n old new name) (\<lambda>errors. map_option (\<lambda>more. errors @ more) (check_files X n old new names))"

definition check_backward :: "'a third_party \<Rightarrow> nat \<Rightarrow> descriptor_set \<Rightarrow> descriptor_set \<Rightarrow> string list option" where
  "check_backward X n old new = check_files X n old new (btree_keys (ds_files old))"

text \<open>\<open>main\<close>: the lines printed for an incompatible pair and the final message, or success.\<close>

definition compat_main :: "(string \<Rightarrow> string + 'b) \<Rightarrow> ('b \<Rightarrow> string + file_descriptor list) \<Rightarrow> 'a third_party \<Rightarrow> nat \<Rightarrow> string \<Rightarrow> string
    \<Rightarrow> (string list \<times> (string + unit)) option" where
  "compat_main read_bytes decode_set X n old_path new_path = (case read_set read_bytes decode_set old_path of
      Inl e \<Rightarrow> Some ([], Inl e)
    | Inr old \<Rightarrow>
        (case read_set read_bytes decode_set new_path of
           Inl e \<Rightarrow> Some ([], Inl e)
         | Inr new \<Rightarrow>
             map_option (\<lambda>errors. if errors = [] then ([''compatible''], Inr ())
               else (errors, Inl (show_nat (length errors) @ '' incompatible protobuf schema(s)''))) (check_backward X n old new)))"

subsection \<open>The references are the imports, direct and indirect\<close>

text \<open>A set as \<open>read_set\<close> builds it: a text for every file.\<close>

definition set_ok :: "descriptor_set \<Rightarrow> bool" where
  "set_ok ds \<longleftrightarrow> btree_ok (ds_files ds) \<and> map_of (ds_schemas ds) = map_option normalize \<circ> map_of (ds_files ds)"

definition imports_of :: "descriptor_set \<Rightarrow> (string \<times> string) set" where
  "imports_of ds = {(a, b). \<exists>f. btree_get (ds_files ds) a = Some f \<and> b \<in> set (fd_dependency f)}"

lemma read_files_ok:
  "read_files path fs ds = Inr ds' \<Longrightarrow> set_ok ds \<Longrightarrow> set_ok ds'"
proof (induction path fs ds rule: read_files.induct)
  case (2 path f fs ds)
  then obtain name where name: "fd_name f = Some name" "name \<noteq> []" "btree_get (ds_files ds) name = None"
      "read_files path fs \<lparr>ds_files = btree_insert name f (ds_files ds), ds_schemas = btree_insert name (normalize f) (ds_schemas ds)\<rparr> = Inr ds'"
    by (auto split: option.splits if_splits)
  have "set_ok \<lparr>ds_files = btree_insert name f (ds_files ds), ds_schemas = btree_insert name (normalize f) (ds_schemas ds)\<rparr>"
    using "2.prems"(2) by (auto simp: set_ok_def btree_ok_insert btree_get_insert fun_eq_iff)
  then show ?case using "2.IH" [OF name(1,2) _ name(4)] name(3) by simp
qed simp

lemma read_set_ok: "read_set read_bytes decode_set path = Inr ds \<Longrightarrow> set_ok ds"
  by (auto simp: read_set_def rbind_Inr_iff set_ok_def btree_ok_def dest!: read_files_ok)

text \<open>What a walk over a list of imports adds to its state: \<open>new\<close> are the references it appends.\<close>

definition walked :: "descriptor_set \<Rightarrow> string list \<Rightarrow> walk_state \<Rightarrow> walk_state \<Rightarrow> resolved_reference list \<Rightarrow> bool" where
  "walked ds deps st st' new \<longleftrightarrow>
     snd st' = snd st @ new \<and> fst st' = fst st \<union> set (map rr_name new) \<and> distinct (map rr_name new) \<and>
     set (map rr_name new) \<inter> fst st = {} \<and> set deps \<subseteq> fst st' \<and> imports_of ds `` set (map rr_name new) \<subseteq> fst st' \<and>
     set (map rr_name new) \<subseteq> (imports_of ds)\<^sup>* `` set deps \<and>
     (\<forall>r\<in>set new. rr_ty r = Protobuf \<and> btree_get (ds_schemas ds) (rr_name r) = Some (rr_schema r))"

lemma walked_skip:
  assumes "walked ds deps (seen, refs) st' new" and "dep \<in> seen"
  shows "walked ds (dep # deps) (seen, refs) st' new"
proof -
  note w = assms(1) [unfolded walked_def fst_conv snd_conv]
  have "set (dep # deps) \<subseteq> fst st'" using w assms(2) by auto
  moreover have "(imports_of ds)\<^sup>* `` set deps \<subseteq> (imports_of ds)\<^sup>* `` set (dep # deps)" by auto
  ultimately show ?thesis using w unfolding walked_def fst_conv snd_conv by blast
qed

lemma walked_enter:
  assumes f: "btree_get (ds_files ds) dep = Some f" "btree_get (ds_schemas ds) dep = Some (rr_schema ref)" "dep \<notin> seen"
    and ref: "rr_name ref = dep" "rr_ty ref = Protobuf"
    and below: "walked ds (fd_dependency f) (insert dep seen, refs) st1 below"
    and later: "walked ds deps (fst st1, snd st1 @ [ref]) st' later"
  shows "walked ds (dep # deps) (seen, refs) st' (below @ ref # later)"
proof -
  let ?I = "imports_of ds" and ?B = "set (map rr_name below)" and ?L = "set (map rr_name later)"
  have direct: "?I `` {dep} = set (fd_dependency f)" using f(1) by (auto simp: imports_of_def)
  have reach: "?I\<^sup>* `` set (fd_dependency f) \<subseteq> ?I\<^sup>* `` {dep}"
    using direct by (auto intro: converse_rtrancl_into_rtrancl)
  have names: "set (map rr_name (below @ ref # later)) = {dep} \<union> ?B \<union> ?L" using ref(1) by auto
  note b = below [unfolded walked_def fst_conv snd_conv] and l = later [unfolded walked_def fst_conv snd_conv]
  have "?I `` {dep} \<subseteq> fst st'" "?I `` ?B \<subseteq> fst st'" "?I `` ?L \<subseteq> fst st'" using b l direct by blast+
  then have "?I `` ({dep} \<union> ?B \<union> ?L) \<subseteq> fst st'" unfolding Image_Un by blast
  moreover have "?B \<subseteq> ?I\<^sup>* `` {dep}" "?L \<subseteq> ?I\<^sup>* `` set deps" using b l reach by blast+
  then have "{dep} \<union> ?B \<union> ?L \<subseteq> ?I\<^sup>* `` set (dep # deps)" by auto
  moreover have "fst st' = seen \<union> ({dep} \<union> ?B \<union> ?L)" using b l by auto
  moreover have "({dep} \<union> ?B \<union> ?L) \<inter> seen = {}" using b l f(3) by auto
  moreover have "distinct (map rr_name (below @ ref # later))" using b l ref(1) by auto
  moreover have "\<forall>r\<in>set (below @ ref # later). rr_ty r = Protobuf \<and> btree_get (ds_schemas ds) (rr_name r) = Some (rr_schema r)"
    using b l ref f(2) by auto
  moreover have "snd st' = refs @ below @ ref # later" "set (dep # deps) \<subseteq> fst st'" using b l by auto
  ultimately show ?thesis unfolding walked_def names fst_conv snd_conv by blast
qed

lemma collect_imports_walked:
  "collect_imports ds deps st = Inr st' \<Longrightarrow> \<exists>new. walked ds deps st st' new"
proof (induction ds deps st arbitrary: st' rule: collect_imports.induct)
  case (1 ds st)
  then show ?case by (auto simp: collect_imports.simps walked_def)
next
  case (2 ds dep deps seen refs)
  show ?case
  proof (cases "dep \<in> seen")
    case True
    with 2(1) [OF True] 2(4) show ?thesis by (auto simp: collect_imports.simps intro: walked_skip)
  next
    case False
    then obtain f st1 schema where f: "btree_get (ds_files ds) dep = Some f"
        "collect_imports ds (fd_dependency f) (insert dep seen, refs) = Inr st1" "btree_get (ds_schemas ds) dep = Some schema"
        "collect_imports ds deps (fst st1, snd st1 @ [\<lparr>rr_name = dep, rr_ty = Protobuf, rr_schema = schema\<rparr>]) = Inr st'"
      using 2(4) by (auto simp: collect_imports.simps(2) result_simps split: option.splits)
    from 2(2) [OF False f(1,2)] obtain below where below: "walked ds (fd_dependency f) (insert dep seen, refs) st1 below" by blast
    from 2(3) [OF False f(1,2) _ f(4)] f(3) obtain later where
      "walked ds deps (fst st1, snd st1 @ [\<lparr>rr_name = dep, rr_ty = Protobuf, rr_schema = schema\<rparr>]) st' later" by auto
    from walked_enter [OF f(1) _ False _ _ below this] show ?thesis using f(3) by auto
  qed
qed

text \<open>A walk fails only on an import that the set lacks.\<close>

lemma collect_imports_missing:
  "collect_imports ds deps st = Inl e \<Longrightarrow> set_ok ds \<Longrightarrow> \<exists>n \<in> (imports_of ds)\<^sup>* `` set deps. btree_get (ds_files ds) n = None"
proof (induction ds deps st rule: collect_imports.induct)
  case (1 ds st)
  then show ?case by (simp add: collect_imports.simps)
next
  case (2 ds dep deps seen refs)
  show ?case
  proof (cases "dep \<in> seen \<or> btree_get (ds_files ds) dep = None")
    case True
    then show ?thesis
    proof (cases "dep \<in> seen")
      case True
      with 2(1) [OF True] 2(4,5) show ?thesis by (auto simp: collect_imports.simps)
    qed auto
  next
    case False
    then obtain f where f: "dep \<notin> seen" "btree_get (ds_files ds) dep = Some f" by auto
    have "(dep, d) \<in> imports_of ds" if "d \<in> set (fd_dependency f)" for d using f(2) that by (auto simp: imports_of_def)
    then have reach: "(imports_of ds)\<^sup>* `` set (fd_dependency f) \<subseteq> (imports_of ds)\<^sup>* `` {dep}"
      by (auto intro: converse_rtrancl_into_rtrancl)
    obtain schema where schema: "btree_get (ds_schemas ds) dep = Some schema" using 2(5) f(2) by (simp add: set_ok_def)
    show ?thesis
    proof (cases "collect_imports ds (fd_dependency f) (insert dep seen, refs)")
      case (Inl e')
      with 2(2) [OF f] 2(4,5) f have "\<exists>n\<in>(imports_of ds)\<^sup>* `` set (fd_dependency f). btree_get (ds_files ds) n = None"
        by (auto simp: collect_imports.simps(2))
      then show ?thesis using reach by auto
    next
      case (Inr st1)
      with 2(3) [OF f Inr _ _ 2(5)] 2(4) f schema have "\<exists>n\<in>(imports_of ds)\<^sup>* `` set deps. btree_get (ds_files ds) n = None"
        by (auto simp: collect_imports.simps(2))
      then show ?thesis by auto
    qed
  qed
qed

lemma import_step: "btree_get (ds_files ds) name = Some f \<Longrightarrow> (imports_of ds)\<^sup>+ `` {name} = (imports_of ds)\<^sup>* `` set (fd_dependency f)"
  by (force simp: imports_of_def dest: tranclD intro: rtrancl_into_trancl2)

text \<open>The references of a file: one for each file it imports, directly or through others, with the file's
  normalized text.\<close>

definition closure_of :: "descriptor_set \<Rightarrow> string \<Rightarrow> resolved_reference list \<Rightarrow> bool" where
  "closure_of ds name refs \<longleftrightarrow> resolved_closure ds name = Inr refs \<and> distinct (map rr_name refs) \<and>
     set (map rr_name refs) = (imports_of ds)\<^sup>+ `` {name} \<and>
     (\<forall>r\<in>set refs. rr_ty r = Protobuf \<and> (\<exists>f. btree_get (ds_files ds) (rr_name r) = Some f \<and> rr_schema r = normalize f))"

lemma closed_reach: "I `` A \<subseteq> A \<Longrightarrow> B \<subseteq> A \<Longrightarrow> I\<^sup>* `` B \<subseteq> A"
proof -
  assume closed: "I `` A \<subseteq> A" "B \<subseteq> A"
  have "y \<in> A" if "(x, y) \<in> I\<^sup>*" "x \<in> A" for x y using that by (induction rule: rtrancl_induct) (use closed in auto)
  then show ?thesis using closed(2) by blast
qed

lemma resolved_closure_exact:
  assumes "set_ok ds" and "btree_get (ds_files ds) name = Some f" and "resolved_closure ds name = Inr refs"
  shows "closure_of ds name refs"
proof -
  obtain seen where c: "collect_imports ds (fd_dependency f) ({}, []) = Inr (seen, refs)"
    using assms(2,3) by (auto simp: resolved_closure_def collect_refs_def rbind_Inr_iff)
  obtain new where "walked ds (fd_dependency f) ({}, []) (seen, refs) new" using collect_imports_walked [OF c] by blast
  then have x: "refs = new" "seen = set (map rr_name new)" "distinct (map rr_name new)" "set (fd_dependency f) \<subseteq> seen"
      "imports_of ds `` set (map rr_name new) \<subseteq> seen" "set (map rr_name new) \<subseteq> (imports_of ds)\<^sup>* `` set (fd_dependency f)"
      "\<forall>r\<in>set new. rr_ty r = Protobuf \<and> btree_get (ds_schemas ds) (rr_name r) = Some (rr_schema r)"
    unfolding walked_def fst_conv snd_conv append_Nil Un_empty_left by blast+
  then have closed: "imports_of ds `` seen \<subseteq> seen" "seen \<subseteq> (imports_of ds)\<^sup>* `` set (fd_dependency f)" by metis+
  have "seen = (imports_of ds)\<^sup>+ `` {name}"
    using closed_reach [OF closed(1) x(4)] closed(2) import_step [OF assms(2)] by simp
  moreover have "\<exists>g. btree_get (ds_files ds) (rr_name r) = Some g \<and> rr_schema r = normalize g" if "r \<in> set refs" for r
    using x(1,7) that assms(1) by (auto simp: set_ok_def)
  ultimately show ?thesis using x(1-3,7) assms(3) by (auto simp: closure_of_def)
qed

lemma resolved_closure_missing:
  assumes "set_ok ds" and "btree_get (ds_files ds) name = Some f" and "resolved_closure ds name = Inl e"
  shows "\<exists>n \<in> (imports_of ds)\<^sup>+ `` {name}. btree_get (ds_files ds) n = None"
  using assms collect_imports_missing [of ds "fd_dependency f" "({}, [])" e] import_step [OF assms(2)]
  by (simp add: resolved_closure_def collect_refs_def rbind_Inl_iff)

lemma check_files_empty:
  "check_files X n old new names = Some [] \<longleftrightarrow> (\<forall>name\<in>set names. check_file X n old new name = Some [])"
  by (induction names) (auto simp: Option.bind_eq_Some_conv)

lemma check_file_empty:
  assumes "set_ok old" "set_ok new" "btree_get (ds_files old) name = Some f"
  shows "check_file X n old new name = Some [] \<longleftrightarrow>
    (\<exists>g orefs nrefs. btree_get (ds_files new) name = Some g \<and> closure_of old name orefs \<and> closure_of new name nrefs \<and>
       protobuf_check X (normalize g) (normalize f) nrefs orefs = Inr ())"
proof (cases "btree_get (ds_files new) name")
  case None
  then show ?thesis using assms(2) by (simp add: check_file_def set_ok_def)
next
  case (Some g)
  have texts: "btree_get (ds_schemas new) name = Some (normalize g)" "btree_get (ds_schemas old) name = Some (normalize f)"
    using assms Some by (simp_all add: set_ok_def)
  have exact: "closure_of old name refs \<longleftrightarrow> resolved_closure old name = Inr refs" "closure_of new name refs \<longleftrightarrow> resolved_closure new name = Inr refs" for refs
    using resolved_closure_exact assms Some closure_of_def by blast+
  show ?thesis
    by (cases "resolved_closure old name"; cases "resolved_closure new name")
      (simp_all add: check_file_def texts Some format_check_def exact split: sum.splits)
qed

text \<open>C24: The checker reports two descriptor sets compatible exactly when every file of the old set is in the new one,
  the sets have every file that this one imports, directly or through others, and the new text can read what the
  old text wrote, where each text is checked against one reference for each such import, with the normalized
  text of its own set.\<close>

theorem compat_check_exact:
  assumes "read_set read_bytes decode_set old_path = Inr old" and "read_set read_bytes decode_set new_path = Inr new"
  shows "compat_main read_bytes decode_set X n old_path new_path = Some ([''compatible''], Inr ()) \<longleftrightarrow>
    (\<forall>name f. btree_get (ds_files old) name = Some f \<longrightarrow>
       (\<exists>g orefs nrefs. btree_get (ds_files new) name = Some g \<and> closure_of old name orefs \<and> closure_of new name nrefs \<and>
          protobuf_check X (normalize g) (normalize f) nrefs orefs = Inr ()))"
proof -
  have ok: "set_ok old" "set_ok new" using assms read_set_ok by blast+
  have "compat_main read_bytes decode_set X n old_path new_path = Some ([''compatible''], Inr ()) \<longleftrightarrow>
      (\<forall>name\<in>set (btree_keys (ds_files old)). check_file X n old new name = Some [])"
    using assms check_files_empty [of X n old new "btree_keys (ds_files old)"]
    by (auto simp: compat_main_def check_backward_def)
  also have "\<dots> \<longleftrightarrow> (\<forall>name f. btree_get (ds_files old) name = Some f \<longrightarrow> check_file X n old new name = Some [])"
    by (auto simp: btree_keys_def dest: map_of_SomeD) (metis fst_conv image_eqI map_of_SomeD weak_map_of_SomeI)+
  finally show ?thesis using check_file_empty [OF ok] by blast
qed

subsection \<open>The property on two concrete sets\<close>

definition plain_file :: "string \<Rightarrow> file_descriptor" where
  "plain_file name = \<lparr>fd_name = Some name, fd_package = None, fd_dependency = [], fd_message = [], fd_enum = [], fd_service = [],
     fd_syntax = None, fd_source_info = None, fd_other = []\<rparr>"

definition plain_set :: "string \<Rightarrow> descriptor_set" where
  "plain_set name = \<lparr>ds_files = [(name, plain_file name)], ds_schemas = [(name, normalize (plain_file name))]\<rparr>"

definition read_plain :: "string \<Rightarrow> string + file_descriptor list" where
  "read_plain path = Inr [plain_file (if path = ''old'' then ''a'' else ''b'')]"

lemma read_plain_set: "read_set read_plain Inr path = Inr (plain_set (if path = ''old'' then ''a'' else ''b''))"
  by (simp add: read_set_def read_plain_def plain_file_def plain_set_def)

theorem compat_check_exact_witness:
  "compat_main read_plain Inr echo_parsers 0 ''old'' ''new'' \<noteq> Some ([''compatible''], Inr ())"
proof -
  have "read_set read_plain Inr ''old'' = Inr (plain_set ''a'')" "read_set read_plain Inr ''new'' = Inr (plain_set ''b'')"
    by (simp_all add: read_plain_set)
  from compat_check_exact [OF this, of echo_parsers 0] show ?thesis by (auto simp: plain_set_def)
qed

end
