(* ===== verification/Leader.thy ===== *)
theory Leader
  imports Reader Authn
begin

text \<open>
  How the reader of the topic finds the broker to read from (\<^verbatim>\<open>kafkastore/reader.rs\<close>): it tries the bootstrap
  addresses in turn, asks each for the topic's metadata, and goes on to the leader of the topic's partition. The
  network is a parameter: the answer to an attempt to connect may depend on how many were made before.
\<close>

subsection \<open>Metadata\<close>

record partition_metadata =
  pm_index :: int
  pm_error_code :: int
  pm_leader_id :: int

record topic_metadata =
  tm_name :: "string option"
  tm_error_code :: int
  tm_topic_id :: uuid
  tm_partitions :: "partition_metadata list"

record broker_metadata =
  bm_node_id :: int
  bm_host :: string
  bm_port :: int

record cluster_metadata =
  cm_topics :: "topic_metadata list"
  cm_brokers :: "broker_metadata list"

record offset_partition =
  op_index :: int
  op_error_code :: int
  op_offset :: int

record ('a, 'c) network =
  nw_addrs :: "string \<Rightarrow> 'a list option"
  nw_leader_addrs :: "string \<Rightarrow> int \<Rightarrow> 'a list option"
  nw_connect :: "nat \<Rightarrow> 'a \<Rightarrow> client_error + 'c"
  nw_metadata :: "'c \<Rightarrow> client_error + cluster_metadata"
  nw_offsets :: "'c \<Rightarrow> int \<Rightarrow> client_error + (string \<times> offset_partition list) list"

definition resolve_leader_addr :: "('a, 'c) network \<Rightarrow> string \<Rightarrow> int \<Rightarrow> client_error + 'a" where
  "resolve_leader_addr N host port =
     (if \<not> (0 \<le> port \<and> port \<le> 65535) then Inl OtherClientError
      else case nw_leader_addrs N host port of
             Some (addr # _) \<Rightarrow> Inr addr
           | _ \<Rightarrow> Inl OtherClientError)"

definition topic_route :: "('a, 'c) network \<Rightarrow> 'c \<Rightarrow> string \<Rightarrow> uuid \<Rightarrow> client_error + uuid \<times> 'a option" where
  "topic_route N conn topic current_topic_id =
     rbind (nw_metadata N conn) (\<lambda>metadata.
     rbind (ok_or (find (\<lambda>entry. tm_name entry = Some topic) (cm_topics metadata)) (Server 3)) (\<lambda>tm.
     if tm_error_code tm \<noteq> 0 then Inl (Server (tm_error_code tm))
     else rbind (ok_or (find (\<lambda>p. pm_index p = 0) (tm_partitions tm)) (Server 3)) (\<lambda>partition.
          if pm_error_code partition \<noteq> 0 then Inl (Server (pm_error_code partition))
          else (let topic_id = (if tm_topic_id tm = 0 then current_topic_id else tm_topic_id tm)
                in case find (\<lambda>b. bm_node_id b = pm_leader_id partition \<and> 0 < bm_port b) (cm_brokers metadata) of
                     None \<Rightarrow> Inr (topic_id, None)
                   | Some leader \<Rightarrow>
                       rbind (resolve_leader_addr N (bm_host leader) (bm_port leader)) (\<lambda>addr. Inr (topic_id, Some addr))))))"

subsection \<open>The connection\<close>

text \<open>The two loops of \<open>connect_topic_leader\<close>; their state is the last error and the number of attempts so far.\<close>

fun try_addrs :: "('a, 'c) network \<Rightarrow> string \<Rightarrow> uuid \<Rightarrow> 'a list \<Rightarrow> client_error \<times> nat \<Rightarrow> client_error \<times> nat + 'c \<times> uuid" where
  "try_addrs N topic cur [] st = Inl st"
| "try_addrs N topic cur (addr # addrs) (last_error, k) = (case nw_connect N k addr of
      Inl e \<Rightarrow> try_addrs N topic cur addrs (e, Suc k)
    | Inr conn \<Rightarrow>
        (case topic_route N conn topic cur of
           Inr (topic_id, None) \<Rightarrow> Inr (conn, topic_id)
         | Inr (topic_id, Some leader_addr) \<Rightarrow>
             (case nw_connect N (Suc k) leader_addr of
                Inr leader \<Rightarrow> Inr (leader, topic_id)
              | Inl e \<Rightarrow> try_addrs N topic cur addrs (e, Suc (Suc k)))
         | Inl e \<Rightarrow> try_addrs N topic cur addrs (e, Suc k)))"

fun try_hosts :: "('a, 'c) network \<Rightarrow> string \<Rightarrow> uuid \<Rightarrow> string list \<Rightarrow> client_error \<times> nat \<Rightarrow> client_error \<times> nat + 'c \<times> uuid" where
  "try_hosts N topic cur [] st = Inl st"
| "try_hosts N topic cur (host # hosts) st = (case nw_addrs N host of
      None \<Rightarrow> try_hosts N topic cur hosts st
    | Some addrs \<Rightarrow>
        (case try_addrs N topic cur addrs st of
           Inr found \<Rightarrow> Inr found
         | Inl st' \<Rightarrow> try_hosts N topic cur hosts st'))"

definition connect_topic_leader :: "('a, 'c) network \<Rightarrow> string \<Rightarrow> string \<Rightarrow> uuid \<Rightarrow> client_error + 'c \<times> uuid" where
  "connect_topic_leader N bootstrap topic cur =
     map_err fst (try_hosts N topic cur (map trim (split_on (CHR '','') bootstrap)) (Disconnected, 0))"

subsection \<open>Offsets\<close>

definition log_offset :: "('a, 'c) network \<Rightarrow> 'c \<Rightarrow> string \<Rightarrow> int \<Rightarrow> client_error + int" where
  "log_offset N conn topic timestamp =
     rbind (nw_offsets N conn timestamp) (\<lambda>topics.
     rbind (ok_or (Option.bind (find (\<lambda>t. fst t = topic) topics) (\<lambda>t. find (\<lambda>p. op_index p = 0) (snd t))) (Server 3)) (\<lambda>partition.
       if op_error_code partition \<noteq> 0 then Inl (Server (op_error_code partition)) else Inr (op_offset partition)))"

definition log_bounds :: "('a, 'c) network \<Rightarrow> 'c \<Rightarrow> string \<Rightarrow> client_error + int \<times> int" where
  "log_bounds N conn topic =
     rbind (log_offset N conn topic (- 2)) (\<lambda>start.
     rbind (log_offset N conn topic (- 1)) (\<lambda>end_offset. Inr (start, end_offset)))"

text \<open>The event the reader's loop gets from an attempt to connect.\<close>

definition connect_event :: "('a, 'c) network \<Rightarrow> string \<Rightarrow> string \<Rightarrow> uuid \<Rightarrow> 'b reader_event" where
  "connect_event N bootstrap topic cur = (case connect_topic_leader N bootstrap topic cur of
      Inl _ \<Rightarrow> ConnectFailed
    | Inr (conn, topic_id) \<Rightarrow> Connected topic_id (result_ok (log_bounds N conn topic)))"

subsection \<open>Where a connection leads\<close>

text \<open>A bootstrap address that leads to the topic: it accepts a connection, knows the topic's partition, and is
  either told no leader or the leader accepts a connection too.\<close>

definition leads_to :: "('a, 'c) network \<Rightarrow> string \<Rightarrow> uuid \<Rightarrow> 'a \<Rightarrow> nat \<Rightarrow> 'c \<times> uuid \<Rightarrow> bool" where
  "leads_to N topic cur addr k found \<longleftrightarrow> (\<exists>boot. nw_connect N k addr = Inr boot \<and>
     (topic_route N boot topic cur = Inr (snd found, None) \<and> fst found = boot \<or>
      (\<exists>leader_addr. topic_route N boot topic cur = Inr (snd found, Some leader_addr) \<and> nw_connect N (Suc k) leader_addr = Inr (fst found))))"

lemma try_addrs_found: "try_addrs N topic cur addrs st = Inr found \<Longrightarrow> \<exists>addr\<in>set addrs. \<exists>k. leads_to N topic cur addr k found"
proof (induction N topic cur addrs st rule: try_addrs.induct)
  case (2 N topic cur addr addrs last_error k)
  then show ?case by (cases found) (fastforce simp: leads_to_def split: sum.splits prod.splits option.splits)
qed simp

lemma try_addrs_failed:
  "try_addrs N topic cur addrs st = Inl st' \<Longrightarrow> addr \<in> set addrs \<Longrightarrow> \<exists>k. \<forall>found. \<not> leads_to N topic cur addr k found"
proof (induction N topic cur addrs st rule: try_addrs.induct)
  case (2 N topic cur a addrs last_error k)
  show ?case
  proof (cases "addr = a")
    case True
    have "\<not> leads_to N topic cur a k found" for found
      using "2.prems"(1) by (cases found) (auto simp: leads_to_def split: sum.splits prod.splits option.splits)
    then show ?thesis using True by blast
  next
    case False
    then have "addr \<in> set addrs" using "2.prems"(2) by simp
    then show ?thesis using "2.prems"(1) "2.IH" by (fastforce split: sum.splits prod.splits option.splits)
  qed
qed simp

lemma try_hosts_found:
  "try_hosts N topic cur hosts st = Inr found \<Longrightarrow>
     \<exists>host\<in>set hosts. \<exists>addrs addr k. nw_addrs N host = Some addrs \<and> addr \<in> set addrs \<and> leads_to N topic cur addr k found"
proof (induction N topic cur hosts st rule: try_hosts.induct)
  case (2 N topic cur host hosts st)
  then show ?case by (auto split: option.splits sum.splits dest!: try_addrs_found)
qed simp

lemma try_hosts_failed:
  "try_hosts N topic cur hosts st = Inl st' \<Longrightarrow> host \<in> set hosts \<Longrightarrow> nw_addrs N host = Some addrs \<Longrightarrow> addr \<in> set addrs \<Longrightarrow>
     \<exists>k. \<forall>found. \<not> leads_to N topic cur addr k found"
proof (induction N topic cur hosts st rule: try_hosts.induct)
  case (2 N topic cur h hosts st)
  show ?case
  proof (cases "host = h")
    case True
    then show ?thesis using "2.prems" try_addrs_failed by (fastforce split: sum.splits)
  next
    case False
    then show ?thesis using "2.prems" "2.IH" by (fastforce split: option.splits sum.splits)
  qed
qed simp

text \<open>C25: The reader connects when it can: a connection it gets was reached from one of the bootstrap addresses and,
  when that broker names a leader, is a connection to the leader, with the topic's id; and when some address
  of some bootstrap host leads to the topic however many attempts were made before, the reader gets a
  connection.\<close>

theorem leader_is_found:
  shows "(connect_topic_leader N bootstrap topic cur = Inr found \<longrightarrow>
      (\<exists>host\<in>set (map trim (split_on (CHR '','') bootstrap)). \<exists>addrs addr k. nw_addrs N host = Some addrs \<and> addr \<in> set addrs \<and>
         leads_to N topic cur addr k found)) \<and>
    ((\<exists>host\<in>set (map trim (split_on (CHR '','') bootstrap)). \<exists>addrs addr. nw_addrs N host = Some addrs \<and> addr \<in> set addrs \<and>
        (\<forall>k. \<exists>c. leads_to N topic cur addr k c)) \<longrightarrow>
      (\<exists>c. connect_topic_leader N bootstrap topic cur = Inr c))"
proof (intro conjI impI)
  assume "connect_topic_leader N bootstrap topic cur = Inr found"
  then show "\<exists>host\<in>set (map trim (split_on (CHR '','') bootstrap)). \<exists>addrs addr k. nw_addrs N host = Some addrs \<and> addr \<in> set addrs \<and>
      leads_to N topic cur addr k found"
    unfolding connect_topic_leader_def map_err_Inr_iff by (rule try_hosts_found)
next
  assume good: "\<exists>host\<in>set (map trim (split_on (CHR '','') bootstrap)). \<exists>addrs addr. nw_addrs N host = Some addrs \<and> addr \<in> set addrs \<and>
    (\<forall>k. \<exists>c. leads_to N topic cur addr k c)"
  have "\<exists>c. try_hosts N topic cur (map trim (split_on (CHR '','') bootstrap)) (Disconnected, 0) = Inr c"
  proof (rule ccontr)
    assume "\<nexists>c. try_hosts N topic cur (map trim (split_on (CHR '','') bootstrap)) (Disconnected, 0) = Inr c"
    then obtain st where "try_hosts N topic cur (map trim (split_on (CHR '','') bootstrap)) (Disconnected, 0) = Inl st"
      by (metis sum.exhaust)
    from try_hosts_failed [OF this] good show False by meson
  qed
  then show "\<exists>c. connect_topic_leader N bootstrap topic cur = Inr c" unfolding connect_topic_leader_def map_err_Inr_iff .
qed

subsection \<open>The property on a concrete cluster\<close>

text \<open>One broker, at the second of two bootstrap hosts, which leads the topic.\<close>

definition one_broker :: "(string, string) network" where
  "one_broker = \<lparr>nw_addrs = (\<lambda>h. if h = ''b'' then Some [''b''] else None), nw_leader_addrs = (\<lambda>h p. Some [h]),
     nw_connect = (\<lambda>k addr. if addr = ''b'' then Inr addr else Inl Connect),
     nw_metadata = (\<lambda>c. Inr \<lparr>cm_topics = [\<lparr>tm_name = Some ''t'', tm_error_code = 0, tm_topic_id = 7,
         tm_partitions = [\<lparr>pm_index = 0, pm_error_code = 0, pm_leader_id = 1\<rparr>]\<rparr>],
       cm_brokers = [\<lparr>bm_node_id = 1, bm_host = ''b'', bm_port = 9092\<rparr>]\<rparr>),
     nw_offsets = (\<lambda>c ts. Inl Timeout)\<rparr>"

lemma one_broker_leads: "leads_to one_broker ''t'' 0 ''b'' k (''b'', 7)"
  by (simp add: leads_to_def one_broker_def topic_route_def resolve_leader_addr_def)

theorem leader_is_found_witness: "\<exists>c. connect_topic_leader one_broker ''a,b'' ''t'' 0 = Inr c"
proof -
  have "''b'' \<in> set (map trim (split_on (CHR '','') ''a,b''))" by code_simp
  moreover have "nw_addrs one_broker ''b'' = Some [''b'']" by (simp add: one_broker_def)
  ultimately show ?thesis using leader_is_found [of one_broker "''a,b''" "''t''" 0] one_broker_leads
    by (metis list.set_intros(1))
qed

end
