(* ===== verification/Cluster.thy ===== *)
theory Cluster
  imports Client
begin

text \<open>
  Nodes of a cluster that answer each other's writes: the node as its listener sees it (the layers of
  \<^verbatim>\<open>rest/mod.rs\<close>, then the router or the proxy), the answer of the primary as \<^verbatim>\<open>rest/forward.rs\<close> passes it
  on, and the command-line tool that sends a descriptor set to a registry (\<^verbatim>\<open>bin/schema-push.rs\<close>).
  Sending a request over HTTP is a parameter that may change the outside world.
\<close>

subsection \<open>Passing on the primary's answer\<close>

text \<open>An answer on the wire: status, content type and body, which may fail to be read.\<close>

record wire_answer =
  wa_status :: nat
  wa_content_type :: "string option"
  wa_body :: "string + string"

text \<open>What a node answers to its caller. The body of a refusal by the authentication layer is the JSON text
  of its code and message.\<close>

record node_response =
  nr_status :: nat
  nr_content_type :: "string option"
  nr_www_authenticate :: "string option"
  nr_body :: string

definition BAD_GATEWAY :: nat where
  "BAD_GATEWAY = 502"

definition status_from_u16 :: "nat \<Rightarrow> nat option" where
  "status_from_u16 n = (if 100 \<le> n \<and> n < 1000 then Some n else None)"

definition relayed :: "(string \<Rightarrow> bool) \<Rightarrow> wire_answer \<Rightarrow> node_response" where
  "relayed header_ok resp =
     \<lparr>nr_status = unwrap_or (status_from_u16 (wa_status resp)) BAD_GATEWAY,
      nr_content_type = Option.bind (wa_content_type resp) (\<lambda>v. if header_ok v then Some v else None),
      nr_www_authenticate = None, nr_body = unwrap_or (result_ok (wa_body resp)) []\<rparr>"

definition rest_answer :: "response \<Rightarrow> node_response" where
  "rest_answer resp = \<lparr>nr_status = nat (rsp_status resp), nr_content_type = Some (rsp_content_type resp),
     nr_www_authenticate = None, nr_body = rsp_body resp\<rparr>"

definition proxy_answer :: "('a, 'b) rest_env \<Rightarrow> (string \<Rightarrow> bool) \<Rightarrow> string + wire_answer \<Rightarrow> node_response" where
  "proxy_answer E header_ok sent = (case sent of
      Inl error \<Rightarrow> rest_answer (error_into_response E ForwardFailed)
    | Inr resp \<Rightarrow> relayed header_ok resp)"

definition auth_answer :: "('a, 'b) rest_env \<Rightarrow> http_response \<Rightarrow> node_response" where
  "auth_answer E resp = (rest_answer (error_response E (rs_status resp) (rs_error_code resp) (rs_message resp)))
     \<lparr>nr_www_authenticate := rs_www_authenticate resp\<rparr>"

subsection \<open>A node\<close>

text \<open>A request on a node: the layers, then the handlers on the node's own store or the proxy, which
  reaches the other nodes through \<open>send\<close>. \<open>None\<close> is a connection that is closed without an answer.\<close>

record ('a, 'b, 'w) node =
  nd_env :: "('a, 'b) rest_env"
  nd_layers :: security_layers
  nd_matcher :: "segment list \<Rightarrow> string \<Rightarrow> string list option"
  nd_decode :: "string \<Rightarrow> string"
  nd_header_ok :: "string \<Rightarrow> bool"
  nd_send :: "string \<Rightarrow> http_request \<Rightarrow> 'w \<Rightarrow> (string + wire_answer) \<times> 'w"

definition node_request :: "('a, 'b, 'w) node \<Rightarrow> int \<Rightarrow> http_request \<Rightarrow> 'b kafka_store \<times> 'w
    \<Rightarrow> node_response option \<times> 'b kafka_store \<times> 'w" where
  "node_request N now q = (\<lambda>(s, w). case fst (admit (nd_decode N) (nd_layers N) now q) of
      Refused resp \<Rightarrow> (Some (auth_answer (nd_env N) resp), s, w)
    | Failed e \<Rightarrow> (Some (rest_answer (error_into_response (nd_env N) e)), s, w)
    | Handled q' \<Rightarrow>
        (let (r, s') = route_request (nd_env N) (nd_matcher N) (nd_decode N) q' s
         in (map_option rest_answer r, s', w))
    | Proxied url q' \<Rightarrow>
        (let (sent, w') = nd_send N url q' w
         in (Some (proxy_answer (nd_env N) (nd_header_ok N) sent), s, w')))"

subsection \<open>Forwarding is transparent\<close>

text \<open>The network between two nodes: the node \<open>N\<close> listens at \<open>origin\<close> and sees the sender's address.\<close>

definition on_wire :: "node_response \<Rightarrow> wire_answer" where
  "on_wire resp = \<lparr>wa_status = nr_status resp, wa_content_type = nr_content_type resp, wa_body = Inr (nr_body resp)\<rparr>"

definition deliver :: "('a, 'b, 'w) node \<Rightarrow> string \<Rightarrow> string \<times> int \<Rightarrow> int \<Rightarrow> string \<Rightarrow> http_request \<Rightarrow> 'b kafka_store \<times> 'w
    \<Rightarrow> (string + wire_answer) \<times> 'b kafka_store \<times> 'w" where
  "deliver N origin peer now url q sw = (case strip_prefix origin url of
      None \<Rightarrow> (Inl ''unknown host'', sw)
    | Some target \<Rightarrow>
        (case node_request N now (q\<lparr>hr_path := fst (split_query target), hr_query := snd (split_query target),
                hr_peer := Some peer\<rparr>) sw of
           (None, sw') \<Rightarrow> (Inl ''connection closed'', sw')
         | (Some resp, sw') \<Rightarrow> (Inr (on_wire resp), sw')))"

lemma split_path_and_query:
  assumes "CHR ''?'' \<notin> set (hr_path q)"
  shows "split_query (path_and_query q) = (hr_path q, hr_query q)"
proof -
  have "takeWhile (\<lambda>c. c \<noteq> CHR ''?'') (hr_path q) = hr_path q" "dropWhile (\<lambda>c. c \<noteq> CHR ''?'') (hr_path q) = []"
    using assms by (auto simp: takeWhile_eq_all_conv)
  then show ?thesis
    using assms by (auto simp: split_query_def path_and_query_def takeWhile_append dropWhile_append)
qed

lemma same_path_and_query: "same_request q q' \<Longrightarrow> path_and_query q' = path_and_query q"
  by (simp add: same_request_def path_and_query_def)

lemma same_route: "same_request q q' \<Longrightarrow> route_request E matcher pdec q' s = route_request E matcher pdec q s"
  unfolding same_request_def route_request_def by (elim conjE) (simp only:)

text \<open>The request that a node sends on.\<close>

lemma proxied_request:
  assumes "fst (admit pdec sec now q) = Proxied url q'"
  obtains q1 origin where "same_request q q1" "q' = forwarded_request (sl_forward sec) q1"
    "ps_primary_url (fs_primary (sl_forward sec)) = Some origin" "url = origin @ path_and_query q"
proof -
  obtain q1 where q1: "forward_layer (sl_forward sec) q1 = Proxied url q'" "fst (auth_layer (sl_auth sec) now q) = Inr q1"
    using assms by (cases rule: admit_cases [of pdec sec now q]) auto
  note same = auth_layer_request(1) [OF q1(2)]
  show ?thesis
    using q1(1) same same_path_and_query [OF same] that [OF same]
    by (auto simp: forward_layer_def proxy_def decide_def Let_def split: forward_decision.splits if_splits option.splits)
qed

text \<open>Every response of a handler has the registry's content type and a proper status.\<close>

definition proper :: "response \<Rightarrow> bool" where
  "proper resp \<longleftrightarrow> 100 \<le> rsp_status resp \<and> rsp_status resp < 1000 \<and> rsp_content_type resp = CONTENT_TYPE"

lemma proper_simps [simp]: "proper (ok_json E v)" "proper (ok_raw t)" "proper (error_into_response E e)"
  using http_status_range(1) [of e]
  by (simp_all add: proper_def ok_json_def ok_raw_def error_into_response_def error_response_def)

lemma answers_proper:
  "(\<And>v resp. f v = Inr resp \<Longrightarrow> proper resp) \<Longrightarrow> fst (answers r f) = Some (Inr resp) \<Longrightarrow> proper resp"
  by (auto simp: answers_def rbind_Inr_iff)

lemma handler_proper: "fst (rest_handle E h caps query body s) = Some (Inr resp) \<Longrightarrow> proper resp"
  by (cases h)
    (auto simp: capture_defs read_handler_defs rbind_Inr_iff rest_register_def rest_delete_version_def rest_delete_subject_def
      rest_put_global_config_def rest_put_subject_config_def rest_delete_subject_config_def rest_put_global_mode_def
      rest_put_subject_mode_def rest_delete_subject_mode_def rest_import_def
      split: list.splits sum.splits prod.splits option.splits import_stop.splits if_splits dest!: answers_proper [rotated])

lemma route_proper:
  assumes "route_request E matcher pdec q s = (Some resp, s')"
  shows "proper resp"
proof (cases "dispatch matcher routes (hr_method q) (hr_path q)")
  case (Inl e)
  then show ?thesis using assms by (auto simp: route_request_def)
next
  case (Inr hc)
  obtain r where "fst (rest_handle E (fst hc) (map pdec (snd hc)) (hr_query q) (hr_body q) s) = Some r"
      "resp = (case r of Inl e \<Rightarrow> error_into_response E e | Inr x \<Rightarrow> x)"
    using assms Inr by (auto simp: route_request_def split: prod.splits)
  then show ?thesis using handler_proper by (cases r) auto
qed

lemma relayed_proper:
  assumes "proper resp" "header_ok CONTENT_TYPE"
  shows "relayed header_ok (on_wire (rest_answer resp)) = rest_answer resp"
  using assms by (simp add: relayed_def on_wire_def rest_answer_def proper_def status_from_u16_def nat_less_iff le_nat_iff)

text \<open>A primary that shares the secret handles the request that was sent on as the caller's.\<close>

lemma primary_handles:
  assumes "trusted_forward (sl_auth (nd_layers N)) q'" "ps_is_primary (fs_primary (sl_forward (nd_layers N)))" "same_request q q'"
    and "route_request (nd_env N) (nd_matcher N) (nd_decode N) q s = (r, s')"
  shows "node_request N now q' (s, w) = (map_option rest_answer r, s', w)"
proof -
  obtain q'' where q'': "fst (admit (nd_decode N) (nd_layers N) now q') = Handled q''" "same_request q' q''"
    using trusted_forward_handled [OF assms(1,2)] by blast
  then have "same_request q q''" using assms(3) by (simp add: same_request_def)
  from same_route [OF this, of "nd_env N" "nd_matcher N" "nd_decode N" s] show ?thesis using q''(1) assms(4) by (simp add: node_request_def)
qed

text \<open>C8: Forwarding is transparent: a write that a secondary admits and sends on to the primary is answered to its
  caller with the status, content type and body that the primary's own handler gives to the caller's request,
  the primary is left in the state of that handler, and the secondary's store is not touched; when the primary
  closes the connection without an answer, the caller gets the error for a failed forward. What is sent on
  carries no credentials of the caller, and no node sends it on again.\<close>

theorem forwarding_is_transparent:
  assumes "fst (admit (nd_decode F) (nd_layers F) now q) = Proxied url q'"
    and "ps_primary_url (fs_primary (sl_forward (nd_layers F))) = Some origin" "nd_send F = deliver P origin peer now'"
    and "ps_is_primary (fs_primary (sl_forward (nd_layers P)))"
    and "fs_secret (sl_forward (nd_layers F)) = Some secret" "as_forward_secret (sl_auth (nd_layers P)) = Some secret"
    and "nd_header_ok F CONTENT_TYPE" "CHR ''?'' \<notin> set (hr_path q)"
    and "route_request (nd_env P) (nd_matcher P) (nd_decode P) q p = (r, p')"
  shows "node_request F now q (s, p, w) =
      (Some (rest_answer (case r of Some resp \<Rightarrow> resp | None \<Rightarrow> error_into_response (nd_env F) ForwardFailed)), s, p', w) \<and>
    hr_authorization q' = None \<and> hr_mtls q' = None \<and>
    (\<forall>decode sec now'' url' q''. fst (admit decode sec now'' q') \<noteq> Proxied url' q'')"
proof -
  obtain q1 where q1: "same_request q q1" "q' = forwarded_request (sl_forward (nd_layers F)) q1" "url = origin @ path_and_query q"
    using proxied_request [OF assms(1)] assms(2) by auto
  let ?q = "q'\<lparr>hr_path := hr_path q, hr_query := hr_query q, hr_peer := Some peer\<rparr>"
  have "trusted_forward (sl_auth (nd_layers P)) ?q" "same_request q ?q"
    using q1(1,2) assms(5,6) by (simp_all add: trusted_forward_def forwarded_request_def same_request_def)
  note answer = primary_handles [OF this(1) assms(4) this(2) assms(9), of now' w]
  have sent: "nd_send F url q' (p, w) = ((case r of None \<Rightarrow> Inl ''connection closed'' | Some resp \<Rightarrow> Inr (on_wire (rest_answer resp))), p', w)"
    using answer q1(3) by (simp add: assms(3) deliver_def strip_own_prefix split_path_and_query [OF assms(8)] split: option.split)
  have answered: "node_request F now q (s, p, w) =
      (Some (rest_answer (case r of Some resp \<Rightarrow> resp | None \<Rightarrow> error_into_response (nd_env F) ForwardFailed)), s, p', w)"
  proof (cases r)
    case None
    then show ?thesis using sent assms(1) by (simp add: node_request_def proxy_answer_def)
  next
    case (Some resp)
    then have "proper resp" using route_proper assms(9) by blast
    from relayed_proper [where header_ok = "nd_header_ok F", OF this assms(7)] show ?thesis
      using Some sent assms(1) by (simp add: node_request_def proxy_answer_def)
  qed
  then show ?thesis using q1(2) forwarded_stays by (simp add: forwarded_request_def)
qed

subsection \<open>The tool that pushes a descriptor set\<close>

text \<open>\<open>main\<close> of the tool: read the file, post it, print the answer or fail with it.\<close>

definition push_url :: "string \<Rightarrow> string" where
  "push_url registry_url = trim_end_slashes registry_url @ ''/schemas/import''"

definition push_main :: "(string \<Rightarrow> string + string) \<Rightarrow> (string \<Rightarrow> string \<Rightarrow> string \<Rightarrow> 'w \<Rightarrow> (string + wire_answer) \<times> 'w)
    \<Rightarrow> (nat \<Rightarrow> string) \<Rightarrow> string \<Rightarrow> string \<Rightarrow> 'w \<Rightarrow> (string + string) \<times> 'w" where
  "push_main read_file post status_text registry_url descriptor_set w =
     (case map_err (\<lambda>e. ''read descriptor set '' @ descriptor_set @ '': '' @ e) (read_file descriptor_set) of
        Inl e \<Rightarrow> (Inl e, w)
      | Inr bytes \<Rightarrow>
          (let (sent, w') = post (push_url registry_url) ''application/octet-stream'' bytes w
           in (rbind sent (\<lambda>resp. rbind (wa_body resp) (\<lambda>body.
                 if \<not> (200 \<le> wa_status resp \<and> wa_status resp \<le> 299)
                 then Inl (''schema import failed ('' @ status_text (wa_status resp) @ ''): '' @ body)
                 else Inr body)), w')))"

text \<open>A post to a node, and what the tool then reports.\<close>

definition import_request :: "string \<times> int \<Rightarrow> string \<Rightarrow> string \<Rightarrow> http_request" where
  "import_request peer content_type bytes = \<lparr>hr_method = POST, hr_path = ''/schemas/import'', hr_query = [],
     hr_content_type = Some content_type, hr_body = bytes, hr_forwarded = False, hr_secret = None, hr_authorization = None,
     hr_mtls = None, hr_peer = Some peer, hr_principal = None, hr_trusted = False\<rparr>"

definition post_to :: "('a, 'b, 'w) node \<Rightarrow> string \<Rightarrow> string \<times> int \<Rightarrow> int \<Rightarrow> string \<Rightarrow> string \<Rightarrow> string \<Rightarrow> 'b kafka_store \<times> 'w
    \<Rightarrow> (string + wire_answer) \<times> 'b kafka_store \<times> 'w" where
  "post_to N origin peer now url content_type bytes = deliver N origin peer now url (import_request peer content_type bytes)"

text \<open>The tool prints the rows of the import when the import of the file succeeded, and fails otherwise; a
  failed import still leaves the registry with the files it registered before the failure.\<close>

lemma push_runs_import:
  assumes "read_file path = Inr bytes" "trim_end_slashes url = origin"
    and "fst (admit (nd_decode N) (nd_layers N) now (import_request peer ''application/octet-stream'' bytes)) = Handled q"
      "same_request (import_request peer ''application/octet-stream'' bytes) q"
    and "dispatch (nd_matcher N) routes POST ''/schemas/import'' = Inr (ImportDescriptorSet, [])"
    and "file_descriptor_set (rv_registry (nd_env N)) (rv_prost_decode (nd_env N)) bytes s = (Some r, s')"
  shows "\<exists>report. push_main read_file (post_to N origin peer now) status_text url path (s, w) = (report, s', w) \<and>
    (\<forall>rows. r = Inr rows \<longrightarrow> report = Inr (serde_to_string (rv_parsers (nd_env N)) rows)) \<and>
    (\<forall>e. r = Inl e \<longrightarrow> (\<exists>message. report = Inl message))"
proof -
  let ?q = "import_request peer ''application/octet-stream'' bytes"
  have split: "split_query ''/schemas/import'' = (''/schemas/import'', [])" by (simp add: split_query_def)
  have same: "?q\<lparr>hr_path := ''/schemas/import'', hr_query := [], hr_peer := Some peer\<rparr> = ?q" by (simp add: import_request_def)
  have handled: "rest_handle (nd_env N) ImportDescriptorSet [] (hr_query ?q) (hr_body ?q) s =
      ((case r of Inl (Panics m) \<Rightarrow> None | Inl (Stops e) \<Rightarrow> Some (Inl e) | Inr rows \<Rightarrow> Some (Inr (ok_json (nd_env N) rows))), s')"
    using assms(6) by (auto simp: capture0_def rest_import_def import_request_def split: sum.splits import_stop.splits)
  have post: "post_to N origin peer now (push_url url) ''application/octet-stream'' bytes (s, w) =
      ((case r of Inl (Panics m) \<Rightarrow> Inl ''connection closed''
         | Inl (Stops e) \<Rightarrow> Inr (on_wire (rest_answer (error_into_response (nd_env N) e)))
         | Inr rows \<Rightarrow> Inr (on_wire (rest_answer (ok_json (nd_env N) rows)))), s', w)"
    using assms(3,5) same_route [OF assms(4), of "nd_env N" "nd_matcher N" "nd_decode N" s] handled assms(2)
    by (simp add: post_to_def deliver_def push_url_def strip_own_prefix split same node_request_def route_request_def)
      (auto simp: import_request_def split: sum.splits import_stop.splits)
  have err: "\<not> (200 \<le> nat (http_status e) \<and> nat (http_status e) \<le> 299)" for e using http_status_range(1) [of e] by linarith
  show ?thesis
    unfolding push_main_def assms(1) using post err
    by (auto simp: on_wire_def rest_answer_def ok_json_def error_into_response_def error_response_def split: sum.splits import_stop.splits)
qed

subsection \<open>Forwarding on a concrete write\<close>

definition write_request :: http_request where
  "write_request = post_request\<lparr>hr_body := ''body''\<rparr>"

definition primary_node :: "(string, json, unit) node" where
  "primary_node = \<lparr>nd_env = demo_env, nd_layers = follower_layers\<lparr>sl_forward := (sl_forward follower_layers)\<lparr>fs_primary :=
       \<lparr>ps_is_primary = True, ps_primary_url = Some ''http://p'', ps_generation_id = Some 1, ps_member_id = Some ''m''\<rparr>\<rparr>\<rparr>,
     nd_matcher = segment_matcher, nd_decode = id, nd_header_ok = (\<lambda>_. True), nd_send = (\<lambda>_ _ w. (Inl ''alone'', w))\<rparr>"

definition follower_node :: "(string, json, json kafka_store \<times> unit) node" where
  "follower_node = \<lparr>nd_env = demo_env, nd_layers = follower_layers, nd_matcher = segment_matcher, nd_decode = id,
     nd_header_ok = (\<lambda>_. True), nd_send = deliver primary_node ''http://p'' (''10.0.0.2'', 5) 8\<rparr>"

lemma write_proxied:
  "\<exists>q. fst (admit id follower_layers 7 write_request) = Proxied ''http://p/subjects/a/versions'' q"
  by (simp add: admit_def follower_layers_def open_auth_def write_request_def post_request_def auth_layer_def authenticated_forward_def
      resolve_def authz_layer_def authz_target_def register_segments subjects_target_def topic_target_def Let_def
      authorize_def anonymous_def forward_layer_def decide_def proxy_def forwarded_request_def path_and_query_def)

theorem forwarding_is_transparent_witness:
  "\<exists>p'. node_request follower_node 7 write_request (idle_store, idle_store, ()) =
    (Some (rest_answer (ok_json demo_env (JObj [(''id'', json_id (SchemaId 1))]))), idle_store, p', ())"
proof -
  obtain s' where s': "ks_register (rv_registry demo_env) int_request idle_store = (Some (Inr first_registered), s')"
    using demo_register by blast
  have flag: "query_flag demo_env ''normalize'' [] = Inr False" by (simp add: query_flag_def demo_env_def)
  have "rest_handle demo_env RegisterHandler [''a''] [] ''body'' idle_store =
      (Some (Inr (ok_json demo_env (JObj [(''id'', json_id (SchemaId 1))]))), s')"
    using s' demo_request flag by (simp add: capture1_def rest_register_def answers_def)
  then have route: "route_request (nd_env primary_node) (nd_matcher primary_node) (nd_decode primary_node) write_request idle_store =
      (Some (ok_json demo_env (JObj [(''id'', json_id (SchemaId 1))])), s')"
    using register_dispatch by (simp add: route_request_def primary_node_def write_request_def post_request_def del: rest_handle.simps)
  obtain q where q: "fst (admit (nd_decode follower_node) (nd_layers follower_node) 7 write_request) =
      Proxied ''http://p/subjects/a/versions'' q"
    using write_proxied by (auto simp: follower_node_def)
  have "node_request follower_node 7 write_request (idle_store, idle_store, ()) =
      (Some (rest_answer (case Some (ok_json demo_env (JObj [(''id'', json_id (SchemaId 1))])) of Some resp \<Rightarrow> resp
        | None \<Rightarrow> error_into_response (nd_env follower_node) ForwardFailed)), idle_store, s', ())"
    by (rule conjunct1 [OF forwarding_is_transparent [OF q, where origin = "''http://p''" and P = primary_node and peer = "(''10.0.0.2'', 5)"
          and now' = 8 and secret = "''s''", OF _ _ _ _ _ _ _ route]])
      (simp_all add: follower_node_def primary_node_def follower_layers_def open_auth_def write_request_def post_request_def)
  then show ?thesis by auto
qed

end
