(* ===== verification/Election_Session.thy ===== *)
theory Election_Session
  imports Election Startup
begin

text \<open>
  The election client on the wire (\<^verbatim>\<open>election/client.rs\<close>, \<^verbatim>\<open>Election::start\<close> of \<^verbatim>\<open>election/mod.rs\<close>):
  how it finds its coordinator, the requests it sends, and the loops around them, as functions on the trace
  of what the client has done. The brokers, the clock and the cancellation are one parameter, whose answers
  may depend on the whole trace; the loops, which end only when they are cancelled, have fuel.
\<close>

subsection \<open>Requests and answers\<close>

datatype 'b group_request =
    Connect string string
  | FindCoordinator string
  | JoinGroup string i32 i32 string 'b
  | SyncGroup string i32 string "(string \<times> 'b) list"
  | Heartbeat string i32 string
  | LeaveGroup string string
  | CloseConnection

datatype 'b election_action = Sends "'b group_request" | Publishes primary_state | BacksOff

type_synonym 'b trace = "'b election_action list"

record coordinator_answer =
  fc_coordinators :: "(string \<times> i32) list"
  fc_host :: string
  fc_port :: i32

record 'b brokers =
  br_connect :: "'b trace \<Rightarrow> string + unit"
  br_find :: "'b trace \<Rightarrow> string + coordinator_answer"
  br_join :: "'b trace \<Rightarrow> string + 'b join_answer"
  br_sync :: "'b trace \<Rightarrow> string + 'b sync_answer"
  br_heartbeat :: "'b trace \<Rightarrow> string + int"
  br_cancelled :: "'b trace \<Rightarrow> bool"

record 't election_policy =
  ep_session_timeout :: 't
  ep_rebalance_timeout :: 't
  ep_heartbeat_interval :: 't
  ep_reconnect_backoff :: 't

definition election_policy_of :: "('t, 's) runtime_config \<Rightarrow> 't election_policy" where
  "election_policy_of runtime = \<lparr>ep_session_timeout = rc_session_timeout runtime, ep_rebalance_timeout = rc_rebalance_timeout runtime,
     ep_heartbeat_interval = rc_heartbeat_interval runtime, ep_reconnect_backoff = rc_reconnect_backoff runtime\<rparr>"

text \<open>The client and the libraries it calls: the JSON codec and the rendering of a timeout in milliseconds.\<close>

record ('b, 't, 's) session_client =
  sc_bootstrap :: string
  sc_client_id :: string
  sc_group_id :: string
  sc_identity :: sr_identity
  sc_runtime :: "('t, 's) runtime_config"
  sc_codec :: "'b codec"
  sc_millis_i32 :: "'t \<Rightarrow> i32"

definition client_of_config :: "'b codec \<Rightarrow> ('t \<Rightarrow> i32) \<Rightarrow> (string \<Rightarrow> i32 option) \<Rightarrow> ('t, 's) registry_config
    \<Rightarrow> ('b, 't, 's) session_client option" where
  "client_of_config C millis parse_port cfg =
     map_option (\<lambda>identity. \<lparr>sc_bootstrap = rg_bootstrap cfg, sc_client_id = rg_client_id cfg @ ''-election'',
         sc_group_id = rg_group_id cfg, sc_identity = identity, sc_runtime = rg_runtime cfg, sc_codec = C, sc_millis_i32 = millis\<rparr>)
       (parse_identity parse_port (rg_advertised_url cfg) (rg_leader_eligibility cfg))"

text \<open>The loop's state: the member id and what has been done so far.\<close>

record 'b session =
  es_member :: string
  es_trace :: "'b trace"

definition acts :: "'b election_action \<Rightarrow> 'b session \<Rightarrow> 'b session" where
  "acts a st = st\<lparr>es_trace := es_trace st @ [a]\<rparr>"

text \<open>A request and its answer, which sees the request.\<close>

definition asks :: "('b trace \<Rightarrow> string + 'v) \<Rightarrow> 'b group_request \<Rightarrow> 'b session \<Rightarrow> (string + 'v) \<times> 'b session" where
  "asks answer request st = (let st' = acts (Sends request) st in (answer (es_trace st'), st'))"

type_synonym ('b, 'v) session_op = "'b session \<Rightarrow> (string + 'v) \<times> 'b session"

definition session_bind :: "('b, 'v) session_op \<Rightarrow> ('v \<Rightarrow> ('b, 'w) session_op) \<Rightarrow> ('b, 'w) session_op" where
  "session_bind f g st = (case f st of (Inl e, st') \<Rightarrow> (Inl e, st') | (Inr v, st') \<Rightarrow> g v st')"

subsection \<open>Finding the coordinator\<close>

definition coordinator_address :: "coordinator_answer \<Rightarrow> (string \<times> i32) option" where
  "coordinator_address fc =
     (case (case fc_coordinators fc of [] \<Rightarrow> None | c # _ \<Rightarrow> if fst c \<noteq> [] then Some c else None) of
        Some c \<Rightarrow> Some c
      | None \<Rightarrow> if fc_host fc \<noteq> [] then Some (fc_host fc, fc_port fc) else None)"

definition connect_coordinator :: "'b brokers \<Rightarrow> ('b, 't, 's) session_client \<Rightarrow> ('b, unit) session_op" where
  "connect_coordinator B E =
     session_bind (asks (br_connect B) (Connect (sc_bootstrap E) (sc_client_id E))) (\<lambda>_ st.
       let (fc, st1) = asks (br_find B) (FindCoordinator (sc_group_id E)) st;
           st2 = acts (Sends CloseConnection) st1
       in case rbind fc (\<lambda>a. ok_or (coordinator_address a) (''no coordinator for group '' @ sc_group_id E)) of
            Inl e \<Rightarrow> (Inl e, st2)
          | Inr (host, port) \<Rightarrow> asks (br_connect B) (Connect (host @ '':'' @ show_int port) (sc_client_id E)) st2)"

subsection \<open>Joining the group\<close>

definition mk_join :: "('b, 't, 's) session_client \<Rightarrow> string \<Rightarrow> 'b group_request" where
  "mk_join E mid =
     (let policy = election_policy_of (sc_runtime E)
      in JoinGroup (sc_group_id E) (sc_millis_i32 E (ep_session_timeout policy)) (sc_millis_i32 E (ep_rebalance_timeout policy)) mid
           (to_vec (sc_codec E) (ser_identity (sc_identity E))))"

definition joined_group :: "'b brokers \<Rightarrow> ('b, 't, 's) session_client \<Rightarrow> ('b, 'b join_answer) session_op" where
  "joined_group B E st =
     session_bind (asks (br_join B) (mk_join E (es_member st))) (\<lambda>jg st1.
       if ja_error jg = 79
       then (let st2 = st1\<lparr>es_member := ja_member jg\<rparr> in asks (br_join B) (mk_join E (es_member st2)) st2)
       else (Inr jg, st1)) st"

definition synced_group :: "'b brokers \<Rightarrow> ('b, 't, 's) session_client \<Rightarrow> 'b join_answer \<Rightarrow> ('b, i32 \<times> 'b) session_op" where
  "synced_group B E jg st =
     (if ja_error jg \<noteq> 0 then (Inl (''JoinGroup error '' @ show_int (ja_error jg)), st)
      else let st1 = st\<lparr>es_member := ja_member jg\<rparr>
           in session_bind (asks (br_sync B) (SyncGroup (sc_group_id E) (ja_generation jg) (es_member st1) (sync_assignments (sc_codec E) jg)))
                (\<lambda>sg st2. if sa_error sg \<noteq> 0 then (Inl (''SyncGroup error '' @ show_int (sa_error sg)), st2)
                           else (Inr (ja_generation jg, sa_assignment sg), st2)) st1)"

definition join_and_sync_wire :: "'b brokers \<Rightarrow> ('b, 't, 's) session_client \<Rightarrow> ('b, i32 \<times> 'b) session_op" where
  "join_and_sync_wire B E = session_bind (joined_group B E) (synced_group B E)"

subsection \<open>The loops\<close>

text \<open>How a loop ends: the client was cancelled, an error ends the session, the group must be joined again,
  or the fuel is used up and the loop still runs.\<close>

datatype loop_end = Left | Broke string | Rejoin | StillRunning

fun heartbeats :: "nat \<Rightarrow> 'b brokers \<Rightarrow> ('b, 't, 's) session_client \<Rightarrow> i32 \<Rightarrow> 'b session \<Rightarrow> loop_end \<times> 'b session" where
  "heartbeats 0 B E generation st = (StillRunning, st)"
| "heartbeats (Suc n) B E generation st =
     (if br_cancelled B (es_trace st) then (Left, acts (Sends (LeaveGroup (sc_group_id E) (es_member st))) st)
      else case asks (br_heartbeat B) (Heartbeat (sc_group_id E) generation (es_member st)) st of
             (Inl e, st1) \<Rightarrow> (Broke e, st1)
           | (Inr code, st1) \<Rightarrow>
               (if code = 0 then heartbeats n B E generation st1
                else if code = 27 \<or> code = 22 then (Rejoin, st1)
                else if code = 25 then (Rejoin, st1\<lparr>es_member := []\<rparr>)
                else if code = 16 \<or> code = 15 \<or> code = 14 then (Broke (''heartbeat coordinator error '' @ show_int code), st1)
                else heartbeats n B E generation st1))"

fun run_session :: "nat \<Rightarrow> 'b brokers \<Rightarrow> ('b, 't, 's) session_client \<Rightarrow> 'b session \<Rightarrow> loop_end \<times> 'b session" where
  "run_session 0 B E st = (StillRunning, st)"
| "run_session (Suc n) B E st = (case join_and_sync_wire B E st of
     (Inl e, st1) \<Rightarrow> (Broke e, st1)
   | (Inr (generation, assignment), st1) \<Rightarrow>
       (case heartbeats n B E generation
               (acts (Publishes (publish (sc_codec E) (sc_identity E) assignment generation (es_member st1))) st1) of
          (Rejoin, st2) \<Rightarrow> run_session n B E st2
        | r \<Rightarrow> r))"

definition connect_and_run :: "nat \<Rightarrow> 'b brokers \<Rightarrow> ('b, 't, 's) session_client \<Rightarrow> 'b session \<Rightarrow> loop_end \<times> 'b session" where
  "connect_and_run n B E st = (case connect_coordinator B E st of
      (Inl e, st1) \<Rightarrow> (Broke e, st1)
    | (Inr _, st1) \<Rightarrow>
        (let (r, st2) = run_session n B E st1
         in (r, if r = StillRunning then st2 else acts (Sends CloseConnection) st2)))"

fun election_run :: "nat \<Rightarrow> 'b brokers \<Rightarrow> ('b, 't, 's) session_client \<Rightarrow> 'b session \<Rightarrow> 'b session" where
  "election_run 0 B E st = st"
| "election_run (Suc n) B E st =
     (if br_cancelled B (es_trace st) then st
      else case connect_and_run n B E st of
             (Broke e, st1) \<Rightarrow>
               (let st2 = acts BacksOff (acts (Publishes no_primary) (st1\<lparr>es_member := []\<rparr>))
                in if br_cancelled B (es_trace st2) then st2 else election_run n B E st2)
           | (_, st1) \<Rightarrow> st1)"

definition election_starts :: "'b session" where
  "election_starts = \<lparr>es_member = [], es_trace = []\<rparr>"

subsection \<open>Joining on the wire is joining\<close>

text \<open>On answered requests the exchange is the function on the coordinator's answers that the membership loop
  is built on.\<close>

lemma join_and_sync_wire_eq:
  assumes "br_join B (es_trace st @ [Sends (mk_join E (es_member st))]) = Inr jg1"
    and "ja_error jg1 = 79 \<Longrightarrow>
      br_join B (es_trace st @ [Sends (mk_join E (es_member st)), Sends (mk_join E (ja_member jg1))]) = Inr jg2"
    and "\<And>t. br_sync B t = Inr sg"
    and "join_and_sync_wire B E st = (r, st')"
  shows "join_and_sync jg1 jg2 sg (es_member st) = (r, es_member st')"
  using assms
  by (auto simp: join_and_sync_wire_def joined_group_def synced_group_def session_bind_def asks_def acts_def join_and_sync_def
      Let_def split: if_splits)

subsection \<open>What the client claims\<close>

text \<open>The membership a trace ends in and the state it has published last.\<close>

record claim =
  cl_synced :: "(i32 \<times> string) option"
  cl_published :: primary_state

fun synced_by :: "'b group_request \<Rightarrow> (i32 \<times> string) option \<Rightarrow> (i32 \<times> string) option" where
  "synced_by (Connect b c) m = None"
| "synced_by (JoinGroup g s r i d) m = None"
| "synced_by (SyncGroup g generation member a) m = Some (generation, member)"
| "synced_by _ m = m"

fun claim_step :: "'b election_action \<Rightarrow> claim \<Rightarrow> claim" where
  "claim_step (Sends q) c = c\<lparr>cl_synced := synced_by q (cl_synced c)\<rparr>"
| "claim_step (Publishes p) c = c\<lparr>cl_published := p\<rparr>"
| "claim_step BacksOff c = c"

definition claimed :: "'b trace \<Rightarrow> claim" where
  "claimed t = fold claim_step t \<lparr>cl_synced = None, cl_published = no_primary\<rparr>"

text \<open>A heartbeat is for the membership that was synced last, the node publishes itself as the primary only
  under that membership, and it connects and backs off only while it publishes no primary.\<close>

fun action_ok :: "claim \<Rightarrow> 'b election_action \<Rightarrow> bool" where
  "action_ok c (Sends (Heartbeat g generation member)) = (cl_synced c = Some (generation, member))"
| "action_ok c (Sends (Connect b i)) = (cl_published c = no_primary)"
| "action_ok c (Sends _) = True"
| "action_ok c (Publishes p) = (ps_is_primary p \<longrightarrow>
     (\<exists>generation member. cl_synced c = Some (generation, member) \<and> ps_generation_id p = Some generation \<and> ps_member_id p = Some member))"
| "action_ok c BacksOff = (cl_published c = no_primary)"

definition trace_ok :: "'b trace \<Rightarrow> bool" where
  "trace_ok t \<longleftrightarrow> (\<forall>i<length t. action_ok (claimed (take i t)) (t ! i))"

lemma claimed_simps [simp]: "claimed [] = \<lparr>cl_synced = None, cl_published = no_primary\<rparr>" "claimed (t @ [a]) = claim_step a (claimed t)"
  by (simp_all add: claimed_def)

lemma trace_ok_simps [simp]: "trace_ok []" "trace_ok (t @ [a]) \<longleftrightarrow> trace_ok t \<and> action_ok (claimed t) a"
  by (auto simp: trace_ok_def nth_append less_Suc_eq)

lemma withdrawn [simp]: "\<not> ps_is_primary no_primary"
  by (simp add: no_primary_def)

lemmas session_defs = session_bind_def asks_def acts_def Let_def

abbreviation at_rest :: "'b session \<Rightarrow> bool" where
  "at_rest st \<equiv> trace_ok (es_trace st) \<and> cl_published (claimed (es_trace st)) = no_primary"

lemma connect_keeps:
  "at_rest st \<Longrightarrow> at_rest (snd (connect_coordinator B E st))"
  by (auto simp: connect_coordinator_def session_defs simp del: append_assoc split: sum.splits prod.splits)

lemma mk_join_action [simp]: "action_ok c (Sends (mk_join E m))" "claim_step (Sends (mk_join E m)) c = c\<lparr>cl_synced := None\<rparr>"
  by (simp_all add: mk_join_def Let_def)

lemma join_keeps:
  assumes "trace_ok (es_trace st)" "join_and_sync_wire B E st = (r, st')"
  shows "trace_ok (es_trace st')"
    and "r = Inr (generation, assignment) \<Longrightarrow> cl_synced (claimed (es_trace st')) = Some (generation, es_member st')"
  using assms
  by (auto simp: join_and_sync_wire_def joined_group_def synced_group_def session_defs simp del: append_assoc
      split: if_splits sum.splits)

lemma heartbeats_keep:
  "heartbeats n B E generation st = (r, st') \<Longrightarrow> trace_ok (es_trace st) \<Longrightarrow>
    cl_synced (claimed (es_trace st)) = Some (generation, es_member st) \<Longrightarrow> trace_ok (es_trace st')"
  by (induction n B E generation st rule: heartbeats.induct) (auto simp: session_defs simp del: append_assoc split: if_splits sum.splits)

lemma publish_claims:
  "cl_synced c = Some (generation, member) \<Longrightarrow> action_ok c (Publishes (publish C identity assignment generation member))"
  by (simp add: publish_def Let_def)

lemma session_keeps: "run_session n B E st = (r, st') \<Longrightarrow> trace_ok (es_trace st) \<Longrightarrow> trace_ok (es_trace st')"
proof (induction n arbitrary: st r st')
  case (Suc n)
  obtain j st1 where j: "join_and_sync_wire B E st = (j, st1)" by (metis surj_pair)
  note ok = join_keeps [OF Suc.prems(2) j]
  show ?case
  proof (cases j)
    case (Inl e)
    then show ?thesis using Suc.prems(1) j ok(1) by simp
  next
    case (Inr v)
    obtain generation assignment where v: "v = (generation, assignment)" by (metis surj_pair)
    let ?st = "acts (Publishes (publish (sc_codec E) (sc_identity E) assignment generation (es_member st1))) st1"
    obtain h st2 where h: "heartbeats n B E generation ?st = (h, st2)" by (metis surj_pair)
    have synced: "cl_synced (claimed (es_trace st1)) = Some (generation, es_member st1)" using ok(2) Inr v by simp
    have "trace_ok (es_trace st2)"
      by (rule heartbeats_keep [OF h]) (use ok(1) publish_claims [OF synced] synced in \<open>simp_all add: acts_def\<close>)
    then show ?thesis using Suc.prems(1) j Inr v h Suc.IH by (auto split: loop_end.splits)
  qed
qed simp

lemma election_run_keeps: "at_rest st \<Longrightarrow> trace_ok (es_trace (election_run n B E st))"
proof (induction n arbitrary: st)
  case (Suc n)
  obtain c st1 where c: "connect_coordinator B E st = (c, st1)" by (metis surj_pair)
  obtain r st2 where r: "run_session n B E st1 = (r, st2)" by (metis surj_pair)
  have st1: "at_rest st1" using connect_keeps [OF Suc.prems, of B E] c by simp
  then have st2: "trace_ok (es_trace st2)" using session_keeps [OF r] by blast
  have "trace_ok (es_trace (snd (connect_and_run n B E st)))"
    using st1 st2 c r by (auto simp: connect_and_run_def acts_def split: sum.splits)
  then show ?case using Suc by (auto simp: acts_def Let_def simp del: append_assoc split: prod.splits loop_end.splits)
qed simp

text \<open>C29: A node stands by what it claims: whatever the brokers answer and whenever they fail, the election
  client sends heartbeats only for the generation and member id it synced last, publishes itself as the primary
  only under these, with them as the fence of its writes, and reconnects or backs off only after it has
  withdrawn the claim.\<close>

theorem election_claims_are_kept:
  "trace_ok (es_trace (election_run n B E election_starts))"
  by (rule election_run_keeps) (simp add: election_starts_def)

end
