(* ===== verification/Spec2Isabelle.thy ===== *)
theory Spec2Isabelle
  imports Store_Resolve Compaction Json_Diff_Props Pb_Diff_Props Reader_Facade Compat_Props Topic_Records
    Serdes Topic_Setup Compat_Check Leader Cluster Election_Session
begin

text \<open>
  A verified model of the Krabka schema registry.

  \<^bold>\<open>The program.\<close> The registry is a REST service that keeps named, versioned schemas (Avro, JSON Schema,
  Protobuf). Its only durable state is a compacted Kafka topic: a node replays the topic into an in-memory
  store, answers reads from this store and turns a write into records on the topic, which it then waits to see
  in its own replay. Nodes elect a primary through a consumer group; the others forward writes to it, and a
  write is fenced by the generation of the election. A second crate holds the clients: a registry client, a
  cache of schemas, and the serializers that frame a message with the id of its schema.

  The sources are \<^verbatim>\<open>src/crates/schema-registry/src\<close> (below: \<^verbatim>\<open>R\<close>) and \<^verbatim>\<open>src/crates/schema-serde/src\<close> (\<^verbatim>\<open>S\<close>).

  \<^bold>\<open>The theories, from the bottom up.\<close>

  \<^item> \<open>Prelude\<close>: results as sums (\<open>rbind\<close> is the \<open>?\<close> operator), options, \<open>i32\<close> arithmetic with its wrap-around,
    decimal text, ordered maps; the locale \<open>ordered_map\<close> states what a \<open>BTreeMap\<close> promises and is interpreted
    by the sorted association lists that model it.
  \<^item> \<open>Ids\<close> (\<^verbatim>\<open>R/ids.rs\<close>, \<^verbatim>\<open>R/config_value.rs\<close>), \<open>Json_Value\<close> and \<open>F64\<close> (the values of \<open>serde_json\<close> and the doubles in
    them), \<open>Sr_Error\<close> (\<^verbatim>\<open>R/error.rs\<close>): the data.
  \<^item> \<open>Schema_Records\<close> (\<^verbatim>\<open>R/kafkastore/record.rs\<close>): keys and values of the topic, their encoders and \<open>decode\<close>.
  \<^item> \<open>Pb_Descriptor\<close> (the text renderer of \<^verbatim>\<open>S/format/protobuf.rs\<close>), \<open>Format\<close> (\<^verbatim>\<open>R/format\<close>): parsing and canonical
    forms. \<open>Samples\<close> holds concrete parsers and a codec for the examples.
  \<^item> \<open>Matching\<close>, \<open>Json_Diff\<close>, \<open>Json_Diff_Props\<close> (\<^verbatim>\<open>R/format/json\<close>), \<open>Pb_Diff\<close>, \<open>Pb_Diff_Props\<close> (\<^verbatim>\<open>R/format/protobuf\<close>):
    the structural comparison of two schemas and its verdicts.
  \<^item> \<open>Store\<close>, \<open>Store_Resolve\<close>, \<open>Store_Invariants\<close>, \<open>Store_Register\<close>, \<open>Store_Replay\<close>, \<open>Store_Queries\<close>, \<open>Store_Dedup\<close>,
    \<open>Store_Types\<close> (\<^verbatim>\<open>R/store/mod.rs\<close>): the record \<open>store_state\<close> and every method of it, the invariant \<open>store_ok\<close>, and
    the range of every number in it.
  \<^item> \<open>Compat\<close>, \<open>Compat_Props\<close> (\<^verbatim>\<open>R/compat\<close> and the \<open>check\<close> functions of the formats): levels, directions, the check of a
    registration and the dry run. \<open>Compat_Check\<close> (\<^verbatim>\<open>R/bin/schema-compat-check.rs\<close>) is the offline checker.
  \<^item> \<open>Reader\<close>, \<open>Reader_Props\<close>, \<open>Leader\<close> (\<^verbatim>\<open>R/kafkastore/reader.rs\<close>): the task that reads the topic as a step function
    over broker events, its barriers and rebuilds (the locale \<open>barrier_service\<close>), and its search for the broker to
    read from. \<open>Replay_Log\<close> and \<open>Compaction\<close> see the store as a fold over the log (the locales \<open>log_replay\<close>,
    \<open>replay_mark\<close> and, in \<open>Store_Types\<close>, \<open>guarded_replay\<close>). \<open>Reader_Facade\<close> shows that this task is what the reader
    in the facade's state stands for.
  \<^item> \<open>Election\<close> (\<^verbatim>\<open>R/election\<close>): identities, assignments, the choice of the primary, the loop of the member as a step
    function on the coordinator's answers. \<open>Election_Session\<close> is the same client on the wire: finding the coordinator,
    every request it sends, and the loops around them, on a trace of what the client does.
  \<^item> \<open>Kafkastore\<close>, \<open>Kafkastore_Props\<close> (\<^verbatim>\<open>R/kafkastore/mod.rs\<close>, \<^verbatim>\<open>R/kafkastore/writer.rs\<close>): the facade. Its state is the
    record \<open>kafka_store\<close> (the topic and its id, the reader with the live store, its offset and the rebuild it may be in,
    the election, the fencing, the brokers' answers to come); every request is a decision on a snapshot of the store,
    framed by the gate, a barrier, the fence, the production of the records and the wait. The reader reads on in
    \<open>read_on\<close> and starts over in \<open>replace_topic\<close> when the topic is replaced by another, which fails the waits. The
    inductive \<open>ks_reachable\<close> holds the states of a started registry. The locales \<open>record_relation\<close>,
    \<open>barrier_relation\<close> and \<open>call_relation\<close>, each extending the one before, say which relations between states all of
    these steps respect; they are interpreted five times.
  \<^item> \<open>Topic_Records\<close>: the topics that registries write, which are those that compaction leaves alone.
  \<^item> \<open>Topic_Setup\<close> (\<^verbatim>\<open>R/kafkastore/topic.rs\<close>): what a node demands of its topic before it starts.
  \<^item> \<open>Authn\<close>, \<open>Access\<close> (\<^verbatim>\<open>R/auth\<close>, \<^verbatim>\<open>R/authz.rs\<close>, \<^verbatim>\<open>R/rest/forward.rs\<close>, \<^verbatim>\<open>R/rest/mod.rs\<close>): who calls, what they may do, what
    is forwarded, and the route table. \<open>Startup\<close> (\<^verbatim>\<open>R/config.rs\<close>, \<^verbatim>\<open>R/cli.rs\<close>, \<^verbatim>\<open>R/bin/schema-registry.rs\<close>,
    \<^verbatim>\<open>R/rest/serve.rs\<close>) builds these layers from the command line.
  \<^item> \<open>Import\<close> (\<^verbatim>\<open>R/rest/import.rs\<close>) and \<open>Rest\<close> (the other files of \<^verbatim>\<open>R/rest\<close>): the handlers, from request to response.
  \<^item> \<open>Wire\<close> (\<^verbatim>\<open>S/wire.rs\<close>, \<^verbatim>\<open>S/subject.rs\<close>): frames and varints, on machine words.
  \<^item> \<open>Client\<close> (\<^verbatim>\<open>S/registry\<close>, \<^verbatim>\<open>S/error.rs\<close>), \<open>Cache\<close> (\<^verbatim>\<open>S/cache.rs\<close>), \<open>Serdes\<close> (\<^verbatim>\<open>S/format\<close>): the client side. The cache is
    an \<open>inductive\<close> step relation; the locale \<open>framing\<close> states what both frame formats promise the serializers.

  \<^item> \<open>Cluster\<close> (\<^verbatim>\<open>R/rest/forward.rs\<close>, \<^verbatim>\<open>R/bin/schema-push.rs\<close>): a node with its layers, handlers and proxy, two nodes that
    forward to each other, and the tool that pushes a descriptor set. This theory holds the property that spans the
    facade, the handlers, the client and the cache.

  \<^bold>\<open>What is shown.\<close> The properties are the theorems with a number, each before its theorem.

  \<^item> The log and the store: replaying satisfies the invariant and refines a specification in which a registry is a
    set of bindings; compaction of a topic that registries write does not change the replayed state; versions are not
    reissued; ids and versions are \<open>i32\<close>; a registration is what its own record replays to, and repeating it changes nothing; the closure of
    references terminates and is complete.
  \<^item> The facade, against arbitrary brokers, other writers, elections and topic replacements: in every reachable state the
    live store is the replay of what was read of the topic, or of the former topic while the new one is being read;
    writes need a leadership that the fence confirms; a version that the synchronised store has a live reference to is not
    deleted; a refused request writes nothing but barriers. Where no one else writes to the topic during the call,
    acknowledged records are kept and the topic is not replaced (\<open>honest\<close>): an answered request is its decision on
    what the topic stands for, and what is registered can be read. On a healthy cluster the answer and the new
    state are exactly the decision's.
  \<^item> The reader: a barrier that was seen means that every earlier record is applied; a rebuild never shows a
    half-built store; the leader is found when one bootstrap address leads to it. The topic: a node starts only on
    a topic that is compacted and has one partition, and the wait for it ends.
  \<^item> The comparisons: matching is maximum; the JSON comparison terminates on documents without recursive references
    in combinators and reports nothing for equal schemas in the fragment stated there; the dry run agrees with
    registration; the offline checker is exact.
  \<^item> Access: authentication is exactly the four ways to prove a principal; handlers are reached, by every method but
    HEAD, only with the access the policy names; a forward happens once and its caller
    cannot tell it from the primary's own answer; a node started from a command line is guarded as the line asks; members
    of a group agree on the primary, and a member claims to be it only under the membership it keeps alive.
  \<^item> The ends: a REST handler runs exactly the request of the facade that its route, path, query and body stand for, and what is registered over REST can be fetched over REST; an import
    registers files after their imports and pins the versions it has itself registered; the client's registration
    through the REST model is the facade's, and a consumer gets what a producer registered; the cache answers only what the registry said and keeps pursuing what
    is pending; back-off is bounded and grows; varints have one encoding; what a Protobuf serializer writes, a
    deserializer reads, and the index in the frame leads to the right message of the registered schema.

  \<^bold>\<open>Parameters.\<close> Code outside the repository is an argument: the parsers (\<open>third_party\<close>: \<open>apache_avro\<close>, \<open>protox\<close>,
  \<open>prost_reflect\<close>, \<open>serde_json\<close>'s text, regular expressions), the byte encoding of JSON (\<open>codec\<close>), the answers of
  brokers, admin client and network, HTTP transport, clocks, the ACL evaluator, base64, bcrypt and token validators,
  the units crate, body libraries. What a property needs of them is a hypothesis of it, such as
  \<open>codec_roundtrip\<close> (what is encoded can be decoded), \<open>matcher_ok\<close> (path matching fills the captures in order) or
  \<open>percent_monotone\<close>; \<open>Samples\<close> and the last section of each theory give instances that satisfy them.

  \<^bold>\<open>Bounds and fuel.\<close> All functions are total except where a definition says so. The comparison of JSON Schemas
  carries a recursion depth (\<open>re_depth\<close> in the facade) and yields \<open>None\<close> when it is used up, as the program overflows
  its stack: a recursive reference under a combinator makes the source recurse without end, and
  \<open>json_comparison_terminates\<close> gives a depth that is enough for every other pair. The client's resolution of
  references has the source's limit of 64 levels, a varint the source's limit of ten bytes. The graph walks
  (references, imports, descriptor sets) terminate because their visited sets grow inside a finite universe. Loops
  that wait run over the list of answers they get and yield \<open>None\<close> when the list ends before they do. The
  election client runs until it is cancelled, so its loops have fuel, and what is shown of its trace holds for
  every amount of it. Integers are words in \<open>Wire\<close>, \<open>Reader\<close> and \<open>Client\<close>; elsewhere \<open>i32\<close> values are integers with the wrap-around of an
  addition written out, and \<open>Store_Types\<close> shows that they stay in range.

  \<^bold>\<open>Simplifications.\<close> The several reads of the store that one decision makes under the write lock are one snapshot.
  Strings are lists of characters, so a text is compared as its bytes. A \<open>HashMap\<close> whose iteration order is not
  determined is a map, or a list in some order where an iteration is modelled. Log lines, metrics and spans are
  left out; audit events are not. The facade's topic keeps its records, so the reset of the reader to a moved log
  start is in \<open>Reader\<close> only; and a topic is replaced between requests or while a call waits for the reader, not
  between the other steps of a call.

  \<^bold>\<open>Not modelled.\<close> The reading of flags and of the environment (clap), telemetry, signals, sockets, TLS handshakes, the
  HTTP server and its path matching, the sleep of tasks, the construction of Kafka producers and clients:
  these are calls of libraries with no logic of their own. Tests, packaging and charts are no part of the program.
\<close>

section \<open>A schema on its way from the producer to the consumers\<close>

text \<open>The store of a node whose reader keeps it in step with the topic has only numbers that are \<open>i32\<close>, so what it
  serves can be read back.\<close>

lemma tracked_fits:
  assumes "re_defaults R = with_defaults compatibility mode" "tracked R s"
  shows "store_fits (ks_store s)"
  using assms(2) replay_of_fits [OF assms(1)] by (auto simp: tracked_def split: option.splits)

text \<open>A fetch whose registry call has succeeded leaves the schema in the cache.\<close>

lemma fetched_is_read:
  assumes "client_schema_by_id C i e = (Inr f, e')" "reference_sources_ordered C (fs_references f) e' = (Inr (sources, order), e'')"
  shows "\<exists>g'. finish_fetch U pol i (fst (resolve_writer_schema C i e)) now g = Some g' \<and>
    fst (writer_schema_with_references i now' g') =
      Inr \<lparr>ws_schema = fs_schema f, ws_references = sources, ws_reference_order = order\<rparr>"
  using assms
  by (simp add: resolve_writer_schema_def client_bind_def client_map_def finish_fetch_def settle_def Let_def
      writer_schema_with_references_def)

text \<open>What a consumer gets for an id from a node in a given state: its client the text, type, message type and
  references of a version, and, once the references are resolved, the read after the fetch in its cache that schema.\<close>

definition consumer_gets :: "'t time_units \<Rightarrow> 't retry_policy \<Rightarrow> 'b kafka_store registry_client \<Rightarrow> 32 word \<Rightarrow> versioned_schema
    \<Rightarrow> 'b kafka_store \<Rightarrow> bool" where
  "consumer_gets U pol C i found s \<longleftrightarrow>
     client_schema_by_id C i s = (Inr \<lparr>fs_schema = vs_schema found, fs_kind = from_wire_name (wire_name (vs_ty found)),
       fs_message_type = vs_message_type found, fs_references = vs_references found\<rparr>, s) \<and>
     (\<forall>sources order e. reference_sources_ordered C (vs_references found) s = (Inr (sources, order), e) \<longrightarrow>
       (\<forall>g now now'. \<exists>g'. finish_fetch U pol i (fst (resolve_writer_schema C i s)) now g = Some g' \<and>
         fst (writer_schema_with_references i now' g') =
           Inr \<lparr>ws_schema = vs_schema found, ws_references = sources, ws_reference_order = order\<rparr>))"

lemma served_version_reaches_consumer:
  assumes "text_roundtrip (rv_parsers E)" "rv_query E [] = Inr []" "re_defaults (rv_registry E) = with_defaults compatibility mode"
    and "0 \<le> n" "i32_range n" "pdec (show_int n) = show_int n"
    and "dispatch matcher routes GET (''/schemas/ids/'' @ show_int n) = Inr (SchemaById, [show_int n])"
    and "tracked (rv_registry E) s" "version (ks_store s) subject (Some v) False = Some found" "vs_id found = SchemaId n"
  shows "consumer_gets U pol (registry_at E matcher pdec origin) (word_of_int n) found s"
proof -
  let ?C = "registry_at E matcher pdec origin"
  have "list_all reference_ok (vs_references found)"
    using version_found_fits(3) [OF tracked_fits [OF assms(3,8)] assms(9)] .
  moreover have "CHR ''?'' \<notin> set (show_int n)"
    using show_nat_digits [of "nat n"] assms(4) by (auto simp: show_int_def list_all_iff is_digit_def)
  ultimately have fetch: "client_schema_by_id ?C (word_of_int n) s = (Inr \<lparr>fs_schema = vs_schema found,
      fs_kind = from_wire_name (wire_name (vs_ty found)), fs_message_type = vs_message_type found,
      fs_references = vs_references found\<rparr>, s)"
    using version_found_visible(3) [OF assms(9)] assms by (intro client_fetch_eq) simp_all
  then show ?thesis
    using fetched_is_read [OF fetch, of _ _ _ U pol] unfolding consumer_gets_def by simp
qed


text \<open>A producer registers \<open>int\<close> at an idle registry and a consumer fetches it.\<close>

lemma fetch_dispatch: "dispatch segment_matcher routes GET (''/schemas/ids/'' @ show_int 1) = Inr (SchemaById, [show_int 1])"
proof -
  have one: "show_int 1 = ''1''" by code_simp
  have "segments ''/schemas/ids/1'' = [''schemas'', ''ids'', ''1'']" by (simp add: segments_def)
  then show ?thesis by (simp add: one routes_def segment_matcher_def)
qed


end
